(* ===== verification/Psina_Prelude.thy ===== *)
theory Psina_Prelude
  imports Main "HOL-Library.AList"
begin

text \<open>
  Shared vocabulary of the psina development: Go's \<^verbatim>\<open>time.Time\<close> and
  \<^verbatim>\<open>time.Duration\<close>, Go maps, and the automation the component theories use.

  \<^item> A \<open>time\<close> is the number of nanoseconds since Go's zero time (1 January of year 1,
    UTC), so \<^verbatim>\<open>t.IsZero()\<close> is \<open>t = 0\<close>, \<^verbatim>\<open>t.After(u)\<close> is \<open>u < t\<close>
    and \<^verbatim>\<open>t.Before(u)\<close> is \<open>t < u\<close>. Go's monotonic clock reading is not
    represented: two readings compare by their wall time.
  \<^item> A \<open>duration\<close> is a number of nanoseconds. \<^verbatim>\<open>Time.Sub\<close> saturates at the
    bounds of \<^verbatim>\<open>int64\<close>; \<^verbatim>\<open>time.Unix\<close> wraps at 64 bits, as in Go.
  \<^item> A Go map is an association list with distinct keys (\<open>wf_map\<close>). Go leaves the
    iteration order of a map open; the model iterates in list order.
  \<^item> A Go string (a byte sequence) is a \<open>string\<close>, one \<open>char\<close> per byte.
\<close>

section \<open>Proof collections\<close>

named_theorems backend_def \<open>definitions of the store operations\<close>
named_theorems service_def \<open>definitions of the service operations\<close>
named_theorems ambient_def \<open>clock, entropy and store-call plumbing\<close>

section \<open>Time\<close>

type_synonym time = int
type_synonym duration = int

abbreviation second :: duration where "second \<equiv> 1000000000"
abbreviation minute :: duration where "minute \<equiv> 60 * second"
abbreviation hour :: duration where "hour \<equiv> 60 * minute"

definition time_IsZero :: "time \<Rightarrow> bool" where
  "time_IsZero t \<longleftrightarrow> t = 0"

definition maxDuration :: duration where "maxDuration = 2 ^ 63 - 1"
definition minDuration :: duration where "minDuration = - (2 ^ 63)"

definition time_Sub :: "time \<Rightarrow> time \<Rightarrow> duration" where
  "time_Sub t u = max minDuration (min maxDuration (t - u))"

text \<open>Seconds between Go's zero time and the Unix epoch.\<close>

definition unixToInternal :: int where "unixToInternal = 62135596800"

definition wrap64 :: "int \<Rightarrow> int" where
  "wrap64 x = (x + 2 ^ 63) mod 2 ^ 64 - 2 ^ 63"

definition time_Unix :: "int \<Rightarrow> time" where
  "time_Unix sec = wrap64 (sec + unixToInternal) * second"

definition Unix_of :: "time \<Rightarrow> int" where
  "Unix_of t = wrap64 (t div second - unixToInternal)"

lemma wrap64_id: "- (2 ^ 63) \<le> x \<Longrightarrow> x < 2 ^ 63 \<Longrightarrow> wrap64 x = x"
  by (simp add: wrap64_def)

lemma wrap64_range: "- (2 ^ 63) \<le> wrap64 x \<and> wrap64 x < 2 ^ 63"
  by (simp add: wrap64_def)

lemma time_Sub_small: "\<bar>t - u\<bar> < 2 ^ 63 \<Longrightarrow> time_Sub t u = t - u"
  by (auto simp: time_Sub_def maxDuration_def minDuration_def)

text \<open>A comparison against a representable bound is not disturbed by the saturation.\<close>

lemma time_Sub_gt_iff: "0 \<le> d \<Longrightarrow> d < maxDuration \<Longrightarrow> d < time_Sub t u \<longleftrightarrow> d < t - u"
  by (auto simp: time_Sub_def maxDuration_def minDuration_def)

lemma time_Sub_less_iff: "minDuration < d \<Longrightarrow> d \<le> 0 \<Longrightarrow> time_Sub t u < d \<longleftrightarrow> t - u < d"
  by (auto simp: time_Sub_def maxDuration_def minDuration_def)

lemma Unix_of_time_Unix:
  assumes "- (2 ^ 62) \<le> sec" "sec < 2 ^ 62"
  shows "Unix_of (time_Unix sec) = sec"
proof -
  have "wrap64 (sec + unixToInternal) = sec + unixToInternal"
    using assms by (intro wrap64_id) (auto simp: unixToInternal_def)
  then show ?thesis
    using assms by (simp add: Unix_of_def time_Unix_def wrap64_id)
qed

lemma time_Unix_Unix_of:
  assumes "0 \<le> t" "t < 2 ^ 62 * second"
  shows "time_Unix (Unix_of t) = t div second * second"
proof -
  have "0 \<le> t div second" "t div second < 2 ^ 62" using assms by linarith+
  then show ?thesis by (simp add: Unix_of_def time_Unix_def wrap64_id unixToInternal_def)
qed

section \<open>Go maps\<close>

type_synonym ('k, 'v) gomap = "('k \<times> 'v) list"

abbreviation wf_map :: "('k, 'v) gomap \<Rightarrow> bool" where
  "wf_map m \<equiv> distinct (map fst m)"

text \<open>\<^verbatim>\<open>m[k] = v\<close>, \<^verbatim>\<open>delete(m, k)\<close>, \<^verbatim>\<open>maps.DeleteFunc(m, p)\<close>
  and an in-place update of every value of a map of pointers.\<close>

abbreviation map_set :: "'k \<Rightarrow> 'v \<Rightarrow> ('k, 'v) gomap \<Rightarrow> ('k, 'v) gomap" where
  "map_set \<equiv> AList.update"

abbreviation map_del :: "'k \<Rightarrow> ('k, 'v) gomap \<Rightarrow> ('k, 'v) gomap" where
  "map_del \<equiv> AList.delete"

definition maps_DeleteFunc :: "('v \<Rightarrow> bool) \<Rightarrow> ('k, 'v) gomap \<Rightarrow> ('k, 'v) gomap" where
  "maps_DeleteFunc p m = filter (\<lambda>kv. \<not> p (snd kv)) m"

definition map_each :: "('v \<Rightarrow> 'v) \<Rightarrow> ('k, 'v) gomap \<Rightarrow> ('k, 'v) gomap" where
  "map_each f m = map (\<lambda>kv. (fst kv, f (snd kv))) m"

definition map_values :: "('k, 'v) gomap \<Rightarrow> 'v list" where
  "map_values m = map snd m"

text \<open>Lookups stay lookups: the simplifier must not turn them into list membership.\<close>

declare map_of_eq_Some_iff [simp del]
declare Some_eq_map_of_iff [simp del]

lemma map_of_set [simp]: "map_of (map_set k v m) = (map_of m)(k \<mapsto> v)"
  by (rule update_conv')

lemma map_of_del [simp]: "map_of (map_del k m) = (map_of m)(k := None)"
  by (rule delete_conv')

lemma map_of_each [simp]: "map_of (map_each f m) k = map_option f (map_of m k)"
  by (induction m) (auto simp: map_each_def)

lemma map_of_DeleteFunc:
  "wf_map m \<Longrightarrow> map_of (maps_DeleteFunc p m) k =
     (case map_of m k of None \<Rightarrow> None | Some v \<Rightarrow> if p v then None else Some v)"
  by (induction m) (auto simp: maps_DeleteFunc_def map_of_eq_None_iff split: option.splits)

lemma map_set_new: "map_of m k = None \<Longrightarrow> map_set k v m = m @ [(k, v)]"
  by (induction m) (auto split: if_splits)

lemma wf_map_set [simp]: "wf_map m \<Longrightarrow> wf_map (map_set k v m)"
  by (rule distinct_update)

lemma wf_map_del [simp]: "wf_map m \<Longrightarrow> wf_map (map_del k m)"
  by (rule distinct_delete)

lemma wf_map_each [simp]: "wf_map (map_each f m) \<longleftrightarrow> wf_map m"
  by (simp add: map_each_def comp_def)

lemma wf_map_DeleteFunc [simp]: "wf_map m \<Longrightarrow> wf_map (maps_DeleteFunc p m)"
  by (induction m) (auto simp: maps_DeleteFunc_def)

lemma set_map_values: "wf_map m \<Longrightarrow> v \<in> set (map_values m) \<longleftrightarrow> (\<exists>k. map_of m k = Some v)"
  by (force simp: map_values_def map_of_eq_Some_iff)

lemma map_of_values: "map_of m k = Some v \<Longrightarrow> v \<in> set (map_values m)"
  by (force simp: map_values_def dest: map_of_SomeD)

lemma filter_update_fresh:
  "map_of m k = None \<Longrightarrow> filter p (map_set k v m) = filter p m @ (if p (k, v) then [(k, v)] else [])"
  by (induction m) auto

text \<open>A predicate on every entry of a map, in an executable form and over lookups.\<close>

definition map_all :: "('k \<Rightarrow> 'v \<Rightarrow> bool) \<Rightarrow> ('k, 'v) gomap \<Rightarrow> bool" where
  "map_all P m \<longleftrightarrow> list_all (\<lambda>kv. P (fst kv) (snd kv)) m"

lemma map_all_iff: "wf_map m \<Longrightarrow> map_all P m \<longleftrightarrow> (\<forall>k v. map_of m k = Some v \<longrightarrow> P k v)"
  by (force simp: map_all_def list_all_iff map_of_eq_Some_iff)

lemma map_allD: "map_all P m \<Longrightarrow> map_of m k = Some v \<Longrightarrow> P k v"
  by (force simp: map_all_def list_all_iff dest: map_of_SomeD)

lemma map_all_mono: "map_all P m \<Longrightarrow> (\<And>k v. P k v \<Longrightarrow> Q k v) \<Longrightarrow> map_all Q m"
  by (auto simp: map_all_def list_all_iff)

lemma map_all_set [simp]: "wf_map m \<Longrightarrow> map_all P m \<Longrightarrow> P k v \<Longrightarrow> map_all P (map_set k v m)"
  by (simp add: map_all_iff)

lemma map_all_del [simp]: "map_all P m \<Longrightarrow> map_all P (map_del k m)"
  by (auto simp: map_all_def list_all_iff AList.delete_eq)

lemma map_all_del_other:
  "map_all P m \<Longrightarrow> (\<And>k v. P k v \<Longrightarrow> k \<noteq> k0 \<Longrightarrow> Q k v) \<Longrightarrow> map_all Q (map_del k0 m)"
  by (auto simp: map_all_def list_all_iff AList.delete_eq)

lemma map_all_DeleteFunc:
  "map_all P m \<Longrightarrow> (\<And>k v. P k v \<Longrightarrow> \<not> p v \<Longrightarrow> Q k v) \<Longrightarrow> map_all Q (maps_DeleteFunc p m)"
  by (auto simp: map_all_def maps_DeleteFunc_def list_all_iff)

lemma map_all_each: "map_all P (map_each f m) \<longleftrightarrow> map_all (\<lambda>k v. P k (f v)) m"
  by (auto simp: map_all_def map_each_def list_all_iff)

section \<open>Results\<close>

text \<open>A Go \<^verbatim>\<open>(T, error)\<close> result is \<open>Inl err\<close> or \<open>Inr value\<close>.\<close>

lemma isl_cases: "(\<And>e. r = Inl e \<Longrightarrow> P) \<Longrightarrow> (\<And>x. r = Inr x \<Longrightarrow> P) \<Longrightarrow> P"
  by (cases r) auto

end
