(* ===== verification/Entity.thy ===== *)
theory Entity
  imports Psina_Prelude
begin

text \<open>
  The domain types of \<^verbatim>\<open>entity/\<close> and the errors of the program.

  A Go error is a value of the datatype \<open>error\<close>: a package-level sentinel
  (\<^verbatim>\<open>errors.New\<close>), a \<^verbatim>\<open>fmt.Errorf\<close> with the errors its \<^verbatim>\<open>%w\<close> verbs
  wrap, one of psina's own error structs, or an error of third-party code. \<open>errors_Is\<close>
  and \<open>errors_As\<close> walk the chain as the standard library does, with the \<^verbatim>\<open>Is\<close> methods
  psina gives its structs. The non-error operands of a format are dropped: no code
  compares error texts.
\<close>

section \<open>Users, identities and requests\<close>

definition ProviderTypeLocal :: string where "ProviderTypeLocal = ''local''"
definition ProviderTypeGoogle :: string where "ProviderTypeGoogle = ''google''"
definition ProviderTypeGitHub :: string where "ProviderTypeGitHub = ''github''"
definition ProviderTypeWallet :: string where "ProviderTypeWallet = ''wallet''"

record User =
  User_ID :: string
  User_Email :: string
  User_Roles :: "string list"
  User_CreatedAt :: time
  User_UpdatedAt :: time

record Identity =
  Identity_UserID :: string
  Identity_Email :: string
  Identity_Provider :: string
  Identity_Metadata :: "(string, string) gomap"

record OAuthIdentity =
  OI_ID :: string
  OI_UserID :: string
  OI_Provider :: string
  OI_ExternalID :: string
  OI_Email :: string
  OI_CreatedAt :: time

record WalletIdentity =
  WI_ID :: string
  WI_UserID :: string
  WI_Chain :: string
  WI_Address :: string
  WI_CreatedAt :: time

record Challenge =
  Ch_Nonce :: string
  Ch_Message :: string
  Ch_Chain :: string
  Ch_Address :: string
  Ch_CodeVerifier :: string
  Ch_OAuthNonce :: string
  Ch_BindingHash :: string
  Ch_ExpiresAt :: time
  Ch_CreatedAt :: time

record AuthRequest =
  AuthReq_Email :: string
  AuthReq_Password :: string

record RegisterRequest =
  RegReq_Email :: string
  RegReq_Password :: string

section \<open>Tokens\<close>

record TokenPair =
  AccessToken :: string
  RefreshTokenText :: string
  ExpiresIn :: int

record Claims =
  Claims_UserID :: string
  Claims_Email :: string
  Claims_Roles :: "string list"
  Claims_Issuer :: string
  Claims_Exp :: int
  Claims_Iat :: int

record RefreshToken =
  RT_Hash :: string
  RT_UserID :: string
  RT_Parent :: string
  RT_ExpiresAt :: time
  RT_CreatedAt :: time
  RT_Revoked :: bool
  RT_RotatedAt :: "time option"
  RT_EndedAt :: "time option"

record RefreshFamily =
  SessionEnded :: bool
  LastRotatedAt :: "time option"

record PersonalAccessToken =
  PAT_ID :: string
  PAT_Hash :: string
  PAT_UserID :: string
  PAT_Name :: string
  PAT_Scopes :: "string list"
  PAT_ExpiresAt :: "time option"
  PAT_LastUsedAt :: "time option"
  PAT_CreatedAt :: time

text \<open>\<^verbatim>\<open>familyRoot\<close> of \<^verbatim>\<open>auth/service.go\<close>: the hash every token of the
  family uses as parent.\<close>

definition familyRoot :: "RefreshToken \<Rightarrow> string" where
  "familyRoot rt = (if RT_Parent rt = '''' then RT_Hash rt else RT_Parent rt)"

section \<open>Errors\<close>

text \<open>The sentinels: those of \<^verbatim>\<open>store/errors.go\<close>, of package \<^verbatim>\<open>auth\<close> (service,
  validation, OAuth, wallet), of \<^verbatim>\<open>provider/oauth\<close>, \<^verbatim>\<open>provider/wallet\<close> and
  \<^verbatim>\<open>provider/wallet/evm\<close>.\<close>

datatype sentinel =
    Store_ErrUserNotFound | Store_ErrUserExists | Store_ErrTokenNotFound
  | Store_ErrTokenRevoked | Store_ErrTokenExpired | Store_ErrPATExists
  | Store_ErrPATLimitReached | Store_ErrCredentialNotFound
  | Store_ErrOAuthIdentityNotFound | Store_ErrOAuthIdentityExists
  | Store_ErrWalletIdentityNotFound | Store_ErrWalletIdentityExists
  | Store_ErrChallengeNotFound | Store_ErrChallengeExpired
  | ErrUserNotFound | ErrInvalidCredentials | ErrUserExists | ErrTokenRevoked
  | ErrTokenExpired | ErrTokenReuse | ErrPATNotFound | ErrPATDisabled
  | ErrPATLimitReached | ErrPATNameRequired | ErrPATNameTooLong | ErrPATExpiryInvalid
  | ErrProviderNotConfigured
  | ErrPasswordTooShort | ErrPasswordTooLong | ErrInvalidEmail
  | ErrOAuthDisabled | ErrOAuthProviderUnknown | ErrOAuthStateInvalid
  | ErrOAuthExchangeFailed | ErrOAuthEmailRequired | ErrOAuthEmailUnverified
  | ErrOAuthLinkDisabled | ErrOAuthAccountHasPassword
  | ErrWalletDisabled | ErrWalletChainUnsupported | ErrWalletAddressInvalid
  | ErrWalletChallengeInvalid
  | OAuth_ErrRedirectURINotAllowed | OAuth_ErrMissingAuthParams | OAuth_ErrInvalidToken
  | Wallet_ErrUnsupportedChain | EVM_ErrInvalidAddress | EVM_ErrInvalidSignature

text \<open>\<^verbatim>\<open>auth.accountChange\<close>: the account a sign-in acted on and what it did to it.\<close>

record accountChange =
  change_userID :: string
  change_created :: bool
  change_linked :: bool

text \<open>
  \<open>Foreign\<close> is an error of third-party or driver code (it matches no sentinel);
  \<open>Panic\<close> is a run-time panic of the handling goroutine.
\<close>

datatype error =
    Sentinel sentinel
  | Errorf string "error list"
  | TokenReuseError string
  | CredentialsError string string
  | AccountError accountChange error
  | Foreign string
  | Panic string

text \<open>\<^verbatim>\<open>errors.Is\<close>; the struct cases are the \<^verbatim>\<open>Is\<close> methods of
  \<^verbatim>\<open>TokenReuseError\<close> and \<^verbatim>\<open>CredentialsError\<close> and the \<^verbatim>\<open>Unwrap\<close> of
  \<^verbatim>\<open>accountError\<close>.\<close>

fun errors_Is :: "error \<Rightarrow> sentinel \<Rightarrow> bool" where
  "errors_Is (Sentinel s) t = (s = t)"
| "errors_Is (Errorf f es) t = list_ex (\<lambda>e. errors_Is e t) es"
| "errors_Is (TokenReuseError u) t = (t = ErrTokenReuse \<or> t = ErrInvalidCredentials)"
| "errors_Is (CredentialsError r u) t = (t = ErrInvalidCredentials)"
| "errors_Is (AccountError c e) t = errors_Is e t"
| "errors_Is (Foreign m) t = False"
| "errors_Is (Panic m) t = False"

text \<open>\<^verbatim>\<open>errors.As\<close>: the first error of the chain, in depth-first order, that the
  matcher \<open>m\<close> (the target type) accepts.\<close>

fun errors_As :: "(error \<Rightarrow> 'a option) \<Rightarrow> error \<Rightarrow> 'a option"
  and errors_As_list :: "(error \<Rightarrow> 'a option) \<Rightarrow> error list \<Rightarrow> 'a option" where
  "errors_As m e =
     (case m e of
        Some x \<Rightarrow> Some x
      | None \<Rightarrow>
          (case e of
             Errorf f es \<Rightarrow> errors_As_list m es
           | AccountError c e' \<Rightarrow> errors_As m e'
           | _ \<Rightarrow> None))"
| "errors_As_list m [] = None"
| "errors_As_list m (e # es) =
     (case errors_As m e of Some x \<Rightarrow> Some x | None \<Rightarrow> errors_As_list m es)"

fun as_TokenReuseError :: "error \<Rightarrow> string option" where
  "as_TokenReuseError (TokenReuseError u) = Some u"
| "as_TokenReuseError _ = None"

fun as_CredentialsError :: "error \<Rightarrow> (string \<times> string) option" where
  "as_CredentialsError (CredentialsError r u) = Some (r, u)"
| "as_CredentialsError _ = None"

fun as_accountError :: "error \<Rightarrow> accountChange option" where
  "as_accountError (AccountError c e) = Some c"
| "as_accountError _ = None"

text \<open>A \<^verbatim>\<open>CredentialsError\<close> anywhere in a chain makes it match
  \<^verbatim>\<open>ErrInvalidCredentials\<close>; so does a reuse error.\<close>

lemma errors_As_Credentials_Is:
  "errors_As as_CredentialsError e = Some x \<Longrightarrow> errors_Is e ErrInvalidCredentials"
  "errors_As_list as_CredentialsError es = Some x \<Longrightarrow>
     list_ex (\<lambda>e. errors_Is e ErrInvalidCredentials) es"
proof (induction as_CredentialsError e and as_CredentialsError es
       rule: errors_As_errors_As_list.induct)
  case (1 e)
  then show ?case by (cases e) auto
qed (auto split: option.splits)

lemma errors_As_TokenReuse_Is:
  "errors_As as_TokenReuseError e = Some x \<Longrightarrow> errors_Is e ErrInvalidCredentials"
  "errors_As_list as_TokenReuseError es = Some x \<Longrightarrow>
     list_ex (\<lambda>e. errors_Is e ErrInvalidCredentials) es"
proof (induction as_TokenReuseError e and as_TokenReuseError es
       rule: errors_As_errors_As_list.induct)
  case (1 e)
  then show ?case by (cases e) auto
qed (auto split: option.splits)

section \<open>Audit reasons\<close>

text \<open>The \<^verbatim>\<open>Reason*\<close> constants of \<^verbatim>\<open>auth/audit.go\<close> a provider reports through
  \<^verbatim>\<open>CredentialsError\<close>.\<close>

definition ReasonUnknownUser :: string where "ReasonUnknownUser = ''unknown_user''"
definition ReasonBadPassword :: string where "ReasonBadPassword = ''bad_password''"
definition ReasonNoPassword :: string where "ReasonNoPassword = ''no_password''"
definition ReasonMalformedCredentials :: string where
  "ReasonMalformedCredentials = ''malformed_credentials''"
definition ReasonInvalidCredentials :: string where
  "ReasonInvalidCredentials = ''invalid_credentials''"

end
