(* ===== verification/Ports.thy ===== *)
theory Ports
  imports Entity
begin

text \<open>
  The run-time environment of a request and the ports of \<^verbatim>\<open>auth/ports.go\<close>.

  A \<open>'st world\<close> holds the state \<open>'st\<close> of the storage backend and the library functions
  whose results the program does not determine: the clock, the entropy source, UUID
  generation, PKCE verifiers and the hash functions. Every read of such a source takes
  the value at position \<open>tick\<close> and advances \<open>tick\<close>, so two reads in one request may
  differ and nothing is assumed about their order.

  A Go interface is a record of functions (its method table) over the backend state:
  \<open>'st UserStore\<close>, \<open>'st TokenStore\<close> and so on. A method that calls \<^verbatim>\<open>time.Now\<close> itself
  takes the reading as an argument. Methods that only read return no state. What a port
  promises its clients is a locale over its method table, below.
\<close>

section \<open>The environment\<close>

record 'st world =
  store :: 'st
  tick :: nat
  wall :: "nat \<Rightarrow> time"
  rand_Read :: "nat \<Rightarrow> nat \<Rightarrow> string option"
  uuid_NewV7 :: "nat \<Rightarrow> string option"
  uuid_NewString :: "nat \<Rightarrow> string"
  oauth2_GenerateVerifier :: "nat \<Rightarrow> string"
  rsa_GenerateKey :: "nat \<Rightarrow> nat \<Rightarrow> error + string"
  ecdsa_GenerateKey :: "nat \<Rightarrow> error + string"
  sha256 :: "string \<Rightarrow> string"
  unicode_ToLower :: "nat \<Rightarrow> nat"
  argon2_IDKey :: "string \<Rightarrow> string \<Rightarrow> nat \<Rightarrow> nat \<Rightarrow> nat \<Rightarrow> nat \<Rightarrow> string"

text \<open>Reading a source. \<open>draw_bytes n\<close> is \<^verbatim>\<open>rand.Read\<close> into a slice of length \<open>n\<close>;
  \<open>None\<close> is its error.\<close>

definition time_Now :: "'st world \<Rightarrow> time \<times> 'st world" where
  [ambient_def]: "time_Now w = (wall w (tick w), w\<lparr>tick := Suc (tick w)\<rparr>)"

definition draw_bytes :: "nat \<Rightarrow> 'st world \<Rightarrow> string option \<times> 'st world" where
  [ambient_def]: "draw_bytes n w = (rand_Read w (tick w) n, w\<lparr>tick := Suc (tick w)\<rparr>)"

definition draw_NewV7 :: "'st world \<Rightarrow> string option \<times> 'st world" where
  [ambient_def]: "draw_NewV7 w = (uuid_NewV7 w (tick w), w\<lparr>tick := Suc (tick w)\<rparr>)"

definition draw_NewString :: "'st world \<Rightarrow> string \<times> 'st world" where
  [ambient_def]: "draw_NewString w = (uuid_NewString w (tick w), w\<lparr>tick := Suc (tick w)\<rparr>)"

definition draw_verifier :: "'st world \<Rightarrow> string \<times> 'st world" where
  [ambient_def]: "draw_verifier w = (oauth2_GenerateVerifier w (tick w), w\<lparr>tick := Suc (tick w)\<rparr>)"

definition draw_key :: "(nat \<Rightarrow> error + string) \<Rightarrow> 'st world \<Rightarrow> (error + string) \<times> 'st world" where
  [ambient_def]: "draw_key gen w = (gen (tick w), w\<lparr>tick := Suc (tick w)\<rparr>)"

text \<open>Calling a method of a port: without and with a clock reading of its own.\<close>

definition call :: "('st \<Rightarrow> 'r \<times> 'st) \<Rightarrow> 'st world \<Rightarrow> 'r \<times> 'st world" where
  [ambient_def]: "call f w = (fst (f (store w)), w\<lparr>store := snd (f (store w))\<rparr>)"

definition call_now :: "(time \<Rightarrow> 'st \<Rightarrow> 'r \<times> 'st) \<Rightarrow> 'st world \<Rightarrow> 'r \<times> 'st world" where
  [ambient_def]: "call_now f w = (let (now, w') = time_Now w in call (f now) w')"

text \<open>What a call returns, in terms of the method alone.\<close>

lemma call_iff:
  "call f w = (r, w') \<longleftrightarrow> (\<exists>s'. f (store w) = (r, s') \<and> w' = w\<lparr>store := s'\<rparr>)"
  by (auto simp: call_def prod_eq_iff)

lemma call_now_iff:
  "call_now f w = (r, w') \<longleftrightarrow>
     (\<exists>s'. f (wall w (tick w)) (store w) = (r, s') \<and> w' = w\<lparr>tick := Suc (tick w), store := s'\<rparr>)"
  by (auto simp: call_now_def call_def time_Now_def prod_eq_iff)

lemmas call_iffs = call_iff call_now_iff

section \<open>The ports\<close>

record 'st UserStore =
  Create :: "User \<Rightarrow> time \<Rightarrow> 'st \<Rightarrow> (error + User) \<times> 'st"
  GetByID :: "string \<Rightarrow> 'st \<Rightarrow> error + User"
  GetByEmail :: "string \<Rightarrow> 'st \<Rightarrow> error + User"
  Delete :: "string \<Rightarrow> 'st \<Rightarrow> (error + unit) \<times> 'st"

text \<open>\<^verbatim>\<open>RotateRefreshToken\<close> returns a token together with an error; the other
  methods return one or the other.\<close>

record 'st TokenStore =
  SaveRefreshToken :: "RefreshToken \<Rightarrow> time \<Rightarrow> 'st \<Rightarrow> (error + unit) \<times> 'st"
  GetRefreshToken :: "string \<Rightarrow> 'st \<Rightarrow> error + RefreshToken"
  RevokeTokens :: "string \<Rightarrow> time \<Rightarrow> 'st \<Rightarrow> (error + unit) \<times> 'st"
  RotateRefreshToken ::
    "string \<Rightarrow> time \<Rightarrow> 'st \<Rightarrow> (RefreshToken option \<times> error option) \<times> 'st"
  GetRefreshFamily :: "string \<Rightarrow> 'st \<Rightarrow> error + RefreshFamily"

record 'st PATStore =
  SavePAT :: "PersonalAccessToken \<Rightarrow> time \<Rightarrow> 'st \<Rightarrow> (error + PersonalAccessToken) \<times> 'st"
  SavePATLimited ::
    "PersonalAccessToken \<Rightarrow> int \<Rightarrow> time \<Rightarrow> time \<Rightarrow> 'st \<Rightarrow> (error + PersonalAccessToken) \<times> 'st"
  GetPAT :: "string \<Rightarrow> 'st \<Rightarrow> error + PersonalAccessToken"
  ListPATs :: "string \<Rightarrow> 'st \<Rightarrow> error + PersonalAccessToken list"
  DeletePAT :: "string \<Rightarrow> string \<Rightarrow> 'st \<Rightarrow> (error + unit) \<times> 'st"
  TouchPAT :: "string \<Rightarrow> time \<Rightarrow> 'st \<Rightarrow> (error + unit) \<times> 'st"

record 'st OAuthIdentityStore =
  SaveOAuthIdentity :: "OAuthIdentity \<Rightarrow> time \<Rightarrow> 'st \<Rightarrow> (error + unit) \<times> 'st"
  GetOAuthIdentity :: "string \<Rightarrow> string \<Rightarrow> 'st \<Rightarrow> error + OAuthIdentity"
  ListOAuthIdentities :: "string \<Rightarrow> 'st \<Rightarrow> error + OAuthIdentity list"

record 'st WalletIdentityStore =
  SaveWalletIdentity :: "WalletIdentity \<Rightarrow> time \<Rightarrow> 'st \<Rightarrow> (error + unit) \<times> 'st"
  GetWalletIdentity :: "string \<Rightarrow> string \<Rightarrow> 'st \<Rightarrow> error + WalletIdentity"
  ListWalletIdentities :: "string \<Rightarrow> 'st \<Rightarrow> error + WalletIdentity list"

text \<open>\<^verbatim>\<open>GetChallenge\<close> of the in-memory store deletes an expired challenge, so it
  returns a state.\<close>

record 'st ChallengeStore =
  SaveChallenge :: "Challenge \<Rightarrow> time \<Rightarrow> 'st \<Rightarrow> (error + unit) \<times> 'st"
  GetChallenge :: "string \<Rightarrow> time \<Rightarrow> 'st \<Rightarrow> (error + Challenge) \<times> 'st"
  DeleteChallenge :: "string \<Rightarrow> 'st \<Rightarrow> (error + unit) \<times> 'st"

record 'st CredentialStore =
  SavePasswordHash :: "string \<Rightarrow> string \<Rightarrow> 'st \<Rightarrow> (error + unit) \<times> 'st"
  GetPasswordHash :: "string \<Rightarrow> 'st \<Rightarrow> error + string"

text \<open>\<^verbatim>\<open>TokenIssuer\<close>: \<^verbatim>\<open>GenerateTokens\<close> draws from the environment,
  \<^verbatim>\<open>ParseToken\<close> reads the clock. Keys are opaque strings.\<close>

record JSONWebKey =
  JWK_Key :: string
  JWK_KeyID :: string
  JWK_Algorithm :: string
  JWK_Use :: string

record 'st TokenIssuer =
  GenerateTokens :: "string \<Rightarrow> string \<Rightarrow> string list \<Rightarrow> 'st world \<Rightarrow>
    (error + TokenPair \<times> string) \<times> 'st world"
  ParseToken :: "string \<Rightarrow> 'st world \<Rightarrow> (error + Claims) \<times> 'st world"
  JWKS :: "JSONWebKey list"

record 'st Provider =
  Provider_Type :: string
  Authenticate :: "AuthRequest \<Rightarrow> 'st world \<Rightarrow> (error + Identity) \<times> 'st world"
  Register :: "RegisterRequest \<Rightarrow> 'st world \<Rightarrow> (error + Identity) \<times> 'st world"

section \<open>External identity providers\<close>

text \<open>\<^verbatim>\<open>oauth.UserInfo\<close>, \<^verbatim>\<open>oauth.AuthParams\<close> and the interface
  \<^verbatim>\<open>oauth.Provider\<close> (\<^verbatim>\<open>provider/oauth/oauth.go\<close>).\<close>

record UserInfo =
  Info_ExternalID :: string
  Info_Email :: string
  Info_EmailVerified :: bool

record AuthParams =
  Auth_State :: string
  Auth_RedirectURI :: string
  Auth_CodeVerifier :: string
  Auth_Nonce :: string

record 'st OAuthProvider =
  ProviderName :: string
  AuthCodeURL :: "AuthParams \<Rightarrow> error + string"
  ExchangeCode :: "string \<Rightarrow> AuthParams \<Rightarrow> 'st world \<Rightarrow> (error + UserInfo) \<times> 'st world"

text \<open>\<^verbatim>\<open>wallet.MessageOpts\<close> and the interface \<^verbatim>\<open>wallet.WalletProvider\<close>
  (\<^verbatim>\<open>provider/wallet/provider.go\<close>); \<^verbatim>\<open>VerifySignature\<close> returns only an error.\<close>

record MessageOpts =
  Opts_Domain :: string
  Opts_URI :: string
  Opts_Statement :: string
  Opts_IssuedAt :: time
  Opts_ExpiresAt :: time

record WalletProvider =
  Chain :: string
  NormalizeAddress :: "string \<Rightarrow> error + string"
  BuildMessage :: "string \<Rightarrow> string \<Rightarrow> MessageOpts \<Rightarrow> string"
  VerifySignature :: "string \<Rightarrow> string \<Rightarrow> string \<Rightarrow> error option"

section \<open>What the token store promises\<close>

text \<open>A member of the family rooted at \<open>root\<close>: the root token or a token whose parent it is.\<close>

definition inFamily :: "string \<Rightarrow> RefreshToken \<Rightarrow> bool" where
  "inFamily root t \<longleftrightarrow> RT_Hash t = root \<or> RT_Parent t = root"

text \<open>Ending one token (logout, reuse detection): revoked, and \<^verbatim>\<open>EndedAt\<close> stamped
  unless it already is.\<close>

definition endToken :: "time \<Rightarrow> RefreshToken \<Rightarrow> RefreshToken" where
  "endToken now t = t\<lparr>RT_Revoked := True,
     RT_EndedAt := (if RT_EndedAt t = None then Some now else RT_EndedAt t)\<rparr>"

lemma endToken_simps [simp]:
  "RT_Hash (endToken now t) = RT_Hash t" "RT_Parent (endToken now t) = RT_Parent t"
  "RT_UserID (endToken now t) = RT_UserID t" "RT_ExpiresAt (endToken now t) = RT_ExpiresAt t"
  "RT_RotatedAt (endToken now t) = RT_RotatedAt t" "RT_Revoked (endToken now t)"
  "RT_EndedAt (endToken now t) = Some (case RT_EndedAt t of None \<Rightarrow> now | Some e \<Rightarrow> e)"
  "RT_CreatedAt (endToken now t) = RT_CreatedAt t"
  by (simp_all add: endToken_def split: option.splits)

lemma inFamily_endToken [simp]: "inFamily root (endToken now t) = inFamily root t"
  by (simp add: inFamily_def)

text \<open>A session has ended when every token of the family, the root included, is revoked and
  carries \<^verbatim>\<open>EndedAt\<close>.\<close>

definition session_over :: "string \<Rightarrow> (string \<Rightarrow> RefreshToken option) \<Rightarrow> bool" where
  "session_over root tab \<longleftrightarrow>
     (\<forall>h t. tab h = Some t \<and> (h = root \<or> inFamily root t) \<longrightarrow> RT_Revoked t \<and> RT_EndedAt t \<noteq> None)"

lemma session_overD:
  "session_over root tab \<Longrightarrow> tab h = Some t \<Longrightarrow> h = root \<or> inFamily root t \<Longrightarrow>
     RT_Revoked t \<and> RT_EndedAt t \<noteq> None"
  unfolding session_over_def by blast

text \<open>
  The contract of \<^verbatim>\<open>TokenStore\<close>. \<open>tokens s\<close> is the table a backend state stands for and
  \<open>ok\<close> the backend's own invariant. Every law allows a method to fail for reasons of its own
  (a storage outage): then the table is unchanged. A backend may keep times and rows in a form of its own:
  \<open>keep\<close> is how it rounds a time and \<open>row\<close> the row it files for a token.
\<close>

locale token_store =
  fixes ts :: "'st TokenStore"
    and tokens :: "'st \<Rightarrow> string \<Rightarrow> RefreshToken option"
    and ok :: "'st \<Rightarrow> bool"
    and keep :: "time \<Rightarrow> time"
    and row :: "RefreshToken \<Rightarrow> RefreshToken"
  assumes key: "ok s \<Longrightarrow> tokens s h = Some t \<Longrightarrow> RT_Hash t = h"
    and row_keys: "RT_Hash (row t) = RT_Hash t" "RT_Parent (row t) = RT_Parent t"
    and rotate_ok: "ok s \<Longrightarrow> RotateRefreshToken ts h now s = ((r, None), s') \<Longrightarrow>
      ok s' \<and> (\<exists>t. tokens s h = Some t \<and> \<not> RT_Revoked t \<and> keep now < RT_ExpiresAt t \<and>
        r = Some (t\<lparr>RT_Revoked := True, RT_RotatedAt := Some (keep now)\<rparr>) \<and>
        tokens s' = (tokens s)(h \<mapsto> t\<lparr>RT_Revoked := True, RT_RotatedAt := Some (keep now)\<rparr>))"
    and rotate_err: "ok s \<Longrightarrow> RotateRefreshToken ts h now s = ((r, Some e), s') \<Longrightarrow>
      ok s' \<and> tokens s' = tokens s \<and>
      (errors_Is e Store_ErrTokenRevoked \<longrightarrow> (\<exists>t. tokens s h = Some t \<and> r = Some t \<and> RT_Revoked t)) \<and>
      (errors_Is e Store_ErrTokenExpired \<longrightarrow> (\<exists>t. tokens s h = Some t \<and> \<not> keep now < RT_ExpiresAt t)) \<and>
      (errors_Is e Store_ErrTokenNotFound \<longrightarrow> tokens s h = None)"
    and save_ok: "ok s \<Longrightarrow> SaveRefreshToken ts t now s = (Inr u, s') \<Longrightarrow>
      ok s' \<and> (RT_Parent t \<noteq> '''' \<longrightarrow>
        (\<exists>root. tokens s (RT_Parent t) = Some root \<and> RT_EndedAt root = None)) \<and>
      (\<exists>c. tokens s' = (tokens s)(RT_Hash t \<mapsto> row (t\<lparr>RT_CreatedAt := c\<rparr>)))"
    and save_err: "ok s \<Longrightarrow> SaveRefreshToken ts t now s = (Inl e, s') \<Longrightarrow>
      ok s' \<and> tokens s' = tokens s"
    and revoke_ok: "ok s \<Longrightarrow> RevokeTokens ts h now s = (Inr u, s') \<Longrightarrow>
      ok s' \<and> (\<exists>at. tokens s' =
        (\<lambda>k. map_option (\<lambda>t. if inFamily h t then endToken at t else t) (tokens s k)))"
    and revoke_err: "ok s \<Longrightarrow> RevokeTokens ts h now s = (Inl e, s') \<Longrightarrow>
      ok s' \<and> tokens s' = tokens s"
    and get_ok: "ok s \<Longrightarrow> GetRefreshToken ts h s = Inr t \<Longrightarrow> tokens s h = Some t"
    and get_missing: "ok s \<Longrightarrow> GetRefreshToken ts h s = Inl e \<Longrightarrow>
      errors_Is e Store_ErrTokenNotFound \<Longrightarrow> tokens s h = None"
    and family_ok: "ok s \<Longrightarrow> GetRefreshFamily ts root s = Inr f \<Longrightarrow>
      (SessionEnded f \<longleftrightarrow> (\<exists>h t. tokens s h = Some t \<and> inFamily root t \<and> RT_EndedAt t \<noteq> None)) \<and>
      (\<forall>h t r. tokens s h = Some t \<and> inFamily root t \<and> RT_RotatedAt t = Some r \<longrightarrow>
        (\<exists>l. LastRotatedAt f = Some l \<and> r \<le> l)) \<and>
      (\<forall>l. LastRotatedAt f = Some l \<longrightarrow>
        (\<exists>h t. tokens s h = Some t \<and> inFamily root t \<and> RT_RotatedAt t = Some l))"
begin


text \<open>Of two rotations of one token at most one succeeds.\<close>

lemma rotate_once:
  assumes "ok s" "RotateRefreshToken ts h now s = ((r, None), s1)"
    and "RotateRefreshToken ts h now' s1 = ((r', e'), s2)"
  shows "e' \<noteq> None"
proof
  assume "e' = None"
  with assms rotate_ok [OF assms(1,2)] rotate_ok [of s1 h now' r' s2] show False by auto
qed

lemma revoke_ends:
  "ok s \<Longrightarrow> RevokeTokens ts root now s = (Inr u, s') \<Longrightarrow> session_over root (tokens s')"
proof -
  assume s: "ok s" and "RevokeTokens ts root now s = (Inr u, s')"
  then obtain at where t: "\<And>k. tokens s' k =
      map_option (\<lambda>t. if inFamily root t then endToken at t else t) (tokens s k)"
    using revoke_ok [of s root now u s'] by auto
  have "RT_Revoked x \<and> RT_EndedAt x \<noteq> None" if x: "tokens s' h = Some x" "h = root \<or> inFamily root x" for h x
  proof -
    obtain y where y: "tokens s h = Some y" "x = (if inFamily root y then endToken at y else y)"
      using x(1) t [of h] by (cases "tokens s h") auto
    then have "inFamily root y"
      using x(2) key [OF s, of h y] by (auto simp: inFamily_def split: if_splits)
    with y show ?thesis by simp
  qed
  then show ?thesis unfolding session_over_def by blast
qed

text \<open>In an ended session no member can be rotated and no successor can join.\<close>

lemma over_rotate:
  assumes "ok s" "session_over root (tokens s)" "tokens s h = Some t" "inFamily root t"
    and "RotateRefreshToken ts h now s = ((r, e), s')"
  shows "e \<noteq> None"
  using assms rotate_ok [of s h now r s'] by (auto simp: session_over_def)

lemma over_save:
  assumes "ok s" "session_over root (tokens s)" "root \<noteq> ''''" "RT_Parent t = root"
    and "SaveRefreshToken ts t now s = (res, s')"
  shows "\<exists>e. res = Inl e"
  using assms save_ok [of s t now _ s'] session_overD [OF assms(2)] by (cases res) fastforce+

text \<open>So an ended session stays ended, whatever the store is asked to do next, as long as
  no new token takes the root's own hash.\<close>

lemma over_rotate_keeps:
  assumes "ok s" "session_over root (tokens s)" "RotateRefreshToken ts h now s = (r, s')"
  shows "session_over root (tokens s')"
proof (cases r)
  case (Pair rt e)
  show ?thesis
  proof (cases e)
    case None
    with assms Pair rotate_ok [of s h now rt s'] obtain t where
      t: "tokens s h = Some t"
        "tokens s' = (tokens s)(h \<mapsto> t\<lparr>RT_Revoked := True, RT_RotatedAt := Some (keep now)\<rparr>)" by auto
    show ?thesis unfolding session_over_def t(2)
      using session_overD [OF assms(2)] t(1) by (auto simp: inFamily_def split: if_splits)
  next
    case (Some x)
    with assms Pair rotate_err [of s h now rt x s'] show ?thesis by simp
  qed
qed

lemma over_save_keeps:
  assumes "ok s" "session_over root (tokens s)" "root \<noteq> ''''" "RT_Hash t \<noteq> root"
    and "SaveRefreshToken ts t now s = (res, s')"
  shows "session_over root (tokens s')"
proof (cases res)
  case (Inl e)
  with assms save_err [of s t now e s'] show ?thesis by simp
next
  case (Inr u)
  have "RT_Parent t \<noteq> root" using assms Inr over_save [of s root t now res s'] by auto
  moreover obtain c where "tokens s' = (tokens s)(RT_Hash t \<mapsto> row (t\<lparr>RT_CreatedAt := c\<rparr>))"
    using assms Inr save_ok [of s t now u s'] by auto
  ultimately show ?thesis
    using assms(4) session_overD [OF assms(2)] by (auto simp: session_over_def inFamily_def row_keys)
qed

lemma over_revoke_keeps:
  assumes "ok s" "session_over root (tokens s)" "RevokeTokens ts h now s = (res, s')"
  shows "session_over root (tokens s')"
proof (cases res)
  case (Inl e)
  with assms revoke_err [of s h now e s'] show ?thesis by simp
next
  case (Inr u)
  then obtain at where t: "tokens s' =
      (\<lambda>k. map_option (\<lambda>t. if inFamily h t then endToken at t else t) (tokens s k))"
    using assms revoke_ok [of s h now u s'] by auto
  show ?thesis unfolding session_over_def t
    using session_overD [OF assms(2)] by fastforce
qed

end

section \<open>A concrete environment\<close>

text \<open>A fixed environment over any backend state, at which the hypotheses of the theorems about
  requests can be met: the clock advances by a second per reading.\<close>

definition demo_world :: "'st \<Rightarrow> 'st world" where
  "demo_world s = \<lparr>store = s, tick = 0, wall = (\<lambda>n. hour + int n * second),
     rand_Read = (\<lambda>n len. Some (replicate len (char_of (n mod 2 * 4 + 107)))),
     uuid_NewV7 = (\<lambda>n. Some (''user-'' @ [char_of (48 + n)])),
     uuid_NewString = (\<lambda>n. ''id-'' @ [char_of (48 + n)]),
     oauth2_GenerateVerifier = (\<lambda>n. ''verifier''),
     rsa_GenerateKey = (\<lambda>n bits. Inr ''key''), ecdsa_GenerateKey = (\<lambda>n. Inr ''key''),
     sha256 = (\<lambda>s. s), unicode_ToLower = (\<lambda>r. r),
     argon2_IDKey = (\<lambda>pw salt t m p len. salt @ pw)\<rparr>"

lemma demo_world_simps [simp]:
  "store (demo_world s) = s" "tick (demo_world s) = 0" "wall (demo_world s) n = hour + int n * second"
  "rand_Read (demo_world s) n len = Some (replicate len (char_of (n mod 2 * 4 + 107)))"
  "uuid_NewV7 (demo_world s) n = Some (''user-'' @ [char_of (48 + n)])"
  "uuid_NewString (demo_world s) n = ''id-'' @ [char_of (48 + n)]"
  "oauth2_GenerateVerifier (demo_world s) n = ''verifier''" "sha256 (demo_world s) x = x"
  "unicode_ToLower (demo_world s) r = r"
  "argon2_IDKey (demo_world s) pw salt t m p len' = salt @ pw"
  by (simp_all add: demo_world_def)

end
