(* ===== verification/Memory_Store.thy ===== *)
theory Memory_Store
  imports Ports
begin

text \<open>
  The in-memory backend, \<^verbatim>\<open>store/memory/memory.go\<close>: one record field per Go map, one
  function per method. Every method holds the store's mutex for its whole body, so a
  method is one atomic step of the state. Methods that call \<^verbatim>\<open>time.Now\<close> take the
  reading as the argument \<open>now\<close>.

  The theory ends with the backend's method tables, one per port.
\<close>

section \<open>State\<close>

record Store =
  mem_users :: "(string, User) gomap"
  mem_usersByEmail :: "(string, User) gomap"
  mem_refreshTokens :: "(string, RefreshToken) gomap"
  mem_pats :: "(string, PersonalAccessToken) gomap"
  mem_passwordHashes :: "(string, string) gomap"
  mem_oauthIdentities :: "(string \<times> string, OAuthIdentity) gomap"
  mem_walletIdentities :: "(string \<times> string, WalletIdentity) gomap"
  mem_challenges :: "(string, Challenge) gomap"

definition Memory_New :: Store where
  "Memory_New = \<lparr>mem_users = [], mem_usersByEmail = [], mem_refreshTokens = [], mem_pats = [],
     mem_passwordHashes = [], mem_oauthIdentities = [], mem_walletIdentities = [],
     mem_challenges = []\<rparr>"

section \<open>UserStore\<close>

definition Memory_Create :: "User \<Rightarrow> time \<Rightarrow> Store \<Rightarrow> (error + User) \<times> Store" where
  [backend_def]: "Memory_Create user now s =
    (if map_of (mem_users s) (User_ID user) \<noteq> None
     then (Inl (Errorf ''%w: %s'' [Sentinel Store_ErrUserExists]), s)
     else if map_of (mem_usersByEmail s) (User_Email user) \<noteq> None \<and> User_Email user \<noteq> ''''
     then (Inl (Errorf ''%w: %s'' [Sentinel Store_ErrUserExists]), s)
     else
       let user1 = (if time_IsZero (User_CreatedAt user) then user\<lparr>User_CreatedAt := now\<rparr> else user);
           user2 = (if time_IsZero (User_UpdatedAt user1) then user1\<lparr>User_UpdatedAt := now\<rparr> else user1);
           s1 = s\<lparr>mem_users := map_set (User_ID user2) user2 (mem_users s)\<rparr>;
           s2 = (if User_Email user2 \<noteq> ''''
                 then s1\<lparr>mem_usersByEmail := map_set (User_Email user2) user2 (mem_usersByEmail s1)\<rparr>
                 else s1)
       in (Inr user2, s2))"

definition Memory_GetByID :: "string \<Rightarrow> Store \<Rightarrow> error + User" where
  [backend_def]: "Memory_GetByID uid s =
    (case map_of (mem_users s) uid of
       None \<Rightarrow> Inl (Errorf ''%w: %s'' [Sentinel Store_ErrUserNotFound])
     | Some user \<Rightarrow> Inr user)"

definition Memory_GetByEmail :: "string \<Rightarrow> Store \<Rightarrow> error + User" where
  [backend_def]: "Memory_GetByEmail email s =
    (case map_of (mem_usersByEmail s) email of
       None \<Rightarrow> Inl (Errorf ''%w: %s'' [Sentinel Store_ErrUserNotFound])
     | Some user \<Rightarrow> Inr user)"

definition Memory_requireUser :: "string \<Rightarrow> Store \<Rightarrow> error option" where
  [backend_def]: "Memory_requireUser userID s =
    (case map_of (mem_users s) userID of
       None \<Rightarrow> Some (Errorf ''%w: %s'' [Sentinel Store_ErrUserNotFound])
     | Some _ \<Rightarrow> None)"

definition Memory_Delete :: "string \<Rightarrow> Store \<Rightarrow> (error + unit) \<times> Store" where
  [backend_def]: "Memory_Delete uid s =
    (case map_of (mem_users s) uid of
       None \<Rightarrow> (Inl (Errorf ''%w: %s'' [Sentinel Store_ErrUserNotFound]), s)
     | Some user \<Rightarrow>
         (Inr (), s\<lparr>
            mem_usersByEmail := map_del (User_Email user) (mem_usersByEmail s),
            mem_users := map_del uid (mem_users s),
            mem_passwordHashes := map_del uid (mem_passwordHashes s),
            mem_refreshTokens := maps_DeleteFunc (\<lambda>t. RT_UserID t = uid) (mem_refreshTokens s),
            mem_pats := maps_DeleteFunc (\<lambda>p. PAT_UserID p = uid) (mem_pats s),
            mem_oauthIdentities := maps_DeleteFunc (\<lambda>i. OI_UserID i = uid) (mem_oauthIdentities s),
            mem_walletIdentities := maps_DeleteFunc (\<lambda>i. WI_UserID i = uid) (mem_walletIdentities s)\<rparr>))"

section \<open>TokenStore\<close>

definition Memory_SaveRefreshToken ::
    "RefreshToken \<Rightarrow> time \<Rightarrow> Store \<Rightarrow> (error + unit) \<times> Store" where
  [backend_def]: "Memory_SaveRefreshToken token now s =
    (let token = (if time_IsZero (RT_CreatedAt token) then token\<lparr>RT_CreatedAt := now\<rparr> else token);
         familyErr =
           (if RT_Parent token \<noteq> '''' then
              (case map_of (mem_refreshTokens s) (RT_Parent token) of
                 None \<Rightarrow> Some (Errorf ''%w: family root missing'' [Sentinel Store_ErrTokenRevoked])
               | Some root \<Rightarrow>
                   if RT_EndedAt root \<noteq> None
                   then Some (Errorf ''%w: session ended'' [Sentinel Store_ErrTokenRevoked])
                   else None)
            else None)
     in case familyErr of
          Some e \<Rightarrow> (Inl e, s)
        | None \<Rightarrow>
            (case Memory_requireUser (RT_UserID token) s of
               Some e \<Rightarrow> (Inl e, s)
             | None \<Rightarrow>
                 (Inr (), s\<lparr>mem_refreshTokens := map_set (RT_Hash token) token (mem_refreshTokens s)\<rparr>)))"

definition Memory_GetRefreshToken :: "string \<Rightarrow> Store \<Rightarrow> error + RefreshToken" where
  [backend_def]: "Memory_GetRefreshToken hash s =
    (case map_of (mem_refreshTokens s) hash of
       None \<Rightarrow> Inl (Sentinel Store_ErrTokenNotFound)
     | Some token \<Rightarrow> Inr token)"

definition Memory_RotateRefreshToken ::
    "string \<Rightarrow> time \<Rightarrow> Store \<Rightarrow> (RefreshToken option \<times> error option) \<times> Store" where
  [backend_def]: "Memory_RotateRefreshToken hash now s =
    (case map_of (mem_refreshTokens s) hash of
       None \<Rightarrow> ((None, Some (Sentinel Store_ErrTokenNotFound)), s)
     | Some token \<Rightarrow>
         if RT_Revoked token then ((Some token, Some (Sentinel Store_ErrTokenRevoked)), s)
         else if \<not> (now < RT_ExpiresAt token)
         then ((Some token, Some (Sentinel Store_ErrTokenExpired)), s)
         else let token' = token\<lparr>RT_Revoked := True, RT_RotatedAt := Some now\<rparr>
              in ((Some token', None),
                  s\<lparr>mem_refreshTokens := map_set hash token' (mem_refreshTokens s)\<rparr>))"

text \<open>The loop body of \<^verbatim>\<open>GetRefreshFamily\<close> on one token.\<close>

definition Memory_familyStep :: "string \<Rightarrow> RefreshToken \<Rightarrow> RefreshFamily \<Rightarrow> RefreshFamily" where
  [backend_def]: "Memory_familyStep root token family =
    (if RT_Hash token \<noteq> root \<and> RT_Parent token \<noteq> root then family
     else
       let family1 = (if RT_EndedAt token \<noteq> None then family\<lparr>SessionEnded := True\<rparr> else family)
       in case RT_RotatedAt token of
            None \<Rightarrow> family1
          | Some r \<Rightarrow>
              (case LastRotatedAt family1 of
                 None \<Rightarrow> family1\<lparr>LastRotatedAt := Some r\<rparr>
               | Some l \<Rightarrow> if l < r then family1\<lparr>LastRotatedAt := Some r\<rparr> else family1))"

definition Memory_GetRefreshFamily :: "string \<Rightarrow> Store \<Rightarrow> error + RefreshFamily" where
  [backend_def]: "Memory_GetRefreshFamily root s =
    Inr (fold (Memory_familyStep root) (map_values (mem_refreshTokens s))
           \<lparr>SessionEnded = False, LastRotatedAt = None\<rparr>)"

definition Memory_RevokeTokens :: "string \<Rightarrow> time \<Rightarrow> Store \<Rightarrow> (error + unit) \<times> Store" where
  [backend_def]: "Memory_RevokeTokens hash now s =
    (Inr (), s\<lparr>mem_refreshTokens := map_each
       (\<lambda>token. if RT_Hash token = hash \<or> RT_Parent token = hash then endToken now token else token)
       (mem_refreshTokens s)\<rparr>)"

section \<open>PATStore\<close>

definition Memory_savePATLocked ::
    "PersonalAccessToken \<Rightarrow> time \<Rightarrow> Store \<Rightarrow> (error + PersonalAccessToken) \<times> Store" where
  [backend_def]: "Memory_savePATLocked pat now s =
    (if map_of (mem_pats s) (PAT_Hash pat) \<noteq> None then (Inl (Sentinel Store_ErrPATExists), s)
     else
       let pat = (if time_IsZero (PAT_CreatedAt pat) then pat\<lparr>PAT_CreatedAt := now\<rparr> else pat)
       in (Inr pat, s\<lparr>mem_pats := map_set (PAT_Hash pat) pat (mem_pats s)\<rparr>))"

definition Memory_SavePAT ::
    "PersonalAccessToken \<Rightarrow> time \<Rightarrow> Store \<Rightarrow> (error + PersonalAccessToken) \<times> Store" where
  [backend_def]: "Memory_SavePAT pat now s =
    (case Memory_requireUser (PAT_UserID pat) s of
       Some e \<Rightarrow> (Inl e, s)
     | None \<Rightarrow> Memory_savePATLocked pat now s)"

text \<open>A token has expired when the time is strictly after its expiry.\<close>

definition patExpired :: "time \<Rightarrow> PersonalAccessToken \<Rightarrow> bool" where
  "patExpired now pat \<longleftrightarrow> (case PAT_ExpiresAt pat of None \<Rightarrow> False | Some e \<Rightarrow> e < now)"

text \<open>\<open>at\<close> is the caller's \<^verbatim>\<open>now\<close> argument, \<open>now\<close> the reading inside
  \<^verbatim>\<open>savePATLocked\<close>. The loop deletes the user's expired tokens and counts the rest.\<close>

definition Memory_SavePATLimited ::
    "PersonalAccessToken \<Rightarrow> int \<Rightarrow> time \<Rightarrow> time \<Rightarrow> Store \<Rightarrow> (error + PersonalAccessToken) \<times> Store" where
  [backend_def]: "Memory_SavePATLimited pat limit at now s =
    (case Memory_requireUser (PAT_UserID pat) s of
       Some e \<Rightarrow> (Inl e, s)
     | None \<Rightarrow>
         let s1 = s\<lparr>mem_pats := maps_DeleteFunc
                      (\<lambda>p. PAT_UserID p = PAT_UserID pat \<and> patExpired at p) (mem_pats s)\<rparr>;
             live = length (filter (\<lambda>p. PAT_UserID p = PAT_UserID pat \<and> \<not> patExpired at p)
                              (map_values (mem_pats s)))
         in if limit \<le> int live then (Inl (Sentinel Store_ErrPATLimitReached), s1)
            else Memory_savePATLocked pat now s1)"

definition Memory_GetPAT :: "string \<Rightarrow> Store \<Rightarrow> error + PersonalAccessToken" where
  [backend_def]: "Memory_GetPAT hash s =
    (case map_of (mem_pats s) hash of
       None \<Rightarrow> Inl (Sentinel Store_ErrTokenNotFound)
     | Some pat \<Rightarrow> Inr pat)"

text \<open>\<^verbatim>\<open>slices.SortFunc\<close> by descending creation time. Go's sort is not stable; the
  model keeps map order among equal times.\<close>

definition newestFirst :: "('a \<Rightarrow> time) \<Rightarrow> 'a list \<Rightarrow> 'a list" where
  "newestFirst created xs = sort_key (\<lambda>x. - created x) xs"

definition Memory_ListPATs :: "string \<Rightarrow> Store \<Rightarrow> error + PersonalAccessToken list" where
  [backend_def]: "Memory_ListPATs userID s =
    Inr (newestFirst PAT_CreatedAt
           (filter (\<lambda>p. PAT_UserID p = userID) (map_values (mem_pats s))))"

definition Memory_DeletePAT :: "string \<Rightarrow> string \<Rightarrow> Store \<Rightarrow> (error + unit) \<times> Store" where
  [backend_def]: "Memory_DeletePAT userID patID s =
    (case find (\<lambda>kv. PAT_ID (snd kv) = patID \<and> PAT_UserID (snd kv) = userID) (mem_pats s) of
       Some (hash, pat) \<Rightarrow> (Inr (), s\<lparr>mem_pats := map_del hash (mem_pats s)\<rparr>)
     | None \<Rightarrow> (Inl (Sentinel Store_ErrTokenNotFound), s))"

definition Memory_TouchPAT :: "string \<Rightarrow> time \<Rightarrow> Store \<Rightarrow> (error + unit) \<times> Store" where
  [backend_def]: "Memory_TouchPAT hash t s =
    (case map_of (mem_pats s) hash of
       None \<Rightarrow> (Inr (), s)
     | Some pat \<Rightarrow> (Inr (), s\<lparr>mem_pats := map_set hash (pat\<lparr>PAT_LastUsedAt := Some t\<rparr>) (mem_pats s)\<rparr>))"

section \<open>OAuthIdentityStore and WalletIdentityStore\<close>

definition Memory_SaveOAuthIdentity ::
    "OAuthIdentity \<Rightarrow> time \<Rightarrow> Store \<Rightarrow> (error + unit) \<times> Store" where
  [backend_def]: "Memory_SaveOAuthIdentity identity now s =
    (case Memory_requireUser (OI_UserID identity) s of
       Some e \<Rightarrow> (Inl e, s)
     | None \<Rightarrow>
         let key = (OI_Provider identity, OI_ExternalID identity)
         in if map_of (mem_oauthIdentities s) key \<noteq> None
            then (Inl (Errorf ''%w: %s/%s'' [Sentinel Store_ErrOAuthIdentityExists]), s)
            else let identity = (if time_IsZero (OI_CreatedAt identity)
                                 then identity\<lparr>OI_CreatedAt := now\<rparr> else identity)
                 in (Inr (), s\<lparr>mem_oauthIdentities := map_set key identity (mem_oauthIdentities s)\<rparr>))"

definition Memory_GetOAuthIdentity :: "string \<Rightarrow> string \<Rightarrow> Store \<Rightarrow> error + OAuthIdentity" where
  [backend_def]: "Memory_GetOAuthIdentity provider externalID s =
    (case map_of (mem_oauthIdentities s) (provider, externalID) of
       None \<Rightarrow> Inl (Errorf ''%w: %s/%s'' [Sentinel Store_ErrOAuthIdentityNotFound])
     | Some identity \<Rightarrow> Inr identity)"

definition Memory_ListOAuthIdentities :: "string \<Rightarrow> Store \<Rightarrow> error + OAuthIdentity list" where
  [backend_def]: "Memory_ListOAuthIdentities userID s =
    Inr (newestFirst OI_CreatedAt
           (filter (\<lambda>i. OI_UserID i = userID) (map_values (mem_oauthIdentities s))))"

definition Memory_SaveWalletIdentity ::
    "WalletIdentity \<Rightarrow> time \<Rightarrow> Store \<Rightarrow> (error + unit) \<times> Store" where
  [backend_def]: "Memory_SaveWalletIdentity identity now s =
    (case Memory_requireUser (WI_UserID identity) s of
       Some e \<Rightarrow> (Inl e, s)
     | None \<Rightarrow>
         let key = (WI_Chain identity, WI_Address identity)
         in if map_of (mem_walletIdentities s) key \<noteq> None
            then (Inl (Errorf ''%w: %s/%s'' [Sentinel Store_ErrWalletIdentityExists]), s)
            else let identity = (if time_IsZero (WI_CreatedAt identity)
                                 then identity\<lparr>WI_CreatedAt := now\<rparr> else identity)
                 in (Inr (), s\<lparr>mem_walletIdentities := map_set key identity (mem_walletIdentities s)\<rparr>))"

definition Memory_GetWalletIdentity :: "string \<Rightarrow> string \<Rightarrow> Store \<Rightarrow> error + WalletIdentity" where
  [backend_def]: "Memory_GetWalletIdentity chain address s =
    (case map_of (mem_walletIdentities s) (chain, address) of
       None \<Rightarrow> Inl (Errorf ''%w: %s/%s'' [Sentinel Store_ErrWalletIdentityNotFound])
     | Some identity \<Rightarrow> Inr identity)"

definition Memory_ListWalletIdentities :: "string \<Rightarrow> Store \<Rightarrow> error + WalletIdentity list" where
  [backend_def]: "Memory_ListWalletIdentities userID s =
    Inr (newestFirst WI_CreatedAt
           (filter (\<lambda>i. WI_UserID i = userID) (map_values (mem_walletIdentities s))))"

section \<open>ChallengeStore\<close>

definition Memory_SaveChallenge :: "Challenge \<Rightarrow> time \<Rightarrow> Store \<Rightarrow> (error + unit) \<times> Store" where
  [backend_def]: "Memory_SaveChallenge challenge now s =
    (let swept = maps_DeleteFunc (\<lambda>c. Ch_ExpiresAt c < now) (mem_challenges s);
         challenge = (if time_IsZero (Ch_CreatedAt challenge)
                      then challenge\<lparr>Ch_CreatedAt := now\<rparr> else challenge)
     in (Inr (), s\<lparr>mem_challenges := map_set (Ch_Nonce challenge) challenge swept\<rparr>))"

definition Memory_GetChallenge :: "string \<Rightarrow> time \<Rightarrow> Store \<Rightarrow> (error + Challenge) \<times> Store" where
  [backend_def]: "Memory_GetChallenge nonce now s =
    (case map_of (mem_challenges s) nonce of
       None \<Rightarrow> (Inl (Sentinel Store_ErrChallengeNotFound), s)
     | Some challenge \<Rightarrow>
         if Ch_ExpiresAt challenge < now
         then (Inl (Sentinel Store_ErrChallengeExpired),
               s\<lparr>mem_challenges := map_del nonce (mem_challenges s)\<rparr>)
         else (Inr challenge, s))"

definition Memory_DeleteChallenge :: "string \<Rightarrow> Store \<Rightarrow> (error + unit) \<times> Store" where
  [backend_def]: "Memory_DeleteChallenge nonce s =
    (if map_of (mem_challenges s) nonce = None then (Inl (Sentinel Store_ErrChallengeNotFound), s)
     else (Inr (), s\<lparr>mem_challenges := map_del nonce (mem_challenges s)\<rparr>))"

section \<open>CredentialStore\<close>

definition Memory_SavePasswordHash :: "string \<Rightarrow> string \<Rightarrow> Store \<Rightarrow> (error + unit) \<times> Store" where
  [backend_def]: "Memory_SavePasswordHash userID hash s =
    (case Memory_requireUser userID s of
       Some e \<Rightarrow> (Inl e, s)
     | None \<Rightarrow> (Inr (), s\<lparr>mem_passwordHashes := map_set userID hash (mem_passwordHashes s)\<rparr>))"

definition Memory_GetPasswordHash :: "string \<Rightarrow> Store \<Rightarrow> error + string" where
  [backend_def]: "Memory_GetPasswordHash userID s =
    (case map_of (mem_passwordHashes s) userID of
       None \<Rightarrow> Inl (Errorf ''%w: %s'' [Sentinel Store_ErrCredentialNotFound])
     | Some hash \<Rightarrow> Inr hash)"

section \<open>The method tables\<close>

definition memUserStore :: "Store UserStore" where
  "memUserStore = \<lparr>Create = Memory_Create, GetByID = Memory_GetByID,
     GetByEmail = Memory_GetByEmail, Delete = Memory_Delete\<rparr>"

definition memTokenStore :: "Store TokenStore" where
  "memTokenStore = \<lparr>SaveRefreshToken = Memory_SaveRefreshToken,
     GetRefreshToken = Memory_GetRefreshToken, RevokeTokens = Memory_RevokeTokens,
     RotateRefreshToken = Memory_RotateRefreshToken, GetRefreshFamily = Memory_GetRefreshFamily\<rparr>"

definition memPATStore :: "Store PATStore" where
  "memPATStore = \<lparr>SavePAT = Memory_SavePAT, SavePATLimited = Memory_SavePATLimited,
     GetPAT = Memory_GetPAT, ListPATs = Memory_ListPATs, DeletePAT = Memory_DeletePAT,
     TouchPAT = Memory_TouchPAT\<rparr>"

definition memOAuthIdentityStore :: "Store OAuthIdentityStore" where
  "memOAuthIdentityStore = \<lparr>SaveOAuthIdentity = Memory_SaveOAuthIdentity,
     GetOAuthIdentity = Memory_GetOAuthIdentity, ListOAuthIdentities = Memory_ListOAuthIdentities\<rparr>"

definition memWalletIdentityStore :: "Store WalletIdentityStore" where
  "memWalletIdentityStore = \<lparr>SaveWalletIdentity = Memory_SaveWalletIdentity,
     GetWalletIdentity = Memory_GetWalletIdentity,
     ListWalletIdentities = Memory_ListWalletIdentities\<rparr>"

definition memChallengeStore :: "Store ChallengeStore" where
  "memChallengeStore = \<lparr>SaveChallenge = Memory_SaveChallenge, GetChallenge = Memory_GetChallenge,
     DeleteChallenge = Memory_DeleteChallenge\<rparr>"

definition memCredentialStore :: "Store CredentialStore" where
  "memCredentialStore = \<lparr>SavePasswordHash = Memory_SavePasswordHash,
     GetPasswordHash = Memory_GetPasswordHash\<rparr>"

lemmas mem_tables [simp] =
  memUserStore_def memTokenStore_def memPATStore_def memOAuthIdentityStore_def
  memWalletIdentityStore_def memChallengeStore_def memCredentialStore_def

end
