(* ===== verification/Memory_Invariant.thy ===== *)
theory Memory_Invariant
  imports Memory_Store
begin

text \<open>
  The invariant of the in-memory backend and that every method keeps it. \<open>mem_inv\<close> says
  that keys are distinct, that the email index and the user table agree (email-less users
  are not indexed), that rows are filed under their own key, and that every password hash,
  refresh token, PAT and identity link belongs to an existing user.
\<close>

section \<open>The invariant\<close>

definition has_user :: "Store \<Rightarrow> string \<Rightarrow> bool" where
  "has_user s u \<longleftrightarrow> map_of (mem_users s) u \<noteq> None"

lemma has_user_update [simp]:
  "has_user (s\<lparr>mem_usersByEmail := a\<rparr>) = has_user s"
  "has_user (s\<lparr>mem_refreshTokens := b\<rparr>) = has_user s"
  "has_user (s\<lparr>mem_pats := c\<rparr>) = has_user s"
  "has_user (s\<lparr>mem_passwordHashes := d\<rparr>) = has_user s"
  "has_user (s\<lparr>mem_oauthIdentities := e\<rparr>) = has_user s"
  "has_user (s\<lparr>mem_walletIdentities := f\<rparr>) = has_user s"
  "has_user (s\<lparr>mem_challenges := g\<rparr>) = has_user s"
  by (simp_all add: has_user_def fun_eq_iff)

definition mem_wf :: "Store \<Rightarrow> bool" where
  "mem_wf s \<longleftrightarrow> wf_map (mem_users s) \<and> wf_map (mem_usersByEmail s) \<and>
     wf_map (mem_refreshTokens s) \<and> wf_map (mem_pats s) \<and> wf_map (mem_passwordHashes s) \<and>
     wf_map (mem_oauthIdentities s) \<and> wf_map (mem_walletIdentities s) \<and> wf_map (mem_challenges s)"

definition users_ok :: "Store \<Rightarrow> bool" where
  "users_ok s \<longleftrightarrow>
     map_all (\<lambda>k u. User_ID u = k \<and>
       (User_Email u \<noteq> '''' \<longrightarrow> map_of (mem_usersByEmail s) (User_Email u) = Some u)) (mem_users s) \<and>
     map_all (\<lambda>e u. e \<noteq> '''' \<and> User_Email u = e \<and> map_of (mem_users s) (User_ID u) = Some u)
       (mem_usersByEmail s)"

definition owned_ok :: "Store \<Rightarrow> bool" where
  "owned_ok s \<longleftrightarrow>
     map_all (\<lambda>h t. RT_Hash t = h \<and> has_user s (RT_UserID t)) (mem_refreshTokens s) \<and>
     map_all (\<lambda>h p. PAT_Hash p = h \<and> has_user s (PAT_UserID p)) (mem_pats s) \<and>
     map_all (\<lambda>u _. has_user s u) (mem_passwordHashes s) \<and>
     map_all (\<lambda>k i. (OI_Provider i, OI_ExternalID i) = k \<and> has_user s (OI_UserID i))
       (mem_oauthIdentities s) \<and>
     map_all (\<lambda>k i. (WI_Chain i, WI_Address i) = k \<and> has_user s (WI_UserID i))
       (mem_walletIdentities s) \<and>
     map_all (\<lambda>n c. Ch_Nonce c = n) (mem_challenges s)"

definition mem_inv :: "Store \<Rightarrow> bool" where
  "mem_inv s \<longleftrightarrow> mem_wf s \<and> users_ok s \<and> owned_ok s"

lemmas mem_inv_defs = mem_inv_def mem_wf_def users_ok_def owned_ok_def

lemma mem_inv_New: "mem_inv Memory_New"
  by (simp add: mem_inv_defs Memory_New_def map_all_def)

lemma mem_inv_wf: "mem_inv s \<Longrightarrow> mem_wf s"
  by (simp add: mem_inv_def)

lemma mem_inv_user:
  assumes "mem_inv s" "map_of (mem_users s) k = Some u"
  shows "User_ID u = k \<and>
    (User_Email u \<noteq> '''' \<longrightarrow> map_of (mem_usersByEmail s) (User_Email u) = Some u)"
  using assms(1) map_allD [OF _ assms(2)] unfolding mem_inv_def users_ok_def by blast

lemma mem_inv_by_email:
  assumes "mem_inv s" "map_of (mem_usersByEmail s) e = Some u"
  shows "e \<noteq> '''' \<and> User_Email u = e \<and> map_of (mem_users s) (User_ID u) = Some u"
  using assms(1) map_allD [OF _ assms(2)] unfolding mem_inv_def users_ok_def by blast

lemma mem_inv_token:
  assumes "mem_inv s" "map_of (mem_refreshTokens s) h = Some t"
  shows "RT_Hash t = h \<and> has_user s (RT_UserID t)"
  using assms(1) map_allD [OF _ assms(2)] unfolding mem_inv_def owned_ok_def by blast

lemma mem_inv_pat:
  assumes "mem_inv s" "map_of (mem_pats s) h = Some p"
  shows "PAT_Hash p = h \<and> has_user s (PAT_UserID p)"
  using assms(1) map_allD [OF _ assms(2)] unfolding mem_inv_def owned_ok_def by blast

lemma mem_inv_oauth:
  assumes "mem_inv s" "map_of (mem_oauthIdentities s) k = Some i"
  shows "(OI_Provider i, OI_ExternalID i) = k \<and> has_user s (OI_UserID i)"
  using assms(1) map_allD [OF _ assms(2)] unfolding mem_inv_def owned_ok_def by blast

lemma mem_inv_wallet:
  assumes "mem_inv s" "map_of (mem_walletIdentities s) k = Some i"
  shows "(WI_Chain i, WI_Address i) = k \<and> has_user s (WI_UserID i)"
  using assms(1) map_allD [OF _ assms(2)] unfolding mem_inv_def owned_ok_def by blast

lemma users_okI:
  assumes "mem_wf s"
    and "\<And>k u. map_of (mem_users s) k = Some u \<Longrightarrow> User_ID u = k \<and>
      (User_Email u \<noteq> '''' \<longrightarrow> map_of (mem_usersByEmail s) (User_Email u) = Some u)"
    and "\<And>e u. map_of (mem_usersByEmail s) e = Some u \<Longrightarrow>
      e \<noteq> '''' \<and> User_Email u = e \<and> map_of (mem_users s) (User_ID u) = Some u"
  shows "users_ok s"
  using assms by (simp add: users_ok_def map_all_iff mem_wf_def)

text \<open>An operation that leaves the users alone and replaces one owned table.\<close>

lemma mem_inv_cong:
  assumes "mem_inv s" "mem_users s' = mem_users s" "mem_usersByEmail s' = mem_usersByEmail s"
    and "mem_wf s'" "owned_ok s'"
  shows "mem_inv s'"
  using assms by (simp add: mem_inv_def users_ok_def)

section \<open>Every method keeps the invariant\<close>

lemma has_user_mono:
  "map_all (\<lambda>k v. f k v \<and> has_user s (g k v)) m \<Longrightarrow> (\<And>u. has_user s u \<Longrightarrow> has_user s' u) \<Longrightarrow>
   map_all (\<lambda>k v. f k v \<and> has_user s' (g k v)) m"
  by (erule map_all_mono) auto

lemma has_user_mono1:
  "map_all (\<lambda>k v. has_user s k) m \<Longrightarrow> (\<And>u. has_user s u \<Longrightarrow> has_user s' u) \<Longrightarrow>
   map_all (\<lambda>k v. has_user s' k) m"
  by (erule map_all_mono) auto

lemma owned_ok_more_users:
  assumes "owned_ok s" "\<And>u. has_user s u \<Longrightarrow> has_user s' u"
    and "mem_refreshTokens s' = mem_refreshTokens s" "mem_pats s' = mem_pats s"
    and "mem_passwordHashes s' = mem_passwordHashes s"
    and "mem_oauthIdentities s' = mem_oauthIdentities s"
    and "mem_walletIdentities s' = mem_walletIdentities s" "mem_challenges s' = mem_challenges s"
  shows "owned_ok s'"
  using assms unfolding owned_ok_def
  by (auto intro: has_user_mono has_user_mono1)

text \<open>\<^verbatim>\<open>Create\<close> in one step: what a successful call writes.\<close>

definition stamped :: "User \<Rightarrow> time \<Rightarrow> User" where
  "stamped user now = user\<lparr>
     User_CreatedAt := (if time_IsZero (User_CreatedAt user) then now else User_CreatedAt user),
     User_UpdatedAt := (if time_IsZero (User_UpdatedAt user) then now else User_UpdatedAt user)\<rparr>"

lemma stamped_simps [simp]:
  "User_ID (stamped u now) = User_ID u" "User_Email (stamped u now) = User_Email u"
  "User_Roles (stamped u now) = User_Roles u"
  by (simp_all add: stamped_def)

lemma Memory_Create_ok:
  "map_of (mem_users s) (User_ID user) = None \<Longrightarrow>
   User_Email user = '''' \<or> map_of (mem_usersByEmail s) (User_Email user) = None \<Longrightarrow>
   Memory_Create user now s =
     (Inr (stamped user now),
      s\<lparr>mem_users := map_set (User_ID user) (stamped user now) (mem_users s),
        mem_usersByEmail :=
          (if User_Email user = '''' then mem_usersByEmail s
           else map_set (User_Email user) (stamped user now) (mem_usersByEmail s))\<rparr>)"
  by (cases user) (auto simp: Memory_Create_def stamped_def Let_def time_IsZero_def)

lemma Memory_Create_err:
  "map_of (mem_users s) (User_ID user) \<noteq> None \<or>
   User_Email user \<noteq> '''' \<and> map_of (mem_usersByEmail s) (User_Email user) \<noteq> None \<Longrightarrow>
   Memory_Create user now s = (Inl (Errorf ''%w: %s'' [Sentinel Store_ErrUserExists]), s)"
  by (auto simp: Memory_Create_def)

lemma mem_inv_Create:
  assumes "mem_inv s"
  shows "mem_inv (snd (Memory_Create user now s))"
proof (cases "map_of (mem_users s) (User_ID user) \<noteq> None \<or>
    User_Email user \<noteq> '''' \<and> map_of (mem_usersByEmail s) (User_Email user) \<noteq> None")
  case True
  then show ?thesis using assms by (simp add: Memory_Create_err)
next
  case False
  then have ok: "map_of (mem_users s) (User_ID user) = None"
    "User_Email user = '''' \<or> map_of (mem_usersByEmail s) (User_Email user) = None" by auto
  let ?s = "snd (Memory_Create user now s)"
  have wf: "mem_wf ?s" using assms ok by (simp add: Memory_Create_ok mem_inv_def mem_wf_def)
  have "users_ok ?s"
  proof (rule users_okI [OF wf])
    fix k u assume "map_of (mem_users ?s) k = Some u"
    then show "User_ID u = k \<and>
        (User_Email u \<noteq> '''' \<longrightarrow> map_of (mem_usersByEmail ?s) (User_Email u) = Some u)"
      using mem_inv_user [OF assms, of k u] ok
      by (auto simp: Memory_Create_ok split: if_splits)
  next
    fix e u assume "map_of (mem_usersByEmail ?s) e = Some u"
    then show "e \<noteq> '''' \<and> User_Email u = e \<and> map_of (mem_users ?s) (User_ID u) = Some u"
      using mem_inv_by_email [OF assms, of e u] ok
      by (auto simp: Memory_Create_ok split: if_splits)
  qed
  moreover have "owned_ok ?s"
    by (rule owned_ok_more_users [of s])
      (use assms ok in \<open>auto simp: Memory_Create_ok mem_inv_def has_user_def\<close>)
  ultimately show ?thesis using wf by (simp add: mem_inv_def)
qed


text \<open>\<^verbatim>\<open>Delete\<close> cascades: what is left belongs to the remaining users.\<close>

lemma mem_inv_Delete:
  assumes "mem_inv s"
  shows "mem_inv (snd (Memory_Delete uid s))"
proof (cases "map_of (mem_users s) uid")
  case None
  then show ?thesis using assms by (simp add: Memory_Delete_def)
next
  case (Some user)
  let ?s = "snd (Memory_Delete uid s)"
  have wf: "mem_wf ?s" using assms Some by (simp add: Memory_Delete_def mem_inv_def mem_wf_def)
  have u: "User_ID user = uid" using mem_inv_user [OF assms Some] by simp
  have "users_ok ?s"
  proof (rule users_okI [OF wf])
    fix k v assume "map_of (mem_users ?s) k = Some v"
    then show "User_ID v = k \<and>
        (User_Email v \<noteq> [] \<longrightarrow> map_of (mem_usersByEmail ?s) (User_Email v) = Some v)"
      using mem_inv_user [OF assms, of k v] mem_inv_user [OF assms Some] Some
      by (auto simp: Memory_Delete_def split: if_splits)
  next
    fix e v assume "map_of (mem_usersByEmail ?s) e = Some v"
    then show "e \<noteq> [] \<and> User_Email v = e \<and> map_of (mem_users ?s) (User_ID v) = Some v"
      using mem_inv_by_email [OF assms, of e v] Some
      by (auto simp: Memory_Delete_def split: if_splits)
  qed
  moreover have others: "has_user ?s v" if "has_user s v" "v \<noteq> uid" for v
    using that Some by (simp add: Memory_Delete_def has_user_def)
  have "owned_ok ?s"
    using assms Some others unfolding mem_inv_def owned_ok_def
    by (auto simp: Memory_Delete_def elim!: map_all_DeleteFunc map_all_del_other)
  ultimately show ?thesis using wf by (simp add: mem_inv_def)
qed

text \<open>The remaining methods write one owned table; the row they add belongs to a user
  they have just looked up.\<close>

lemma requireUser_None: "Memory_requireUser u s = None \<longleftrightarrow> has_user s u"
  by (auto simp: Memory_requireUser_def has_user_def split: option.splits)

lemma mem_inv_tokens:
  assumes "mem_inv s" "wf_map m" "map_all (\<lambda>h t. RT_Hash t = h \<and> has_user s (RT_UserID t)) m"
  shows "mem_inv (s\<lparr>mem_refreshTokens := m\<rparr>)"
  using assms by (simp add: mem_inv_defs)

lemma mem_inv_pats:
  assumes "mem_inv s" "wf_map m" "map_all (\<lambda>h p. PAT_Hash p = h \<and> has_user s (PAT_UserID p)) m"
  shows "mem_inv (s\<lparr>mem_pats := m\<rparr>)"
  using assms by (simp add: mem_inv_defs)

lemma mem_inv_challenges:
  assumes "mem_inv s" "wf_map m" "map_all (\<lambda>n c. Ch_Nonce c = n) m"
  shows "mem_inv (s\<lparr>mem_challenges := m\<rparr>)"
  using assms by (simp add: mem_inv_defs)

lemmas mem_inv_rows = mem_inv_tokens mem_inv_pats mem_inv_challenges

lemma mem_inv_SaveRefreshToken:
  "mem_inv s \<Longrightarrow> mem_inv (snd (Memory_SaveRefreshToken token now s))"
  by (auto simp: Memory_SaveRefreshToken_def Let_def requireUser_None mem_inv_defs
      intro!: mem_inv_tokens split: option.splits)

lemma mem_inv_RotateRefreshToken:
  "mem_inv s \<Longrightarrow> mem_inv (snd (Memory_RotateRefreshToken hash now s))"
  by (auto simp: Memory_RotateRefreshToken_def Let_def dest: mem_inv_token
      intro!: mem_inv_tokens map_all_set split: option.splits)
    (auto simp: mem_inv_defs)

lemma mem_inv_RevokeTokens: "mem_inv s \<Longrightarrow> mem_inv (snd (Memory_RevokeTokens hash now s))"
  by (auto simp: Memory_RevokeTokens_def map_all_each mem_inv_defs
      intro!: mem_inv_tokens elim!: map_all_mono)

lemma mem_inv_savePATLocked:
  "mem_inv s \<Longrightarrow> has_user s (PAT_UserID pat) \<Longrightarrow> mem_inv (snd (Memory_savePATLocked pat now s))"
  by (auto simp: Memory_savePATLocked_def Let_def intro!: mem_inv_pats map_all_set)
    (auto simp: mem_inv_defs)

lemma mem_inv_SavePAT: "mem_inv s \<Longrightarrow> mem_inv (snd (Memory_SavePAT pat now s))"
  by (auto simp: Memory_SavePAT_def requireUser_None mem_inv_savePATLocked split: option.splits)

lemma mem_inv_prunePATs:
  "mem_inv s \<Longrightarrow> mem_inv (s\<lparr>mem_pats := maps_DeleteFunc p (mem_pats s)\<rparr>)"
  by (rule mem_inv_pats) (auto simp: mem_inv_defs elim!: map_all_DeleteFunc)

lemma mem_inv_SavePATLimited: "mem_inv s \<Longrightarrow> mem_inv (snd (Memory_SavePATLimited pat limit at now s))"
  by (auto simp: Memory_SavePATLimited_def Let_def requireUser_None
      intro!: mem_inv_savePATLocked mem_inv_prunePATs split: option.splits)

lemma mem_inv_DeletePAT: "mem_inv s \<Longrightarrow> mem_inv (snd (Memory_DeletePAT u i s))"
  by (auto simp: Memory_DeletePAT_def mem_inv_defs intro!: mem_inv_pats split: option.splits)

lemma mem_inv_TouchPAT: "mem_inv s \<Longrightarrow> mem_inv (snd (Memory_TouchPAT h t s))"
  by (auto simp: Memory_TouchPAT_def dest: mem_inv_pat intro!: mem_inv_pats map_all_set
      split: option.splits) (auto simp: mem_inv_defs)

lemma mem_inv_SaveOAuthIdentity: "mem_inv s \<Longrightarrow> mem_inv (snd (Memory_SaveOAuthIdentity i now s))"
  by (auto simp: Memory_SaveOAuthIdentity_def Let_def requireUser_None mem_inv_defs
      intro!: map_all_set split: option.splits)

lemma mem_inv_SaveWalletIdentity: "mem_inv s \<Longrightarrow> mem_inv (snd (Memory_SaveWalletIdentity i now s))"
  by (auto simp: Memory_SaveWalletIdentity_def Let_def requireUser_None mem_inv_defs
      intro!: map_all_set split: option.splits)

lemma mem_inv_SaveChallenge: "mem_inv s \<Longrightarrow> mem_inv (snd (Memory_SaveChallenge c now s))"
  by (auto simp: Memory_SaveChallenge_def Let_def mem_inv_defs
      intro!: mem_inv_challenges map_all_set elim!: map_all_DeleteFunc)

lemma mem_inv_GetChallenge: "mem_inv s \<Longrightarrow> mem_inv (snd (Memory_GetChallenge n now s))"
  by (auto simp: Memory_GetChallenge_def mem_inv_defs intro!: mem_inv_challenges
      split: option.splits)

lemma mem_inv_DeleteChallenge: "mem_inv s \<Longrightarrow> mem_inv (snd (Memory_DeleteChallenge n s))"
  by (auto simp: Memory_DeleteChallenge_def mem_inv_defs intro!: mem_inv_challenges)

lemma mem_inv_SavePasswordHash: "mem_inv s \<Longrightarrow> mem_inv (snd (Memory_SavePasswordHash u h s))"
  by (auto simp: Memory_SavePasswordHash_def requireUser_None mem_inv_defs
      intro!: map_all_set split: option.splits)

lemmas mem_inv_methods =
  mem_inv_Create mem_inv_Delete mem_inv_SaveRefreshToken mem_inv_RotateRefreshToken
  mem_inv_RevokeTokens mem_inv_SavePAT mem_inv_SavePATLimited mem_inv_DeletePAT mem_inv_TouchPAT
  mem_inv_SaveOAuthIdentity mem_inv_SaveWalletIdentity mem_inv_SaveChallenge mem_inv_GetChallenge
  mem_inv_DeleteChallenge mem_inv_SavePasswordHash

end
