(* ===== verification/Memory_Session.thy ===== *)
theory Memory_Session
  imports Memory_Invariant
begin

text \<open>
  Sessions in the in-memory backend. The first part discharges the token-store contract for
  \<^verbatim>\<open>memory.Store\<close>. The second part runs arbitrary sequences of the backend's atomic
  methods: since a method holds the mutex, a sequence of methods is what any interleaving of
  concurrent requests does to the store.
\<close>

section \<open>The backend keeps the token-store contract\<close>

abbreviation mem_tokens :: "Store \<Rightarrow> string \<Rightarrow> RefreshToken option" where
  "mem_tokens s \<equiv> map_of (mem_refreshTokens s)"

text \<open>The loop of \<^verbatim>\<open>GetRefreshFamily\<close>, whatever order the map is iterated in.\<close>

lemma familyStep_SessionEnded:
  "SessionEnded (fold (Memory_familyStep root) xs f) \<longleftrightarrow>
     SessionEnded f \<or> (\<exists>t\<in>set xs. inFamily root t \<and> RT_EndedAt t \<noteq> None)"
proof (induction xs arbitrary: f)
  case (Cons t xs)
  have "SessionEnded (Memory_familyStep root t f) \<longleftrightarrow>
      SessionEnded f \<or> inFamily root t \<and> RT_EndedAt t \<noteq> None"
    by (auto simp: Memory_familyStep_def inFamily_def Let_def split: option.splits)
  with Cons show ?case by auto
qed simp

lemma familyStep_upper:
  "LastRotatedAt f = Some r \<or> (\<exists>t\<in>set xs. inFamily root t \<and> RT_RotatedAt t = Some r) \<Longrightarrow>
   \<exists>l. LastRotatedAt (fold (Memory_familyStep root) xs f) = Some l \<and> r \<le> l"
proof (induction xs arbitrary: f r)
  case (Cons t xs)
  have "\<exists>r'. LastRotatedAt (Memory_familyStep root t f) = Some r' \<and> r \<le> r'"
    if "LastRotatedAt f = Some r \<or> inFamily root t \<and> RT_RotatedAt t = Some r"
    using that by (auto simp: Memory_familyStep_def inFamily_def Let_def split: option.splits)
  with Cons.prems Cons.IH [of "Memory_familyStep root t f"] show ?case
    by (fastforce intro: order_trans)
qed simp

lemma familyStep_attained:
  "LastRotatedAt (fold (Memory_familyStep root) xs f) = Some l \<Longrightarrow>
   LastRotatedAt f = Some l \<or> (\<exists>t\<in>set xs. inFamily root t \<and> RT_RotatedAt t = Some l)"
proof (induction xs arbitrary: f)
  case (Cons t xs)
  have "LastRotatedAt (Memory_familyStep root t f) = Some l \<Longrightarrow>
      LastRotatedAt f = Some l \<or> inFamily root t \<and> RT_RotatedAt t = Some l"
    by (auto simp: Memory_familyStep_def inFamily_def Let_def split: option.splits if_splits)
  with Cons show ?case by auto
qed simp

lemma Memory_family_spec:
  assumes "mem_inv s" "Memory_GetRefreshFamily root s = Inr f"
  shows "(SessionEnded f \<longleftrightarrow>
      (\<exists>h t. mem_tokens s h = Some t \<and> inFamily root t \<and> RT_EndedAt t \<noteq> None)) \<and>
    (\<forall>h t r. mem_tokens s h = Some t \<and> inFamily root t \<and> RT_RotatedAt t = Some r \<longrightarrow>
      (\<exists>l. LastRotatedAt f = Some l \<and> r \<le> l)) \<and>
    (\<forall>l. LastRotatedAt f = Some l \<longrightarrow>
      (\<exists>h t. mem_tokens s h = Some t \<and> inFamily root t \<and> RT_RotatedAt t = Some l))"
proof -
  let ?f0 = "\<lparr>SessionEnded = False, LastRotatedAt = None\<rparr>"
  have f: "f = fold (Memory_familyStep root) (map_values (mem_refreshTokens s)) ?f0"
    using assms(2) by (simp add: Memory_GetRefreshFamily_def)
  have vals: "t \<in> set (map_values (mem_refreshTokens s)) \<longleftrightarrow> (\<exists>h. mem_tokens s h = Some t)" for t
    using assms(1) by (simp add: set_map_values mem_inv_def mem_wf_def)
  show ?thesis
    using familyStep_SessionEnded [of root "map_values (mem_refreshTokens s)" ?f0]
      familyStep_upper [of ?f0 _ "map_values (mem_refreshTokens s)" root]
      familyStep_attained [of root "map_values (mem_refreshTokens s)" ?f0]
    unfolding f Bex_def vals by (intro conjI; simp; blast)
qed

interpretation mem_ts: token_store memTokenStore mem_tokens mem_inv "\<lambda>t. t" "\<lambda>t. t"
proof unfold_locales
  fix s h t assume "mem_inv s" "mem_tokens s h = Some t"
  then show "RT_Hash t = h" by (auto dest: mem_inv_token)
next
  fix s h now r s'
  assume s: "mem_inv s" and r: "RotateRefreshToken memTokenStore h now s = ((r, None), s')"
  then have "mem_inv s'" using mem_inv_RotateRefreshToken [OF s, of h now] by simp
  then show "mem_inv s' \<and> (\<exists>t. mem_tokens s h = Some t \<and> \<not> RT_Revoked t \<and> now < RT_ExpiresAt t \<and>
        r = Some (t\<lparr>RT_Revoked := True, RT_RotatedAt := Some now\<rparr>) \<and>
        mem_tokens s' = (mem_tokens s)(h \<mapsto> t\<lparr>RT_Revoked := True, RT_RotatedAt := Some now\<rparr>))"
    using r by (auto simp: Memory_RotateRefreshToken_def Let_def split: option.splits if_splits)
next
  fix s h now r e s'
  assume s: "mem_inv s" and r: "RotateRefreshToken memTokenStore h now s = ((r, Some e), s')"
  then show "mem_inv s' \<and> mem_tokens s' = mem_tokens s \<and>
      (errors_Is e Store_ErrTokenRevoked \<longrightarrow> (\<exists>t. mem_tokens s h = Some t \<and> r = Some t \<and> RT_Revoked t)) \<and>
      (errors_Is e Store_ErrTokenExpired \<longrightarrow> (\<exists>t. mem_tokens s h = Some t \<and> \<not> now < RT_ExpiresAt t)) \<and>
      (errors_Is e Store_ErrTokenNotFound \<longrightarrow> mem_tokens s h = None)"
    by (auto simp: Memory_RotateRefreshToken_def Let_def split: option.splits if_splits)
next
  fix s t now u s'
  assume s: "mem_inv s" and r: "SaveRefreshToken memTokenStore t now s = (Inr u, s')"
  then have inv: "mem_inv s'" using mem_inv_SaveRefreshToken [OF s, of t now] by simp
  have tab: "mem_tokens s' = (mem_tokens s)(RT_Hash t \<mapsto> t\<lparr>RT_CreatedAt :=
      if time_IsZero (RT_CreatedAt t) then now else RT_CreatedAt t\<rparr>)"
    using r by (cases t) (auto simp: Memory_SaveRefreshToken_def Let_def fun_eq_iff
        split: option.splits if_splits)
  moreover have "RT_Parent t \<noteq> '''' \<longrightarrow>
        (\<exists>root. mem_tokens s (RT_Parent t) = Some root \<and> RT_EndedAt root = None)"
    using r by (auto simp: Memory_SaveRefreshToken_def Let_def split: option.splits if_splits)
  ultimately show "mem_inv s' \<and> (RT_Parent t \<noteq> '''' \<longrightarrow>
        (\<exists>root. mem_tokens s (RT_Parent t) = Some root \<and> RT_EndedAt root = None)) \<and>
      (\<exists>c. mem_tokens s' = (mem_tokens s)(RT_Hash t \<mapsto> t\<lparr>RT_CreatedAt := c\<rparr>))"
    using inv by blast
next
  fix s t now e s'
  assume "mem_inv s" "SaveRefreshToken memTokenStore t now s = (Inl e, s')"
  then show "mem_inv s' \<and> mem_tokens s' = mem_tokens s"
    by (auto simp: Memory_SaveRefreshToken_def Let_def split: option.splits if_splits)
next
  fix s h now u s'
  assume s: "mem_inv s" and r: "RevokeTokens memTokenStore h now s = (Inr u, s')"
  then have "mem_inv s'" using mem_inv_RevokeTokens [OF s, of h now] by simp
  moreover have "mem_tokens s' =
      (\<lambda>k. map_option (\<lambda>t. if inFamily h t then endToken now t else t) (mem_tokens s k))"
    using r by (auto simp: Memory_RevokeTokens_def inFamily_def fun_eq_iff)
  ultimately show "mem_inv s' \<and> (\<exists>at. mem_tokens s' =
      (\<lambda>k. map_option (\<lambda>t. if inFamily h t then endToken at t else t) (mem_tokens s k)))" by blast
next
  fix s h now e s'
  assume "mem_inv s" "RevokeTokens memTokenStore h now s = (Inl e, s')"
  then show "mem_inv s' \<and> mem_tokens s' = mem_tokens s" by (simp add: Memory_RevokeTokens_def)
next
  fix s h t assume "mem_inv s" "GetRefreshToken memTokenStore h s = Inr t"
  then show "mem_tokens s h = Some t" by (auto simp: Memory_GetRefreshToken_def split: option.splits)
next
  fix s h e assume "mem_inv s" "GetRefreshToken memTokenStore h s = Inl e"
  then show "mem_tokens s h = None" by (auto simp: Memory_GetRefreshToken_def split: option.splits)
next
  fix s root f assume "mem_inv s" "GetRefreshFamily memTokenStore root s = Inr f"
  then show "(SessionEnded f \<longleftrightarrow>
      (\<exists>h t. mem_tokens s h = Some t \<and> inFamily root t \<and> RT_EndedAt t \<noteq> None)) \<and>
    (\<forall>h t r. mem_tokens s h = Some t \<and> inFamily root t \<and> RT_RotatedAt t = Some r \<longrightarrow>
      (\<exists>l. LastRotatedAt f = Some l \<and> r \<le> l)) \<and>
    (\<forall>l. LastRotatedAt f = Some l \<longrightarrow>
      (\<exists>h t. mem_tokens s h = Some t \<and> inFamily root t \<and> RT_RotatedAt t = Some l))"
    by (intro Memory_family_spec) simp_all
qed simp_all

section \<open>Sequences of methods\<close>

text \<open>The state-changing methods as data; \<open>apply_op\<close> runs one, \<open>run_ops\<close> a sequence.\<close>

datatype mem_op =
    OpCreate User time
  | OpDelete string
  | OpSaveRefreshToken RefreshToken time
  | OpRotateRefreshToken string time
  | OpRevokeTokens string time
  | OpSavePAT PersonalAccessToken time
  | OpSavePATLimited PersonalAccessToken int time time
  | OpDeletePAT string string
  | OpTouchPAT string time
  | OpSaveOAuthIdentity OAuthIdentity time
  | OpSaveWalletIdentity WalletIdentity time
  | OpSaveChallenge Challenge time
  | OpGetChallenge string time
  | OpDeleteChallenge string
  | OpSavePasswordHash string string

fun apply_op :: "mem_op \<Rightarrow> Store \<Rightarrow> Store" where
  "apply_op (OpCreate u now) s = snd (Memory_Create u now s)"
| "apply_op (OpDelete uid) s = snd (Memory_Delete uid s)"
| "apply_op (OpSaveRefreshToken t now) s = snd (Memory_SaveRefreshToken t now s)"
| "apply_op (OpRotateRefreshToken h now) s = snd (Memory_RotateRefreshToken h now s)"
| "apply_op (OpRevokeTokens h now) s = snd (Memory_RevokeTokens h now s)"
| "apply_op (OpSavePAT p now) s = snd (Memory_SavePAT p now s)"
| "apply_op (OpSavePATLimited p l at now) s = snd (Memory_SavePATLimited p l at now s)"
| "apply_op (OpDeletePAT u i) s = snd (Memory_DeletePAT u i s)"
| "apply_op (OpTouchPAT h t) s = snd (Memory_TouchPAT h t s)"
| "apply_op (OpSaveOAuthIdentity i now) s = snd (Memory_SaveOAuthIdentity i now s)"
| "apply_op (OpSaveWalletIdentity i now) s = snd (Memory_SaveWalletIdentity i now s)"
| "apply_op (OpSaveChallenge c now) s = snd (Memory_SaveChallenge c now s)"
| "apply_op (OpGetChallenge n now) s = snd (Memory_GetChallenge n now s)"
| "apply_op (OpDeleteChallenge n) s = snd (Memory_DeleteChallenge n s)"
| "apply_op (OpSavePasswordHash u h) s = snd (Memory_SavePasswordHash u h s)"

definition run_ops :: "mem_op list \<Rightarrow> Store \<Rightarrow> Store" where
  "run_ops ops s = fold apply_op ops s"

lemma run_ops_simps [simp]:
  "run_ops [] s = s" "run_ops (op # ops) s = run_ops ops (apply_op op s)"
  by (simp_all add: run_ops_def)

lemma mem_inv_apply_op: "mem_inv s \<Longrightarrow> mem_inv (apply_op op s)"
  by (cases op) (simp_all add: mem_inv_methods)

lemma mem_inv_run_ops: "mem_inv s \<Longrightarrow> mem_inv (run_ops ops s)"
  by (induction ops arbitrary: s) (auto dest: mem_inv_apply_op)

text \<open>Only five methods write refresh tokens.\<close>

fun writes_tokens :: "mem_op \<Rightarrow> bool" where
  "writes_tokens (OpDelete _) = True"
| "writes_tokens (OpSaveRefreshToken _ _) = True"
| "writes_tokens (OpRotateRefreshToken _ _) = True"
| "writes_tokens (OpRevokeTokens _ _) = True"
| "writes_tokens _ = False"

lemma apply_op_tokens:
  "\<not> writes_tokens op \<Longrightarrow> mem_refreshTokens (apply_op op s) = mem_refreshTokens s"
  by (cases op) (auto simp: backend_def Let_def split: option.splits prod.splits)

lemma Memory_Delete_tokens:
  "mem_inv s \<Longrightarrow> mem_tokens (snd (Memory_Delete uid s)) h = Some t \<Longrightarrow> mem_tokens s h = Some t"
  by (auto simp: Memory_Delete_def map_of_DeleteFunc mem_inv_def mem_wf_def
      split: option.splits if_splits)

text \<open>An operation saves hash \<open>h\<close> when it stores a refresh token under it.\<close>

fun saves_hash :: "string \<Rightarrow> mem_op \<Rightarrow> bool" where
  "saves_hash h (OpSaveRefreshToken t _) = (RT_Hash t = h)"
| "saves_hash h _ = False"

text \<open>An operation deletes user \<open>u\<close>.\<close>

fun deletes_user :: "string \<Rightarrow> mem_op \<Rightarrow> bool" where
  "deletes_user u (OpDelete uid) = (uid = u)"
| "deletes_user u _ = False"

lemma session_over_submap:
  "session_over root tab \<Longrightarrow> (\<And>h t. tab' h = Some t \<Longrightarrow> tab h = Some t) \<Longrightarrow> session_over root tab'"
  unfolding session_over_def by blast

lemma apply_op_session_over:
  assumes "mem_inv s" "session_over root (mem_tokens s)" "root \<noteq> ''''" "\<not> saves_hash root op"
  shows "session_over root (mem_tokens (apply_op op s))"
proof (cases "writes_tokens op")
  case False
  then show ?thesis using assms by (simp add: apply_op_tokens)
next
  case True
  then show ?thesis
  proof (cases rule: writes_tokens.elims(2))
    case (1 uid)
    then show ?thesis using assms
      by (auto elim!: session_over_submap dest: Memory_Delete_tokens)
  next
    case (2 t now)
    then show ?thesis using assms mem_ts.over_save_keeps [OF assms(1-3), of t now]
      by (simp add: prod_eq_iff)
  next
    case (3 h now)
    then show ?thesis using mem_ts.over_rotate_keeps [OF assms(1,2), of h now]
      by (simp add: prod_eq_iff)
  next
    case (4 h now)
    then show ?thesis using mem_ts.over_revoke_keeps [OF assms(1,2), of h now]
      by (simp add: prod_eq_iff)
  qed
qed

lemma run_ops_session_over:
  "mem_inv s \<Longrightarrow> session_over root (mem_tokens s) \<Longrightarrow> root \<noteq> '''' \<Longrightarrow>
   list_all (\<lambda>op. \<not> saves_hash root op) ops \<Longrightarrow> session_over root (mem_tokens (run_ops ops s))"
  by (induction ops arbitrary: s) (auto simp: apply_op_session_over mem_inv_apply_op)

section \<open>Rotation is exclusive\<close>

definition rotates :: "string \<Rightarrow> mem_op \<Rightarrow> Store \<Rightarrow> bool" where
  "rotates h op s \<longleftrightarrow> (case op of
     OpRotateRefreshToken h' now \<Rightarrow> h' = h \<and> snd (fst (Memory_RotateRefreshToken h' now s)) = None
   | _ \<Rightarrow> False)"

fun rotations :: "string \<Rightarrow> mem_op list \<Rightarrow> Store \<Rightarrow> nat" where
  "rotations h [] s = 0"
| "rotations h (op # ops) s = (if rotates h op s then 1 else 0) + rotations h ops (apply_op op s)"

text \<open>Once revoked, a token is never live again.\<close>

definition spent :: "string \<Rightarrow> Store \<Rightarrow> bool" where
  "spent h s \<longleftrightarrow> (\<forall>t. mem_tokens s h = Some t \<longrightarrow> RT_Revoked t)"

lemma rotates_spent: "rotates h op s \<Longrightarrow> spent h (apply_op op s)"
  by (auto simp: rotates_def spent_def Memory_RotateRefreshToken_def Let_def
      split: mem_op.splits option.splits if_splits)

lemma spent_no_rotate: "spent h s \<Longrightarrow> \<not> rotates h op s"
  by (auto simp: rotates_def spent_def Memory_RotateRefreshToken_def Let_def
      split: mem_op.splits option.splits if_splits)

lemma spent_apply_op:
  assumes "mem_inv s" "spent h s" "\<not> saves_hash h op"
  shows "spent h (apply_op op s)"
proof (cases "writes_tokens op")
  case False
  then show ?thesis using assms by (simp add: apply_op_tokens spent_def)
next
  case True
  then show ?thesis
  proof (cases rule: writes_tokens.elims(2))
    case (1 uid)
    then show ?thesis using assms by (auto simp: spent_def dest: Memory_Delete_tokens)
  next
    case (2 t now)
    then show ?thesis using assms
      by (auto simp: spent_def Memory_SaveRefreshToken_def Let_def split: option.splits if_splits)
  next
    case (3 h' now)
    then show ?thesis using assms
      by (auto simp: spent_def Memory_RotateRefreshToken_def Let_def split: option.splits)
  next
    case (4 h' now)
    then show ?thesis using assms by (auto simp: spent_def Memory_RevokeTokens_def)
  qed
qed

lemma spent_rotations:
  "mem_inv s \<Longrightarrow> spent h s \<Longrightarrow> list_all (\<lambda>op. \<not> saves_hash h op) ops \<Longrightarrow> rotations h ops s = 0"
  by (induction ops arbitrary: s) (auto simp: spent_no_rotate spent_apply_op mem_inv_apply_op)

lemma rotations_at_most_one:
  "mem_inv s \<Longrightarrow> list_all (\<lambda>op. \<not> saves_hash h op) ops \<Longrightarrow> rotations h ops s \<le> 1"
  by (induction ops arbitrary: s)
    (auto simp: mem_inv_apply_op spent_rotations dest: rotates_spent)

section \<open>The PAT cap\<close>

definition user_pats :: "string \<Rightarrow> Store \<Rightarrow> PersonalAccessToken list" where
  "user_pats u s = filter (\<lambda>p. PAT_UserID p = u) (map_values (mem_pats s))"

definition capped :: "int \<Rightarrow> Store \<Rightarrow> bool" where
  "capped limit s \<longleftrightarrow> (\<forall>u. int (length (user_pats u s)) \<le> max 0 limit)"

lemma user_pats_DeleteFunc:
  "length (filter q (map_values (maps_DeleteFunc p m))) = length (filter (\<lambda>v. q v \<and> \<not> p v) (map_values m))"
  by (induction m) (auto simp: maps_DeleteFunc_def map_values_def)

lemma length_filter_mono:
  "(\<And>x. p x \<Longrightarrow> q x) \<Longrightarrow> length (filter p xs) \<le> length (filter q xs)"
  by (induction xs) (auto intro: le_SucI)

lemma user_pats_set:
  "map_of m k = None \<Longrightarrow> filter q (map_values (map_set k v m)) =
     filter q (map_values m) @ (if q v then [v] else [])"
  by (induction m) (auto simp: map_values_def)

lemma user_pats_del: "length (filter q (map_values (map_del k m))) \<le> length (filter q (map_values m))"
  by (induction m) (auto simp: map_values_def)

lemma user_pats_replace:
  "wf_map m \<Longrightarrow> map_of m k = Some v \<Longrightarrow> q v' = q v \<Longrightarrow>
   length (filter q (map_values (map_set k v' m))) = length (filter q (map_values m))"
  by (induction m) (auto simp: map_values_def)

text \<open>What a limited save leaves behind: at most the limit for the owner, nothing more for
  anybody else.\<close>

lemma SavePATLimited_counts:
  assumes "capped limit s"
  shows "capped limit (snd (Memory_SavePATLimited pat limit at now s))"
  unfolding capped_def
proof
  fix u
  let ?gone = "\<lambda>p. PAT_UserID p = PAT_UserID pat \<and> patExpired at p"
  let ?m = "maps_DeleteFunc ?gone (mem_pats s)"
  let ?n = "\<lambda>m. length (filter (\<lambda>p. PAT_UserID p = u) (map_values m))"
  have le: "?n ?m \<le> ?n (mem_pats s)"
    by (auto simp: user_pats_DeleteFunc intro!: length_filter_mono)
  have own: "?n ?m = length (filter (\<lambda>p. PAT_UserID p = u \<and> \<not> patExpired at p)
      (map_values (mem_pats s)))" if "u = PAT_UserID pat"
    using that by (simp add: user_pats_DeleteFunc cong: conj_cong)
  have old: "int (?n (mem_pats s)) \<le> max 0 limit"
    using assms by (simp add: capped_def user_pats_def)
  show "int (length (user_pats u (snd (Memory_SavePATLimited pat limit at now s)))) \<le> max 0 limit"
    using le own old
    by (auto simp: Memory_SavePATLimited_def Memory_savePATLocked_def Let_def user_pats_def
        user_pats_set split: option.splits)
qed

text \<open>An operation respects the cap when PATs are saved through \<^verbatim>\<open>SavePATLimited\<close> with
  this limit only.\<close>

fun capped_op :: "int \<Rightarrow> mem_op \<Rightarrow> bool" where
  "capped_op limit (OpSavePAT _ _) = False"
| "capped_op limit (OpSavePATLimited _ l _ _) = (l = limit)"
| "capped_op limit _ = True"

fun writes_pats :: "mem_op \<Rightarrow> bool" where
  "writes_pats (OpDelete _) = True"
| "writes_pats (OpSavePAT _ _) = True"
| "writes_pats (OpSavePATLimited _ _ _ _) = True"
| "writes_pats (OpDeletePAT _ _) = True"
| "writes_pats (OpTouchPAT _ _) = True"
| "writes_pats _ = False"

lemma apply_op_pats: "\<not> writes_pats op \<Longrightarrow> mem_pats (apply_op op s) = mem_pats s"
  by (cases op) (auto simp: backend_def Let_def split: option.splits)

lemma apply_op_capped:
  assumes "mem_inv s" "capped limit s" "capped_op limit op"
  shows "capped limit (apply_op op s)"
proof -
  have same: ?thesis if "mem_pats (apply_op op s) = mem_pats s"
    using assms(2) that by (simp add: capped_def user_pats_def)
  have fewer: ?thesis if "\<And>u. length (user_pats u (apply_op op s)) \<le> length (user_pats u s)"
    using assms(2) that unfolding capped_def by (meson nat_int_comparison(3) order_trans)
  show ?thesis
  proof (cases op)
    case (OpSavePATLimited p l at now)
    then show ?thesis using assms SavePATLimited_counts [of limit s p at now] by simp
  next
    case (OpDelete uid)
    then show ?thesis
      by (intro fewer) (auto simp: Memory_Delete_def user_pats_def user_pats_DeleteFunc
          intro!: length_filter_mono split: option.splits)
  next
    case (OpDeletePAT u i)
    then show ?thesis
      by (intro fewer) (auto simp: Memory_DeletePAT_def user_pats_def user_pats_del
          split: option.splits)
  next
    case (OpTouchPAT h t)
    then show ?thesis using assms(1)
      by (intro fewer) (auto simp: Memory_TouchPAT_def user_pats_def mem_inv_def mem_wf_def
          user_pats_replace split: option.splits)
  qed (use assms(3) same apply_op_pats [of op s] in auto)
qed

lemma run_ops_capped:
  "mem_inv s \<Longrightarrow> capped limit s \<Longrightarrow> list_all (capped_op limit) ops \<Longrightarrow> capped limit (run_ops ops s)"
  by (induction ops arbitrary: s) (auto simp: apply_op_capped mem_inv_apply_op)

end
