(* ===== verification/Memory_Properties.thy ===== *)
theory Memory_Properties
  imports Memory_Session
begin

text \<open>
  What the in-memory backend guarantees over any run: its invariant, unique emails, the delete
  cascade, exclusive rotation and the PAT cap. A run is any sequence of the backend's atomic
  methods from the empty store.
\<close>

text \<open>
  C18. Every reachable state of the in-memory backend satisfies its invariant: keys are distinct,
  the email index and the user table agree, every row is filed under its own key, and no
  password hash, refresh token, PAT or identity link outlives its user.
\<close>

theorem memory_reachable_inv: "mem_inv (run_ops ops Memory_New)"
  by (rule mem_inv_run_ops [OF mem_inv_New])

text \<open>
  One account per email. In every reachable state two users with the same non-empty email
  are the same user, the email lookup finds exactly that user, and a further \<^verbatim>\<open>Create\<close>
  with the email is refused with \<^verbatim>\<open>ErrUserExists\<close> and changes nothing.
\<close>

theorem memory_email_unique:
  assumes "s = run_ops ops Memory_New" "map_of (mem_users s) a = Some u" "User_Email u \<noteq> ''''"
  shows "(\<forall>b v. map_of (mem_users s) b = Some v \<and> User_Email v = User_Email u \<longrightarrow> b = a \<and> v = u) \<and>
    Memory_GetByEmail (User_Email u) s = Inr u \<and>
    (\<forall>v now. User_Email v = User_Email u \<longrightarrow>
       (\<exists>e. Memory_Create v now s = (Inl e, s) \<and> errors_Is e Store_ErrUserExists))"
proof -
  have inv: "mem_inv s" using assms(1) by (simp add: mem_inv_run_ops mem_inv_New)
  have u: "User_ID u = a" "map_of (mem_usersByEmail s) (User_Email u) = Some u"
    using mem_inv_user [OF inv assms(2)] assms(3) by auto
  have "b = a \<and> v = u" if "map_of (mem_users s) b = Some v" "User_Email v = User_Email u" for b v
    using mem_inv_user [OF inv that(1)] that(2) assms(3) u by auto
  moreover have "Memory_Create v now s = (Inl (Errorf ''%w: %s'' [Sentinel Store_ErrUserExists]), s)"
    if "User_Email v = User_Email u" for v now
    using that u assms(3) by (intro Memory_Create_err) simp
  ultimately show ?thesis using u by (auto simp: Memory_GetByEmail_def)
qed

definition demo_ann :: User where
  "demo_ann = \<lparr>User_ID = ''u1'', User_Email = ''a@b.co'', User_Roles = [], User_CreatedAt = 1, User_UpdatedAt = 1\<rparr>"

definition demo_run :: "mem_op list" where
  "demo_run = [OpCreate demo_ann 5,
     OpSaveRefreshToken \<lparr>RT_Hash = ''h'', RT_UserID = ''u1'', RT_Parent = '''', RT_ExpiresAt = 100, RT_CreatedAt = 5,
       RT_Revoked = False, RT_RotatedAt = None, RT_EndedAt = None\<rparr> 5,
     OpSavePATLimited \<lparr>PAT_ID = ''p'', PAT_Hash = ''ph'', PAT_UserID = ''u1'', PAT_Name = ''n'', PAT_Scopes = [],
       PAT_ExpiresAt = None, PAT_LastUsedAt = None, PAT_CreatedAt = 5\<rparr> 1 5 5]"

lemma demo_run_state:
  "run_ops demo_run Memory_New = \<lparr>mem_users = [(''u1'', demo_ann)], mem_usersByEmail = [(''a@b.co'', demo_ann)],
     mem_refreshTokens = [(''h'', \<lparr>RT_Hash = ''h'', RT_UserID = ''u1'', RT_Parent = '''', RT_ExpiresAt = 100,
       RT_CreatedAt = 5, RT_Revoked = False, RT_RotatedAt = None, RT_EndedAt = None\<rparr>)],
     mem_pats = [(''ph'', \<lparr>PAT_ID = ''p'', PAT_Hash = ''ph'', PAT_UserID = ''u1'', PAT_Name = ''n'', PAT_Scopes = [],
       PAT_ExpiresAt = None, PAT_LastUsedAt = None, PAT_CreatedAt = 5\<rparr>)],
     mem_passwordHashes = [], mem_oauthIdentities = [], mem_walletIdentities = [], mem_challenges = []\<rparr>"
proof -
  let ?t = "\<lparr>RT_Hash = ''h'', RT_UserID = ''u1'', RT_Parent = '''', RT_ExpiresAt = 100, RT_CreatedAt = 5,
       RT_Revoked = False, RT_RotatedAt = None, RT_EndedAt = None\<rparr>"
  have 1: "apply_op (OpCreate demo_ann 5) Memory_New =
      Memory_New\<lparr>mem_users := [(''u1'', demo_ann)], mem_usersByEmail := [(''a@b.co'', demo_ann)]\<rparr>"
    by (simp add: Memory_Create_def Memory_New_def demo_ann_def time_IsZero_def Let_def)
  have 2: "apply_op (OpSaveRefreshToken ?t 5)
      (Memory_New\<lparr>mem_users := [(''u1'', demo_ann)], mem_usersByEmail := [(''a@b.co'', demo_ann)]\<rparr>) =
      Memory_New\<lparr>mem_users := [(''u1'', demo_ann)], mem_usersByEmail := [(''a@b.co'', demo_ann)],
        mem_refreshTokens := [(''h'', ?t)]\<rparr>"
    by (simp add: Memory_SaveRefreshToken_def Memory_requireUser_def Memory_New_def time_IsZero_def Let_def)
  show ?thesis
    unfolding demo_run_def run_ops_simps 1 2
    by (simp add: Memory_SavePATLimited_def Memory_savePATLocked_def Memory_requireUser_def Memory_New_def
        time_IsZero_def Let_def maps_DeleteFunc_def map_values_def)
qed

theorem memory_email_unique_witness:
  "Memory_GetByEmail ''a@b.co'' (run_ops demo_run Memory_New) = Inr demo_ann"
proof -
  have "map_of (mem_users (run_ops demo_run Memory_New)) ''u1'' = Some demo_ann" "User_Email demo_ann \<noteq> ''''"
    by (simp_all add: demo_run_state) (simp add: demo_ann_def)
  from conjunct1 [OF conjunct2 [OF memory_email_unique [OF refl this]]] show ?thesis
    by (simp add: demo_ann_def)
qed

section \<open>Deleting an account\<close>

text \<open>No table holds a row of the user.\<close>

definition forgotten :: "string \<Rightarrow> Store \<Rightarrow> bool" where
  "forgotten uid s \<longleftrightarrow> map_of (mem_users s) uid = None \<and> map_of (mem_passwordHashes s) uid = None \<and>
     list_all (\<lambda>u. User_ID u \<noteq> uid) (map_values (mem_usersByEmail s)) \<and>
     list_all (\<lambda>t. RT_UserID t \<noteq> uid) (map_values (mem_refreshTokens s)) \<and>
     list_all (\<lambda>p. PAT_UserID p \<noteq> uid) (map_values (mem_pats s)) \<and>
     list_all (\<lambda>i. OI_UserID i \<noteq> uid) (map_values (mem_oauthIdentities s)) \<and>
     list_all (\<lambda>i. WI_UserID i \<noteq> uid) (map_values (mem_walletIdentities s))"

lemma values_DeleteFunc: "map_values (maps_DeleteFunc p m) = filter (\<lambda>v. \<not> p v) (map_values m)"
  by (simp add: map_values_def maps_DeleteFunc_def filter_map o_def)

lemma values_del: "set (map_values (map_del k m)) = snd ` {x \<in> set m. fst x \<noteq> k}"
  by (auto simp: map_values_def AList.delete_eq)

lemma owned_values:
  "map_all (\<lambda>k v. f k v \<and> has_user s (g v)) m \<Longrightarrow> \<not> has_user s uid \<Longrightarrow>
   list_all (\<lambda>v. g v \<noteq> uid) (map_values m)"
  by (auto simp: map_all_def map_values_def list_all_iff)

lemma mem_inv_no_rows:
  assumes "mem_inv s" "map_of (mem_users s) uid = None"
  shows "forgotten uid s"
proof -
  have nu: "\<not> has_user s uid" using assms(2) by (simp add: has_user_def)
  have wf: "wf_map (mem_refreshTokens s)" "wf_map (mem_pats s)" "wf_map (mem_oauthIdentities s)"
    "wf_map (mem_walletIdentities s)" "wf_map (mem_usersByEmail s)" "wf_map (mem_passwordHashes s)"
    using assms(1) by (simp_all add: mem_inv_def mem_wf_def)
  have o: "owned_ok s" and u: "users_ok s" using assms(1) by (simp_all add: mem_inv_def)
  have "map_of (mem_passwordHashes s) uid = None"
    using o nu wf by (cases "map_of (mem_passwordHashes s) uid") (auto simp: owned_ok_def map_all_iff)
  moreover have "list_all (\<lambda>u. User_ID u \<noteq> uid) (map_values (mem_usersByEmail s))"
    using u wf assms(2) by (auto simp: users_ok_def list_all_iff set_map_values map_all_iff)
  moreover note rows = o [unfolded owned_ok_def]
  note owned_values [OF conjunct1 [OF rows] nu] owned_values [OF conjunct1 [OF conjunct2 [OF rows]] nu]
    owned_values [OF conjunct1 [OF conjunct2 [OF conjunct2 [OF conjunct2 [OF rows]]]] nu]
    owned_values [OF conjunct1 [OF conjunct2 [OF conjunct2 [OF conjunct2 [OF conjunct2 [OF rows]]]]] nu]
  ultimately show ?thesis using assms(2) unfolding forgotten_def by simp
qed

text \<open>
  C19. Deleting an account removes it everywhere. After a successful \<^verbatim>\<open>Delete\<close> no table
  holds a row of the user (no login, no session, no PAT, no provider or wallet link survives),
  the rows of every other user are untouched, and a second \<^verbatim>\<open>Delete\<close> reports
  \<^verbatim>\<open>ErrUserNotFound\<close>.
\<close>

theorem memory_delete_cascade:
  assumes "mem_inv s" "map_of (mem_users s) uid \<noteq> None"
  shows "\<exists>s'. Memory_Delete uid s = (Inr (), s') \<and> forgotten uid s' \<and>
    (\<forall>k. k \<noteq> uid \<longrightarrow> map_of (mem_users s') k = map_of (mem_users s) k \<and>
       map_of (mem_passwordHashes s') k = map_of (mem_passwordHashes s) k) \<and>
    filter (\<lambda>t. RT_UserID t \<noteq> uid) (map_values (mem_refreshTokens s)) = map_values (mem_refreshTokens s') \<and>
    filter (\<lambda>p. PAT_UserID p \<noteq> uid) (map_values (mem_pats s)) = map_values (mem_pats s') \<and>
    filter (\<lambda>i. OI_UserID i \<noteq> uid) (map_values (mem_oauthIdentities s)) = map_values (mem_oauthIdentities s') \<and>
    filter (\<lambda>i. WI_UserID i \<noteq> uid) (map_values (mem_walletIdentities s)) = map_values (mem_walletIdentities s') \<and>
    (\<exists>e. Memory_Delete uid s' = (Inl e, s') \<and> errors_Is e Store_ErrUserNotFound)"
proof -
  obtain u where u: "map_of (mem_users s) uid = Some u" using assms(2) by auto
  obtain s' where s': "Memory_Delete uid s = (Inr (), s')" by (simp add: Memory_Delete_def u)
  have inv: "mem_inv s'" using mem_inv_Delete [OF assms(1), of uid] s' by simp
  have gone: "map_of (mem_users s') uid = None" using s' by (auto simp: Memory_Delete_def u)
  have "forgotten uid s'" by (rule mem_inv_no_rows [OF inv gone])
  moreover have "\<exists>e. Memory_Delete uid s' = (Inl e, s') \<and> errors_Is e Store_ErrUserNotFound"
    by (simp add: Memory_Delete_def gone)
  ultimately show ?thesis
    using s' by (auto simp: Memory_Delete_def u values_DeleteFunc)
qed

theorem memory_delete_cascade_witness:
  "\<exists>s'. Memory_Delete ''u1'' (run_ops demo_run Memory_New) = (Inr (), s') \<and> mem_refreshTokens s' = [] \<and>
     mem_pats s' = []"
proof -
  have "map_of (mem_users (run_ops demo_run Memory_New)) ''u1'' \<noteq> None" by (simp add: demo_run_state)
  from memory_delete_cascade [OF mem_inv_run_ops [OF mem_inv_New] this]
  obtain s' where s': "Memory_Delete ''u1'' (run_ops demo_run Memory_New) = (Inr (), s')"
    "filter (\<lambda>t. RT_UserID t \<noteq> ''u1'') (map_values (mem_refreshTokens (run_ops demo_run Memory_New))) = map_values (mem_refreshTokens s')"
    "filter (\<lambda>p. PAT_UserID p \<noteq> ''u1'') (map_values (mem_pats (run_ops demo_run Memory_New))) = map_values (mem_pats s')"
    by blast
  then show ?thesis by (simp add: demo_run_state) (simp add: map_values_def)
qed

section \<open>Rotation and the PAT cap\<close>

text \<open>
  A refresh token is rotated at most once. In any interleaving of store operations, of all
  attempts to rotate one token at most one succeeds (provided no new token is stored under the
  same hash).
\<close>

theorem memory_rotate_once:
  assumes "mem_inv s" "list_all (\<lambda>op. \<not> saves_hash h op) ops"
  shows "rotations h ops s \<le> 1"
  using assms by (rule rotations_at_most_one)

theorem memory_rotate_once_witness:
  "rotations ''h'' [OpRotateRefreshToken ''h'' 7, OpRotateRefreshToken ''h'' 7, OpRotateRefreshToken ''h'' 8]
     (run_ops demo_run Memory_New) = 1"
proof -
  let ?ops = "[OpRotateRefreshToken ''h'' 7, OpRotateRefreshToken ''h'' 7, OpRotateRefreshToken ''h'' 8]"
  have "rotates ''h'' (OpRotateRefreshToken ''h'' 7) (run_ops demo_run Memory_New)"
    by (simp add: rotates_def demo_run_state Memory_RotateRefreshToken_def Let_def)
  then have "1 \<le> rotations ''h'' ?ops (run_ops demo_run Memory_New)" by simp
  moreover have "rotations ''h'' ?ops (run_ops demo_run Memory_New) \<le> 1"
    using memory_rotate_once [OF mem_inv_run_ops [OF mem_inv_New], of "''h''" ?ops demo_run] by simp
  ultimately show ?thesis by linarith
qed

text \<open>
  C20. The PAT cap holds under any interleaving. While tokens are created only through
  \<^verbatim>\<open>SavePATLimited\<close> with one limit, no sequence of store operations leaves any user
  with more tokens than the limit: parallel creates cannot overshoot it.
\<close>

theorem memory_pat_cap:
  assumes "list_all (capped_op limit) ops"
  shows "int (length (user_pats u (run_ops ops Memory_New))) \<le> max 0 limit"
proof -
  have "capped limit Memory_New"
    by (simp add: capped_def user_pats_def Memory_New_def map_values_def)
  from run_ops_capped [OF mem_inv_New this assms] show ?thesis by (simp add: capped_def)
qed

theorem memory_pat_cap_witness:
  "int (length (user_pats ''u1'' (run_ops demo_run Memory_New))) \<le> 1"
  using memory_pat_cap [of 1 demo_run "''u1''"] by (simp add: demo_run_def)

end
