(* ===== verification/Go_Strings.thy ===== *)
theory Go_Strings
  imports Psina_Prelude
begin

text \<open>
  The parts of Go's \<^verbatim>\<open>strings\<close>, \<^verbatim>\<open>unicode\<close>, \<^verbatim>\<open>unicode/utf8\<close>,
  \<^verbatim>\<open>encoding/base64\<close>, \<^verbatim>\<open>encoding/hex\<close> and \<^verbatim>\<open>strconv\<close> that psina uses, on byte
  strings. Runes are decoded as \<^verbatim>\<open>utf8.DecodeRune\<close> does: an invalid sequence is the
  replacement rune, one byte wide. The lower-case mapping of runes beyond ASCII is Unicode
  table data and stays a parameter.
\<close>

section \<open>Bytes and runes\<close>

abbreviation byte :: "char \<Rightarrow> nat" where "byte c \<equiv> of_char c"

definition cont :: "nat \<Rightarrow> bool" where "cont b \<longleftrightarrow> 128 \<le> b \<and> b < 192"

definition runeError :: nat where "runeError = 65533"

text \<open>\<^verbatim>\<open>utf8.DecodeRune\<close> on a non-empty string: the rune and its width.\<close>

definition decode_rune :: "char \<Rightarrow> string \<Rightarrow> nat \<times> nat" where
  "decode_rune c rest =
    (let b0 = byte c in
     if b0 < 128 then (b0, 1)
     else if 194 \<le> b0 \<and> b0 < 224 then
       (case rest of
          c1 # _ \<Rightarrow> if cont (byte c1) then ((b0 mod 32) * 64 + byte c1 mod 64, 2) else (runeError, 1)
        | [] \<Rightarrow> (runeError, 1))
     else if 224 \<le> b0 \<and> b0 < 240 then
       (case rest of
          c1 # c2 # _ \<Rightarrow>
            if cont (byte c1) \<and> cont (byte c2) \<and> (b0 = 224 \<longrightarrow> 160 \<le> byte c1) \<and>
               (b0 = 237 \<longrightarrow> byte c1 < 160)
            then ((b0 mod 16) * 4096 + (byte c1 mod 64) * 64 + byte c2 mod 64, 3)
            else (runeError, 1)
        | _ \<Rightarrow> (runeError, 1))
     else if 240 \<le> b0 \<and> b0 < 245 then
       (case rest of
          c1 # c2 # c3 # _ \<Rightarrow>
            if cont (byte c1) \<and> cont (byte c2) \<and> cont (byte c3) \<and>
               (b0 = 240 \<longrightarrow> 144 \<le> byte c1) \<and> (b0 = 244 \<longrightarrow> byte c1 < 144)
            then ((b0 mod 8) * 262144 + (byte c1 mod 64) * 4096 + (byte c2 mod 64) * 64
                   + byte c3 mod 64, 4)
            else (runeError, 1)
        | _ \<Rightarrow> (runeError, 1))
     else (runeError, 1))"

text \<open>The runes of a string, each with the bytes it was read from.\<close>

fun runes :: "string \<Rightarrow> (nat \<times> string) list" where
  "runes [] = []"
| "runes (c # rest) =
     (fst (decode_rune c rest), c # take (snd (decode_rune c rest) - 1) rest) #
     runes (drop (snd (decode_rune c rest) - 1) rest)"

lemma concat_runes: "concat (map snd (runes s)) = s"
  by (induction s rule: runes.induct) simp_all

definition ascii :: "string \<Rightarrow> bool" where
  "ascii s \<longleftrightarrow> list_all (\<lambda>c. byte c < 128) s"

lemma decode_rune_ascii [simp]: "byte c < 128 \<Longrightarrow> decode_rune c rest = (byte c, 1)"
  by (simp add: decode_rune_def)

lemma runes_ascii: "ascii s \<Longrightarrow> runes s = map (\<lambda>c. (byte c, [c])) s"
  by (induction s) (simp_all add: ascii_def)

definition utf8_RuneCountInString :: "string \<Rightarrow> nat" where
  "utf8_RuneCountInString s = length (runes s)"

lemma RuneCount_le_length: "utf8_RuneCountInString s \<le> length s"
proof (induction s rule: runes.induct)
  case (2 c rest)
  have "length (drop (snd (decode_rune c rest) - 1) rest) \<le> length rest" by simp
  with 2 show ?case by (simp add: utf8_RuneCountInString_def)
qed (simp add: utf8_RuneCountInString_def)

definition unicode_IsControl :: "nat \<Rightarrow> bool" where
  "unicode_IsControl r \<longleftrightarrow> r < 32 \<or> 127 \<le> r \<and> r < 160"

definition unicode_IsSpace :: "nat \<Rightarrow> bool" where
  "unicode_IsSpace r \<longleftrightarrow> 9 \<le> r \<and> r \<le> 13 \<or> r = 32 \<or> r = 133 \<or> r = 160 \<or> r = 5760 \<or>
     8192 \<le> r \<and> r \<le> 8202 \<or> r = 8232 \<or> r = 8233 \<or> r = 8239 \<or> r = 8287 \<or> r = 12288"

section \<open>strings\<close>

definition trimLeft :: "(nat \<times> string) list \<Rightarrow> (nat \<times> string) list" where
  "trimLeft = dropWhile (\<lambda>p. unicode_IsSpace (fst p))"

definition strings_TrimSpace :: "string \<Rightarrow> string" where
  "strings_TrimSpace s = concat (map snd (rev (trimLeft (rev (trimLeft (runes s))))))"

text \<open>On ASCII strings trimming works byte by byte.\<close>

definition sp :: "char \<Rightarrow> bool" where
  "sp c \<longleftrightarrow> unicode_IsSpace (byte c)"

lemma TrimSpace_ascii:
  assumes "ascii s"
  shows "strings_TrimSpace s = rev (dropWhile sp (rev (dropWhile sp s)))"
proof -
  have un: "(\<lambda>p. unicode_IsSpace (fst p)) \<circ> (\<lambda>c. (byte c, [c])) = sp"
    by (rule ext) (simp add: sp_def)
  show ?thesis
    by (simp add: strings_TrimSpace_def trimLeft_def runes_ascii [OF assms] dropWhile_map un
        rev_map comp_def)
qed

definition ascii_lower :: "nat \<Rightarrow> nat" where
  "ascii_lower r = (if 65 \<le> r \<and> r \<le> 90 then r + 32 else r)"

definition encode_rune :: "nat \<Rightarrow> string" where
  "encode_rune r =
    (if r < 128 then [char_of r]
     else if r < 2048 then [char_of (192 + r div 64), char_of (128 + r mod 64)]
     else if 55296 \<le> r \<and> r < 57344 \<or> 1114112 \<le> r
     then [char_of (239::nat), char_of (191::nat), char_of (189::nat)]
     else if r < 65536
     then [char_of (224 + r div 4096), char_of (128 + r div 64 mod 64), char_of (128 + r mod 64)]
     else [char_of (240 + r div 262144), char_of (128 + r div 4096 mod 64),
           char_of (128 + r div 64 mod 64), char_of (128 + r mod 64)])"

text \<open>\<^verbatim>\<open>strings.ToLower\<close>; \<open>uni\<close> is \<^verbatim>\<open>unicode.ToLower\<close> on runes beyond ASCII.\<close>

definition strings_ToLower :: "(nat \<Rightarrow> nat) \<Rightarrow> string \<Rightarrow> string" where
  "strings_ToLower uni s =
    (if ascii s then map (\<lambda>c. char_of (ascii_lower (byte c))) s
     else concat (map (\<lambda>p. encode_rune (if fst p < 128 then ascii_lower (fst p) else uni (fst p)))
                    (runes s)))"

definition strings_HasPrefix :: "string \<Rightarrow> string \<Rightarrow> bool" where
  "strings_HasPrefix s pre \<longleftrightarrow> take (length pre) s = pre"

definition strings_TrimPrefix :: "string \<Rightarrow> string \<Rightarrow> string" where
  "strings_TrimPrefix s pre = (if strings_HasPrefix s pre then drop (length pre) s else s)"

definition strings_CutPrefix :: "string \<Rightarrow> string \<Rightarrow> string \<times> bool" where
  "strings_CutPrefix s pre =
    (if strings_HasPrefix s pre then (drop (length pre) s, True) else (s, False))"

lemma HasPrefix_append [simp]: "strings_HasPrefix (pre @ s) pre"
  by (simp add: strings_HasPrefix_def)

lemma TrimPrefix_append [simp]: "strings_TrimPrefix (pre @ s) pre = s"
  by (simp add: strings_TrimPrefix_def)

lemma HasPrefixE: "strings_HasPrefix s pre \<Longrightarrow> \<exists>t. s = pre @ t"
  by (metis append_take_drop_id strings_HasPrefix_def)

text \<open>\<^verbatim>\<open>strings.Split\<close> at a one-byte separator, \<^verbatim>\<open>strings.Join\<close>,
  \<^verbatim>\<open>strings.Cut\<close>.\<close>

fun strings_Split :: "char \<Rightarrow> string \<Rightarrow> string list" where
  "strings_Split sep [] = [[]]"
| "strings_Split sep (c # cs) =
     (if c = sep then [] # strings_Split sep cs
      else (c # hd (strings_Split sep cs)) # tl (strings_Split sep cs))"

fun strings_Join :: "string \<Rightarrow> string list \<Rightarrow> string" where
  "strings_Join sep [] = []"
| "strings_Join sep [x] = x"
| "strings_Join sep (x # y # xs) = x @ sep @ strings_Join sep (y # xs)"

definition strings_Cut :: "char \<Rightarrow> string \<Rightarrow> string \<times> string \<times> bool" where
  "strings_Cut sep s =
    (if sep \<in> set s then (takeWhile (\<lambda>c. c \<noteq> sep) s, tl (dropWhile (\<lambda>c. c \<noteq> sep) s), True)
     else (s, [], False))"

lemma Split_nonempty [simp]: "strings_Split sep s \<noteq> []"
  by (cases s) auto

lemma Split_no_sep [simp]: "sep \<notin> set s \<Longrightarrow> strings_Split sep s = [s]"
  by (induction s) auto

lemma Split_append: "sep \<notin> set s \<Longrightarrow> strings_Split sep (s @ sep # t) = s # strings_Split sep t"
  by (induction s) auto

lemma Split_Join:
  "xs \<noteq> [] \<Longrightarrow> list_all (\<lambda>x. sep \<notin> set x) xs \<Longrightarrow> strings_Split sep (strings_Join [sep] xs) = xs"
  by (induction "[sep]" xs rule: strings_Join.induct) (auto simp: Split_append)

lemma Join_Split: "strings_Join [sep] (strings_Split sep s) = s"
proof (induction s)
  case (Cons c s)
  obtain x xs where "strings_Split sep s = x # xs"
    using Split_nonempty neq_Nil_conv by metis
  with Cons show ?case by (cases xs) auto
qed simp

text \<open>The part of a string after the last occurrence of a byte.\<close>

definition after_last :: "char \<Rightarrow> string \<Rightarrow> string" where
  "after_last c s = rev (takeWhile (\<lambda>x. x \<noteq> c) (rev s))"

section \<open>strconv\<close>

fun digits :: "nat \<Rightarrow> string" where
  "digits n = (if n < 10 then [char_of (48 + n)] else digits (n div 10) @ [char_of (48 + n mod 10)])"

declare digits.simps [simp del]

definition strconv_Itoa :: "int \<Rightarrow> string" where
  "strconv_Itoa i = (if i < 0 then CHR ''-'' # digits (nat (- i)) else digits (nat i))"

section \<open>base64\<close>

text \<open>\<open>url\<close> selects \<^verbatim>\<open>RawURLEncoding\<close> against \<^verbatim>\<open>RawStdEncoding\<close>; neither pads.\<close>

definition b64_char :: "bool \<Rightarrow> nat \<Rightarrow> char" where
  "b64_char url n =
    (if n < 26 then char_of (65 + n) else if n < 52 then char_of (71 + n)
     else if n < 62 then char_of (n - 4) else if n = 62 then (if url then CHR ''-'' else CHR ''+'')
     else (if url then CHR ''_'' else CHR ''/''))"

definition b64_val :: "bool \<Rightarrow> char \<Rightarrow> nat option" where
  "b64_val url c =
    (let b = byte c in
     if 65 \<le> b \<and> b \<le> 90 then Some (b - 65) else if 97 \<le> b \<and> b \<le> 122 then Some (b - 71)
     else if 48 \<le> b \<and> b \<le> 57 then Some (b + 4)
     else if c = (if url then CHR ''-'' else CHR ''+'') then Some 62
     else if c = (if url then CHR ''_'' else CHR ''/'') then Some 63 else None)"

fun b64_encode :: "bool \<Rightarrow> string \<Rightarrow> string" where
  "b64_encode url [] = []"
| "b64_encode url [a] =
     [b64_char url (byte a div 4), b64_char url (byte a mod 4 * 16)]"
| "b64_encode url [a, b] =
     [b64_char url (byte a div 4), b64_char url (byte a mod 4 * 16 + byte b div 16),
      b64_char url (byte b mod 16 * 4)]"
| "b64_encode url (a # b # c # rest) =
     b64_char url (byte a div 4) # b64_char url (byte a mod 4 * 16 + byte b div 16) #
     b64_char url (byte b mod 16 * 4 + byte c div 64) # b64_char url (byte c mod 64) #
     b64_encode url rest"

text \<open>Decoding, with Go's non-strict treatment of the trailing bits and line breaks skipped.\<close>

fun b64_groups :: "nat list \<Rightarrow> string option" where
  "b64_groups [] = Some []"
| "b64_groups [a] = None"
| "b64_groups [a, b] = Some [char_of (a * 4 + b div 16)]"
| "b64_groups [a, b, c] = Some [char_of (a * 4 + b div 16), char_of (b mod 16 * 16 + c div 4)]"
| "b64_groups (a # b # c # d # rest) =
     (case b64_groups rest of
        None \<Rightarrow> None
      | Some t \<Rightarrow> Some (char_of (a * 4 + b div 16) # char_of (b mod 16 * 16 + c div 4) #
                        char_of (c mod 4 * 64 + d) # t))"

definition b64_decode :: "bool \<Rightarrow> string \<Rightarrow> string option" where
  "b64_decode url s =
    (case those (map (b64_val url) (filter (\<lambda>c. byte c \<noteq> 10 \<and> byte c \<noteq> 13) s)) of
       None \<Rightarrow> None
     | Some vs \<Rightarrow> b64_groups vs)"

lemma b64_val_char [simp]: "n < 64 \<Longrightarrow> b64_val url (b64_char url n) = Some n"
  by (auto simp: b64_val_def b64_char_def Let_def)

text \<open>No encoded character is a separator the program uses.\<close>

lemma b64_char_plain:
  "n < 64 \<Longrightarrow> byte (b64_char url n) \<noteq> 36 \<and> byte (b64_char url n) \<noteq> 10 \<and> byte (b64_char url n) \<noteq> 13"
  by (auto simp: b64_char_def)

text \<open>The six-bit groups of a byte string, without the alphabet.\<close>

fun b64_nums :: "string \<Rightarrow> nat list" where
  "b64_nums [] = []"
| "b64_nums [a] = [byte a div 4, byte a mod 4 * 16]"
| "b64_nums [a, b] = [byte a div 4, byte a mod 4 * 16 + byte b div 16, byte b mod 16 * 4]"
| "b64_nums (a # b # c # rest) =
     byte a div 4 # (byte a mod 4 * 16 + byte b div 16) # (byte b mod 16 * 4 + byte c div 64) #
     (byte c mod 64) # b64_nums rest"

lemma six_bits [simp]:
  "byte a div 4 < 64" "byte a mod 4 * 16 + byte b div 16 < 64"
  "byte b mod 16 * 4 + byte c div 64 < 64" "byte a mod 4 * 16 < 64" "byte b mod 16 * 4 < 64"
  using nat_of_char_less_256 [of a] nat_of_char_less_256 [of b] nat_of_char_less_256 [of c]
  by linarith+

lemma b64_encode_nums: "b64_encode url s = map (b64_char url) (b64_nums s)"
  by (induction url s rule: b64_encode.induct) simp_all

lemma b64_nums_less: "list_all (\<lambda>n. n < 64) (b64_nums s)"
  by (induction s rule: b64_nums.induct) simp_all

lemma those_b64_nums: "list_all (\<lambda>n. n < 64) ns \<Longrightarrow> those (map (b64_val url) (map (b64_char url) ns)) = Some ns"
  by (induction ns) simp_all

lemma div_mod_split: "y < m \<Longrightarrow> (x * m + y) div m = x" "y < m \<Longrightarrow> (x * m + y) mod m = y" for x :: nat
  by simp_all

lemma mult_div_16: "x * 16 div 16 = x" "x * 4 div 4 = x" for x :: nat
  by simp_all

lemma regroup [simp]:
  "char_of (byte a div 4 * 4 + (byte a mod 4 * 16 + byte b div 16) div 16) = a"
  "char_of ((byte a mod 4 * 16 + byte b div 16) mod 16 * 16 + (byte b mod 16 * 4 + byte c div 64) div 4) = b"
  "char_of ((byte b mod 16 * 4 + byte c div 64) mod 4 * 64 + byte c mod 64) = c"
  "char_of (byte a div 4 * 4 + byte a mod 4 * 16 div 16) = a"
  "char_of ((byte a mod 4 * 16 + byte b div 16) mod 16 * 16 + byte b mod 16 * 4 div 4) = b"
proof -
  have "byte b div 16 < 16" "byte c div 64 < 4"
    using nat_of_char_less_256 [of b] nat_of_char_less_256 [of c] by linarith+
  then have ab: "(byte a mod 4 * 16 + byte b div 16) div 16 = byte a mod 4"
      "(byte a mod 4 * 16 + byte b div 16) mod 16 = byte b div 16"
    and bc: "(byte b mod 16 * 4 + byte c div 64) div 4 = byte b mod 16"
      "(byte b mod 16 * 4 + byte c div 64) mod 4 = byte c div 64"
    by (simp_all only: div_mod_split)
  show "char_of (byte a div 4 * 4 + (byte a mod 4 * 16 + byte b div 16) div 16) = a"
    "char_of ((byte a mod 4 * 16 + byte b div 16) mod 16 * 16 + (byte b mod 16 * 4 + byte c div 64) div 4) = b"
    "char_of ((byte b mod 16 * 4 + byte c div 64) mod 4 * 64 + byte c mod 64) = c"
    "char_of (byte a div 4 * 4 + byte a mod 4 * 16 div 16) = a"
    "char_of ((byte a mod 4 * 16 + byte b div 16) mod 16 * 16 + byte b mod 16 * 4 div 4) = b"
    by (simp_all only: ab bc mult_div_16 div_mult_mod_eq char_of_char)
qed

lemma b64_groups_nums: "b64_groups (b64_nums s) = Some s"
  by (induction s rule: b64_nums.induct) (simp_all only: b64_nums.simps b64_groups.simps regroup option.case)

lemma b64_encode_plain:
  "c \<in> set (b64_encode url s) \<Longrightarrow> byte c \<noteq> 36 \<and> byte c \<noteq> 10 \<and> byte c \<noteq> 13"
  using b64_nums_less [of s] by (auto simp: b64_encode_nums list_all_iff b64_char_plain)

text \<open>Decoding inverts encoding.\<close>

lemma b64_decode_encode [simp]: "b64_decode url (b64_encode url s) = Some s"
proof -
  have "filter (\<lambda>c. byte c \<noteq> 10 \<and> byte c \<noteq> 13) (b64_encode url s) = b64_encode url s"
    using b64_encode_plain by (auto intro: filter_True)
  then show ?thesis
    by (simp add: b64_decode_def b64_encode_nums those_b64_nums b64_nums_less b64_groups_nums
        del: map_map)
qed

lemma b64_encode_inject: "b64_encode url s = b64_encode url t \<longleftrightarrow> s = t"
  by (metis b64_decode_encode option.inject)

lemma b64_encode_eq_Nil [simp]: "b64_encode url s = [] \<longleftrightarrow> s = []"
  using b64_encode_inject [of url s "[]"] by simp

lemma b64_encode_no_dollar: "CHR ''$'' \<notin> set (b64_encode url s)"
  using b64_encode_plain [of "CHR ''$''" url s] by auto

declare b64_encode.simps [simp del]

section \<open>hex\<close>

definition hex_digit :: "nat \<Rightarrow> char" where
  "hex_digit n = (if n < 10 then char_of (48 + n) else char_of (87 + n))"

definition hex_val :: "char \<Rightarrow> nat option" where
  "hex_val c =
    (let b = byte c in
     if 48 \<le> b \<and> b \<le> 57 then Some (b - 48)
     else if 97 \<le> b \<and> b \<le> 102 then Some (b - 87)
     else if 65 \<le> b \<and> b \<le> 70 then Some (b - 55) else None)"

fun hex_EncodeToString :: "string \<Rightarrow> string" where
  "hex_EncodeToString [] = []"
| "hex_EncodeToString (c # cs) =
     hex_digit (byte c div 16) # hex_digit (byte c mod 16) # hex_EncodeToString cs"

text \<open>\<^verbatim>\<open>hex.DecodeString\<close>: an odd length or a character that is no hex digit is an
  error; both letter cases are accepted.\<close>

fun hex_DecodeString :: "string \<Rightarrow> string option" where
  "hex_DecodeString [] = Some []"
| "hex_DecodeString [a] = None"
| "hex_DecodeString (a # b # rest) =
     (case (hex_val a, hex_val b) of
        (Some x, Some y) \<Rightarrow>
          (case hex_DecodeString rest of
             None \<Rightarrow> None
           | Some t \<Rightarrow> Some (char_of (x * 16 + y) # t))
      | _ \<Rightarrow> None)"

lemma hex_val_digit [simp]: "n < 16 \<Longrightarrow> hex_val (hex_digit n) = Some n"
  by (auto simp: hex_val_def hex_digit_def Let_def)

lemma nibbles [simp]: "byte c div 16 < 16" "byte c mod 16 < 16"
  using nat_of_char_less_256 [of c] by linarith+

lemma hex_decode_encode [simp]: "hex_DecodeString (hex_EncodeToString s) = Some s"
  by (induction s) simp_all

lemma hex_encode_inject: "hex_EncodeToString s = hex_EncodeToString t \<longleftrightarrow> s = t"
  by (metis hex_decode_encode option.inject)

lemma hex_encode_eq_Nil [simp]: "hex_EncodeToString s = [] \<longleftrightarrow> s = []"
  by (cases s) simp_all

lemma length_hex [simp]: "length (hex_EncodeToString s) = 2 * length s"
  by (induction s) simp_all

lemma hex_decode_length: "hex_DecodeString s = Some t \<Longrightarrow> length s = 2 * length t"
  by (induction s arbitrary: t rule: hex_DecodeString.induct) (auto split: option.splits)

end
