(* ===== verification/Client_IP.thy ===== *)
theory Client_IP
  imports Entity Go_Strings "HOL-Library.Word"
begin

text \<open>
  \<^verbatim>\<open>auth/clientip.go\<close> and the proxy list of \<^verbatim>\<open>cmd/psina/config.go\<close>
  (\<^verbatim>\<open>parseTrustedProxies\<close>): which address a request is attributed to. Addresses are
  machine words as in \<^verbatim>\<open>net/netip\<close>; their textual syntax is the parameter record
  \<open>netip\<close>. An \<^verbatim>\<open>http.Header\<close> maps canonical header names to value lists.
\<close>

unbundle bit_operations_syntax

section \<open>Addresses and prefixes\<close>

text \<open>\<^verbatim>\<open>netip.Addr\<close> (an IPv6 address has a zone, usually empty) and
  \<^verbatim>\<open>netip.Prefix\<close>, whose bit count is negative when it is invalid.\<close>

datatype Addr = V4 "32 word" | V6 "128 word" string

record Prefix =
  pfx_addr :: Addr
  pfx_bits :: int

fun BitLen :: "Addr \<Rightarrow> int" where
  "BitLen (V4 _) = 32"
| "BitLen (V6 _ _) = 128"

fun Is4In6 :: "Addr \<Rightarrow> bool" where
  "Is4In6 (V4 _) = False"
| "Is4In6 (V6 x _) = (drop_bit 32 x = 0xffff)"

fun Unmap :: "Addr \<Rightarrow> Addr" where
  "Unmap (V4 x) = V4 x"
| "Unmap (V6 x z) = (if Is4In6 (V6 x z) then V4 (ucast x) else V6 x z)"

fun withoutZone :: "Addr \<Rightarrow> Addr" where
  "withoutZone (V4 x) = V4 x"
| "withoutZone (V6 x _) = V6 x ''''"

definition PrefixFrom :: "Addr \<Rightarrow> int \<Rightarrow> Prefix" where
  "PrefixFrom a bits =
    \<lparr>pfx_addr = withoutZone a, pfx_bits = (if 0 \<le> bits \<and> bits \<le> BitLen a then bits else -1)\<rparr>"

text \<open>The top \<open>n\<close> bits of a word, the others cleared.\<close>

definition top_bits :: "nat \<Rightarrow> 'a::len word \<Rightarrow> 'a word" where
  "top_bits n x = push_bit (LENGTH('a) - n) (drop_bit (LENGTH('a) - n) x)"

definition Masked :: "Prefix \<Rightarrow> Prefix" where
  "Masked p =
    \<lparr>pfx_addr = (case pfx_addr p of
        V4 x \<Rightarrow> V4 (top_bits (nat (pfx_bits p)) x)
      | V6 x z \<Rightarrow> V6 (top_bits (nat (pfx_bits p)) x) ''''),
     pfx_bits = pfx_bits p\<rparr>"

text \<open>Agreement of two words above the lowest \<open>k\<close> bits, as \<^verbatim>\<open>Contains\<close> computes it.\<close>

definition agree_above :: "nat \<Rightarrow> 'a::len word \<Rightarrow> 'a word \<Rightarrow> bool" where
  "agree_above k x y \<longleftrightarrow> drop_bit k (x XOR y) = 0"

definition Contains :: "Prefix \<Rightarrow> Addr \<Rightarrow> bool" where
  "Contains p a \<longleftrightarrow> 0 \<le> pfx_bits p \<and>
    (case (pfx_addr p, a) of
       (V4 x, V4 y) \<Rightarrow> agree_above (32 - nat (pfx_bits p)) x y
     | (V6 x _, V6 y z) \<Rightarrow> z = '''' \<and> agree_above (128 - nat (pfx_bits p)) x y
     | _ \<Rightarrow> False)"

text \<open>The textual forms: \<^verbatim>\<open>netip.ParseAddr\<close>, \<^verbatim>\<open>ParseAddrPort\<close> (its address),
  \<^verbatim>\<open>ParsePrefix\<close> and \<^verbatim>\<open>Addr.String\<close>.\<close>

record netip =
  ParseAddr :: "string \<Rightarrow> Addr option"
  ParseAddrPort :: "string \<Rightarrow> Addr option"
  ParsePrefix :: "string \<Rightarrow> Prefix option"
  Addr_String :: "Addr \<Rightarrow> string"

section \<open>HTTP headers\<close>

type_synonym Header = "(string, string list) gomap"

definition header_Values :: "Header \<Rightarrow> string \<Rightarrow> string list" where
  "header_Values h k = (case map_of h k of None \<Rightarrow> [] | Some vs \<Rightarrow> vs)"

definition header_Get :: "Header \<Rightarrow> string \<Rightarrow> string" where
  "header_Get h k = (case header_Values h k of [] \<Rightarrow> '''' | v # _ \<Rightarrow> v)"

section \<open>The client address\<close>

definition unknownClientIP :: string where "unknownClientIP = ''unknown''"

definition parseAddr :: "netip \<Rightarrow> string \<Rightarrow> Addr option" where
  "parseAddr np s =
    (let s = strings_TrimSpace s in
     case ParseAddrPort np s of
       Some a \<Rightarrow> Some (Unmap a)
     | None \<Rightarrow> (case ParseAddr np s of Some a \<Rightarrow> Some (Unmap a) | None \<Rightarrow> None))"

definition trusted :: "Prefix list \<Rightarrow> Addr \<Rightarrow> bool" where
  "trusted trustedProxies addr = list_ex (\<lambda>p. Contains p addr) trustedProxies"

definition forwardedFor :: "Header \<Rightarrow> string list" where
  "forwardedFor header =
    concat (map (\<lambda>line. filter (\<lambda>hop. hop \<noteq> '''')
                          (map strings_TrimSpace (strings_Split (CHR '','') line)))
                (header_Values header ''X-Forwarded-For''))"

text \<open>The loop over the hops, nearest first, with the last address vouched for.\<close>

fun walk_hops :: "netip \<Rightarrow> Prefix list \<Rightarrow> Addr \<Rightarrow> string list \<Rightarrow> Addr" where
  "walk_hops np proxies addr [] = addr"
| "walk_hops np proxies addr (hop # hops) =
     (case parseAddr np hop of
        None \<Rightarrow> addr
      | Some a \<Rightarrow> if trusted proxies a then walk_hops np proxies a hops else a)"

definition clientIP :: "netip \<Rightarrow> Prefix list \<Rightarrow> string \<Rightarrow> Header \<Rightarrow> string" where
  "clientIP np trustedProxies peer header =
    (case parseAddr np peer of
       None \<Rightarrow> unknownClientIP
     | Some addr \<Rightarrow>
         if \<not> trusted trustedProxies addr then Addr_String np addr
         else
           let hops = forwardedFor header in
           if hops = [] then
             (case parseAddr np (header_Get header ''X-Real-Ip'') of
                Some real \<Rightarrow> Addr_String np real
              | None \<Rightarrow> Addr_String np addr)
           else Addr_String np (walk_hops np trustedProxies addr (rev hops)))"

section \<open>The proxy list\<close>

definition parseTrustedProxy :: "netip \<Rightarrow> string \<Rightarrow> error + Prefix" where
  "parseTrustedProxy np e =
    (case (case ParsePrefix np e of
             Some p \<Rightarrow> Some p
           | None \<Rightarrow> (case ParseAddr np e of
                        None \<Rightarrow> None
                      | Some a \<Rightarrow> Some (PrefixFrom a (BitLen a)))) of
       None \<Rightarrow> Inl (Errorf ''server.trustedproxies: %q is not a CIDR or IP'' [])
     | Some p \<Rightarrow>
         let p = Masked p; a = pfx_addr p
         in Inr (if Is4In6 a then PrefixFrom (Unmap a) (pfx_bits p - 96) else p))"

fun parseTrustedProxies :: "netip \<Rightarrow> string list \<Rightarrow> error + Prefix list" where
  "parseTrustedProxies np [] = Inr []"
| "parseTrustedProxies np (e # entries) =
     (case parseTrustedProxy np e of
        Inl err \<Rightarrow> Inl err
      | Inr p \<Rightarrow> (case parseTrustedProxies np entries of
                    Inl err \<Rightarrow> Inl err
                  | Inr ps \<Rightarrow> Inr (p # ps)))"

section \<open>Membership, bit by bit\<close>

lemma agree_above_bits:
  "agree_above k x y \<longleftrightarrow> (\<forall>i. k \<le> i \<and> i < LENGTH('a) \<longrightarrow> bit x i = bit y i)"
  for x y :: "'a::len word"
proof
  assume "agree_above k x y"
  then have z: "drop_bit k (x XOR y) = 0" by (simp only: agree_above_def)
  show "\<forall>i. k \<le> i \<and> i < LENGTH('a) \<longrightarrow> bit x i = bit y i"
  proof (intro allI impI)
    fix i assume i: "k \<le> i \<and> i < LENGTH('a)"
    have "bit (drop_bit k (x XOR y)) (i - k) = bit (0 :: 'a word) (i - k)" using z by simp
    then show "bit x i = bit y i" using i by (simp add: bit_drop_bit_eq bit_xor_iff)
  qed
next
  assume h: "\<forall>i. k \<le> i \<and> i < LENGTH('a) \<longrightarrow> bit x i = bit y i"
  have "bit x (k + n) = bit y (k + n)" for n
    using h by (cases "k + n < LENGTH('a)") (auto dest: bit_imp_le_length)
  then show "agree_above k x y"
    unfolding agree_above_def by (intro bit_word_eqI) (simp add: bit_drop_bit_eq bit_xor_iff)
qed

lemma bit_top_bits:
  "bit (top_bits n x) i \<longleftrightarrow> LENGTH('a) - n \<le> i \<and> bit x i" for x :: "'a::len word"
  by (auto simp: top_bits_def bit_push_bit_iff bit_drop_bit_eq dest: bit_imp_le_length)

lemma Is4In6_bits:
  "drop_bit 32 x = (0xffff :: 128 word) \<longleftrightarrow> (\<forall>i. 32 \<le> i \<and> i < 128 \<longrightarrow> bit x i = (i < 48))"
proof -
  have m: "bit (0xffff :: 128 word) n \<longleftrightarrow> n < 16" for n
  proof -
    have "0xffff = (mask 16 :: 128 word)" by (simp add: mask_eq_exp_minus_1)
    show ?thesis unfolding \<open>0xffff = mask 16\<close> by (auto simp: bit_mask_iff)
  qed
  show ?thesis
  proof
    assume z: "drop_bit 32 x = 0xffff"
    show "\<forall>i. 32 \<le> i \<and> i < 128 \<longrightarrow> bit x i = (i < 48)"
    proof (intro allI impI)
      fix i :: nat assume i: "32 \<le> i \<and> i < 128"
      have "bit (drop_bit 32 x) (i - 32) = (i - 32 < 16)" using z m by simp
      then show "bit x i = (i < 48)" using i by (auto simp: bit_drop_bit_eq)
    qed
  next
    assume h: "\<forall>i. 32 \<le> i \<and> i < 128 \<longrightarrow> bit x i = (i < 48)"
    show "drop_bit 32 x = 0xffff"
    proof (rule bit_word_eqI)
      fix n assume "n < LENGTH(128)"
      have "bit x (32 + n) \<longleftrightarrow> n < 16"
        using h by (cases "32 + n < 128") (auto dest: bit_imp_le_length)
      then show "bit (drop_bit 32 x) n = bit (0xffff :: 128 word) n"
        unfolding m bit_drop_bit_eq by simp
    qed
  qed
qed

text \<open>Masking keeps the IPv4-in-IPv6 marker only from 96 bits on, so the bit count of the
  unmapped prefix is never negative.\<close>

lemma Masked_4In6_bits:
  assumes "drop_bit 32 (top_bits n (x :: 128 word)) = 0xffff"
  shows "96 \<le> n"
proof (rule ccontr)
  assume "\<not> 96 \<le> n"
  moreover have "bit (top_bits n x) 32" using assms unfolding Is4In6_bits by simp
  ultimately show False by (auto simp: bit_top_bits)
qed

lemma Contains_Masked [simp]:
  "pfx_bits p \<le> BitLen (pfx_addr p) \<Longrightarrow> Contains (Masked p) a = Contains p a"
  by (cases "pfx_addr p"; cases a)
     (auto simp: Contains_def Masked_def agree_above_bits bit_top_bits)

lemma Contains_unmapped:
  fixes x y :: "128 word"
  assumes "96 \<le> n" "n \<le> 128" "drop_bit 32 (top_bits n x) = 0xffff" "drop_bit 32 y = 0xffff"
  shows "agree_above (128 - n) (ucast (top_bits n x)) (ucast y :: 32 word) \<longleftrightarrow> agree_above (128 - n) x y"
proof -
  have x: "\<forall>i. 32 \<le> i \<and> i < 128 \<longrightarrow> bit x i = (i < 48)"
    using assms(1,3) unfolding Is4In6_bits by (auto simp: bit_top_bits)
  have y: "\<forall>i. 32 \<le> i \<and> i < 128 \<longrightarrow> bit y i = (i < 48)"
    using assms(4) unfolding Is4In6_bits .
  have hi: "bit x i = bit y i" if "32 \<le> i" "i < 128" for i using x y that by blast
  have "agree_above (128 - n) x y \<longleftrightarrow> (\<forall>i. 128 - n \<le> i \<and> i < 32 \<longrightarrow> bit x i = bit y i)"
  proof
    assume "\<forall>i. 128 - n \<le> i \<and> i < 32 \<longrightarrow> bit x i = bit y i"
    then have "bit x i = bit y i" if "128 - n \<le> i" "i < 128" for i
      using that hi [of i] by (cases "i < 32") auto
    then show "agree_above (128 - n) x y" by (simp add: agree_above_bits)
  qed (simp add: agree_above_bits)
  also have "\<dots> \<longleftrightarrow> agree_above (128 - n) (ucast (top_bits n x)) (ucast y :: 32 word)"
    unfolding agree_above_bits by (auto simp: bit_ucast_iff bit_top_bits)
  finally show ?thesis by simp
qed

section \<open>Properties\<close>

lemma walk_hops_vouched:
  "list_all (\<lambda>v. \<exists>a. parseAddr np v = Some a \<and> trusted ps a) vouched \<Longrightarrow>
   parseAddr np hop = Some a \<Longrightarrow> \<not> trusted ps a \<Longrightarrow>
   walk_hops np ps a0 (vouched @ hop # claims) = a"
  by (induction vouched arbitrary: a0) auto

text \<open>
  C22. A client cannot choose the address it is logged under. A peer that is not a trusted
  proxy is logged under its own address whatever headers it sends. Behind trusted proxies the
  logged address is the rightmost entry of X-Forwarded-For that is not itself a trusted proxy;
  the entries left of it, which the client may have written, are never looked at.
\<close>

theorem clientIP_spoof_resistant:
  assumes "parseAddr np peer = Some a0"
  shows "(\<not> trusted ps a0 \<longrightarrow> clientIP np ps peer header = Addr_String np a0) \<and>
    (trusted ps a0 \<and> forwardedFor header = claims @ hop # vouched \<and>
     list_all (\<lambda>v. \<exists>a. parseAddr np v = Some a \<and> trusted ps a) vouched \<and>
     parseAddr np hop = Some a \<and> \<not> trusted ps a \<longrightarrow>
       clientIP np ps peer header = Addr_String np a)"
  using assms walk_hops_vouched [of np ps "rev vouched" hop a a0 "rev claims"]
  by (auto simp: clientIP_def Let_def)

definition demo_netip :: netip where
  "demo_netip = \<lparr>ParseAddr = (\<lambda>s. if s = ''10.0.0.1'' then Some (V4 0x0a000001)
       else if s = ''1.2.3.4'' then Some (V4 0x01020304)
       else if s = ''::ffff:10.0.0.1'' then Some (V6 0xffff0a000001 '''') else None),
     ParseAddrPort = (\<lambda>s. None),
     ParsePrefix = (\<lambda>s. if s = ''10.0.0.0/8'' then Some \<lparr>pfx_addr = V4 0x0a000000, pfx_bits = 8\<rparr>
       else if s = ''::ffff:10.0.0.0/104'' then Some \<lparr>pfx_addr = V6 0xffff0a000000 '''', pfx_bits = 104\<rparr>
       else None),
     Addr_String = (\<lambda>a. if a = V4 0x01020304 then ''1.2.3.4'' else ''10.0.0.1'')\<rparr>"

lemma demo_parse:
  "parseAddr demo_netip ''10.0.0.1'' = Some (V4 0x0a000001)"
  "parseAddr demo_netip ''1.2.3.4'' = Some (V4 0x01020304)"
  "trusted [\<lparr>pfx_addr = V4 0x0a000000, pfx_bits = 8\<rparr>] (V4 0x0a000001)"
  "\<not> trusted [\<lparr>pfx_addr = V4 0x0a000000, pfx_bits = 8\<rparr>] (V4 0x01020304)"
     apply (simp_all add: parseAddr_def demo_netip_def TrimSpace_ascii ascii_def sp_def unicode_IsSpace_def)
   apply code_simp+
  done

theorem clientIP_spoof_resistant_witness:
  "clientIP demo_netip [\<lparr>pfx_addr = V4 0x0a000000, pfx_bits = 8\<rparr>] ''10.0.0.1''
     [(''X-Forwarded-For'', [''10.0.0.1,1.2.3.4'', ''10.0.0.1''])] = ''1.2.3.4''"
proof -
  have f: "forwardedFor [(''X-Forwarded-For'', [''10.0.0.1,1.2.3.4'', ''10.0.0.1''])] =
      [''10.0.0.1''] @ ''1.2.3.4'' # [''10.0.0.1'']"
    by (simp add: forwardedFor_def header_Values_def TrimSpace_ascii ascii_def sp_def unicode_IsSpace_def)
  show ?thesis
    using clientIP_spoof_resistant [OF demo_parse(1), of "[\<lparr>pfx_addr = V4 0x0a000000, pfx_bits = 8\<rparr>]"
        "[(''X-Forwarded-For'', [''10.0.0.1,1.2.3.4'', ''10.0.0.1''])]"
        "[''10.0.0.1'']" "''1.2.3.4''" "[''10.0.0.1'']" "V4 0x01020304"] f demo_parse
    by (simp add: demo_netip_def)
qed

text \<open>
  The configured proxy list means what it says for IPv4 clients. A CIDR contains the same
  addresses before and after the normalisation at start-up, and an IPv4-mapped CIDR, which by
  itself contains no IPv4 address, is turned into one that contains the unmapped form of
  exactly the addresses it listed. (Client addresses are unmapped before they are matched.)
\<close>

theorem parseTrustedProxy_faithful:
  assumes "ParsePrefix np e = Some p" "0 \<le> pfx_bits p" "pfx_bits p \<le> BitLen (pfx_addr p)"
    and "parseTrustedProxy np e = Inr q"
  shows "if Is4In6 (pfx_addr (Masked p))
         then \<forall>y. Is4In6 (V6 y '''') \<longrightarrow> Contains q (Unmap (V6 y '''')) = Contains p (V6 y '''')
         else \<forall>a. Contains q a = Contains p a"
proof (cases "Is4In6 (pfx_addr (Masked p))")
  case False
  with assms have "q = Masked p" by (simp add: parseTrustedProxy_def Let_def)
  with False assms(3) show ?thesis by simp
next
  case True
  then obtain x z where p: "pfx_addr p = V6 x z"
    by (cases "pfx_addr p") (auto simp: Masked_def)
  define n where "n = nat (pfx_bits p)"
  have m: "drop_bit 32 (top_bits n x) = 0xffff" using True p by (simp add: Masked_def n_def)
  then have n: "96 \<le> n" "n \<le> 128" using Masked_4In6_bits assms(2,3) p by (auto simp: n_def)
  have ge: "96 \<le> pfx_bits p" using n by (simp add: n_def)
  then have q: "q = \<lparr>pfx_addr = V4 (ucast (top_bits n x)), pfx_bits = int n - 96\<rparr>"
    using assms p True n m by (simp add: parseTrustedProxy_def Let_def Masked_def PrefixFrom_def n_def)
  have "Contains q (Unmap (V6 y '''')) = Contains p (V6 y '''')" if "Is4In6 (V6 y '''')" for y
  proof -
    have "32 - nat (int n - 96) = 128 - n" using n by simp
    then show ?thesis
      using that n q p ge assms(2) Contains_unmapped [OF n m, of y] by (simp add: Contains_def n_def)
  qed
  with True show ?thesis by auto
qed

theorem parseTrustedProxy_faithful_witness:
  "\<exists>q. parseTrustedProxy demo_netip ''::ffff:10.0.0.0/104'' = Inr q \<and> Contains q (V4 0x0a000001)"
proof -
  have p: "ParsePrefix demo_netip ''::ffff:10.0.0.0/104'' = Some \<lparr>pfx_addr = V6 0xffff0a000000 '''', pfx_bits = 104\<rparr>"
    by code_simp
  have q: "parseTrustedProxy demo_netip ''::ffff:10.0.0.0/104'' =
      Inr \<lparr>pfx_addr = V4 0x0a000000, pfx_bits = 8\<rparr>" by code_simp
  have b: "Contains \<lparr>pfx_addr = V6 0xffff0a000000 '''', pfx_bits = 104\<rparr> (V6 0xffff0a000001 '''')"
    "Is4In6 (pfx_addr (Masked \<lparr>pfx_addr = V6 0xffff0a000000 '''', pfx_bits = 104\<rparr>))"
    "Is4In6 (V6 0xffff0a000001 '''')" "Unmap (V6 0xffff0a000001 '''') = V4 0x0a000001" by code_simp+
  have "\<forall>y. Is4In6 (V6 y '''') \<longrightarrow> Contains \<lparr>pfx_addr = V4 0x0a000000, pfx_bits = 8\<rparr> (Unmap (V6 y '''')) =
      Contains \<lparr>pfx_addr = V6 0xffff0a000000 '''', pfx_bits = 104\<rparr> (V6 y '''')"
    using parseTrustedProxy_faithful [OF p _ _ q] b(2) by simp
  from this [rule_format, OF b(3)] show ?thesis unfolding b(4) using b(1) q by blast
qed

end
