(* ===== verification/Validation.thy ===== *)
theory Validation
  imports Ports Go_Strings
begin

text \<open>
  \<^verbatim>\<open>auth/validation.go\<close>: the password length rule and the canonical form of an email.
  The environment is read only for the Unicode lower-case table.
\<close>

definition MinPasswordLength :: nat where "MinPasswordLength = 8"
definition MaxPasswordLength :: nat where "MaxPasswordLength = 128"
definition MaxEmailLength :: nat where "MaxEmailLength = 254"

definition ValidatePassword :: "string \<Rightarrow> error option" where
  "ValidatePassword password =
    (if utf8_RuneCountInString password < MinPasswordLength then Some (Sentinel ErrPasswordTooShort)
     else if utf8_RuneCountInString password > MaxPasswordLength
     then Some (Sentinel ErrPasswordTooLong)
     else None)"

definition NormalizeEmail :: "'st world \<Rightarrow> string \<Rightarrow> error + string" where
  "NormalizeEmail w email =
    (let email = strings_TrimSpace email;
         email = strings_ToLower (unicode_ToLower w) email
     in if length email < 5 \<or> length email > MaxEmailLength then Inl (Sentinel ErrInvalidEmail)
        else if list_ex (\<lambda>r. unicode_IsControl (fst r)) (runes email) then Inl (Sentinel ErrInvalidEmail)
        else if CHR ''@'' \<notin> set email then Inl (Sentinel ErrInvalidEmail)
        else let domain = after_last (CHR ''@'') email
             in if CHR ''.'' \<notin> set domain then Inl (Sentinel ErrInvalidEmail)
                else Inr email)"

lemma NormalizeEmail_tick [simp]: "NormalizeEmail (w\<lparr>tick := n\<rparr>) e = NormalizeEmail w e"
  "NormalizeEmail (w\<lparr>store := s\<rparr>) e = NormalizeEmail w e"
  by (simp_all add: NormalizeEmail_def)

lemma NormalizeEmail_cases:
  "NormalizeEmail w e = Inl (Sentinel ErrInvalidEmail) \<or> (\<exists>e'. NormalizeEmail w e = Inr e' \<and> e' \<noteq> '''')"
  by (auto simp: NormalizeEmail_def Let_def)

lemma NormalizeEmail_Inl: "NormalizeEmail w e = Inl x \<Longrightarrow> x = Sentinel ErrInvalidEmail"
  using NormalizeEmail_cases [of w e] by auto

section \<open>ASCII addresses\<close>

definition lower1 :: "char \<Rightarrow> char" where
  "lower1 c = char_of (ascii_lower (byte c))"

lemma byte_lower1: "byte c < 128 \<Longrightarrow> byte (lower1 c) = ascii_lower (byte c)"
  by (simp add: lower1_def ascii_lower_def)

lemma lower1_idem [simp]: "byte c < 128 \<Longrightarrow> lower1 (lower1 c) = lower1 c"
  by (subst lower1_def) (simp add: byte_lower1, simp add: ascii_lower_def lower1_def)

lemma sp_lower1 [simp]: "byte c < 128 \<Longrightarrow> sp (lower1 c) = sp c"
  by (auto simp: sp_def byte_lower1 ascii_lower_def unicode_IsSpace_def)

lemma ToLower_ascii: "ascii s \<Longrightarrow> strings_ToLower uni s = map lower1 s"
  by (simp add: strings_ToLower_def lower1_def)

lemma ascii_map_lower: "ascii s \<Longrightarrow> ascii (map lower1 s)"
  by (auto simp: ascii_def list_all_iff byte_lower1 ascii_lower_def)

lemma ascii_subset: "ascii s \<Longrightarrow> set t \<subseteq> set s \<Longrightarrow> ascii t"
  by (auto simp: ascii_def list_all_iff)

lemma ascii_TrimSpace: "ascii s \<Longrightarrow> ascii (strings_TrimSpace s)"
  by (rule ascii_subset [of s]) (auto simp: TrimSpace_ascii dest!: set_dropWhileD)

lemma dropWhile_lower: "ascii s \<Longrightarrow> dropWhile sp (map lower1 s) = map lower1 (dropWhile sp s)"
  by (induction s) (auto simp: ascii_def)

lemma ascii_rev_drop: "ascii s \<Longrightarrow> ascii (rev (dropWhile sp s))"
  by (rule ascii_subset [of s]) (auto dest!: set_dropWhileD)

lemma TrimSpace_lower:
  "ascii s \<Longrightarrow> strings_TrimSpace (map lower1 s) = map lower1 (strings_TrimSpace s)"
  by (simp add: TrimSpace_ascii ascii_map_lower dropWhile_lower rev_map ascii_rev_drop)

lemma dropWhile_rev_trim:
  "dropWhile p (rev (dropWhile p (rev (dropWhile p s)))) = rev (dropWhile p (rev (dropWhile p s)))"
proof (cases "dropWhile p s")
  case (Cons a as)
  then have "\<not> p a" using hd_dropWhile [of p s] by simp
  then show ?thesis using Cons by (simp add: dropWhile_append)
next
  case Nil
  show ?thesis unfolding Nil by simp
qed

lemma TrimSpace_idem: "ascii s \<Longrightarrow> strings_TrimSpace (strings_TrimSpace s) = strings_TrimSpace s"
  using ascii_TrimSpace [of s] by (simp add: TrimSpace_ascii dropWhile_rev_trim)

lemma map_lower_idem: "ascii s \<Longrightarrow> map lower1 (map lower1 s) = map lower1 s"
  by (auto simp: ascii_def list_all_iff)

text \<open>What trimming and folding do to an ASCII address, they do once.\<close>

lemma canonical_ascii:
  assumes "ascii s" and e_def: "e = strings_ToLower uni (strings_TrimSpace s)"
  shows "ascii e" "strings_ToLower uni (strings_TrimSpace e) = e"
    "e = map lower1 (strings_TrimSpace s)"
proof -
  have t: "ascii (strings_TrimSpace s)" using assms(1) by (rule ascii_TrimSpace)
  show e: "e = map lower1 (strings_TrimSpace s)" by (simp add: e_def ToLower_ascii t)
  show "ascii e" by (simp add: e ascii_map_lower t)
  show "strings_ToLower uni (strings_TrimSpace e) = e"
    by (simp add: e TrimSpace_lower t TrimSpace_idem assms(1) ToLower_ascii ascii_map_lower map_lower_idem
        del: map_map)
qed

text \<open>
  The canonical form of an email. Whatever \<^verbatim>\<open>NormalizeEmail\<close> accepts is within the
  RFC 5321 length, has no control characters, an at sign and a dot in the domain after the
  last one. For ASCII input the result is a fixed point, so the key a user is stored under is
  the key every later login looks up, and two spellings that differ only in letter case or
  surrounding space have the same one.
\<close>

theorem NormalizeEmail_canonical:
  assumes "NormalizeEmail w s = Inr e"
  shows "5 \<le> length e \<and> length e \<le> 254 \<and> CHR ''@'' \<in> set e \<and>
      CHR ''.'' \<in> set (after_last (CHR ''@'') e) \<and>
      list_all (\<lambda>r. \<not> unicode_IsControl (fst r)) (runes e) \<and>
      (ascii s \<longrightarrow> NormalizeEmail w e = Inr e \<and> NormalizeEmail w (map lower1 s) = Inr e)"
proof -
  have e: "e = strings_ToLower (unicode_ToLower w) (strings_TrimSpace s)"
    and ok: "\<not> length e < 5" "\<not> MaxEmailLength < length e" "CHR ''@'' \<in> set e"
      "CHR ''.'' \<in> set (after_last (CHR ''@'') e)"
      "\<not> list_ex (\<lambda>r. unicode_IsControl (fst r)) (runes e)"
    using assms by (auto simp: NormalizeEmail_def Let_def split: if_splits)
  have same: "strings_ToLower (unicode_ToLower w) (strings_TrimSpace x) = e \<Longrightarrow>
      NormalizeEmail w x = Inr e" for x
    using ok by (simp add: NormalizeEmail_def)
  have "NormalizeEmail w e = Inr e \<and> NormalizeEmail w (map lower1 s) = Inr e" if "ascii s"
  proof
    show "NormalizeEmail w e = Inr e"
      by (rule same) (rule canonical_ascii(2) [OF that e])
    have "strings_ToLower (unicode_ToLower w) (strings_TrimSpace (map lower1 s)) = e"
      by (simp add: e that TrimSpace_lower ToLower_ascii ascii_TrimSpace ascii_map_lower
          map_lower_idem del: map_map)
    then show "NormalizeEmail w (map lower1 s) = Inr e" by (rule same)
  qed
  then show ?thesis
    using ok by (auto simp: MaxEmailLength_def list_ex_iff list_all_iff)
qed

lemma demo_email: "NormalizeEmail (demo_world s) ''a@b.co'' = Inr ''a@b.co''"
  by (simp add: NormalizeEmail_def TrimSpace_ascii ToLower_ascii runes_ascii ascii_def sp_def
        unicode_IsSpace_def lower1_def ascii_lower_def unicode_IsControl_def after_last_def
        MaxEmailLength_def char_of_def bit_0)

theorem NormalizeEmail_canonical_witness:
  "NormalizeEmail (demo_world ()) '' Ann@X.io '' = Inr ''ann@x.io'' \<and>
   NormalizeEmail (demo_world ()) ''ann@x.io'' = Inr ''ann@x.io''"
proof -
  have w: "NormalizeEmail (demo_world ()) '' Ann@X.io '' = Inr ''ann@x.io''"
    by (simp add: NormalizeEmail_def TrimSpace_ascii ToLower_ascii runes_ascii ascii_def sp_def
        unicode_IsSpace_def lower1_def ascii_lower_def unicode_IsControl_def after_last_def
        MaxEmailLength_def char_of_def bit_0)
  then show ?thesis
    using NormalizeEmail_canonical [OF w] by (simp add: ascii_def)
qed

text \<open>
  The password rule counts characters, not bytes: a password is accepted exactly when it
  has between 8 and 128 runes, and each side fails with its own error.
\<close>

lemma ValidatePassword_iff:
  "(ValidatePassword p = None \<longleftrightarrow> utf8_RuneCountInString p \<in> {8..128}) \<and>
   (ValidatePassword p = Some (Sentinel ErrPasswordTooShort) \<longleftrightarrow> utf8_RuneCountInString p < 8) \<and>
   (ValidatePassword p = Some (Sentinel ErrPasswordTooLong) \<longleftrightarrow> 128 < utf8_RuneCountInString p)"
  by (auto simp: ValidatePassword_def MinPasswordLength_def MaxPasswordLength_def)

end
