(* ===== verification/EVM.thy ===== *)
theory EVM
  imports Validation
begin

text \<open>
  \<^verbatim>\<open>provider/wallet/evm/evm.go\<close>: Sign-In with Ethereum. The record \<open>evm_lib\<close> holds what
  the package takes from libraries: Keccak-256, public-key recovery (returning the 65-byte
  uncompressed key) and the RFC 3339 text of a time. \<open>evmTable\<close> is the method table of a
  provider.
\<close>

definition addressHexLen :: nat where "addressHexLen = 40"
definition signatureBytes :: nat where "signatureBytes = 65"

record evm_lib =
  keccak256 :: "string \<Rightarrow> string"
  RecoverCompact :: "string \<Rightarrow> string \<Rightarrow> error + string"
  time_RFC3339 :: "time \<Rightarrow> string"

record EVMProvider =
  evm_chain :: string
  evm_chainID :: int

definition EVM_New :: "string \<Rightarrow> int \<Rightarrow> EVMProvider" where
  "EVM_New chain chainID = \<lparr>evm_chain = chain, evm_chainID = chainID\<rparr>"

section \<open>Addresses\<close>

definition upper1 :: "char \<Rightarrow> char" where
  "upper1 c = (if 97 \<le> byte c \<and> byte c \<le> 122 then char_of (byte c - 32) else c)"

text \<open>One step of the loop of \<^verbatim>\<open>checksum\<close>: the digit at \<open>i\<close>, given the hash.\<close>

definition checksum_digit :: "string \<Rightarrow> nat \<Rightarrow> char \<Rightarrow> char" where
  "checksum_digit hash i c =
    (let nibble = (if i mod 2 = 1 then byte (hash ! (i div 2)) mod 16 else byte (hash ! (i div 2)) div 16)
     in if 97 \<le> byte c \<and> 8 \<le> nibble then char_of (byte c - 97 + 65) else c)"

definition checksum :: "evm_lib \<Rightarrow> string \<Rightarrow> string" where
  "checksum lib lowerDigits =
    (let hash = keccak256 lib lowerDigits
     in ''0x'' @ map (\<lambda>i. checksum_digit hash i (lowerDigits ! i)) [0..<length lowerDigits])"

text \<open>The digits that reach the case conversions are hexadecimal, so these are ASCII.\<close>

definition EVM_NormalizeAddress :: "evm_lib \<Rightarrow> string \<Rightarrow> error + string" where
  "EVM_NormalizeAddress lib addr =
    (let (digits, found) = strings_CutPrefix addr ''0x'' in
     if \<not> found \<or> length digits \<noteq> addressHexLen
     then Inl (Errorf ''%w: want 0x followed by %d hex digits'' [Sentinel EVM_ErrInvalidAddress])
     else if hex_DecodeString digits = None
     then Inl (Errorf ''%w: not hex'' [Sentinel EVM_ErrInvalidAddress])
     else
       let lower = map lower1 digits;
           checksummed = checksum lib lower
       in if digits \<noteq> lower \<and> digits \<noteq> map upper1 digits \<and> digits \<noteq> drop 2 checksummed
          then Inl (Errorf ''%w: checksum mismatch'' [Sentinel EVM_ErrInvalidAddress])
          else Inr checksummed)"

section \<open>Messages\<close>

definition EVM_BuildMessage :: "evm_lib \<Rightarrow> EVMProvider \<Rightarrow> string \<Rightarrow> string \<Rightarrow> MessageOpts \<Rightarrow> string" where
  "EVM_BuildMessage lib p addr nonce opts =
    Opts_Domain opts @ '' wants you to sign in with your Ethereum account:'' @ [CHR 0x0A] @ addr @ [CHR 0x0A, CHR 0x0A] @
    (if Opts_Statement opts \<noteq> '''' then Opts_Statement opts @ [CHR 0x0A] else '''') @
    [CHR 0x0A] @
    ''URI: '' @ Opts_URI opts @ [CHR 0x0A] @ ''Version: 1'' @ [CHR 0x0A] @
    ''Chain ID: '' @ strconv_Itoa (evm_chainID p) @ [CHR 0x0A] @ ''Nonce: '' @ nonce @ [CHR 0x0A] @
    ''Issued At: '' @ time_RFC3339 lib (Opts_IssuedAt opts) @
    (if \<not> time_IsZero (Opts_ExpiresAt opts)
     then [CHR 0x0A] @ ''Expiration Time: '' @ time_RFC3339 lib (Opts_ExpiresAt opts) else '''')"

section \<open>Signatures\<close>

definition compactSignature :: "string \<Rightarrow> error + string" where
  "compactSignature sig =
    (let (digits, found) = strings_CutPrefix sig ''0x'' in
     if \<not> found then Inl (Errorf ''%w: missing 0x prefix'' [Sentinel EVM_ErrInvalidSignature])
     else
       case hex_DecodeString digits of
         None \<Rightarrow> Inl (Errorf ''%w: want %d hex-encoded bytes'' [Sentinel EVM_ErrInvalidSignature])
       | Some raw \<Rightarrow>
           if length raw \<noteq> signatureBytes
           then Inl (Errorf ''%w: want %d hex-encoded bytes'' [Sentinel EVM_ErrInvalidSignature])
           else
             let v = byte (raw ! (signatureBytes - 1)) in
             if v = 0 \<or> v = 1 then Inr (char_of (27 + v) # take (signatureBytes - 1) raw)
             else if v = 27 \<or> v = 28 then Inr (char_of v # take (signatureBytes - 1) raw)
             else Inl (Errorf ''%w: recovery id v=%d'' [Sentinel EVM_ErrInvalidSignature]))"

definition personalSignHash :: "evm_lib \<Rightarrow> string \<Rightarrow> string" where
  "personalSignHash lib message =
    keccak256 lib (CHR 0x19 # ''Ethereum Signed Message:'' @ [CHR 0x0A] @ strconv_Itoa (int (length message)) @ message)"

definition EVM_VerifySignature :: "evm_lib \<Rightarrow> string \<Rightarrow> string \<Rightarrow> string \<Rightarrow> error option" where
  "EVM_VerifySignature lib addr message sig =
    (case EVM_NormalizeAddress lib addr of
       Inl err \<Rightarrow> Some err
     | Inr want \<Rightarrow>
         (case compactSignature sig of
            Inl err \<Rightarrow> Some err
          | Inr compact \<Rightarrow>
              (case RecoverCompact lib compact (personalSignHash lib message) of
                 Inl err \<Rightarrow> Some (Errorf ''%w: %w'' [Sentinel EVM_ErrInvalidSignature, err])
               | Inr pub \<Rightarrow>
                   let got = checksum lib (hex_EncodeToString (drop 12 (keccak256 lib (drop 1 pub))))
                   in if got \<noteq> want
                      then Some (Errorf ''%w: signed by another address'' [Sentinel EVM_ErrInvalidSignature])
                      else None)))"

definition evmTable :: "evm_lib \<Rightarrow> EVMProvider \<Rightarrow> WalletProvider" where
  "evmTable lib p = \<lparr>Chain = evm_chain p, NormalizeAddress = EVM_NormalizeAddress lib,
     BuildMessage = EVM_BuildMessage lib p, VerifySignature = EVM_VerifySignature lib\<rparr>"

lemma evmTable_simps [simp]:
  "Chain (evmTable lib p) = evm_chain p" "NormalizeAddress (evmTable lib p) = EVM_NormalizeAddress lib"
  "BuildMessage (evmTable lib p) = EVM_BuildMessage lib p" "VerifySignature (evmTable lib p) = EVM_VerifySignature lib"
  by (simp_all add: evmTable_def)

section \<open>Normal forms of addresses\<close>

text \<open>Hexadecimal digits and what the case conversions do to them.\<close>

definition hex_char :: "char \<Rightarrow> bool" where
  "hex_char c \<longleftrightarrow> hex_val c \<noteq> None"

lemma hex_char_iff:
  "hex_char c \<longleftrightarrow> byte c \<in> {48..57} \<or> byte c \<in> {97..102} \<or> byte c \<in> {65..70}"
  by (auto simp: hex_char_def hex_val_def Let_def)

lemma hex_decode_iff: "hex_DecodeString s \<noteq> None \<longleftrightarrow> even (length s) \<and> list_all hex_char s"
  by (induction s rule: hex_DecodeString.induct) (auto simp: hex_char_def split: option.splits)

lemma byte_eqI: "byte c = byte d \<Longrightarrow> c = d"
  by simp

lemma lower1_hex: "hex_char c \<Longrightarrow> byte (lower1 c) = (if 65 \<le> byte c \<and> byte c \<le> 90 then byte c + 32 else byte c)"
  by (auto simp: hex_char_iff lower1_def ascii_lower_def)

lemma checksum_digit_lower:
  assumes "hex_char c" "c = lower1 c"
  shows "lower1 (checksum_digit h i c) = c" "hex_char (checksum_digit h i c)"
proof -
  define n where "n = (if i mod 2 = 1 then byte (h ! (i div 2)) mod 16 else byte (h ! (i div 2)) div 16)"
  have d: "checksum_digit h i c = (if 97 \<le> byte c \<and> 8 \<le> n then char_of (byte c - 97 + 65) else c)"
    by (simp add: checksum_digit_def n_def Let_def)
  have b: "byte c \<in> {48..57} \<or> byte c \<in> {97..102}"
    using assms(1) arg_cong [OF assms(2), of byte] unfolding lower1_hex [OF assms(1)]
    by (auto simp: hex_char_iff split: if_splits)
  show h: "hex_char (checksum_digit h i c)"
    unfolding d using b by (auto simp: hex_char_iff)
  show "lower1 (checksum_digit h i c) = c"
  proof (cases "97 \<le> byte c \<and> 8 \<le> n")
    case True
    then have e: "byte (checksum_digit h i c) = byte c - 32" using b by (simp add: d)
    then have "byte (lower1 (checksum_digit h i c)) = byte c" using b True by (simp add: lower1_hex [OF h]) linarith
    then show ?thesis by (rule byte_eqI)
  next
    case False
    then have "checksum_digit h i c = c" unfolding d by (rule if_not_P)
    then show ?thesis using assms(2) by simp
  qed
qed

lemma lower1_hex_idem: "hex_char c \<Longrightarrow> lower1 (lower1 c) = lower1 c \<and> hex_char (lower1 c)"
  by (auto simp: hex_char_iff lower1_hex intro!: lower1_idem)

text \<open>The checksummed form of 40 lower-case digits, taken apart.\<close>

lemma checksum_drop: "drop 2 (checksum lib s) = map (\<lambda>i. checksum_digit (keccak256 lib s) i (s ! i)) [0..<length s]"
  by (simp add: checksum_def Let_def)

lemma checksum_lower:
  assumes "list_all hex_char s" "map lower1 s = s"
  shows "map lower1 (drop 2 (checksum lib s)) = s" "list_all hex_char (drop 2 (checksum lib s))"
    "length (drop 2 (checksum lib s)) = length s"
proof -
  have c: "hex_char (s ! i)" "s ! i = lower1 (s ! i)" if "i < length s" for i
  proof -
    show "hex_char (s ! i)" using assms(1) that by (simp add: list_all_length)
    have "map lower1 s ! i = s ! i" by (simp only: assms(2))
    then show "s ! i = lower1 (s ! i)" using that by simp
  qed
  show "map lower1 (drop 2 (checksum lib s)) = s"
    by (rule nth_equalityI) (simp_all add: checksum_drop checksum_digit_lower(1) c(1) c(2) [symmetric])
  show "list_all hex_char (drop 2 (checksum lib s))"
    by (simp add: checksum_drop list_all_length checksum_digit_lower(2) c(1) c(2) [symmetric])
  show "length (drop 2 (checksum lib s)) = length s" by (simp add: checksum_drop)
qed

lemma NormalizeAddress_ok:
  assumes "EVM_NormalizeAddress lib a = Inr b"
  obtains d where "a = ''0x'' @ d" "length d = 40" "list_all hex_char d" "b = checksum lib (map lower1 d)"
proof -
  obtain d where d: "strings_CutPrefix a ''0x'' = (d, True)" "length d = 40" "hex_DecodeString d \<noteq> None"
    "b = checksum lib (map lower1 d)"
    using assms by (auto simp: EVM_NormalizeAddress_def Let_def addressHexLen_def split: prod.splits if_splits)
  then have "a = ''0x'' @ d" by (auto simp: strings_CutPrefix_def split: if_splits dest!: HasPrefixE)
  with d that show ?thesis unfolding hex_decode_iff by auto
qed

lemma NormalizeAddress_checksum:
  assumes "length s = 40" "list_all hex_char s" "map lower1 s = s"
  shows "EVM_NormalizeAddress lib (checksum lib s) = Inr (checksum lib s)"
proof -
  note c = checksum_lower [OF assms(2,3), of lib]
  have "checksum lib s = ''0x'' @ drop 2 (checksum lib s)" by (simp add: checksum_def Let_def)
  then have "strings_CutPrefix (checksum lib s) ''0x'' = (drop 2 (checksum lib s), True)"
    by (metis HasPrefix_append strings_CutPrefix_def append_eq_conv_conj)
  moreover have "hex_DecodeString (drop 2 (checksum lib s)) \<noteq> None" unfolding hex_decode_iff using c assms(1) by simp
  ultimately show ?thesis using c assms(1) by (simp add: EVM_NormalizeAddress_def addressHexLen_def Let_def)
qed

text \<open>
  One address, one normal form. Whatever \<^verbatim>\<open>NormalizeAddress\<close> accepts is \<^verbatim>\<open>0x\<close>
  and 40 hexadecimal digits, and the result is again accepted and unchanged; and two accepted
  spellings have the same normal form exactly when they are the same digits up to letter case.
\<close>

theorem NormalizeAddress_canonical:
  assumes "EVM_NormalizeAddress lib a = Inr n"
  shows "length a = 42 \<and> list_all hex_char (drop 2 a) \<and> EVM_NormalizeAddress lib n = Inr n \<and>
    map lower1 (drop 2 n) = map lower1 (drop 2 a) \<and>
    (\<forall>a' n'. EVM_NormalizeAddress lib a' = Inr n' \<longrightarrow>
       (n' = n \<longleftrightarrow> map lower1 (drop 2 a') = map lower1 (drop 2 a)))"
proof -
  have low: "list_all hex_char (map lower1 d) \<and> map lower1 (map lower1 d) = map lower1 d" if "list_all hex_char d" for d
    using that by (induction d) (auto simp: lower1_hex_idem)
  have n: "map lower1 (drop 2 n) = map lower1 (drop 2 a) \<and> n = checksum lib (map lower1 (drop 2 a)) \<and>
      length a = 42 \<and> list_all hex_char (drop 2 a)" if "EVM_NormalizeAddress lib a = Inr n" for a n
  proof (rule NormalizeAddress_ok [OF that])
    fix d assume "a = ''0x'' @ d" "length d = 40" "list_all hex_char d" "n = checksum lib (map lower1 d)"
    then show ?thesis using low [of d] checksum_lower(1) [of "map lower1 d" lib] by simp
  qed
  have "EVM_NormalizeAddress lib n = Inr n"
    using n [OF assms] NormalizeAddress_checksum [of "map lower1 (drop 2 a)" lib] low [of "drop 2 a"] by auto
  then show ?thesis using n [OF assms] n by metis
qed

section \<open>Signatures\<close>

lemma compactSignature_bytes:
  assumes "length rs = 64"
  shows "compactSignature (''0x'' @ hex_EncodeToString (rs @ [v])) =
    (if byte v \<in> {0, 1} then Inr (char_of (27 + byte v) # rs)
     else if byte v \<in> {27, 28} then Inr (v # rs)
     else Inl (Errorf ''%w: recovery id v=%d'' [Sentinel EVM_ErrInvalidSignature]))"
proof -
  have "(rs @ [v]) ! 64 = v" using assms by (metis nth_append_length)
  then show ?thesis
    using assms by (auto simp: compactSignature_def strings_CutPrefix_def strings_HasPrefix_def signatureBytes_def Let_def)
qed

text \<open>
  Only canonical signatures are accepted. The compact form of an accepted signature is 65 bytes:
  a recovery code 27 or 28 followed by \<^verbatim>\<open>r\<close> and \<^verbatim>\<open>s\<close> as sent; a signature
  \<^verbatim>\<open>r || s || v\<close> in hexadecimal is accepted exactly when \<^verbatim>\<open>v\<close> is 0, 1, 27 or
  28, so no other code (31 and 32 would mean a compressed key) reaches the recovery.
\<close>

theorem compactSignature_spec:
  assumes "length rs = 64"
  shows "compactSignature (''0x'' @ hex_EncodeToString (rs @ [v])) =
    (if byte v \<in> {0, 1} then Inr (char_of (27 + byte v) # rs)
     else if byte v \<in> {27, 28} then Inr (v # rs)
     else Inl (Errorf ''%w: recovery id v=%d'' [Sentinel EVM_ErrInvalidSignature])) \<and>
   (\<forall>sig c. compactSignature sig = Inr c \<longrightarrow> length c = 65 \<and> byte (hd c) \<in> {27, 28})"
  unfolding compactSignature_bytes [OF assms]
  by (auto simp: compactSignature_def signatureBytes_def Let_def split: prod.splits option.splits if_splits)

text \<open>Verification succeeds exactly when the address has a normal form, the signature a compact form,
  and the recovered key that normal form as its address.\<close>

lemma VerifySignature_iff:
  "EVM_VerifySignature lib addr message sig = None \<longleftrightarrow>
    (\<exists>want compact pub. EVM_NormalizeAddress lib addr = Inr want \<and> compactSignature sig = Inr compact \<and>
       RecoverCompact lib compact (personalSignHash lib message) = Inr pub \<and>
       checksum lib (hex_EncodeToString (drop 12 (keccak256 lib (drop 1 pub)))) = want)"
  by (auto simp: EVM_VerifySignature_def Let_def split: sum.splits)

text \<open>
  A signature proves one address. If a signature of a message verifies for two spellings of an
  address, both have the same normal form, the checksummed address of the key recovered from the
  EIP-191 hash of this very message; in particular it verifies for that normal form.
\<close>

theorem VerifySignature_unique:
  assumes "EVM_VerifySignature lib a message sig = None" "EVM_VerifySignature lib b message sig = None"
  shows "EVM_NormalizeAddress lib a = EVM_NormalizeAddress lib b \<and>
    (\<exists>n. EVM_NormalizeAddress lib a = Inr n \<and> EVM_VerifySignature lib n message sig = None)"
proof -
  obtain n compact pub where n: "EVM_NormalizeAddress lib a = Inr n" "compactSignature sig = Inr compact"
    "RecoverCompact lib compact (personalSignHash lib message) = Inr pub"
    "checksum lib (hex_EncodeToString (drop 12 (keccak256 lib (drop 1 pub)))) = n"
    using assms(1) by (auto simp: VerifySignature_iff)
  moreover have "EVM_NormalizeAddress lib b = Inr n" using assms(2) n by (auto simp: VerifySignature_iff)
  moreover have "EVM_NormalizeAddress lib n = Inr n"
  proof (rule NormalizeAddress_ok [OF n(1)])
    fix d assume d: "length d = 40" "list_all hex_char d" "n = checksum lib (map lower1 d)"
    have "list_all hex_char (map lower1 d) \<and> map lower1 (map lower1 d) = map lower1 d"
      using d(2) by (induction d) (auto simp: lower1_hex_idem)
    then show ?thesis using d NormalizeAddress_checksum [of "map lower1 d" lib] by simp
  qed
  ultimately show ?thesis by (auto simp: VerifySignature_iff)
qed

section \<open>Messages\<close>

text \<open>Decimal numbers are single-line and determine the number.\<close>

lemma digits_chars: "c \<in> set (digits n) \<Longrightarrow> 48 \<le> byte c \<and> byte c \<le> 57"
proof (induction n rule: digits.induct)
  case (1 n)
  have "48 + n mod 10 < 256" "48 + n mod 10 \<le> 57" by linarith+
  with 1 show ?case
    by (subst (asm) digits.simps) (auto split: if_splits)
qed

lemma digits_nonempty [simp]: "digits n \<noteq> []" "[] \<noteq> digits n"
  by (subst digits.simps, simp)+

lemma digits_inject: "digits m = digits n \<Longrightarrow> m = n"
proof (induction m arbitrary: n rule: digits.induct)
  case (1 m)
  have b: "byte (char_of (48 + k)) = 48 + k" if "k < 10" for k :: nat using that by simp
  have last: "byte (last (digits k)) = 48 + k mod 10" and
    butlast: "butlast (digits k) = (if k < 10 then [] else digits (k div 10))" for k
    by (subst digits.simps, simp)+
  have m: "m mod 10 = n mod 10" using last [of m] last [of n] 1(2) by simp
  show ?case
  proof (cases "m < 10")
    case True
    then have "n < 10" using butlast [of m] butlast [of n] 1(2) by (auto split: if_splits)
    with True m show ?thesis by simp
  next
    case False
    then have "\<not> n < 10" "digits (m div 10) = digits (n div 10)"
      using butlast [of m] butlast [of n] 1(2) by (auto split: if_splits)
    then show ?thesis using 1(1) [OF False] m by (metis div_mult_mod_eq)
  qed
qed

lemma Itoa_inject: "strconv_Itoa i = strconv_Itoa k \<Longrightarrow> i = k"
proof -
  assume e: "strconv_Itoa i = strconv_Itoa k"
  have "CHR ''-'' \<notin> set (digits n)" for n using digits_chars [of "CHR ''-''" n] by auto
  then have "digits n \<noteq> CHR ''-'' # x" "CHR ''-'' # x \<noteq> digits n" for n x by (metis list.set_intros(1))+
  then show "i = k" using e digits_inject by (auto simp: strconv_Itoa_def split: if_splits dest!: digits_inject)
qed

lemma Itoa_no_LF: "CHR 0x0A \<notin> set (strconv_Itoa i)"
  using digits_chars [of "CHR 0x0A"] by (auto simp: strconv_Itoa_def)

definition single_line :: "string \<Rightarrow> bool" where
  "single_line s \<longleftrightarrow> CHR 0x0A \<notin> set s"

definition message_lines :: "evm_lib \<Rightarrow> EVMProvider \<Rightarrow> string \<Rightarrow> string \<Rightarrow> MessageOpts \<Rightarrow> string list" where
  "message_lines lib p addr nonce opts =
    [Opts_Domain opts @ '' wants you to sign in with your Ethereum account:'', addr, ''''] @
    (if Opts_Statement opts = '''' then [] else [Opts_Statement opts]) @
    ['''', ''URI: '' @ Opts_URI opts, ''Version: 1'', ''Chain ID: '' @ strconv_Itoa (evm_chainID p),
     ''Nonce: '' @ nonce, ''Issued At: '' @ time_RFC3339 lib (Opts_IssuedAt opts)] @
    (if time_IsZero (Opts_ExpiresAt opts) then []
     else [''Expiration Time: '' @ time_RFC3339 lib (Opts_ExpiresAt opts)])"

text \<open>The fields a message is built from have no line break.\<close>

definition fields_single_line :: "evm_lib \<Rightarrow> string \<Rightarrow> string \<Rightarrow> MessageOpts \<Rightarrow> bool" where
  "fields_single_line lib addr nonce opts \<longleftrightarrow>
    list_all single_line [Opts_Domain opts, addr, Opts_Statement opts, Opts_URI opts, nonce,
      time_RFC3339 lib (Opts_IssuedAt opts), time_RFC3339 lib (Opts_ExpiresAt opts)]"

lemma BuildMessage_Join: "EVM_BuildMessage lib p addr nonce opts = strings_Join [CHR 0x0A] (message_lines lib p addr nonce opts)"
  by (simp add: EVM_BuildMessage_def message_lines_def)

lemma Split_message:
  assumes "fields_single_line lib addr nonce opts"
  shows "strings_Split (CHR 0x0A) (EVM_BuildMessage lib p addr nonce opts) = message_lines lib p addr nonce opts"
  unfolding BuildMessage_Join
  by (rule Split_Join) (use assms in \<open>simp_all add: message_lines_def fields_single_line_def single_line_def Itoa_no_LF\<close>)

text \<open>
  C32. What is signed is what is meant. Two messages built from single-line fields are equal only
  when they name the same domain, address, statement, URI, chain id and nonce and the same issue
  time, so no message of one sign-in is that of another chain, address, site or challenge.
\<close>

theorem BuildMessage_injective:
  assumes "fields_single_line lib a n opts" "fields_single_line lib a' n' opts'"
    and "EVM_BuildMessage lib p a n opts = EVM_BuildMessage lib p' a' n' opts'"
  shows "Opts_Domain opts = Opts_Domain opts' \<and> a = a' \<and> n = n' \<and> Opts_Statement opts = Opts_Statement opts' \<and>
    Opts_URI opts = Opts_URI opts' \<and> evm_chainID p = evm_chainID p' \<and>
    time_RFC3339 lib (Opts_IssuedAt opts) = time_RFC3339 lib (Opts_IssuedAt opts')"
proof -
  have "message_lines lib p a n opts = message_lines lib p' a' n' opts'"
    using Split_message [OF assms(1), of p] Split_message [OF assms(2), of p'] assms(3) by simp
  then show ?thesis
    by (auto simp: message_lines_def dest: Itoa_inject split: if_splits)
qed

section \<open>Witnesses\<close>

text \<open>A library whose hash is 32 zero bytes: the checksum is then the lower-case form, and every
  signature recovers to the zero address.\<close>

definition demo_lib :: evm_lib where
  "demo_lib = \<lparr>keccak256 = (\<lambda>s. replicate 32 (char_of (0::nat))), RecoverCompact = (\<lambda>c h. Inr (replicate 65 (char_of (4::nat)))),
     time_RFC3339 = (\<lambda>t. ''now'')\<rparr>"

definition demo_address :: string where
  "demo_address = ''0x'' @ replicate 40 (CHR ''0'')"

lemma demo_checksum:
  assumes "length s \<le> 64"
  shows "checksum demo_lib s = ''0x'' @ s"
proof -
  have "checksum_digit (replicate 32 (char_of (0::nat))) i c = c" if "i < length s" for i c
  proof -
    have "i div 2 < 32" using that assms by linarith
    then show ?thesis by (simp add: checksum_digit_def Let_def)
  qed
  then have "map (\<lambda>i. checksum_digit (replicate 32 (char_of (0::nat))) i (s ! i)) [0..<length s] = s"
    by (intro nth_equalityI) simp_all
  then show ?thesis by (simp add: checksum_def demo_lib_def Let_def)
qed

lemma demo_normalize: "EVM_NormalizeAddress demo_lib demo_address = Inr demo_address"
proof -
  have z: "lower1 (CHR ''0'') = CHR ''0''" "hex_char (CHR ''0'')"
    by (rule byte_eqI, simp_all add: lower1_def ascii_lower_def hex_char_def hex_val_def)
  have "hex_DecodeString (replicate 40 (CHR ''0'')) \<noteq> None" unfolding hex_decode_iff by (simp add: list_all_iff z)
  then show ?thesis
    by (simp add: EVM_NormalizeAddress_def demo_address_def strings_CutPrefix_def strings_HasPrefix_def addressHexLen_def
        z demo_checksum Let_def)
qed

theorem NormalizeAddress_canonical_witness:
  "length demo_address = 42 \<and> EVM_NormalizeAddress demo_lib demo_address = Inr demo_address"
  using NormalizeAddress_canonical [OF demo_normalize] by simp

theorem compactSignature_spec_witness:
  "compactSignature (''0x'' @ hex_EncodeToString (replicate 64 (CHR ''r'') @ [char_of (28::nat)])) =
     Inr (char_of (28::nat) # replicate 64 (CHR ''r''))"
  using compactSignature_spec [of "replicate 64 (CHR ''r'')" "char_of (28::nat)"] by simp

lemma demo_signature:
  "EVM_VerifySignature demo_lib demo_address ''m'' (''0x'' @ hex_EncodeToString (replicate 64 (CHR ''r'') @ [char_of (28::nat)])) = None"
proof -
  have "hex_digit 0 = CHR ''0''" by (rule byte_eqI) (simp add: hex_digit_def)
  then have h: "hex_EncodeToString (replicate n (char_of (0::nat))) = concat (replicate n ''00'')" for n
    by (induction n) simp_all
  have r: "concat (replicate n ''00'') = replicate (2 * n) (CHR ''0'')" for n
    by (induction n) simp_all
  have "compactSignature (''0x'' @ hex_EncodeToString (replicate 64 (CHR ''r'') @ [char_of (28::nat)])) =
     Inr (char_of (28::nat) # replicate 64 (CHR ''r''))"
    by (subst compactSignature_bytes) simp_all
  then show ?thesis
    unfolding VerifySignature_iff demo_normalize
    by (simp add: demo_lib_def h r demo_checksum [unfolded demo_lib_def] demo_address_def)
qed

theorem VerifySignature_unique_witness:
  "\<exists>n. EVM_NormalizeAddress demo_lib demo_address = Inr n \<and> EVM_VerifySignature demo_lib n ''m''
     (''0x'' @ hex_EncodeToString (replicate 64 (CHR ''r'') @ [char_of (28::nat)])) = None"
  using VerifySignature_unique [OF demo_signature demo_signature] by blast

theorem BuildMessage_injective_witness:
  "EVM_BuildMessage demo_lib (EVM_New ''ethereum'' 1) demo_address ''n1''
     \<lparr>Opts_Domain = ''app'', Opts_URI = ''https://app'', Opts_Statement = '''', Opts_IssuedAt = 1, Opts_ExpiresAt = 2\<rparr> \<noteq>
   EVM_BuildMessage demo_lib (EVM_New ''polygon'' 137) demo_address ''n1''
     \<lparr>Opts_Domain = ''app'', Opts_URI = ''https://app'', Opts_Statement = '''', Opts_IssuedAt = 1, Opts_ExpiresAt = 2\<rparr>"
proof -
  let ?o = "\<lparr>Opts_Domain = ''app'', Opts_URI = ''https://app'', Opts_Statement = '''', Opts_IssuedAt = 1, Opts_ExpiresAt = 2\<rparr>"
  have "fields_single_line demo_lib demo_address ''n1'' ?o"
    by (simp add: fields_single_line_def single_line_def demo_address_def demo_lib_def)
  from BuildMessage_injective [OF this this, of "EVM_New ''ethereum'' 1" "EVM_New ''polygon'' 137"] show ?thesis
    by (auto simp: EVM_New_def)
qed

end
