(* ===== verification/Token_Issuer.thy ===== *)
theory Token_Issuer
  imports Ports Go_Strings
begin

text \<open>
  \<^verbatim>\<open>token/issuer.go\<close>: access and refresh tokens, token hashes and personal access
  tokens. The JWT library go-jose is a parameter, the record \<open>jose\<close> of the functions the
  issuer calls; keys, signers and parsed tokens are opaque strings. What the issuer relies on
  is stated by \<open>jose_signs\<close>, \<open>jose_dates\<close> and \<open>jose_validates\<close>, all documented
  behaviour of that library.
\<close>

section \<open>Constants\<close>

definition AccessTokenTTL :: duration where "AccessTokenTTL = 15 * minute"
definition RefreshTokenTTL :: duration where "RefreshTokenTTL = 7 * 24 * hour"
definition JWTIssuer :: string where "JWTIssuer = ''psina''"
definition KeyID :: string where "KeyID = ''psina-key-1''"
definition ClockSkewTolerance :: duration where "ClockSkewTolerance = 30 * second"
definition PATPrefix :: string where "PATPrefix = ''psn_''"

section \<open>Hashes and personal access tokens\<close>

definition HashToken :: "'st world \<Rightarrow> string \<Rightarrow> string" where
  "HashToken w token = b64_encode True (sha256 w token)"

text \<open>\<^verbatim>\<open>GeneratePAT\<close>: the plaintext and its hash.\<close>

definition GeneratePAT :: "'st world \<Rightarrow> (error + string \<times> string) \<times> 'st world" where
  "GeneratePAT w =
    (case draw_bytes 32 w of
       (None, w1) \<Rightarrow> (Inl (Errorf ''generate pat: %w'' [Foreign ''rand'']), w1)
     | (Some b, w1) \<Rightarrow>
         let plaintext = PATPrefix @ b64_encode True b
         in (Inr (plaintext, HashToken w1 plaintext), w1))"

section \<open>The issuer\<close>

text \<open>\<^verbatim>\<open>customClaims\<close> with the embedded \<^verbatim>\<open>jwt.Claims\<close>. A \<^verbatim>\<open>*jwt.NumericDate\<close>
  is an optional number of seconds.\<close>

record customClaims =
  JC_ID :: string
  JC_Subject :: string
  JC_Issuer :: string
  JC_IssuedAt :: "int option"
  JC_Expiry :: "int option"
  JC_NotBefore :: "int option"
  JC_Email :: string
  JC_Roles :: "string list"

text \<open>go-jose: a signer from an algorithm, a private key and a key id; the public half of a
  key; signing and serialising claims; parsing a compact token against a list of allowed
  algorithms; checking its signature and decoding its claims; validating claims against an
  expected issuer at a time; numeric dates.\<close>

record jose =
  NewSigner :: "string \<Rightarrow> string \<Rightarrow> string \<Rightarrow> error + string"
  publicKey_of :: "string \<Rightarrow> string"
  Serialize :: "string \<Rightarrow> customClaims \<Rightarrow> error + string"
  ParseSigned :: "string \<Rightarrow> string list \<Rightarrow> error + string"
  tok_Claims :: "string \<Rightarrow> string \<Rightarrow> error + customClaims"
  Validate :: "customClaims \<Rightarrow> string \<Rightarrow> time \<Rightarrow> error option"
  NewNumericDate :: "time \<Rightarrow> int option"
  NumericDate_Time :: "int option \<Rightarrow> time"

record Issuer =
  iss_algorithm :: string
  iss_privateKey :: string
  iss_publicKey :: string
  iss_signer :: string
  iss_jwks :: "JSONWebKey list"

definition newIssuer :: "jose \<Rightarrow> string \<Rightarrow> string \<Rightarrow> error + Issuer" where
  "newIssuer j alg privateKey =
    (case NewSigner j alg privateKey KeyID of
       Inl err \<Rightarrow> Inl (Errorf ''create signer: %w'' [err])
     | Inr signer \<Rightarrow>
         Inr \<lparr>iss_algorithm = alg, iss_privateKey = privateKey,
              iss_publicKey = publicKey_of j privateKey, iss_signer = signer,
              iss_jwks = [\<lparr>JWK_Key = publicKey_of j privateKey, JWK_KeyID = KeyID,
                           JWK_Algorithm = alg, JWK_Use = ''sig''\<rparr>]\<rparr>)"

definition NewWithRSAKey :: "jose \<Rightarrow> string \<Rightarrow> error + Issuer" where
  "NewWithRSAKey j privateKey = newIssuer j ''RS256'' privateKey"

definition NewWithECDSAKey :: "jose \<Rightarrow> string \<Rightarrow> error + Issuer" where
  "NewWithECDSAKey j privateKey = newIssuer j ''ES256'' privateKey"

definition NewWithAlgorithm :: "jose \<Rightarrow> string \<Rightarrow> 'st world \<Rightarrow> (error + Issuer) \<times> 'st world" where
  "NewWithAlgorithm j alg w =
    (if alg = ''ES256'' then
       (case draw_key (ecdsa_GenerateKey w) w of
          (Inl err, w1) \<Rightarrow> (Inl (Errorf ''generate ECDSA key: %w'' [err]), w1)
        | (Inr privateKey, w1) \<Rightarrow> (NewWithECDSAKey j privateKey, w1))
     else
       (case draw_key (rsa_GenerateKey w 2048) w of
          (Inl err, w1) \<Rightarrow> (Inl (Errorf ''generate RSA key: %w'' [err]), w1)
        | (Inr privateKey, w1) \<Rightarrow> (NewWithRSAKey j privateKey, w1)))"

text \<open>\<^verbatim>\<open>GenerateTokens\<close>: the pair and the hash of the refresh token.\<close>

definition Issuer_GenerateTokens :: "jose \<Rightarrow> Issuer \<Rightarrow> string \<Rightarrow> string \<Rightarrow> string list \<Rightarrow>
    'st world \<Rightarrow> (error + TokenPair \<times> string) \<times> 'st world" where
  "Issuer_GenerateTokens j i userID email roles w =
    (let (now, w1) = time_Now w in
     case draw_bytes 16 w1 of
       (None, w2) \<Rightarrow> (Inl (Errorf ''generate jti: %w'' [Foreign ''rand'']), w2)
     | (Some jtiBytes, w2) \<Rightarrow>
         let claims = \<lparr>JC_ID = b64_encode True jtiBytes, JC_Subject = userID, JC_Issuer = JWTIssuer,
               JC_IssuedAt = NewNumericDate j now,
               JC_Expiry = NewNumericDate j (now + AccessTokenTTL),
               JC_NotBefore = NewNumericDate j (now + - ClockSkewTolerance),
               JC_Email = email, JC_Roles = roles\<rparr>
         in case Serialize j (iss_signer i) claims of
              Inl err \<Rightarrow> (Inl (Errorf ''sign access token: %w'' [err]), w2)
            | Inr accessToken \<Rightarrow>
                (case draw_bytes 32 w2 of
                   (None, w3) \<Rightarrow> (Inl (Errorf ''generate refresh token: %w'' [Foreign ''rand'']), w3)
                 | (Some refreshTokenBytes, w3) \<Rightarrow>
                     let refreshToken = b64_encode True refreshTokenBytes
                     in (Inr (\<lparr>AccessToken = accessToken, RefreshTokenText = refreshToken,
                               ExpiresIn = AccessTokenTTL div second\<rparr>,
                              HashToken w3 refreshToken), w3)))"

definition Issuer_ParseToken :: "jose \<Rightarrow> Issuer \<Rightarrow> string \<Rightarrow> 'st world \<Rightarrow> (error + Claims) \<times> 'st world" where
  "Issuer_ParseToken j i accessToken w =
    (case ParseSigned j accessToken [iss_algorithm i] of
       Inl err \<Rightarrow> (Inl (Errorf ''parse token: %w'' [err]), w)
     | Inr tok \<Rightarrow>
         (case tok_Claims j tok (iss_publicKey i) of
            Inl err \<Rightarrow> (Inl (Errorf ''verify token: %w'' [err]), w)
          | Inr claims \<Rightarrow>
              let (now, w1) = time_Now w in
              case Validate j claims JWTIssuer now of
                Some err \<Rightarrow> (Inl (Errorf ''validate claims: %w'' [err]), w1)
              | None \<Rightarrow>
                  (Inr \<lparr>Claims_UserID = JC_Subject claims, Claims_Email = JC_Email claims,
                        Claims_Roles = JC_Roles claims, Claims_Issuer = JC_Issuer claims,
                        Claims_Exp = Unix_of (NumericDate_Time j (JC_Expiry claims)),
                        Claims_Iat = Unix_of (NumericDate_Time j (JC_IssuedAt claims))\<rparr>, w1)))"

definition issuerTable :: "jose \<Rightarrow> Issuer \<Rightarrow> 'st TokenIssuer" where
  "issuerTable j i = \<lparr>GenerateTokens = Issuer_GenerateTokens j i, ParseToken = Issuer_ParseToken j i,
     JWKS = iss_jwks i\<rparr>"

section \<open>What the issuer relies on\<close>

text \<open>Tokens the issuer signs parse under its algorithm and public key to the same claims.\<close>

definition jose_signs :: "jose \<Rightarrow> Issuer \<Rightarrow> bool" where
  "jose_signs j i \<longleftrightarrow> (\<forall>claims t. Serialize j (iss_signer i) claims = Inr t \<longrightarrow>
     (\<exists>tok. ParseSigned j t [iss_algorithm i] = Inr tok \<and>
            tok_Claims j tok (iss_publicKey i) = Inr claims))"

text \<open>Numeric dates are Unix seconds; the zero time is nil, read back as the epoch.\<close>

definition jose_dates :: "jose \<Rightarrow> bool" where
  "jose_dates j \<longleftrightarrow>
     (\<forall>t. t \<noteq> 0 \<longrightarrow> NewNumericDate j t = Some (Unix_of t)) \<and>
     (\<forall>s. NumericDate_Time j (Some s) = time_Unix s)"

text \<open>\<^verbatim>\<open>Claims.Validate\<close>: the issuer must match, and the time must lie in the claimed
  window, widened by the library's leeway of one minute on both sides.\<close>

definition jose_validates :: "jose \<Rightarrow> bool" where
  "jose_validates j \<longleftrightarrow> (\<forall>c iss now. Validate j c iss now = None \<longleftrightarrow>
     (iss \<noteq> '''' \<longrightarrow> JC_Issuer c = iss) \<and>
     (now = 0 \<or>
      (case JC_NotBefore c of None \<Rightarrow> True | Some nbf \<Rightarrow> \<not> now + minute < time_Unix nbf) \<and>
      (case JC_Expiry c of None \<Rightarrow> True | Some ex \<Rightarrow> \<not> time_Unix ex < now - minute) \<and>
      (case JC_IssuedAt c of None \<Rightarrow> True | Some iat \<Rightarrow> \<not> now + minute < time_Unix iat)))"

section \<open>Properties\<close>

lemmas issuer_defs = Issuer_GenerateTokens_def Issuer_ParseToken_def ambient_def Let_def

lemma issuerTable_simps [simp]:
  "GenerateTokens (issuerTable j i) = Issuer_GenerateTokens j i"
  "ParseToken (issuerTable j i) = Issuer_ParseToken j i" "JWKS (issuerTable j i) = iss_jwks i"
  by (simp_all add: issuerTable_def)

text \<open>Neither direction touches the backend or the random sources beyond its own draws.\<close>

lemma Issuer_frame:
  "Issuer_GenerateTokens j i u em rs w = (r, w') \<Longrightarrow> \<exists>n. w' = w\<lparr>tick := n\<rparr>"
  "Issuer_ParseToken j i t w = (c, w') \<Longrightarrow> \<exists>n. w' = w\<lparr>tick := n\<rparr>"
proof -
  have same: "\<exists>n. w = w\<lparr>tick := n\<rparr>" by (rule exI [of _ "tick w"]) simp
  show "\<exists>n. w' = w\<lparr>tick := n\<rparr>" if "Issuer_GenerateTokens j i u em rs w = (r, w')"
    using that by (auto simp: issuer_defs split: option.splits sum.splits)
  show "\<exists>n. w' = w\<lparr>tick := n\<rparr>" if "Issuer_ParseToken j i t w = (c, w')"
    using that same by (auto simp: issuer_defs split: option.splits sum.splits)
qed

lemma HashToken_tick [simp]: "HashToken (w\<lparr>tick := n\<rparr>) t = HashToken w t"
  "HashToken (w\<lparr>store := s\<rparr>) t = HashToken w t"
  by (simp_all add: HashToken_def)

text \<open>The hash returned beside a pair is the hash of the refresh token in it.\<close>

lemma GenerateTokens_hash:
  "Issuer_GenerateTokens j i u em rs w = (Inr (pair, hash), w') \<Longrightarrow>
     hash = HashToken w (RefreshTokenText pair) \<and> ExpiresIn pair = 900"
  by (auto simp: issuer_defs AccessTokenTTL_def split: option.splits sum.splits)

text \<open>What the service relies on in a \<^verbatim>\<open>TokenIssuer\<close>: it leaves the backend alone, and
  the hash it returns beside a pair is the hash of that pair's refresh token.\<close>

locale token_issuer =
  fixes iss :: "'st TokenIssuer"
  assumes gen_quiet: "GenerateTokens iss u em rs w = (r, w') \<Longrightarrow> \<exists>n. w' = w\<lparr>tick := n\<rparr>"
    and gen_hash: "GenerateTokens iss u em rs w = (Inr (pair, hash), w') \<Longrightarrow>
      hash = HashToken w (RefreshTokenText pair)"
    and parse_quiet: "ParseToken iss t w = (c, w') \<Longrightarrow> \<exists>n. w' = w\<lparr>tick := n\<rparr>"

interpretation iss: token_issuer "issuerTable j i" for j i
  by unfold_locales (auto dest: Issuer_frame GenerateTokens_hash)

lemma GeneratePAT_cases:
  "GeneratePAT w = (Inr (p, h), w') \<Longrightarrow>
     strings_HasPrefix p PATPrefix \<and> h = HashToken w p \<and> w' = w\<lparr>tick := Suc (tick w)\<rparr>"
  by (auto simp: GeneratePAT_def ambient_def Let_def split: option.splits)

text \<open>The claims put into a fresh access token.\<close>

lemma GenerateTokens_claims:
  assumes "Issuer_GenerateTokens j i u em rs w = (Inr (pair, hash), w')"
  obtains c where "Serialize j (iss_signer i) c = Inr (AccessToken pair)"
    "JC_Subject c = u" "JC_Email c = em" "JC_Roles c = rs" "JC_Issuer c = JWTIssuer"
    "JC_IssuedAt c = NewNumericDate j (wall w (tick w))"
    "JC_Expiry c = NewNumericDate j (wall w (tick w) + AccessTokenTTL)"
    "JC_NotBefore c = NewNumericDate j (wall w (tick w) - ClockSkewTolerance)"
  using assms by (auto simp: issuer_defs split: option.splits sum.splits)

text \<open>Validation of a token issued at \<open>t0\<close>, at time \<open>t\<close>.\<close>

lemma Validate_issued:
  assumes "jose_validates j" "jose_dates j" "minute < t0" "t0 < 2 ^ 61 * second" "t \<noteq> 0"
    and "JC_Issuer c = JWTIssuer" "JC_IssuedAt c = NewNumericDate j t0"
      "JC_Expiry c = NewNumericDate j (t0 + AccessTokenTTL)"
      "JC_NotBefore c = NewNumericDate j (t0 - ClockSkewTolerance)"
  shows "Validate j c JWTIssuer t = None \<longleftrightarrow>
    t0 div second * second \<le> t + minute \<and>
    (t0 + AccessTokenTTL) div second * second \<ge> t - minute"
proof -
  have u: "time_Unix (Unix_of x) = x div second * second" if "0 \<le> x" "x < 2 ^ 62 * second" for x
    using that by (rule time_Unix_Unix_of)
  have d: "NewNumericDate j x = Some (Unix_of x)" if "x \<noteq> 0" for x
    using assms(2) that by (simp add: jose_dates_def)
  have "(t0 - ClockSkewTolerance) div second * second \<le> t0 div second * second"
    by (intro mult_right_mono zdiv_mono1) (simp_all add: ClockSkewTolerance_def)
  then show ?thesis
    using assms(1,3-) by (auto simp: jose_validates_def d u ClockSkewTolerance_def
        AccessTokenTTL_def JWTIssuer_def)
qed

text \<open>
  C21. An access token carries the identity it was issued for, and only for its lifetime. A
  token pair generated at \<open>t0\<close> parses at any later time up to its expiry to exactly the
  user, email and roles given, with issuer, expiry and issue time as claimed; one minute
  (the library's leeway) after the 15 minutes have passed it is refused.
\<close>

theorem access_token_lifetime:
  assumes "jose_signs j i" "jose_dates j" "jose_validates j"
    and "Issuer_GenerateTokens j i u em rs w = (Inr (pair, hash), w1)"
    and "wall w (tick w) = t0" "minute < t0" "t0 < 2 ^ 61 * second" "wall w' (tick w') = t"
  shows "(t0 \<le> t \<and> t \<le> t0 + AccessTokenTTL \<longrightarrow>
      fst (Issuer_ParseToken j i (AccessToken pair) w') =
        Inr \<lparr>Claims_UserID = u, Claims_Email = em, Claims_Roles = rs, Claims_Issuer = ''psina'',
             Claims_Exp = Unix_of (t0 + AccessTokenTTL), Claims_Iat = Unix_of t0\<rparr>) \<and>
    (t0 + AccessTokenTTL + minute < t \<longrightarrow>
      (\<exists>e. fst (Issuer_ParseToken j i (AccessToken pair) w') = Inl e))"
proof -
  obtain c where c: "Serialize j (iss_signer i) c = Inr (AccessToken pair)"
    "JC_Subject c = u" "JC_Email c = em" "JC_Roles c = rs" "JC_Issuer c = JWTIssuer"
    "JC_IssuedAt c = NewNumericDate j t0" "JC_Expiry c = NewNumericDate j (t0 + AccessTokenTTL)"
    "JC_NotBefore c = NewNumericDate j (t0 - ClockSkewTolerance)"
    using GenerateTokens_claims [OF assms(4)] assms(5) by metis
  then obtain tok where tok: "ParseSigned j (AccessToken pair) [iss_algorithm i] = Inr tok"
    "tok_Claims j tok (iss_publicKey i) = Inr c" using assms(1) by (auto simp: jose_signs_def)
  have dates: "NumericDate_Time j (NewNumericDate j x) = x div second * second"
    if "0 < x" "x < 2 ^ 62 * second" for x
    using assms(2) that by (simp add: jose_dates_def time_Unix_Unix_of)
  have unix: "Unix_of (x div second * second) = Unix_of x" for x by (simp add: Unix_of_def)
  note v = Validate_issued [OF assms(3,2,6,7) _ c(5-8), of t]
  have "t0 div second * second \<le> t0" "t0 + AccessTokenTTL \<le> (t0 + AccessTokenTTL) div second * second + second"
    "(t0 + AccessTokenTTL) div second * second \<le> t0 + AccessTokenTTL"
    by linarith+
  then show ?thesis
    using assms(6-8) c v tok
    by (auto simp: Issuer_ParseToken_def ambient_def dates unix JWTIssuer_def AccessTokenTTL_def
        split: option.splits)
qed

text \<open>A library that signs one set of claims, at which the hypotheses hold.\<close>

definition demo_claims :: customClaims where
  "demo_claims = \<lparr>JC_ID = b64_encode True (replicate 16 (char_of (111::nat))), JC_Subject = ''u1'',
     JC_Issuer = ''psina'', JC_IssuedAt = Some (Unix_of hour),
     JC_Expiry = Some (Unix_of (hour + 15 * minute)), JC_NotBefore = Some (Unix_of (hour - 30 * second)),
     JC_Email = ''a@b.co'', JC_Roles = [''admin'']\<rparr>"

definition demo_jose :: jose where
  "demo_jose = \<lparr>NewSigner = (\<lambda>alg key kid. Inr key), publicKey_of = (\<lambda>k. k),
     Serialize = (\<lambda>s c. if c = demo_claims then Inr ''jwt'' else Inl (Foreign ''refused'')),
     ParseSigned = (\<lambda>t algs. if t = ''jwt'' then Inr t else Inl (Foreign ''malformed'')),
     tok_Claims = (\<lambda>tok key. Inr demo_claims),
     Validate = (\<lambda>c iss now.
       if (iss \<noteq> '''' \<longrightarrow> JC_Issuer c = iss) \<and>
          (now = 0 \<or>
           (case JC_NotBefore c of None \<Rightarrow> True | Some nbf \<Rightarrow> \<not> now + minute < time_Unix nbf) \<and>
           (case JC_Expiry c of None \<Rightarrow> True | Some ex \<Rightarrow> \<not> time_Unix ex < now - minute) \<and>
           (case JC_IssuedAt c of None \<Rightarrow> True | Some iat \<Rightarrow> \<not> now + minute < time_Unix iat))
       then None else Some (Foreign ''invalid'')),
     NewNumericDate = (\<lambda>t. if t = 0 then None else Some (Unix_of t)),
     NumericDate_Time = (\<lambda>d. case d of None \<Rightarrow> time_Unix 0 | Some s \<Rightarrow> time_Unix s)\<rparr>"

definition demo_issuer :: Issuer where
  "demo_issuer = \<lparr>iss_algorithm = ''RS256'', iss_privateKey = ''key'', iss_publicKey = ''key'',
     iss_signer = ''key'', iss_jwks = []\<rparr>"

lemma demo_jose_laws: "jose_signs demo_jose demo_issuer" "jose_dates demo_jose" "jose_validates demo_jose"
  by (auto simp: jose_signs_def jose_dates_def jose_validates_def demo_jose_def split: if_splits)

lemma demo_generate:
  "Issuer_GenerateTokens demo_jose demo_issuer ''u1'' ''a@b.co'' [''admin''] (demo_world s) =
     (Inr (\<lparr>AccessToken = ''jwt'', RefreshTokenText = b64_encode True (replicate 32 (char_of (107::nat))), ExpiresIn = 900\<rparr>,
           HashToken (demo_world s) (b64_encode True (replicate 32 (char_of (107::nat))))),
      (demo_world s)\<lparr>tick := 3\<rparr>)"
  by (simp add: issuer_defs demo_jose_def demo_issuer_def demo_claims_def
      AccessTokenTTL_def ClockSkewTolerance_def JWTIssuer_def)

theorem access_token_lifetime_witness:
  "fst (Issuer_ParseToken demo_jose demo_issuer ''jwt'' (demo_world ())) =
     Inr \<lparr>Claims_UserID = ''u1'', Claims_Email = ''a@b.co'', Claims_Roles = [''admin''],
          Claims_Issuer = ''psina'', Claims_Exp = Unix_of (hour + AccessTokenTTL), Claims_Iat = Unix_of hour\<rparr>"
  using access_token_lifetime [OF demo_jose_laws demo_generate, where w' = "demo_world ()" and t0 = hour and t = hour]
  by (simp add: AccessTokenTTL_def)

end
