(* ===== verification/Service.thy ===== *)
theory Service
  imports Token_Issuer Validation
begin

text \<open>
  \<^verbatim>\<open>auth/service.go\<close>: the authentication service over its ports. Every operation takes
  the environment and returns it, with a result or an error. Go's nil interfaces are
  options. The OAuth fields of the struct are set together by \<^verbatim>\<open>WithOAuth\<close> and the wallet
  fields by \<^verbatim>\<open>WithWallet\<close>, so each group is one optional record. The third-party
  \<^verbatim>\<open>uuid.Parse\<close> is an argument of \<^verbatim>\<open>RevokePAT\<close>. Log lines are left out.
\<close>

section \<open>Configuration and state\<close>

definition DefaultPATMaxPerUser :: int where "DefaultPATMaxPerUser = 50"
definition DefaultPATTouchInterval :: duration where "DefaultPATTouchInterval = minute"
definition maxPATNameLength :: nat where "maxPATNameLength = 100"
definition DefaultRefreshReuseLeeway :: duration where "DefaultRefreshReuseLeeway = 10 * second"

record PATConfig =
  PC_MaxPerUser :: int
  PC_MaxTTL :: duration
  PC_TouchInterval :: duration

record OAuthConfig =
  OC_DisableAutoLinkEmail :: bool
  OC_StateTTL :: duration

record WalletConfig =
  WC_Domain :: string
  WC_URI :: string
  WC_Statement :: string
  WC_ChallengeTTL :: duration

record 'st OAuthPart =
  op_providers :: "(string, 'st OAuthProvider) gomap"
  op_identities :: "'st OAuthIdentityStore"
  op_challenges :: "'st ChallengeStore"
  op_credentials :: "'st CredentialStore"
  op_config :: OAuthConfig

record 'st WalletPart =
  wp_providers :: "(string, WalletProvider) gomap"
  wp_identities :: "'st WalletIdentityStore"
  wp_challenges :: "'st ChallengeStore"
  wp_config :: WalletConfig

record 'st Service =
  svc_providers :: "(string, 'st Provider) gomap"
  svc_localProvider :: "'st Provider option"
  svc_tokenStore :: "'st TokenStore"
  svc_userStore :: "'st UserStore"
  svc_issuer :: "'st TokenIssuer"
  svc_patStore :: "'st PATStore option"
  svc_patConfig :: PATConfig
  svc_oauth :: "'st OAuthPart option"
  svc_wallet :: "'st WalletPart option"
  svc_refreshReuseLeeway :: duration
  svc_now :: "'st world \<Rightarrow> time \<times> 'st world"

section \<open>Construction\<close>

type_synonym 'st ServiceOption = "'st Service \<Rightarrow> 'st Service"

definition WithPAT :: "'st PATStore option \<Rightarrow> PATConfig \<Rightarrow> 'st ServiceOption" where
  "WithPAT patStore cfg =
    (let cfg = (if PC_MaxPerUser cfg = 0 then cfg\<lparr>PC_MaxPerUser := DefaultPATMaxPerUser\<rparr> else cfg);
         cfg = (if PC_TouchInterval cfg = 0
                then cfg\<lparr>PC_TouchInterval := DefaultPATTouchInterval\<rparr> else cfg)
     in (\<lambda>s. s\<lparr>svc_patStore := patStore, svc_patConfig := cfg\<rparr>))"

definition WithRefreshReuseLeeway :: "duration \<Rightarrow> 'st ServiceOption" where
  "WithRefreshReuseLeeway d = (\<lambda>s. s\<lparr>svc_refreshReuseLeeway := max d 0\<rparr>)"

definition WithClock :: "('st world \<Rightarrow> time \<times> 'st world) \<Rightarrow> 'st ServiceOption" where
  "WithClock now = (\<lambda>s. s\<lparr>svc_now := now\<rparr>)"

text \<open>The loop that indexes providers by a key and panics on a duplicate; \<^verbatim>\<open>NewService\<close>,
  \<^verbatim>\<open>WithOAuth\<close> and \<^verbatim>\<open>NewDispatcher\<close> each have one.\<close>

fun index_providers :: "string \<Rightarrow> ('p \<Rightarrow> string) \<Rightarrow> 'p list \<Rightarrow> (string, 'p) gomap \<Rightarrow>
    error + (string, 'p) gomap" where
  "index_providers msg key [] registry = Inr registry"
| "index_providers msg key (p # ps) registry =
     (if map_of registry (key p) \<noteq> None then Inl (Panic msg)
      else index_providers msg key ps (map_set (key p) p registry))"

definition NewService :: "'st TokenStore \<Rightarrow> 'st UserStore \<Rightarrow> 'st TokenIssuer \<Rightarrow> 'st Provider list \<Rightarrow>
    'st ServiceOption list \<Rightarrow> error + 'st Service" where
  "NewService tokenStore userStore issuer providers opts =
    (case index_providers ''auth: duplicate provider type'' Provider_Type providers [] of
       Inl p \<Rightarrow> Inl p
     | Inr registry \<Rightarrow>
         Inr (fold (\<lambda>opt s. opt s) opts
           \<lparr>svc_providers = registry, svc_localProvider = map_of registry ProviderTypeLocal,
            svc_tokenStore = tokenStore, svc_userStore = userStore, svc_issuer = issuer,
            svc_patStore = None,
            svc_patConfig = \<lparr>PC_MaxPerUser = 0, PC_MaxTTL = 0, PC_TouchInterval = 0\<rparr>,
            svc_oauth = None, svc_wallet = None,
            svc_refreshReuseLeeway = DefaultRefreshReuseLeeway, svc_now = time_Now\<rparr>))"

section \<open>Sessions\<close>

definition Service_issueTokens :: "'st Service \<Rightarrow> string \<Rightarrow> string \<Rightarrow> string list \<Rightarrow> string \<Rightarrow>
    'st world \<Rightarrow> (error + TokenPair) \<times> 'st world" where
  [service_def]: "Service_issueTokens svc userID email roles parent w =
    (case GenerateTokens (svc_issuer svc) userID email roles w of
       (Inl err, w1) \<Rightarrow> (Inl (Errorf ''generate tokens: %w'' [err]), w1)
     | (Inr (tokenPair, refreshHash), w1) \<Rightarrow>
         let (now, w2) = svc_now svc w1;
             rt = \<lparr>RT_Hash = refreshHash, RT_UserID = userID, RT_Parent = parent,
                   RT_ExpiresAt = now + RefreshTokenTTL, RT_CreatedAt = now, RT_Revoked = False,
                   RT_RotatedAt = None, RT_EndedAt = None\<rparr>
         in case call_now (SaveRefreshToken (svc_tokenStore svc) rt) w2 of
              (Inl err, w3) \<Rightarrow> (Inl (Errorf ''save refresh token: %w'' [err]), w3)
            | (Inr _, w3) \<Rightarrow> (Inr tokenPair, w3))"

record RegisterResult =
  RegResult_UserID :: string
  RegResult_Email :: string
  RegResult_TokenPair :: TokenPair

record LoginResult =
  LoginResult_UserID :: string
  LoginResult_Email :: string
  LoginResult_TokenPair :: TokenPair

definition Service_Register :: "'st Service \<Rightarrow> string \<Rightarrow> string \<Rightarrow> 'st world \<Rightarrow>
    (error + RegisterResult) \<times> 'st world" where
  [service_def]: "Service_Register svc email password w =
    (case NormalizeEmail w email of
       Inl err \<Rightarrow> (Inl (Errorf ''validate email: %w'' [err]), w)
     | Inr email \<Rightarrow>
         (case ValidatePassword password of
            Some err \<Rightarrow> (Inl (Errorf ''validate password: %w'' [err]), w)
          | None \<Rightarrow>
              (case svc_localProvider svc of
                 None \<Rightarrow> (Inl (Sentinel ErrProviderNotConfigured), w)
               | Some provider \<Rightarrow>
                   (case Register provider \<lparr>RegReq_Email = email, RegReq_Password = password\<rparr> w of
                      (Inl err, w1) \<Rightarrow>
                        if errors_Is err Store_ErrUserExists
                        then (Inl (Errorf ''register: %w'' [Sentinel ErrUserExists]), w1)
                        else (Inl (Errorf ''register: %w'' [err]), w1)
                    | (Inr identity, w1) \<Rightarrow>
                        (case Service_issueTokens svc (Identity_UserID identity)
                                (Identity_Email identity) [] '''' w1 of
                           (Inl err, w2) \<Rightarrow>
                             (Inl (AccountError
                                \<lparr>change_userID = Identity_UserID identity, change_created = True,
                                 change_linked = False\<rparr>
                                (Errorf ''issue tokens: %w'' [err])), w2)
                         | (Inr tokenPair, w2) \<Rightarrow>
                             (Inr \<lparr>RegResult_UserID = Identity_UserID identity,
                                   RegResult_Email = Identity_Email identity,
                                   RegResult_TokenPair = tokenPair\<rparr>, w2))))))"

definition knownAccount :: "string \<Rightarrow> accountChange" where
  "knownAccount uid = \<lparr>change_userID = uid, change_created = False, change_linked = False\<rparr>"

definition Service_Login :: "'st Service \<Rightarrow> string \<Rightarrow> string \<Rightarrow> 'st world \<Rightarrow>
    (error + LoginResult) \<times> 'st world" where
  [service_def]: "Service_Login svc email password w =
    (case svc_localProvider svc of
       None \<Rightarrow> (Inl (Sentinel ErrProviderNotConfigured), w)
     | Some provider \<Rightarrow>
         (case NormalizeEmail w email of
            Inl err \<Rightarrow> (Inl (CredentialsError ReasonMalformedCredentials ''''), w)
          | Inr email \<Rightarrow>
              (case Authenticate provider \<lparr>AuthReq_Email = email, AuthReq_Password = password\<rparr> w of
                 (Inl err, w1) \<Rightarrow>
                   if errors_Is err ErrInvalidCredentials then
                     (case errors_As as_CredentialsError err of
                        Some (reason, uid) \<Rightarrow> (Inl (CredentialsError reason uid), w1)
                      | None \<Rightarrow> (Inl (Sentinel ErrInvalidCredentials), w1))
                   else (Inl (Errorf ''authenticate: %w'' [err]), w1)
               | (Inr identity, w1) \<Rightarrow>
                   (case GetByID (svc_userStore svc) (Identity_UserID identity) (store w1) of
                      Inl err \<Rightarrow>
                        (Inl (AccountError (knownAccount (Identity_UserID identity))
                           (Errorf ''get user: %w'' [err])), w1)
                    | Inr user \<Rightarrow>
                        (case Service_issueTokens svc (Identity_UserID identity)
                                (Identity_Email identity) (User_Roles user) '''' w1 of
                           (Inl err, w2) \<Rightarrow>
                             (Inl (AccountError (knownAccount (Identity_UserID identity))
                                (Errorf ''issue tokens: %w'' [err])), w2)
                         | (Inr tokenPair, w2) \<Rightarrow>
                             (Inr \<lparr>LoginResult_UserID = Identity_UserID identity,
                                   LoginResult_Email = Identity_Email identity,
                                   LoginResult_TokenPair = tokenPair\<rparr>, w2))))))"

text \<open>\<^verbatim>\<open>isDuplicateRefresh\<close> reads the family only after the cheap checks passed.\<close>

definition Service_isDuplicateRefresh ::
    "'st Service \<Rightarrow> RefreshToken \<Rightarrow> time \<Rightarrow> 'st \<Rightarrow> error + bool" where
  [service_def]: "Service_isDuplicateRefresh svc rt now s =
    (if svc_refreshReuseLeeway svc = 0 \<or> \<not> now < RT_ExpiresAt rt then Inr False
     else
       case RT_RotatedAt rt of
         None \<Rightarrow> Inr False
       | Some rotatedAt \<Rightarrow>
           let since = time_Sub now rotatedAt in
           if since > svc_refreshReuseLeeway svc \<or> since < - svc_refreshReuseLeeway svc
           then Inr False
           else
             (case GetRefreshFamily (svc_tokenStore svc) (familyRoot rt) s of
                Inl err \<Rightarrow> Inl (Errorf ''get refresh family: %w'' [err])
              | Inr family \<Rightarrow>
                  if SessionEnded family then Inr False
                  else (case LastRotatedAt family of
                          None \<Rightarrow> Inr False
                        | Some lastRotatedAt \<Rightarrow> Inr (\<not> rotatedAt < lastRotatedAt))))"

text \<open>\<^verbatim>\<open>revokeReusedFamily\<close>: a failed revocation is logged, the replay is refused either way.\<close>

definition Service_revokeReusedFamily ::
    "'st Service \<Rightarrow> RefreshToken \<Rightarrow> 'st world \<Rightarrow> error \<times> 'st world" where
  [service_def]: "Service_revokeReusedFamily svc rt w =
    (let (res, w1) = call_now (RevokeTokens (svc_tokenStore svc) (familyRoot rt)) w
     in (TokenReuseError (RT_UserID rt), w1))"

text \<open>The second half of \<^verbatim>\<open>Refresh\<close>, once the token is accepted.\<close>

definition Service_refreshAccepted ::
    "'st Service \<Rightarrow> RefreshToken \<Rightarrow> 'st world \<Rightarrow> (error + TokenPair) \<times> 'st world" where
  [service_def]: "Service_refreshAccepted svc rt w =
    (case GetByID (svc_userStore svc) (RT_UserID rt) (store w) of
       Inl err \<Rightarrow>
         if errors_Is err Store_ErrUserNotFound
         then (Inl (Errorf ''%w: %w'' [Sentinel ErrInvalidCredentials, err]), w)
         else (Inl (Errorf ''get user: %w'' [err]), w)
     | Inr user \<Rightarrow>
         (case Service_issueTokens svc (User_ID user) (User_Email user) (User_Roles user)
                 (familyRoot rt) w of
            (Inl err, w1) \<Rightarrow>
              if errors_Is err Store_ErrTokenRevoked then (Inl (TokenReuseError (RT_UserID rt)), w1)
              else (Inl err, w1)
          | (Inr pair, w1) \<Rightarrow> (Inr pair, w1)))"

definition Service_Refresh ::
    "'st Service \<Rightarrow> string \<Rightarrow> 'st world \<Rightarrow> (error + TokenPair) \<times> 'st world" where
  [service_def]: "Service_Refresh svc refreshToken w =
    (let hash = HashToken w refreshToken;
         (now, w1) = svc_now svc w;
         ((rt, err), w2) = call (RotateRefreshToken (svc_tokenStore svc) hash now) w1
     in case err of
          None \<Rightarrow>
            (case rt of
               None \<Rightarrow> (Inl (Panic ''nil refresh token''), w2)
             | Some rt \<Rightarrow> Service_refreshAccepted svc rt w2)
        | Some err \<Rightarrow>
            if errors_Is err Store_ErrTokenNotFound
            then (Inl (Errorf ''%w: %w'' [Sentinel ErrInvalidCredentials, err]), w2)
            else if errors_Is err Store_ErrTokenExpired
            then (Inl (Errorf ''%w: %w'' [Sentinel ErrInvalidCredentials, Sentinel ErrTokenExpired]), w2)
            else if errors_Is err Store_ErrTokenRevoked then
              (case rt of
                 None \<Rightarrow> (Inl (Panic ''nil refresh token''), w2)
               | Some rt \<Rightarrow>
                   (case Service_isDuplicateRefresh svc rt now (store w2) of
                      Inl err \<Rightarrow> (Inl err, w2)
                    | Inr dup \<Rightarrow>
                        if \<not> dup then
                          let (err, w3) = Service_revokeReusedFamily svc rt w2 in (Inl err, w3)
                        else Service_refreshAccepted svc rt w2))
            else (Inl (Errorf ''rotate refresh token: %w'' [err]), w2))"

definition Service_Logout :: "'st Service \<Rightarrow> string \<Rightarrow> 'st world \<Rightarrow> error option \<times> 'st world" where
  [service_def]: "Service_Logout svc refreshToken w =
    (case GetRefreshToken (svc_tokenStore svc) (HashToken w refreshToken) (store w) of
       Inl err \<Rightarrow>
         if errors_Is err Store_ErrTokenNotFound then (None, w)
         else (Some (Errorf ''get refresh token: %w'' [err]), w)
     | Inr rt \<Rightarrow>
         (case call_now (RevokeTokens (svc_tokenStore svc) (familyRoot rt)) w of
            (Inl err, w1) \<Rightarrow> (Some err, w1)
          | (Inr _, w1) \<Rightarrow> (None, w1)))"

section \<open>Verification\<close>

definition Service_touchPAT ::
    "'st Service \<Rightarrow> 'st PATStore \<Rightarrow> PersonalAccessToken \<Rightarrow> 'st world \<Rightarrow> 'st world" where
  [service_def]: "Service_touchPAT svc ps pat w =
    (let touch = (\<lambda>w. let (t, w1) = time_Now w in snd (call (TouchPAT ps (PAT_Hash pat) t) w1))
     in if PC_TouchInterval (svc_patConfig svc) < 0 then touch w
        else case PAT_LastUsedAt pat of
               None \<Rightarrow> touch w
             | Some lastUsedAt \<Rightarrow>
                 let (now, w1) = time_Now w
                 in if time_Sub now lastUsedAt \<ge> PC_TouchInterval (svc_patConfig svc) then touch w1 else w1)"

definition Service_verifyPAT ::
    "'st Service \<Rightarrow> string \<Rightarrow> 'st world \<Rightarrow> (error + Claims) \<times> 'st world" where
  [service_def]: "Service_verifyPAT svc accessToken w =
    (case svc_patStore svc of
       None \<Rightarrow> (Inl (Sentinel ErrInvalidCredentials), w)
     | Some ps \<Rightarrow>
         (case GetPAT ps (HashToken w accessToken) (store w) of
            Inl err \<Rightarrow>
              if errors_Is err Store_ErrTokenNotFound
              then (Inl (Errorf ''%w: %w'' [Sentinel ErrInvalidCredentials, err]), w)
              else (Inl (Errorf ''get pat: %w'' [err]), w)
          | Inr pat \<Rightarrow>
              let (expired, w1) = (case PAT_ExpiresAt pat of
                                     None \<Rightarrow> (False, w)
                                   | Some e \<Rightarrow> let (now, w1) = time_Now w in (e < now, w1))
              in if expired
                 then (Inl (Errorf ''%w: %w'' [Sentinel ErrInvalidCredentials, Sentinel ErrTokenExpired]), w1)
                 else
                   (case GetByID (svc_userStore svc) (PAT_UserID pat) (store w1) of
                      Inl err \<Rightarrow>
                        if errors_Is err Store_ErrUserNotFound
                        then (Inl (Sentinel ErrInvalidCredentials), w1)
                        else (Inl (Errorf ''get user: %w'' [err]), w1)
                    | Inr user \<Rightarrow>
                        (Inr \<lparr>Claims_UserID = User_ID user, Claims_Email = User_Email user,
                              Claims_Roles = User_Roles user, Claims_Issuer = JWTIssuer,
                              Claims_Exp = 0, Claims_Iat = 0\<rparr>,
                         Service_touchPAT svc ps pat w1))))"

definition Service_Verify ::
    "'st Service \<Rightarrow> string \<Rightarrow> 'st world \<Rightarrow> (error + Claims) \<times> 'st world" where
  [service_def]: "Service_Verify svc accessToken w =
    (if strings_HasPrefix accessToken PATPrefix then Service_verifyPAT svc accessToken w
     else case ParseToken (svc_issuer svc) accessToken w of
            (Inl err, w1) \<Rightarrow> (Inl (Errorf ''%w: %w'' [Sentinel ErrInvalidCredentials, err]), w1)
          | (Inr claims, w1) \<Rightarrow> (Inr claims, w1))"

section \<open>Personal access tokens\<close>

record PATResult =
  PATResult_Plaintext :: string
  PATResult_Token :: PersonalAccessToken

text \<open>The expiry rules of \<^verbatim>\<open>CreatePAT\<close> at time \<open>now\<close>.\<close>

definition patExpiryError :: "PATConfig \<Rightarrow> time \<Rightarrow> time option \<Rightarrow> error option" where
  [service_def]: "patExpiryError cfg now expiresAt =
    (case expiresAt of
       Some e \<Rightarrow>
         if \<not> now < e then Some (Errorf ''%w: expiry is in the past'' [Sentinel ErrPATExpiryInvalid])
         else if 0 < PC_MaxTTL cfg \<and> time_Sub e now > PC_MaxTTL cfg
         then Some (Errorf ''%w: expiry exceeds max ttl %s'' [Sentinel ErrPATExpiryInvalid])
         else None
     | None \<Rightarrow>
         if 0 < PC_MaxTTL cfg
         then Some (Errorf ''%w: expiry is required (max ttl %s)'' [Sentinel ErrPATExpiryInvalid])
         else None)"

definition Service_CreatePAT :: "'st Service \<Rightarrow> string \<Rightarrow> string \<Rightarrow> string list \<Rightarrow> time option \<Rightarrow>
    'st world \<Rightarrow> (error + PATResult) \<times> 'st world" where
  [service_def]: "Service_CreatePAT svc userID name scopes expiresAt w =
    (case svc_patStore svc of
       None \<Rightarrow> (Inl (Sentinel ErrPATDisabled), w)
     | Some ps \<Rightarrow>
         let name = strings_TrimSpace name in
         if name = '''' then (Inl (Sentinel ErrPATNameRequired), w)
         else if length name > maxPATNameLength then (Inl (Sentinel ErrPATNameTooLong), w)
         else
           let (now, w1) = time_Now w in
           case patExpiryError (svc_patConfig svc) now expiresAt of
             Some err \<Rightarrow> (Inl err, w1)
           | None \<Rightarrow>
               (case GeneratePAT w1 of
                  (Inl err, w2) \<Rightarrow> (Inl (Errorf ''generate pat: %w'' [err]), w2)
                | (Inr (plaintext, hash), w2) \<Rightarrow>
                    let (uid, w3) = draw_NewString w2;
                        pat = \<lparr>PAT_ID = uid, PAT_Hash = hash, PAT_UserID = userID, PAT_Name = name,
                               PAT_Scopes = scopes, PAT_ExpiresAt = expiresAt, PAT_LastUsedAt = None,
                               PAT_CreatedAt = now\<rparr>;
                        (res, w4) =
                          (if PC_MaxPerUser (svc_patConfig svc) > 0
                           then call_now (SavePATLimited ps pat (PC_MaxPerUser (svc_patConfig svc)) now) w3
                           else call_now (SavePAT ps pat) w3)
                    in case res of
                         Inl err \<Rightarrow>
                           if errors_Is err Store_ErrPATLimitReached
                           then (Inl (Sentinel ErrPATLimitReached), w4)
                           else (Inl (Errorf ''save pat: %w'' [err]), w4)
                       | Inr pat \<Rightarrow>
                           (Inr \<lparr>PATResult_Plaintext = plaintext, PATResult_Token = pat\<rparr>, w4)))"

definition Service_ListPATs ::
    "'st Service \<Rightarrow> string \<Rightarrow> 'st world \<Rightarrow> error + PersonalAccessToken list" where
  [service_def]: "Service_ListPATs svc userID w =
    (case svc_patStore svc of
       None \<Rightarrow> Inl (Sentinel ErrPATDisabled)
     | Some ps \<Rightarrow> ListPATs ps userID (store w))"

text \<open>\<open>uuid_Parse\<close> gives the canonical text of a UUID in any accepted spelling.\<close>

definition Service_RevokePAT :: "(string \<Rightarrow> string option) \<Rightarrow> 'st Service \<Rightarrow> string \<Rightarrow> string \<Rightarrow>
    'st world \<Rightarrow> error option \<times> 'st world" where
  [service_def]: "Service_RevokePAT uuid_Parse svc userID patID w =
    (case svc_patStore svc of
       None \<Rightarrow> (Some (Sentinel ErrPATDisabled), w)
     | Some ps \<Rightarrow>
         (case uuid_Parse patID of
            None \<Rightarrow> (Some (Errorf ''%w: %s'' [Sentinel ErrPATNotFound]), w)
          | Some parsed \<Rightarrow>
              (case call (DeletePAT ps userID parsed) w of
                 (Inl err, w1) \<Rightarrow>
                   if errors_Is err Store_ErrTokenNotFound
                   then (Some (Errorf ''%w: %s'' [Sentinel ErrPATNotFound]), w1)
                   else (Some err, w1)
               | (Inr _, w1) \<Rightarrow> (None, w1))))"

definition Service_JWKS :: "'st Service \<Rightarrow> JSONWebKey list" where
  "Service_JWKS svc = JWKS (svc_issuer svc)"

end
