(* ===== verification/Wallet_Service.thy ===== *)
theory Wallet_Service
  imports Service
begin

text \<open>
  \<^verbatim>\<open>provider/wallet/provider.go\<close> (the dispatcher) and \<^verbatim>\<open>auth/wallet.go\<close>: wallet
  sign-in. A challenge ties a message to a chain and an address; the sign-in checks the
  signature, consumes the challenge and finds or creates the user.
\<close>

section \<open>The dispatcher\<close>

definition NewDispatcher :: "WalletProvider list \<Rightarrow> error + (string, WalletProvider) gomap" where
  "NewDispatcher providers = index_providers ''wallet: duplicate provider for chain'' Chain providers []"

definition Dispatcher_Provider :: "(string, WalletProvider) gomap \<Rightarrow> string \<Rightarrow> error + WalletProvider" where
  "Dispatcher_Provider d chain =
    (case map_of d chain of
       None \<Rightarrow> Inl (Errorf ''%w: %s'' [Sentinel Wallet_ErrUnsupportedChain])
     | Some p \<Rightarrow> Inr p)"

definition Dispatcher_Chains :: "(string, WalletProvider) gomap \<Rightarrow> string list" where
  "Dispatcher_Chains d = map fst d"

section \<open>Configuration\<close>

definition DefaultWalletChallengeTTL :: duration where "DefaultWalletChallengeTTL = 5 * minute"
definition walletNonceBytes :: nat where "walletNonceBytes = 16"

text \<open>\<^verbatim>\<open>strings.ContainsAny(s, "\\r\\n")\<close>.\<close>

definition has_line_break :: "string \<Rightarrow> bool" where
  "has_line_break s \<longleftrightarrow> list_ex (\<lambda>c. byte c = 13 \<or> byte c = 10) s"

definition WithWallet :: "(string, WalletProvider) gomap option \<Rightarrow> 'st WalletIdentityStore option \<Rightarrow>
    'st ChallengeStore option \<Rightarrow> WalletConfig \<Rightarrow> error + 'st ServiceOption" where
  "WithWallet providers identities challenges cfg =
    (case (providers, identities, challenges) of
       (Some providers, Some identities, Some challenges) \<Rightarrow>
         if WC_Domain cfg = '''' \<or> WC_URI cfg = '''' then Inl (Panic ''auth: WithWallet needs Domain and URI'')
         else if has_line_break (WC_Domain cfg @ WC_URI cfg @ WC_Statement cfg)
         then Inl (Panic ''auth: WithWallet Domain, URI and Statement must be single-line'')
         else
           let cfg = (if WC_ChallengeTTL cfg = 0
                      then cfg\<lparr>WC_ChallengeTTL := DefaultWalletChallengeTTL\<rparr> else cfg)
           in Inr (\<lambda>s. s\<lparr>svc_wallet := Some \<lparr>wp_providers = providers, wp_identities = identities,
                     wp_challenges = challenges, wp_config = cfg\<rparr>\<rparr>)
     | _ \<Rightarrow> Inl (Panic ''auth: WithWallet needs a dispatcher, identity and challenge stores''))"

record WalletChallengeResult =
  WCR_Nonce :: string
  WCR_Message :: string
  WCR_ExpiresAt :: time

record WalletAuthRequest =
  WAR_Chain :: string
  WAR_Address :: string
  WAR_Nonce :: string
  WAR_Signature :: string

record WalletAuthResult =
  WARes_UserID :: string
  WARes_Email :: string
  WARes_TokenPair :: TokenPair
  WARes_IsNewUser :: bool

section \<open>Challenges\<close>

definition Service_walletProvider :: "'st Service \<Rightarrow> string \<Rightarrow> string \<Rightarrow>
    error + 'st WalletPart \<times> WalletProvider \<times> string" where
  [service_def]: "Service_walletProvider svc chain address =
    (case svc_wallet svc of
       None \<Rightarrow> Inl (Sentinel ErrWalletDisabled)
     | Some part \<Rightarrow>
         (case Dispatcher_Provider (wp_providers part) chain of
            Inl err \<Rightarrow> Inl (Errorf ''%w: %q'' [Sentinel ErrWalletChainUnsupported])
          | Inr p \<Rightarrow>
              (case NormalizeAddress p address of
                 Inl err \<Rightarrow> Inl (Errorf ''%w: %w'' [Sentinel ErrWalletAddressInvalid, err])
               | Inr addr \<Rightarrow> Inr (part, p, addr))))"

definition Service_GetChallenge :: "'st Service \<Rightarrow> string \<Rightarrow> string \<Rightarrow> 'st world \<Rightarrow>
    (error + WalletChallengeResult) \<times> 'st world" where
  [service_def]: "Service_GetChallenge svc chain address w =
    (case Service_walletProvider svc chain address of
       Inl err \<Rightarrow> (Inl err, w)
     | Inr (part, p, addr) \<Rightarrow>
         (case draw_bytes walletNonceBytes w of
            (None, w1) \<Rightarrow> (Inl (Errorf ''generate wallet nonce: %w'' [Foreign ''rand'']), w1)
          | (Some b, w1) \<Rightarrow>
              let nonce = hex_EncodeToString b;
                  (now, w2) = svc_now svc w1;
                  expiresAt = now + WC_ChallengeTTL (wp_config part);
                  message = BuildMessage p addr nonce
                    \<lparr>Opts_Domain = WC_Domain (wp_config part), Opts_URI = WC_URI (wp_config part),
                     Opts_Statement = WC_Statement (wp_config part), Opts_IssuedAt = now,
                     Opts_ExpiresAt = expiresAt\<rparr>;
                  ch = \<lparr>Ch_Nonce = nonce, Ch_Message = message, Ch_Chain = chain, Ch_Address = addr,
                        Ch_CodeVerifier = '''', Ch_OAuthNonce = '''', Ch_BindingHash = '''',
                        Ch_ExpiresAt = expiresAt, Ch_CreatedAt = now\<rparr>
              in case call_now (SaveChallenge (wp_challenges part) ch) w2 of
                   (Inl err, w3) \<Rightarrow> (Inl (Errorf ''save wallet challenge: %w'' [err]), w3)
                 | (Inr _, w3) \<Rightarrow>
                     (Inr \<lparr>WCR_Nonce = nonce, WCR_Message = message, WCR_ExpiresAt = expiresAt\<rparr>, w3)))"

definition Service_consumeWalletChallenge :: "'st Service \<Rightarrow> 'st WalletPart \<Rightarrow> WalletProvider \<Rightarrow>
    WalletAuthRequest \<Rightarrow> string \<Rightarrow> 'st world \<Rightarrow> error option \<times> 'st world" where
  [service_def]: "Service_consumeWalletChallenge svc part p req addr w =
    (if WAR_Nonce req = '''' \<or> WAR_Signature req = ''''
     then (Some (Sentinel ErrWalletChallengeInvalid), w)
     else
       case call_now (GetChallenge (wp_challenges part) (WAR_Nonce req)) w of
         (Inl err, w1) \<Rightarrow>
           if errors_Is err Store_ErrChallengeNotFound \<or> errors_Is err Store_ErrChallengeExpired
           then (Some (Sentinel ErrWalletChallengeInvalid), w1)
           else (Some (Errorf ''get wallet challenge: %w'' [err]), w1)
       | (Inr ch, w1) \<Rightarrow>
           let (now, w2) = svc_now svc w1 in
           if \<not> now < Ch_ExpiresAt ch \<or> Ch_Chain ch \<noteq> WAR_Chain req \<or> Ch_Address ch \<noteq> addr
           then (Some (Sentinel ErrWalletChallengeInvalid), w2)
           else if VerifySignature p addr (Ch_Message ch) (WAR_Signature req) \<noteq> None
           then (Some (Sentinel ErrWalletChallengeInvalid), w2)
           else
             (case call (DeleteChallenge (wp_challenges part) (WAR_Nonce req)) w2 of
                (Inl err, w3) \<Rightarrow>
                  if errors_Is err Store_ErrChallengeNotFound
                  then (Some (Sentinel ErrWalletChallengeInvalid), w3)
                  else (Some (Errorf ''delete wallet challenge: %w'' [err]), w3)
              | (Inr _, w3) \<Rightarrow> (None, w3)))"

section \<open>Sign-in\<close>

definition Service_walletIdentityUser ::
    "'st Service \<Rightarrow> 'st WalletPart \<Rightarrow> string \<Rightarrow> string \<Rightarrow> 'st \<Rightarrow> error + User" where
  [service_def]: "Service_walletIdentityUser svc part chain addr s =
    (case GetWalletIdentity (wp_identities part) chain addr s of
       Inl err \<Rightarrow>
         if errors_Is err Store_ErrWalletIdentityNotFound then Inl err
         else Inl (Errorf ''get wallet identity: %w'' [err])
     | Inr identity \<Rightarrow>
         (case GetByID (svc_userStore svc) (WI_UserID identity) s of
            Inl err \<Rightarrow> Inl (Errorf ''get wallet user: %w'' [err])
          | Inr user \<Rightarrow> Inr user))"

definition Service_discardWalletUser :: "'st Service \<Rightarrow> string \<Rightarrow> 'st world \<Rightarrow> 'st world" where
  [service_def]: "Service_discardWalletUser svc userID w = snd (call (Delete (svc_userStore svc) userID) w)"

definition Service_resolveWalletUser :: "'st Service \<Rightarrow> 'st WalletPart \<Rightarrow> string \<Rightarrow> string \<Rightarrow>
    'st world \<Rightarrow> (error + User \<times> bool) \<times> 'st world" where
  [service_def]: "Service_resolveWalletUser svc part chain addr w =
    (case Service_walletIdentityUser svc part chain addr (store w) of
       Inr user \<Rightarrow> (Inr (user, False), w)
     | Inl err \<Rightarrow>
         if \<not> errors_Is err Store_ErrWalletIdentityNotFound then (Inl err, w)
         else
           (case draw_NewV7 w of
              (None, w1) \<Rightarrow> (Inl (Errorf ''generate user id: %w'' [Foreign ''rand'']), w1)
            | (Some uid, w1) \<Rightarrow>
                let (now, w2) = svc_now svc w1;
                    user = \<lparr>User_ID = uid, User_Email = '''', User_Roles = [],
                            User_CreatedAt = now, User_UpdatedAt = now\<rparr>
                in case call_now (Create (svc_userStore svc) user) w2 of
                     (Inl err, w3) \<Rightarrow> (Inl (Errorf ''create user: %w'' [err]), w3)
                   | (Inr user, w3) \<Rightarrow>
                       let (iid, w4) = draw_NewString w3;
                           identity = \<lparr>WI_ID = iid, WI_UserID = User_ID user, WI_Chain = chain,
                                       WI_Address = addr, WI_CreatedAt = now\<rparr>
                       in case call_now (SaveWalletIdentity (wp_identities part) identity) w4 of
                            (Inr _, w5) \<Rightarrow> (Inr (user, True), w5)
                          | (Inl err, w5) \<Rightarrow>
                              let w6 = Service_discardWalletUser svc (User_ID user) w5
                              in if errors_Is err Store_ErrWalletIdentityExists then
                                   (case Service_walletIdentityUser svc part chain addr (store w6) of
                                      Inl err \<Rightarrow> (Inl err, w6)
                                    | Inr user \<Rightarrow> (Inr (user, False), w6))
                                 else (Inl (Errorf ''save wallet identity: %w'' [err]), w6)))"

definition Service_AuthenticateWallet :: "'st Service \<Rightarrow> WalletAuthRequest \<Rightarrow> 'st world \<Rightarrow>
    (error + WalletAuthResult) \<times> 'st world" where
  [service_def]: "Service_AuthenticateWallet svc req w =
    (case Service_walletProvider svc (WAR_Chain req) (WAR_Address req) of
       Inl err \<Rightarrow> (Inl err, w)
     | Inr (part, p, addr) \<Rightarrow>
         (case Service_consumeWalletChallenge svc part p req addr w of
            (Some err, w1) \<Rightarrow> (Inl err, w1)
          | (None, w1) \<Rightarrow>
              (case Service_resolveWalletUser svc part (WAR_Chain req) addr w1 of
                 (Inl err, w2) \<Rightarrow> (Inl err, w2)
               | (Inr (user, isNew), w2) \<Rightarrow>
                   (case Service_issueTokens svc (User_ID user) (User_Email user) (User_Roles user) '''' w2 of
                      (Inl err, w3) \<Rightarrow>
                        (Inl (AccountError \<lparr>change_userID = User_ID user, change_created = isNew,
                                change_linked = False\<rparr>
                              (Errorf ''issue tokens: %w'' [err])), w3)
                    | (Inr pair, w3) \<Rightarrow>
                        (Inr \<lparr>WARes_UserID = User_ID user, WARes_Email = User_Email user,
                              WARes_TokenPair = pair, WARes_IsNewUser = isNew\<rparr>, w3)))))"

end
