(* ===== verification/OAuth_Service.thy ===== *)
theory OAuth_Service
  imports Service
begin

text \<open>
  \<^verbatim>\<open>auth/oauth.go\<close>: OAuth sign-in. A flow's state, PKCE verifier, nonce and the hash of
  the browser binding are kept as a challenge; the callback consumes it, exchanges the code
  and finds, links or creates the user. The two log-only error branches of
  \<^verbatim>\<open>discardUnlinkedUser\<close> have no effect.
\<close>

definition DefaultOAuthStateTTL :: duration where "DefaultOAuthStateTTL = 15 * minute"
definition oauthSecretBytes :: nat where "oauthSecretBytes = 32"

definition WithOAuth :: "'st OAuthProvider list \<Rightarrow> 'st OAuthIdentityStore option \<Rightarrow>
    'st ChallengeStore option \<Rightarrow> 'st CredentialStore option \<Rightarrow> OAuthConfig \<Rightarrow>
    error + 'st ServiceOption" where
  "WithOAuth providers identities challenges credentials cfg =
    (case (identities, challenges, credentials) of
       (Some identities, Some challenges, Some credentials) \<Rightarrow>
         let cfg = (if OC_StateTTL cfg = 0 then cfg\<lparr>OC_StateTTL := DefaultOAuthStateTTL\<rparr> else cfg)
         in (case index_providers ''auth: duplicate oauth provider'' ProviderName providers [] of
               Inl p \<Rightarrow> Inl p
             | Inr registry \<Rightarrow>
                 Inr (\<lambda>s. s\<lparr>svc_oauth := Some \<lparr>op_providers = registry, op_identities = identities,
                       op_challenges = challenges, op_credentials = credentials, op_config = cfg\<rparr>\<rparr>))
     | _ \<Rightarrow> Inl (Panic ''auth: WithOAuth needs identity, challenge and credential stores''))"

record OAuthURLResult =
  OUR_URL :: string
  OUR_State :: string
  OUR_Binding :: string

record OAuthCallbackRequest =
  OCR_Provider :: string
  OCR_Code :: string
  OCR_State :: string
  OCR_RedirectURI :: string
  OCR_Binding :: string

record OAuthCallbackResult =
  OCRes_UserID :: string
  OCRes_Email :: string
  OCRes_TokenPair :: TokenPair
  OCRes_IsNewUser :: bool
  OCRes_Linked :: bool

datatype oauthUserOrigin = oauthUserExisting | oauthUserCreated | oauthUserLinked

section \<open>Starting a flow\<close>

definition oauthStateBinding :: "string \<Rightarrow> string \<Rightarrow> string" where
  "oauthStateBinding provider redirectURI = provider @ CHR 0x0A # redirectURI"

definition hashBinding :: "'st world \<Rightarrow> string \<Rightarrow> string" where
  "hashBinding w binding = hex_EncodeToString (sha256 w binding)"

definition randomSecret :: "'st world \<Rightarrow> (error + string) \<times> 'st world" where
  "randomSecret w =
    (case draw_bytes oauthSecretBytes w of
       (None, w1) \<Rightarrow> (Inl (Errorf ''generate oauth secret: %w'' [Foreign ''rand'']), w1)
     | (Some b, w1) \<Rightarrow> (Inr (b64_encode True b), w1))"

definition Service_oauthProvider ::
    "'st Service \<Rightarrow> string \<Rightarrow> error + 'st OAuthPart \<times> 'st OAuthProvider" where
  [service_def]: "Service_oauthProvider svc name =
    (case svc_oauth svc of
       None \<Rightarrow> Inl (Sentinel ErrOAuthDisabled)
     | Some part \<Rightarrow>
         (case map_of (op_providers part) name of
            None \<Rightarrow> Inl (Errorf ''%w: %q'' [Sentinel ErrOAuthProviderUnknown])
          | Some p \<Rightarrow> Inr (part, p)))"

definition Service_GetOAuthURL :: "'st Service \<Rightarrow> string \<Rightarrow> string \<Rightarrow> 'st world \<Rightarrow>
    (error + OAuthURLResult) \<times> 'st world" where
  [service_def]: "Service_GetOAuthURL svc provider redirectURI w =
    (case Service_oauthProvider svc provider of
       Inl err \<Rightarrow> (Inl err, w)
     | Inr (part, p) \<Rightarrow>
         (case randomSecret w of
            (Inl err, w1) \<Rightarrow> (Inl err, w1)
          | (Inr state, w1) \<Rightarrow>
              (case randomSecret w1 of
                 (Inl err, w2) \<Rightarrow> (Inl err, w2)
               | (Inr nonce, w2) \<Rightarrow>
                   (case randomSecret w2 of
                      (Inl err, w3) \<Rightarrow> (Inl err, w3)
                    | (Inr binding, w3) \<Rightarrow>
                        let (verifier, w4) = draw_verifier w3;
                            params = \<lparr>Auth_State = state, Auth_RedirectURI = redirectURI,
                                      Auth_CodeVerifier = verifier, Auth_Nonce = nonce\<rparr>
                        in case AuthCodeURL p params of
                             Inl err \<Rightarrow> (Inl (Errorf ''build auth url: %w'' [err]), w4)
                           | Inr url \<Rightarrow>
                               let (now, w5) = svc_now svc w4;
                                   ch = \<lparr>Ch_Nonce = state,
                                         Ch_Message = oauthStateBinding provider redirectURI,
                                         Ch_Chain = '''', Ch_Address = '''',
                                         Ch_CodeVerifier = verifier, Ch_OAuthNonce = nonce,
                                         Ch_BindingHash = hashBinding w5 binding,
                                         Ch_ExpiresAt = now + OC_StateTTL (op_config part),
                                         Ch_CreatedAt = now\<rparr>
                               in case call_now (SaveChallenge (op_challenges part) ch) w5 of
                                    (Inl err, w6) \<Rightarrow> (Inl (Errorf ''save oauth state: %w'' [err]), w6)
                                  | (Inr _, w6) \<Rightarrow>
                                      (Inr \<lparr>OUR_URL = url, OUR_State = state, OUR_Binding = binding\<rparr>, w6)))))"

section \<open>Consuming the state\<close>

definition Service_consumeOAuthState :: "'st Service \<Rightarrow> 'st OAuthPart \<Rightarrow> OAuthCallbackRequest \<Rightarrow>
    'st world \<Rightarrow> (error + Challenge) \<times> 'st world" where
  [service_def]: "Service_consumeOAuthState svc part req w =
    (if OCR_Code req = '''' \<or> OCR_State req = '''' \<or> OCR_Binding req = ''''
     then (Inl (Sentinel ErrOAuthStateInvalid), w)
     else
       case call_now (GetChallenge (op_challenges part) (OCR_State req)) w of
         (Inl err, w1) \<Rightarrow>
           if errors_Is err Store_ErrChallengeNotFound \<or> errors_Is err Store_ErrChallengeExpired
           then (Inl (Sentinel ErrOAuthStateInvalid), w1)
           else (Inl (Errorf ''get oauth state: %w'' [err]), w1)
       | (Inr ch, w1) \<Rightarrow>
           let (now, w2) = svc_now svc w1 in
           if \<not> now < Ch_ExpiresAt ch \<or>
              Ch_Message ch \<noteq> oauthStateBinding (OCR_Provider req) (OCR_RedirectURI req) \<or>
              Ch_BindingHash ch = '''' \<or>
              hashBinding w2 (OCR_Binding req) \<noteq> Ch_BindingHash ch
           then (Inl (Sentinel ErrOAuthStateInvalid), w2)
           else
             (case call (DeleteChallenge (op_challenges part) (OCR_State req)) w2 of
                (Inl err, w3) \<Rightarrow>
                  if errors_Is err Store_ErrChallengeNotFound
                  then (Inl (Sentinel ErrOAuthStateInvalid), w3)
                  else (Inl (Errorf ''delete oauth state: %w'' [err]), w3)
              | (Inr _, w3) \<Rightarrow> (Inr ch, w3)))"

section \<open>Finding the user\<close>

definition Service_oauthIdentityUser ::
    "'st Service \<Rightarrow> 'st OAuthPart \<Rightarrow> string \<Rightarrow> string \<Rightarrow> 'st \<Rightarrow> error + User" where
  [service_def]: "Service_oauthIdentityUser svc part provider externalID s =
    (case GetOAuthIdentity (op_identities part) provider externalID s of
       Inl err \<Rightarrow>
         if errors_Is err Store_ErrOAuthIdentityNotFound then Inl err
         else Inl (Errorf ''get oauth identity: %w'' [err])
     | Inr identity \<Rightarrow>
         (case GetByID (svc_userStore svc) (OI_UserID identity) s of
            Inl err \<Rightarrow> Inl (Errorf ''get oauth user: %w'' [err])
          | Inr user \<Rightarrow> Inr user))"

definition Service_findOrCreateUser ::
    "'st Service \<Rightarrow> string \<Rightarrow> 'st world \<Rightarrow> (error + User \<times> bool) \<times> 'st world" where
  [service_def]: "Service_findOrCreateUser svc email w =
    (case GetByEmail (svc_userStore svc) email (store w) of
       Inr user \<Rightarrow> (Inr (user, False), w)
     | Inl err \<Rightarrow>
         if \<not> errors_Is err Store_ErrUserNotFound
         then (Inl (Errorf ''get user by email: %w'' [err]), w)
         else
           (case draw_NewV7 w of
              (None, w1) \<Rightarrow> (Inl (Errorf ''generate user id: %w'' [Foreign ''rand'']), w1)
            | (Some uid, w1) \<Rightarrow>
                let (now, w2) = svc_now svc w1;
                    user = \<lparr>User_ID = uid, User_Email = email, User_Roles = [],
                            User_CreatedAt = now, User_UpdatedAt = now\<rparr>
                in case call_now (Create (svc_userStore svc) user) w2 of
                     (Inr user, w3) \<Rightarrow> (Inr (user, True), w3)
                   | (Inl err, w3) \<Rightarrow>
                       if \<not> errors_Is err Store_ErrUserExists
                       then (Inl (Errorf ''create user: %w'' [err]), w3)
                       else
                         (case GetByEmail (svc_userStore svc) email (store w3) of
                            Inl err \<Rightarrow> (Inl (Errorf ''get user by email: %w'' [err]), w3)
                          | Inr user \<Rightarrow> (Inr (user, False), w3))))"

definition Service_checkAutoLink :: "'st OAuthPart \<Rightarrow> string \<Rightarrow> 'st \<Rightarrow> error option" where
  [service_def]: "Service_checkAutoLink part userID s =
    (if OC_DisableAutoLinkEmail (op_config part) then Some (Sentinel ErrOAuthLinkDisabled)
     else
       case GetPasswordHash (op_credentials part) userID s of
         Inr _ \<Rightarrow> Some (Sentinel ErrOAuthAccountHasPassword)
       | Inl err \<Rightarrow>
           if errors_Is err Store_ErrCredentialNotFound then None
           else Some (Errorf ''get password hash: %w'' [err]))"

definition Service_discardUnlinkedUser ::
    "'st Service \<Rightarrow> 'st OAuthPart \<Rightarrow> string \<Rightarrow> 'st world \<Rightarrow> 'st world" where
  [service_def]: "Service_discardUnlinkedUser svc part userID w =
    (case ListOAuthIdentities (op_identities part) userID (store w) of
       Inl err \<Rightarrow> w
     | Inr linked \<Rightarrow>
         if linked \<noteq> [] then w
         else snd (call (Delete (svc_userStore svc) userID) w))"

definition Service_linkOAuthUser :: "'st Service \<Rightarrow> 'st OAuthPart \<Rightarrow> string \<Rightarrow> UserInfo \<Rightarrow> string \<Rightarrow>
    User \<Rightarrow> bool \<Rightarrow> oauthUserOrigin \<Rightarrow> 'st world \<Rightarrow> (error + User \<times> oauthUserOrigin) \<times> 'st world" where
  [service_def]: "Service_linkOAuthUser svc part provider info email user isNew origin w =
    (let (iid, w1) = draw_NewString w;
         (now, w2) = svc_now svc w1;
         identity = \<lparr>OI_ID = iid, OI_UserID = User_ID user, OI_Provider = provider,
                     OI_ExternalID = Info_ExternalID info, OI_Email = email, OI_CreatedAt = now\<rparr>
     in case call_now (SaveOAuthIdentity (op_identities part) identity) w2 of
          (Inr _, w3) \<Rightarrow> (Inr (user, origin), w3)
        | (Inl err, w3) \<Rightarrow>
            let w4 = (if isNew then Service_discardUnlinkedUser svc part (User_ID user) w3 else w3)
            in if errors_Is err Store_ErrOAuthIdentityExists then
                 (case Service_oauthIdentityUser svc part provider (Info_ExternalID info) (store w4) of
                    Inl err \<Rightarrow> (Inl err, w4)
                  | Inr winner \<Rightarrow>
                      if isNew \<and> User_ID winner = User_ID user
                      then (Inr (winner, oauthUserCreated), w4)
                      else (Inr (winner, oauthUserExisting), w4))
               else (Inl (Errorf ''save oauth identity: %w'' [err]), w4))"

definition Service_resolveOAuthUser :: "'st Service \<Rightarrow> 'st OAuthPart \<Rightarrow> string \<Rightarrow> UserInfo \<Rightarrow>
    'st world \<Rightarrow> (error + User \<times> oauthUserOrigin) \<times> 'st world" where
  [service_def]: "Service_resolveOAuthUser svc part provider info w =
    (case Service_oauthIdentityUser svc part provider (Info_ExternalID info) (store w) of
       Inr user \<Rightarrow> (Inr (user, oauthUserExisting), w)
     | Inl err \<Rightarrow>
         if \<not> errors_Is err Store_ErrOAuthIdentityNotFound then (Inl err, w)
         else
           (case NormalizeEmail w (Info_Email info) of
              Inl err \<Rightarrow> (Inl (Sentinel ErrOAuthEmailRequired), w)
            | Inr email \<Rightarrow>
                if \<not> Info_EmailVerified info then (Inl (Sentinel ErrOAuthEmailUnverified), w)
                else
                  (case Service_findOrCreateUser svc email w of
                     (Inl err, w1) \<Rightarrow> (Inl err, w1)
                   | (Inr (user, isNew), w1) \<Rightarrow>
                       if isNew
                       then Service_linkOAuthUser svc part provider info email user isNew oauthUserCreated w1
                       else
                         (case Service_checkAutoLink part (User_ID user) (store w1) of
                            Some err \<Rightarrow> (Inl (AccountError (knownAccount (User_ID user)) err), w1)
                          | None \<Rightarrow>
                              Service_linkOAuthUser svc part provider info email user isNew
                                oauthUserLinked w1))))"

definition Service_OAuthCallback :: "'st Service \<Rightarrow> OAuthCallbackRequest \<Rightarrow> 'st world \<Rightarrow>
    (error + OAuthCallbackResult) \<times> 'st world" where
  [service_def]: "Service_OAuthCallback svc req w =
    (case Service_oauthProvider svc (OCR_Provider req) of
       Inl err \<Rightarrow> (Inl err, w)
     | Inr (part, p) \<Rightarrow>
         (case Service_consumeOAuthState svc part req w of
            (Inl err, w1) \<Rightarrow> (Inl err, w1)
          | (Inr ch, w1) \<Rightarrow>
              (case ExchangeCode p (OCR_Code req)
                      \<lparr>Auth_State = OCR_State req, Auth_RedirectURI = OCR_RedirectURI req,
                       Auth_CodeVerifier = Ch_CodeVerifier ch, Auth_Nonce = Ch_OAuthNonce ch\<rparr> w1 of
                 (Inl err, w2) \<Rightarrow> (Inl (Errorf ''%w: %w'' [Sentinel ErrOAuthExchangeFailed, err]), w2)
               | (Inr info, w2) \<Rightarrow>
                   if Info_ExternalID info = ''''
                   then (Inl (Errorf ''%w: %w: empty external id''
                           [Sentinel ErrOAuthExchangeFailed, Sentinel OAuth_ErrInvalidToken]), w2)
                   else
                     (case Service_resolveOAuthUser svc part (OCR_Provider req) info w2 of
                        (Inl err, w3) \<Rightarrow> (Inl err, w3)
                      | (Inr (user, origin), w3) \<Rightarrow>
                          let change = \<lparr>change_userID = User_ID user,
                                change_created = (origin = oauthUserCreated),
                                change_linked = (origin = oauthUserLinked)\<rparr>
                          in case Service_issueTokens svc (User_ID user) (User_Email user)
                                    (User_Roles user) '''' w3 of
                               (Inl err, w4) \<Rightarrow>
                                 (Inl (AccountError change (Errorf ''issue tokens: %w'' [err])), w4)
                             | (Inr pair, w4) \<Rightarrow>
                                 (Inr \<lparr>OCRes_UserID = User_ID user, OCRes_Email = User_Email user,
                                       OCRes_TokenPair = pair, OCRes_IsNewUser = change_created change,
                                       OCRes_Linked = change_linked change\<rparr>, w4)))))"

end
