(* ===== verification/Audit_Log.thy ===== *)
theory Audit_Log
  imports Wallet_Service OAuth_Service Client_IP
begin

text \<open>
  \<^verbatim>\<open>auth/audit.go\<close> and the state of \<^verbatim>\<open>auth.Handler\<close>. An audit record is what is
  handed to the audit logger (the logger's own level is the deployment's): operations that
  write audit events return the records they write, in order.
\<close>

section \<open>The handler and its requests\<close>

datatype SameSite = SameSiteUnset | SameSiteDefaultMode | SameSiteLaxMode | SameSiteStrictMode | SameSiteNoneMode

record CookieConfig =
  CC_Enabled :: bool
  CC_Domain :: string
  CC_Path :: string
  CC_Secure :: bool
  CC_SameSite :: SameSite

text \<open>\<open>h_netip\<close> and \<open>h_uuid_Parse\<close> are the libraries a handler uses.\<close>

record 'st Handler =
  h_service :: "'st Service"
  h_cookieConfig :: CookieConfig
  h_trustedProxies :: "Prefix list"
  h_netip :: netip
  h_uuid_Parse :: "string \<Rightarrow> string option"

type_synonym 'st HandlerOption = "'st Handler \<Rightarrow> 'st Handler"

definition WithCookieConfig :: "CookieConfig \<Rightarrow> 'st HandlerOption" where
  "WithCookieConfig config = (\<lambda>h. h\<lparr>h_cookieConfig := config\<rparr>)"

definition WithTrustedProxies :: "Prefix list \<Rightarrow> 'st HandlerOption" where
  "WithTrustedProxies prefixes = (\<lambda>h. h\<lparr>h_trustedProxies := prefixes\<rparr>)"

definition NewHandler :: "netip \<Rightarrow> (string \<Rightarrow> string option) \<Rightarrow> 'st Service \<Rightarrow> 'st HandlerOption list \<Rightarrow> 'st Handler" where
  "NewHandler np uuid_Parse service opts =
    fold (\<lambda>opt h. opt h) opts
      \<lparr>h_service = service,
       h_cookieConfig = \<lparr>CC_Enabled = False, CC_Domain = '''', CC_Path = '''', CC_Secure = False, CC_SameSite = SameSiteUnset\<rparr>,
       h_trustedProxies = [], h_netip = np, h_uuid_Parse = uuid_Parse\<rparr>"

text \<open>\<^verbatim>\<open>connect.Request\<close>: the message, the HTTP header and the peer address.\<close>

record 'm Request =
  Req_Msg :: 'm
  Req_Header :: Header
  Req_PeerAddr :: string

section \<open>Records\<close>

datatype attr_value = AString string | ABool bool
type_synonym attr = "string \<times> attr_value"

datatype Level = LevelDebug | LevelInfo | LevelWarn | LevelError

record audit_record =
  AR_Level :: Level
  AR_Msg :: string
  AR_Attrs :: "attr list"

definition auditEventRegister :: string where "auditEventRegister = ''register''"
definition auditEventLogin :: string where "auditEventLogin = ''login''"
definition auditEventOAuthSignIn :: string where "auditEventOAuthSignIn = ''oauth.sign_in''"
definition auditEventOAuthLink :: string where "auditEventOAuthLink = ''oauth.link''"
definition auditEventWalletSignIn :: string where "auditEventWalletSignIn = ''wallet.sign_in''"
definition auditEventUserCreated :: string where "auditEventUserCreated = ''user.created''"
definition auditMethodOAuth :: string where "auditMethodOAuth = ''oauth''"
definition auditMethodWallet :: string where "auditMethodWallet = ''wallet''"
definition auditResultSuccess :: string where "auditResultSuccess = ''success''"
definition auditResultFailure :: string where "auditResultFailure = ''failure''"
definition reasonInvalidRequest :: string where "reasonInvalidRequest = ''invalid_request''"
definition reasonInternalError :: string where "reasonInternalError = ''internal_error''"

definition maxAuditValue :: nat where "maxAuditValue = 256"

definition clientAttr :: "string \<Rightarrow> string \<Rightarrow> attr" where
  "clientAttr key val = (key, AString (if length val > maxAuditValue then take maxAuditValue val else val))"

definition failedAccount :: "error \<Rightarrow> accountChange option" where
  "failedAccount err = errors_As as_accountError err"

definition accountAttrs :: "error \<Rightarrow> attr list" where
  "accountAttrs err = (case failedAccount err of Some ae \<Rightarrow> [(''user_id'', AString (change_userID ae))] | None \<Rightarrow> [])"

definition writeAudit :: "'st Handler \<Rightarrow> 'm Request \<Rightarrow> Level \<Rightarrow> string \<Rightarrow> string \<Rightarrow> attr list \<Rightarrow> audit_record list" where
  "writeAudit h req level event result attrs =
    [\<lparr>AR_Level = level, AR_Msg = ''audit '' @ event,
      AR_Attrs =
        [(''audit'', ABool True), (''event'', AString event), (''result'', AString result),
         (''ip'', AString (clientIP (h_netip h) (h_trustedProxies h) (Req_PeerAddr req) (Req_Header req))),
         clientAttr ''user_agent'' (header_Get (Req_Header req) ''User-Agent'')] @ attrs\<rparr>]"

definition auditSuccess :: "'st Handler \<Rightarrow> 'm Request \<Rightarrow> string \<Rightarrow> string \<Rightarrow> attr list \<Rightarrow> audit_record list" where
  "auditSuccess h req event userID attrs =
    writeAudit h req LevelInfo event auditResultSuccess (attrs @ [(''user_id'', AString userID)])"

definition auditFailure :: "'st Handler \<Rightarrow> 'm Request \<Rightarrow> string \<Rightarrow> string \<Rightarrow> attr list \<Rightarrow> audit_record list" where
  "auditFailure h req event reason attrs =
    writeAudit h req LevelWarn event auditResultFailure (attrs @ [(''reason'', AString reason)])"

definition auditAccountChange :: "'st Handler \<Rightarrow> 'm Request \<Rightarrow> string \<Rightarrow> accountChange \<Rightarrow> attr \<Rightarrow> audit_record list" where
  "auditAccountChange h req method_name change attr =
    (if change_created change
     then auditSuccess h req auditEventUserCreated (change_userID change) [(''method'', AString method_name), attr]
     else if change_linked change then auditSuccess h req auditEventOAuthLink (change_userID change) [attr]
     else [])"

definition auditSignIn :: "'st Handler \<Rightarrow> 'm Request \<Rightarrow> string \<Rightarrow> string \<Rightarrow> accountChange \<Rightarrow> attr \<Rightarrow> audit_record list" where
  "auditSignIn h req event method_name change attr =
    auditAccountChange h req method_name change attr @
    auditSuccess h req event (change_userID change) [attr, (''new_user'', ABool (change_created change))]"

definition auditSignInFailure ::
    "'st Handler \<Rightarrow> 'm Request \<Rightarrow> string \<Rightarrow> string \<Rightarrow> string \<Rightarrow> error \<Rightarrow> attr \<Rightarrow> audit_record list" where
  "auditSignInFailure h req event method_name reason err attr =
    (case failedAccount err of
       Some ae \<Rightarrow>
         auditAccountChange h req method_name ae attr @
         auditFailure h req event reason [attr, (''user_id'', AString (change_userID ae))]
     | None \<Rightarrow> auditFailure h req event reason [attr])"

section \<open>Reasons\<close>

definition registerFailureReason :: "error \<Rightarrow> string" where
  "registerFailureReason err =
    (if errors_Is err ErrUserExists then ''user_exists''
     else if errors_Is err ErrInvalidEmail then ''invalid_email''
     else if errors_Is err ErrPasswordTooShort then ''password_too_short''
     else if errors_Is err ErrPasswordTooLong then ''password_too_long''
     else reasonInternalError)"

definition loginFailure :: "error \<Rightarrow> string \<times> attr list" where
  "loginFailure err =
    (case errors_As as_CredentialsError err of
       Some (reason, uid) \<Rightarrow>
         let reason = (if reason = '''' then ReasonInvalidCredentials else reason)
         in if uid \<noteq> '''' then (reason, [(''user_id'', AString uid)]) else (reason, [])
     | None \<Rightarrow>
         if errors_Is err ErrInvalidCredentials then (ReasonInvalidCredentials, [])
         else (reasonInternalError, accountAttrs err))"

definition oauthFailureReason :: "error \<Rightarrow> string" where
  "oauthFailureReason err =
    (if errors_Is err ErrOAuthDisabled then ''oauth_disabled''
     else if errors_Is err ErrOAuthProviderUnknown then ''unknown_provider''
     else if errors_Is err OAuth_ErrRedirectURINotAllowed then ''redirect_uri_not_allowed''
     else if errors_Is err ErrOAuthStateInvalid then ''invalid_state''
     else if errors_Is err ErrOAuthExchangeFailed then ''exchange_failed''
     else if errors_Is err ErrOAuthEmailRequired then ''email_missing''
     else if errors_Is err ErrOAuthEmailUnverified then ''email_unverified''
     else if errors_Is err ErrOAuthLinkDisabled then ''link_disabled''
     else if errors_Is err ErrOAuthAccountHasPassword then ''account_has_password''
     else reasonInternalError)"

definition walletFailureReason :: "error \<Rightarrow> string" where
  "walletFailureReason err =
    (if errors_Is err ErrWalletDisabled then ''wallet_disabled''
     else if errors_Is err ErrWalletChainUnsupported then ''unsupported_chain''
     else if errors_Is err ErrWalletAddressInvalid then ''invalid_address''
     else if errors_Is err ErrWalletChallengeInvalid then ''invalid_challenge''
     else reasonInternalError)"

end
