(* ===== verification/Cookies.thy ===== *)
theory Cookies
  imports Audit_Log
begin

text \<open>
  The cookies of \<^verbatim>\<open>auth/handler.go\<close>. A cookie is an \<^verbatim>\<open>http.Cookie\<close> value; a
  \<^verbatim>\<open>Set-Cookie\<close> header is kept as the cookie it was made from, its text being
  \<^verbatim>\<open>net/http\<close>'s. Functions that add headers return the cookies they add, in order.
\<close>

definition AccessTokenCookie :: string where "AccessTokenCookie = ''psina_access''"
definition RefreshTokenCookie :: string where "RefreshTokenCookie = ''psina_refresh''"

record Cookie =
  Cookie_Name :: string
  Cookie_Value :: string
  Cookie_Domain :: string
  Cookie_Path :: string
  Cookie_Expires :: time
  Cookie_MaxAge :: int
  Cookie_Secure :: bool
  Cookie_HttpOnly :: bool
  Cookie_SameSite :: SameSite

section \<open>Token cookies\<close>

text \<open>The labels above the host itself, down to two.\<close>

definition parentDomains :: "string \<Rightarrow> string list" where
  "parentDomains host =
    (let host = strings_TrimPrefix host ''.''; labels = strings_Split (CHR ''.'') host
     in map (\<lambda>i. strings_Join ''.'' (drop i labels)) [1..<length labels - 1])"

definition clearLegacyScopedCookies :: "CookieConfig \<Rightarrow> Cookie list" where
  "clearLegacyScopedCookies cfg =
    (if CC_Domain cfg = '''' then []
     else
       concat (map (\<lambda>name. map (\<lambda>domain.
         \<lparr>Cookie_Name = name, Cookie_Value = '''', Cookie_Domain = domain, Cookie_Path = CC_Path cfg,
          Cookie_Expires = time_Unix 0, Cookie_MaxAge = -1, Cookie_Secure = CC_Secure cfg,
          Cookie_HttpOnly = True, Cookie_SameSite = CC_SameSite cfg\<rparr>)
           ('''' # parentDomains (CC_Domain cfg)))
         [AccessTokenCookie, RefreshTokenCookie]))"

definition setTokenCookies :: "CookieConfig \<Rightarrow> string \<Rightarrow> string \<Rightarrow> 'st world \<Rightarrow> Cookie list \<times> 'st world" where
  "setTokenCookies cfg accessToken refreshToken w =
    (let (t1, w1) = time_Now w;
         accessCookie = \<lparr>Cookie_Name = AccessTokenCookie, Cookie_Value = accessToken,
           Cookie_Domain = CC_Domain cfg, Cookie_Path = CC_Path cfg,
           Cookie_Expires = t1 + AccessTokenTTL, Cookie_MaxAge = AccessTokenTTL div second,
           Cookie_Secure = CC_Secure cfg, Cookie_HttpOnly = True, Cookie_SameSite = CC_SameSite cfg\<rparr>;
         (t2, w2) = time_Now w1;
         refreshCookie = \<lparr>Cookie_Name = RefreshTokenCookie, Cookie_Value = refreshToken,
           Cookie_Domain = CC_Domain cfg, Cookie_Path = CC_Path cfg,
           Cookie_Expires = t2 + RefreshTokenTTL, Cookie_MaxAge = RefreshTokenTTL div second,
           Cookie_Secure = CC_Secure cfg, Cookie_HttpOnly = True, Cookie_SameSite = CC_SameSite cfg\<rparr>
     in ([accessCookie, refreshCookie] @ clearLegacyScopedCookies cfg, w2))"

definition clearTokenCookies :: "CookieConfig \<Rightarrow> Cookie list" where
  "clearTokenCookies cfg =
    (let clear = (\<lambda>name. \<lparr>Cookie_Name = name, Cookie_Value = '''', Cookie_Domain = CC_Domain cfg,
           Cookie_Path = CC_Path cfg, Cookie_Expires = time_Unix 0, Cookie_MaxAge = -1,
           Cookie_Secure = CC_Secure cfg, Cookie_HttpOnly = True, Cookie_SameSite = CC_SameSite cfg\<rparr>)
     in [clear AccessTokenCookie, clear RefreshTokenCookie] @ clearLegacyScopedCookies cfg)"

section \<open>Binding cookies\<close>

definition oauthBindingCookiePrefix :: string where "oauthBindingCookiePrefix = ''psina_oauth_''"
definition oauthBindingCookieStateChars :: nat where "oauthBindingCookieStateChars = 8"
definition OAuthCallbackProcedure :: string where "OAuthCallbackProcedure = ''/auth.v1.AuthService/OAuthCallback''"

definition oauthBindingCookieName :: "string \<Rightarrow> string" where
  "oauthBindingCookieName state =
    oauthBindingCookiePrefix @ take (min (length state) oauthBindingCookieStateChars) state"

text \<open>\<^verbatim>\<open>int(d.Seconds())\<close> for a duration of whole seconds or of less than 97 days, where
  the floating-point seconds do not round up to an integer.\<close>

definition whole_seconds :: "duration \<Rightarrow> int" where
  "whole_seconds d = sgn d * (\<bar>d\<bar> div second)"

definition setOAuthBindingCookie :: "CookieConfig \<Rightarrow> string \<Rightarrow> string \<Rightarrow> duration \<Rightarrow> Cookie list" where
  "setOAuthBindingCookie cfg state binding ttl =
    [\<lparr>Cookie_Name = oauthBindingCookieName state, Cookie_Value = binding, Cookie_Domain = CC_Domain cfg,
      Cookie_Path = OAuthCallbackProcedure, Cookie_Expires = 0, Cookie_MaxAge = whole_seconds ttl,
      Cookie_Secure = CC_Secure cfg, Cookie_HttpOnly = True, Cookie_SameSite = SameSiteLaxMode\<rparr>]"

definition clearOAuthBindingCookie :: "CookieConfig \<Rightarrow> string \<Rightarrow> Cookie list" where
  "clearOAuthBindingCookie cfg state =
    [\<lparr>Cookie_Name = oauthBindingCookieName state, Cookie_Value = '''', Cookie_Domain = CC_Domain cfg,
      Cookie_Path = OAuthCallbackProcedure, Cookie_Expires = 0, Cookie_MaxAge = -1,
      Cookie_Secure = CC_Secure cfg, Cookie_HttpOnly = True, Cookie_SameSite = SameSiteLaxMode\<rparr>]"

section \<open>Reading cookies\<close>

text \<open>The loop over the \<^verbatim>\<open>;\<close>-separated pairs.\<close>

fun findCookie :: "string \<Rightarrow> string list \<Rightarrow> string" where
  "findCookie name [] = ''''"
| "findCookie name (cookie # rest) =
     (let (key, val, found) = strings_Cut (CHR ''='') (strings_TrimSpace cookie)
      in if found \<and> key = name \<and> val \<noteq> '''' then val else findCookie name rest)"

definition getCookieFromHeader :: "Header \<Rightarrow> string \<Rightarrow> string" where
  "getCookieFromHeader header name =
    (let cookieHeader = header_Get header ''Cookie'' in
     if cookieHeader = '''' then '''' else findCookie name (strings_Split (CHR '';'') cookieHeader))"

end
