(* ===== verification/Handler.thy ===== *)
theory Handler
  imports Cookies
begin

text \<open>
  \<^verbatim>\<open>auth/handler.go\<close>: the RPC handlers. A handler takes a request and the environment and
  returns an error or a response, the audit records it wrote and the environment. The
  messages are those of \<^verbatim>\<open>api/auth/v1/auth.proto\<close>. Diagnostic log lines are left out.
\<close>

section \<open>Messages\<close>

record RegisterRequestMsg =
  RegisterRequest_Email :: string
  RegisterRequest_Password :: string

record RegisterResponse =
  RegisterResponse_UserId :: string
  RegisterResponse_Email :: string
  RegisterResponse_AccessToken :: string
  RegisterResponse_RefreshToken :: string
  RegisterResponse_ExpiresIn :: int

record LoginRequestMsg =
  LoginRequest_Email :: string
  LoginRequest_Password :: string

record LoginResponse =
  LoginResponse_AccessToken :: string
  LoginResponse_RefreshToken :: string
  LoginResponse_ExpiresIn :: int

record RefreshRequestMsg =
  RefreshRequest_RefreshToken :: string

record RefreshResponse =
  RefreshResponse_AccessToken :: string
  RefreshResponse_RefreshToken :: string
  RefreshResponse_ExpiresIn :: int

record LogoutRequestMsg =
  LogoutRequest_RefreshToken :: string

record LogoutResponse =
  LogoutResponse_Success :: bool

record VerifyResponse =
  VerifyResponse_UserId :: string
  VerifyResponse_Email :: string
  VerifyResponse_Roles :: "string list"

record GetOAuthURLRequestMsg =
  GetOAuthURLRequest_Provider :: string
  GetOAuthURLRequest_RedirectUri :: string

record GetOAuthURLResponse =
  GetOAuthURLResponse_Url :: string
  GetOAuthURLResponse_State :: string
  GetOAuthURLResponse_Binding :: string

record OAuthCallbackRequestMsg =
  OAuthCallbackRequest_Provider :: string
  OAuthCallbackRequest_Code :: string
  OAuthCallbackRequest_State :: string
  OAuthCallbackRequest_RedirectUri :: string
  OAuthCallbackRequest_Binding :: string

text \<open>\<^verbatim>\<open>OAuthCallbackResponse\<close> and \<^verbatim>\<open>AuthenticateWalletResponse\<close> have the same fields.\<close>

record SignInResponse =
  SignInResponse_UserId :: string
  SignInResponse_Email :: string
  SignInResponse_AccessToken :: string
  SignInResponse_RefreshToken :: string
  SignInResponse_ExpiresIn :: int
  SignInResponse_IsNewUser :: bool

record GetChallengeRequestMsg =
  GetChallengeRequest_Chain :: string
  GetChallengeRequest_Address :: string

record GetChallengeResponse =
  GetChallengeResponse_Nonce :: string
  GetChallengeResponse_Message :: string
  GetChallengeResponse_ExpiresAt :: int

record AuthenticateWalletRequestMsg =
  AuthenticateWalletRequest_Chain :: string
  AuthenticateWalletRequest_Address :: string
  AuthenticateWalletRequest_Nonce :: string
  AuthenticateWalletRequest_Signature :: string

record PATProto =
  PATProto_Id :: string
  PATProto_Name :: string
  PATProto_Scopes :: "string list"
  PATProto_CreatedAt :: int
  PATProto_ExpiresAt :: int
  PATProto_LastUsedAt :: int

record CreatePATRequestMsg =
  CreatePATRequest_Name :: string
  CreatePATRequest_Scopes :: "string list"
  CreatePATRequest_ExpiresAt :: int

record CreatePATResponse =
  CreatePATResponse_Token :: string
  CreatePATResponse_Pat :: PATProto

record RevokePATRequestMsg =
  RevokePATRequest_Id :: string

section \<open>Errors and responses\<close>

datatype Code = CodeInvalidArgument | CodeNotFound | CodeAlreadyExists | CodePermissionDenied
  | CodeResourceExhausted | CodeFailedPrecondition | CodeUnimplemented | CodeInternal | CodeUnauthenticated

text \<open>\<^verbatim>\<open>connect.Error\<close>: the code, the error whose text the client sees and the cookies of
  its metadata. \<open>Crashed\<close> is a panic, which ends the connection.\<close>

datatype rpc_error = ConnectError Code error "Cookie list" | Crashed string

record 'm Response =
  Resp_Msg :: 'm
  Resp_Header :: Header
  Resp_Cookies :: "Cookie list"

definition NewResponse :: "'m \<Rightarrow> 'm Response" where
  "NewResponse m = \<lparr>Resp_Msg = m, Resp_Header = [], Resp_Cookies = []\<rparr>"

abbreviation NewError :: "Code \<Rightarrow> error \<Rightarrow> rpc_error" where
  "NewError c e \<equiv> ConnectError c e []"

abbreviation errors_New :: "string \<Rightarrow> error" where
  "errors_New m \<equiv> Errorf m []"

type_synonym ('m, 'st) handled = "(rpc_error + 'm Response) \<times> audit_record list \<times> 'st world"

definition internalError :: rpc_error where
  "internalError = NewError CodeInternal (errors_New ''internal error'')"

definition verifyErrorToConnect :: "error \<Rightarrow> rpc_error" where
  "verifyErrorToConnect err =
    (if errors_Is err ErrInvalidCredentials then NewError CodeUnauthenticated (errors_New ''invalid token'')
     else internalError)"

definition errOAuthStateOrCode :: error where
  "errOAuthStateOrCode = errors_New ''invalid oauth state or code''"

definition oauthErrorToConnect :: "error \<Rightarrow> rpc_error" where
  "oauthErrorToConnect err =
    (if errors_Is err ErrOAuthDisabled then NewError CodeUnimplemented (Sentinel ErrOAuthDisabled)
     else if errors_Is err ErrOAuthProviderUnknown then NewError CodeInvalidArgument (Sentinel ErrOAuthProviderUnknown)
     else if errors_Is err OAuth_ErrRedirectURINotAllowed
     then NewError CodePermissionDenied (Sentinel OAuth_ErrRedirectURINotAllowed)
     else if errors_Is err ErrOAuthStateInvalid then NewError CodeUnauthenticated errOAuthStateOrCode
     else if errors_Is err ErrOAuthExchangeFailed then NewError CodeUnauthenticated errOAuthStateOrCode
     else if errors_Is err ErrOAuthEmailRequired then NewError CodeFailedPrecondition (Sentinel ErrOAuthEmailRequired)
     else if errors_Is err ErrOAuthEmailUnverified then NewError CodeFailedPrecondition (Sentinel ErrOAuthEmailUnverified)
     else if errors_Is err ErrOAuthLinkDisabled then NewError CodeFailedPrecondition (Sentinel ErrOAuthLinkDisabled)
     else if errors_Is err ErrOAuthAccountHasPassword
     then NewError CodeFailedPrecondition (Sentinel ErrOAuthAccountHasPassword)
     else internalError)"

definition walletErrorToConnect :: "error \<Rightarrow> rpc_error" where
  "walletErrorToConnect err =
    (if errors_Is err ErrWalletDisabled then NewError CodeUnimplemented (Sentinel ErrWalletDisabled)
     else if errors_Is err ErrWalletChainUnsupported then NewError CodeInvalidArgument (Sentinel ErrWalletChainUnsupported)
     else if errors_Is err ErrWalletAddressInvalid then NewError CodeInvalidArgument (Sentinel ErrWalletAddressInvalid)
     else if errors_Is err ErrWalletChallengeInvalid
     then NewError CodeUnauthenticated (Sentinel ErrWalletChallengeInvalid)
     else internalError)"

definition patErrorToConnect :: "error \<Rightarrow> rpc_error" where
  "patErrorToConnect err =
    (if errors_Is err ErrPATDisabled then NewError CodeUnimplemented err
     else if errors_Is err ErrPATNameRequired \<or> errors_Is err ErrPATNameTooLong \<or> errors_Is err ErrPATExpiryInvalid
     then NewError CodeInvalidArgument err
     else if errors_Is err ErrPATNotFound then NewError CodeNotFound (errors_New ''token not found'')
     else if errors_Is err ErrPATLimitReached then NewError CodeResourceExhausted err
     else internalError)"

text \<open>The cookies every sign-in adds to its response, when cookies are enabled.\<close>

definition sessionCookies :: "'st Handler \<Rightarrow> TokenPair \<Rightarrow> 'st world \<Rightarrow> Cookie list \<times> 'st world" where
  "sessionCookies h pair w =
    (if CC_Enabled (h_cookieConfig h)
     then setTokenCookies (h_cookieConfig h) (AccessToken pair) (RefreshTokenText pair) w
     else ([], w))"

section \<open>Accounts\<close>

definition Handler_Register :: "'st Handler \<Rightarrow> RegisterRequestMsg Request \<Rightarrow> 'st world \<Rightarrow> (RegisterResponse, 'st) handled" where
  "Handler_Register h req w =
    (case Service_Register (h_service h) (RegisterRequest_Email (Req_Msg req)) (RegisterRequest_Password (Req_Msg req)) w of
       (Inl err, w1) \<Rightarrow>
         (Inl (if errors_Is err ErrUserExists then NewError CodeAlreadyExists err
               else if errors_Is err ErrInvalidEmail \<or> errors_Is err ErrPasswordTooShort \<or> errors_Is err ErrPasswordTooLong
               then NewError CodeInvalidArgument err
               else internalError),
          auditFailure h req auditEventRegister (registerFailureReason err) (accountAttrs err), w1)
     | (Inr result, w1) \<Rightarrow>
         let pair = RegResult_TokenPair result;
             resp = NewResponse \<lparr>RegisterResponse_UserId = RegResult_UserID result,
               RegisterResponse_Email = RegResult_Email result, RegisterResponse_AccessToken = AccessToken pair,
               RegisterResponse_RefreshToken = RefreshTokenText pair, RegisterResponse_ExpiresIn = ExpiresIn pair\<rparr>;
             (cookies, w2) = sessionCookies h pair w1
         in (Inr (resp\<lparr>Resp_Cookies := cookies\<rparr>),
             auditSuccess h req auditEventRegister (RegResult_UserID result) [], w2))"

definition Handler_Login :: "'st Handler \<Rightarrow> LoginRequestMsg Request \<Rightarrow> 'st world \<Rightarrow> (LoginResponse, 'st) handled" where
  "Handler_Login h req w =
    (case Service_Login (h_service h) (LoginRequest_Email (Req_Msg req)) (LoginRequest_Password (Req_Msg req)) w of
       (Inl err, w1) \<Rightarrow>
         let (reason, attrs) = loginFailure err
         in (Inl (if errors_Is err ErrInvalidCredentials
                  then NewError CodeUnauthenticated (errors_New ''invalid credentials'') else internalError),
             auditFailure h req auditEventLogin reason attrs, w1)
     | (Inr result, w1) \<Rightarrow>
         let pair = LoginResult_TokenPair result;
             resp = NewResponse \<lparr>LoginResponse_AccessToken = AccessToken pair,
               LoginResponse_RefreshToken = RefreshTokenText pair, LoginResponse_ExpiresIn = ExpiresIn pair\<rparr>;
             (cookies, w2) = sessionCookies h pair w1
         in (Inr (resp\<lparr>Resp_Cookies := cookies\<rparr>),
             auditSuccess h req auditEventLogin (LoginResult_UserID result) [], w2))"

section \<open>Sessions\<close>

text \<open>The token of the body, or of a cookie when the body has none and cookies are enabled.\<close>

definition tokenOrCookie :: "'st Handler \<Rightarrow> Header \<Rightarrow> string \<Rightarrow> string \<Rightarrow> string" where
  "tokenOrCookie h header tok name =
    (if tok = '''' \<and> CC_Enabled (h_cookieConfig h) then
       let cookie = getCookieFromHeader header name in if cookie \<noteq> '''' then cookie else tok
     else tok)"

definition Handler_Refresh :: "'st Handler \<Rightarrow> RefreshRequestMsg Request \<Rightarrow> 'st world \<Rightarrow> (RefreshResponse, 'st) handled" where
  "Handler_Refresh h req w =
    (let refreshToken = tokenOrCookie h (Req_Header req) (RefreshRequest_RefreshToken (Req_Msg req)) RefreshTokenCookie in
     if refreshToken = '''' then (Inl (NewError CodeInvalidArgument (errors_New ''refresh token required'')), [], w)
     else
       case Service_Refresh (h_service h) refreshToken w of
         (Inl (Panic m), w1) \<Rightarrow> (Inl (Crashed m), [], w1)
       | (Inl err, w1) \<Rightarrow>
           (Inl (if errors_Is err ErrInvalidCredentials
                 then NewError CodeUnauthenticated (errors_New ''invalid refresh token'') else internalError), [], w1)
       | (Inr pair, w1) \<Rightarrow>
           let resp = NewResponse \<lparr>RefreshResponse_AccessToken = AccessToken pair,
                 RefreshResponse_RefreshToken = RefreshTokenText pair, RefreshResponse_ExpiresIn = ExpiresIn pair\<rparr>;
               (cookies, w2) = sessionCookies h pair w1
           in (Inr (resp\<lparr>Resp_Cookies := cookies\<rparr>), [], w2))"

definition Handler_Logout :: "'st Handler \<Rightarrow> LogoutRequestMsg Request \<Rightarrow> 'st world \<Rightarrow> (LogoutResponse, 'st) handled" where
  "Handler_Logout h req w =
    (let refreshToken = tokenOrCookie h (Req_Header req) (LogoutRequest_RefreshToken (Req_Msg req)) RefreshTokenCookie;
         (err, w1) = (if refreshToken \<noteq> '''' then Service_Logout (h_service h) refreshToken w else (None, w))
     in case err of
          Some err \<Rightarrow> (Inl internalError, [], w1)
        | None \<Rightarrow>
            let resp = NewResponse \<lparr>LogoutResponse_Success = True\<rparr>;
                cookies = (if CC_Enabled (h_cookieConfig h) then clearTokenCookies (h_cookieConfig h) else [])
            in (Inr (resp\<lparr>Resp_Cookies := cookies\<rparr>), [], w1))"

definition header_Set :: "string \<Rightarrow> string \<Rightarrow> Header \<Rightarrow> Header" where
  "header_Set k v hdr = map_set k [v] hdr"

definition Handler_Verify :: "'st Handler \<Rightarrow> unit Request \<Rightarrow> 'st world \<Rightarrow> (VerifyResponse, 'st) handled" where
  "Handler_Verify h req w =
    (let auth = header_Get (Req_Header req) ''Authorization'';
         bearer = strings_TrimPrefix auth ''Bearer ''
     in if auth \<noteq> '''' \<and> bearer = auth
        then (Inl (NewError CodeUnauthenticated (errors_New ''invalid authorization format'')), [], w)
        else
          let accessToken = tokenOrCookie h (Req_Header req) (if auth \<noteq> '''' then bearer else '''') AccessTokenCookie in
          if accessToken = '''' then (Inl (NewError CodeUnauthenticated (errors_New ''missing authorization'')), [], w)
          else
            case Service_Verify (h_service h) accessToken w of
              (Inl err, w1) \<Rightarrow> (Inl (verifyErrorToConnect err), [], w1)
            | (Inr claims, w1) \<Rightarrow>
                let resp = NewResponse \<lparr>VerifyResponse_UserId = Claims_UserID claims,
                      VerifyResponse_Email = Claims_Email claims, VerifyResponse_Roles = Claims_Roles claims\<rparr>;
                    hdr = header_Set ''X-User-Id'' (Claims_UserID claims) (Resp_Header resp);
                    hdr = header_Set ''X-User-Email'' (Claims_Email claims) hdr;
                    hdr = (if Claims_Roles claims \<noteq> []
                          then header_Set ''X-User-Roles'' (strings_Join '','' (Claims_Roles claims)) hdr else hdr)
                in (Inr (resp\<lparr>Resp_Header := hdr\<rparr>), [], w1))"

section \<open>OAuth sign-in\<close>

definition Handler_GetOAuthURL :: "'st Handler \<Rightarrow> GetOAuthURLRequestMsg Request \<Rightarrow> 'st world \<Rightarrow>
    (GetOAuthURLResponse, 'st) handled" where
  "Handler_GetOAuthURL h req w =
    (let msg = Req_Msg req in
     if GetOAuthURLRequest_Provider msg = '''' \<or> GetOAuthURLRequest_RedirectUri msg = ''''
     then (Inl (NewError CodeInvalidArgument (errors_New ''provider and redirect_uri are required'')), [], w)
     else
       case Service_GetOAuthURL (h_service h) (GetOAuthURLRequest_Provider msg) (GetOAuthURLRequest_RedirectUri msg) w of
         (Inl err, w1) \<Rightarrow> (Inl (oauthErrorToConnect err), [], w1)
       | (Inr result, w1) \<Rightarrow>
           let resp = NewResponse \<lparr>GetOAuthURLResponse_Url = OUR_URL result, GetOAuthURLResponse_State = OUR_State result,
                 GetOAuthURLResponse_Binding = ''''\<rparr>;
               ttl = (case svc_oauth (h_service h) of None \<Rightarrow> 0 | Some part \<Rightarrow> OC_StateTTL (op_config part))
           in (Inr (if CC_Enabled (h_cookieConfig h)
                    then resp\<lparr>Resp_Cookies := setOAuthBindingCookie (h_cookieConfig h) (OUR_State result) (OUR_Binding result) ttl\<rparr>
                    else resp\<lparr>Resp_Msg := (Resp_Msg resp)\<lparr>GetOAuthURLResponse_Binding := OUR_Binding result\<rparr>\<rparr>),
               [], w1))"

definition Handler_OAuthCallback :: "'st Handler \<Rightarrow> OAuthCallbackRequestMsg Request \<Rightarrow> 'st world \<Rightarrow>
    (SignInResponse, 'st) handled" where
  "Handler_OAuthCallback h req w =
    (let msg = Req_Msg req; provider = clientAttr ''provider'' (OAuthCallbackRequest_Provider msg) in
     if OAuthCallbackRequest_Provider msg = '''' \<or> OAuthCallbackRequest_RedirectUri msg = ''''
     then (Inl (NewError CodeInvalidArgument (errors_New ''provider and redirect_uri are required'')),
           auditFailure h req auditEventOAuthSignIn reasonInvalidRequest [provider], w)
     else
       let binding = (if CC_Enabled (h_cookieConfig h)
                      then getCookieFromHeader (Req_Header req) (oauthBindingCookieName (OAuthCallbackRequest_State msg))
                      else OAuthCallbackRequest_Binding msg)
       in case Service_OAuthCallback (h_service h)
                 \<lparr>OCR_Provider = OAuthCallbackRequest_Provider msg, OCR_Code = OAuthCallbackRequest_Code msg,
                  OCR_State = OAuthCallbackRequest_State msg, OCR_RedirectURI = OAuthCallbackRequest_RedirectUri msg,
                  OCR_Binding = binding\<rparr> w of
            (Inl err, w1) \<Rightarrow>
              (Inl (case oauthErrorToConnect err of
                      ConnectError code e meta \<Rightarrow>
                        ConnectError code e
                          (if CC_Enabled (h_cookieConfig h)
                           then meta @ clearOAuthBindingCookie (h_cookieConfig h) (OAuthCallbackRequest_State msg)
                           else meta)
                    | Crashed m \<Rightarrow> Crashed m),
               auditSignInFailure h req auditEventOAuthSignIn auditMethodOAuth (oauthFailureReason err) err provider, w1)
          | (Inr result, w1) \<Rightarrow>
              let change = \<lparr>change_userID = OCRes_UserID result, change_created = OCRes_IsNewUser result,
                            change_linked = OCRes_Linked result\<rparr>;
                  pair = OCRes_TokenPair result;
                  resp = NewResponse \<lparr>SignInResponse_UserId = OCRes_UserID result, SignInResponse_Email = OCRes_Email result,
                    SignInResponse_AccessToken = AccessToken pair, SignInResponse_RefreshToken = RefreshTokenText pair,
                    SignInResponse_ExpiresIn = ExpiresIn pair, SignInResponse_IsNewUser = OCRes_IsNewUser result\<rparr>;
                  (cookies, w2) = sessionCookies h pair w1;
                  cleared = (if CC_Enabled (h_cookieConfig h)
                             then clearOAuthBindingCookie (h_cookieConfig h) (OAuthCallbackRequest_State msg) else [])
              in (Inr (resp\<lparr>Resp_Cookies := cleared @ cookies\<rparr>),
                  auditSignIn h req auditEventOAuthSignIn auditMethodOAuth change provider, w2))"

section \<open>Wallet sign-in\<close>

definition Handler_GetChallenge :: "'st Handler \<Rightarrow> GetChallengeRequestMsg Request \<Rightarrow> 'st world \<Rightarrow>
    (GetChallengeResponse, 'st) handled" where
  "Handler_GetChallenge h req w =
    (let msg = Req_Msg req in
     if GetChallengeRequest_Chain msg = '''' \<or> GetChallengeRequest_Address msg = ''''
     then (Inl (NewError CodeInvalidArgument (errors_New ''chain and address are required'')), [], w)
     else
       case Service_GetChallenge (h_service h) (GetChallengeRequest_Chain msg) (GetChallengeRequest_Address msg) w of
         (Inl err, w1) \<Rightarrow> (Inl (walletErrorToConnect err), [], w1)
       | (Inr result, w1) \<Rightarrow>
           (Inr (NewResponse \<lparr>GetChallengeResponse_Nonce = WCR_Nonce result, GetChallengeResponse_Message = WCR_Message result,
              GetChallengeResponse_ExpiresAt = Unix_of (WCR_ExpiresAt result)\<rparr>), [], w1))"

definition Handler_AuthenticateWallet :: "'st Handler \<Rightarrow> AuthenticateWalletRequestMsg Request \<Rightarrow> 'st world \<Rightarrow>
    (SignInResponse, 'st) handled" where
  "Handler_AuthenticateWallet h req w =
    (let msg = Req_Msg req; chain = clientAttr ''chain'' (AuthenticateWalletRequest_Chain msg) in
     if AuthenticateWalletRequest_Chain msg = '''' \<or> AuthenticateWalletRequest_Address msg = ''''
     then (Inl (NewError CodeInvalidArgument (errors_New ''chain and address are required'')),
           auditFailure h req auditEventWalletSignIn reasonInvalidRequest [chain], w)
     else
       case Service_AuthenticateWallet (h_service h)
              \<lparr>WAR_Chain = AuthenticateWalletRequest_Chain msg, WAR_Address = AuthenticateWalletRequest_Address msg,
               WAR_Nonce = AuthenticateWalletRequest_Nonce msg, WAR_Signature = AuthenticateWalletRequest_Signature msg\<rparr> w of
         (Inl err, w1) \<Rightarrow>
           (Inl (walletErrorToConnect err),
            auditSignInFailure h req auditEventWalletSignIn auditMethodWallet (walletFailureReason err) err chain, w1)
       | (Inr result, w1) \<Rightarrow>
           let change = \<lparr>change_userID = WARes_UserID result, change_created = WARes_IsNewUser result, change_linked = False\<rparr>;
               pair = WARes_TokenPair result;
               resp = NewResponse \<lparr>SignInResponse_UserId = WARes_UserID result, SignInResponse_Email = WARes_Email result,
                 SignInResponse_AccessToken = AccessToken pair, SignInResponse_RefreshToken = RefreshTokenText pair,
                 SignInResponse_ExpiresIn = ExpiresIn pair, SignInResponse_IsNewUser = WARes_IsNewUser result\<rparr>;
               (cookies, w2) = sessionCookies h pair w1
           in (Inr (resp\<lparr>Resp_Cookies := cookies\<rparr>),
               auditSignIn h req auditEventWalletSignIn auditMethodWallet change chain, w2))"

section \<open>Personal access tokens\<close>

text \<open>Only session tokens manage personal access tokens.\<close>

definition Handler_authenticateSession :: "'st Handler \<Rightarrow> Header \<Rightarrow> 'st world \<Rightarrow> (rpc_error + string) \<times> 'st world" where
  "Handler_authenticateSession h header w =
    (let auth = header_Get header ''Authorization'';
         bearer = strings_TrimPrefix auth ''Bearer '';
         missing = NewError CodeUnauthenticated (errors_New ''missing or invalid authorization'')
     in if auth \<noteq> '''' \<and> bearer = auth then (Inl missing, w)
        else
          let accessToken = tokenOrCookie h header (if auth \<noteq> '''' then bearer else '''') AccessTokenCookie in
          if accessToken = '''' then (Inl missing, w)
          else if strings_HasPrefix accessToken PATPrefix
          then (Inl (NewError CodePermissionDenied (errors_New ''personal access tokens cannot manage tokens'')), w)
          else
            case Service_Verify (h_service h) accessToken w of
              (Inl err, w1) \<Rightarrow> (Inl (verifyErrorToConnect err), w1)
            | (Inr claims, w1) \<Rightarrow> (Inr (Claims_UserID claims), w1))"

definition patToProto :: "PersonalAccessToken \<Rightarrow> PATProto" where
  "patToProto pat =
    \<lparr>PATProto_Id = PAT_ID pat, PATProto_Name = PAT_Name pat, PATProto_Scopes = PAT_Scopes pat,
     PATProto_CreatedAt = Unix_of (PAT_CreatedAt pat),
     PATProto_ExpiresAt = (case PAT_ExpiresAt pat of None \<Rightarrow> 0 | Some t \<Rightarrow> Unix_of t),
     PATProto_LastUsedAt = (case PAT_LastUsedAt pat of None \<Rightarrow> 0 | Some t \<Rightarrow> Unix_of t)\<rparr>"

definition Handler_CreatePersonalAccessToken :: "'st Handler \<Rightarrow> CreatePATRequestMsg Request \<Rightarrow> 'st world \<Rightarrow>
    (CreatePATResponse, 'st) handled" where
  "Handler_CreatePersonalAccessToken h req w =
    (case Handler_authenticateSession h (Req_Header req) w of
       (Inl err, w1) \<Rightarrow> (Inl err, [], w1)
     | (Inr userID, w1) \<Rightarrow>
         let msg = Req_Msg req;
             expiresAt = (if CreatePATRequest_ExpiresAt msg > 0 then Some (time_Unix (CreatePATRequest_ExpiresAt msg)) else None)
         in case Service_CreatePAT (h_service h) userID (CreatePATRequest_Name msg) (CreatePATRequest_Scopes msg) expiresAt w1 of
              (Inl err, w2) \<Rightarrow> (Inl (patErrorToConnect err), [], w2)
            | (Inr result, w2) \<Rightarrow>
                (Inr (NewResponse \<lparr>CreatePATResponse_Token = PATResult_Plaintext result,
                   CreatePATResponse_Pat = patToProto (PATResult_Token result)\<rparr>), [], w2))"

definition Handler_ListPersonalAccessTokens :: "'st Handler \<Rightarrow> unit Request \<Rightarrow> 'st world \<Rightarrow> (PATProto list, 'st) handled" where
  "Handler_ListPersonalAccessTokens h req w =
    (case Handler_authenticateSession h (Req_Header req) w of
       (Inl err, w1) \<Rightarrow> (Inl err, [], w1)
     | (Inr userID, w1) \<Rightarrow>
         (case Service_ListPATs (h_service h) userID w1 of
            Inl err \<Rightarrow> (Inl (patErrorToConnect err), [], w1)
          | Inr pats \<Rightarrow> (Inr (NewResponse (map patToProto pats)), [], w1)))"

definition Handler_RevokePersonalAccessToken :: "'st Handler \<Rightarrow> RevokePATRequestMsg Request \<Rightarrow> 'st world \<Rightarrow>
    (bool, 'st) handled" where
  "Handler_RevokePersonalAccessToken h req w =
    (case Handler_authenticateSession h (Req_Header req) w of
       (Inl err, w1) \<Rightarrow> (Inl err, [], w1)
     | (Inr userID, w1) \<Rightarrow>
         (case Service_RevokePAT (h_uuid_Parse h) (h_service h) userID (RevokePATRequest_Id (Req_Msg req)) w1 of
            (Some err, w2) \<Rightarrow> (Inl (patErrorToConnect err), [], w2)
          | (None, w2) \<Rightarrow> (Inr (NewResponse True), [], w2)))"

end
