(* ===== verification/Cookie_Properties.thy ===== *)
theory Cookie_Properties
  imports Cookies
begin

text \<open>
  What a browser holds after a sign-in and what the server reads back. The browser follows RFC 6265bis:
  a cookie is stored under its name, scope (host-only, or the \<^verbatim>\<open>Domain\<close> attribute without a
  leading dot) and path, a negative \<^verbatim>\<open>Max-Age\<close> deletes it, and a request sends the stored
  pairs in an order of the browser's choice.
\<close>

section \<open>The browser\<close>

type_synonym jar = "(string \<times> string \<times> string, string) gomap"

definition cookie_scope :: "string \<Rightarrow> string" where
  "cookie_scope domain = strings_TrimPrefix domain ''.''"

definition cookie_key :: "Cookie \<Rightarrow> string \<times> string \<times> string" where
  "cookie_key c = (Cookie_Name c, cookie_scope (Cookie_Domain c), Cookie_Path c)"

definition jar_set :: "Cookie \<Rightarrow> jar \<Rightarrow> jar" where
  "jar_set c jar = (if Cookie_MaxAge c < 0 then map_del (cookie_key c) jar else map_set (cookie_key c) (Cookie_Value c) jar)"

definition browser_receives :: "Cookie list \<Rightarrow> jar \<Rightarrow> jar" where
  "browser_receives cs jar = fold jar_set cs jar"

definition cookie_header :: "(string \<times> string) list \<Rightarrow> string" where
  "cookie_header sent = strings_Join ''; '' (map (\<lambda>(n, v). n @ CHR ''='' # v) sent)"

section \<open>Scopes\<close>

lemma parentDomains_scope:
  assumes "d \<in> set (parentDomains host)"
  shows "length d < length (cookie_scope host)" "CHR ''.'' \<in> set d"
proof -
  define labels where "labels = strings_Split (CHR ''.'') (cookie_scope host)"
  obtain i where i: "1 \<le> i" "i < length labels - 1" "d = strings_Join ''.'' (drop i labels)"
    using assms by (auto simp: parentDomains_def labels_def cookie_scope_def Let_def)
  have len: "length (strings_Join ''.'' (x # xs)) = length x + length (strings_Join ''.'' xs) + (if xs = [] then 0 else 1)"
    for x xs by (cases xs) simp_all
  have "length (strings_Join ''.'' (drop n xs)) < length (strings_Join ''.'' xs)" if "0 < n" "n < length xs" for n and xs :: "string list"
    using that
  proof (induction xs arbitrary: n)
    case (Cons x xs)
    show ?case
    proof (cases "n = 1")
      case True
      then show ?thesis using Cons.prems by (auto simp: len)
    next
      case False
      then have "length (strings_Join ''.'' (drop (n - 1) xs)) < length (strings_Join ''.'' xs)"
        using Cons.prems by (intro Cons.IH) auto
      moreover have "drop n (x # xs) = drop (n - 1) xs" using Cons.prems by (simp add: drop_Cons')
      ultimately show ?thesis by (simp add: len)
    qed
  qed simp
  then have "length d < length (strings_Join ''.'' labels)" using i by simp
  then show "length d < length (cookie_scope host)" by (simp add: labels_def Join_Split)
  obtain x y xs where "drop i labels = x # y # xs"
    using i(2) by (metis Cons_nth_drop_Suc Suc_lessD less_diff_conv Suc_eq_plus1)
  then show "CHR ''.'' \<in> set d" using i(3) by simp
qed

text \<open>The scopes a cookie of an earlier configuration can have: host-only, or a parent domain.\<close>

definition legacy_scopes :: "string \<Rightarrow> string list" where
  "legacy_scopes domain = '''' # map cookie_scope (parentDomains domain)"

lemma length_scope: "length (cookie_scope d) \<le> length d"
  by (simp add: cookie_scope_def strings_TrimPrefix_def)

lemma scope_not_legacy: "cookie_scope domain \<noteq> '''' \<Longrightarrow> cookie_scope domain \<notin> set (legacy_scopes domain)"
proof
  assume "cookie_scope domain \<noteq> ''''" "cookie_scope domain \<in> set (legacy_scopes domain)"
  then obtain d where d: "d \<in> set (parentDomains domain)" "cookie_scope domain = cookie_scope d"
    by (auto simp: legacy_scopes_def)
  then show False using parentDomains_scope(1) [OF d(1)] length_scope [of d] by simp
qed

lemma receives_deletes:
  "list_all (\<lambda>c. Cookie_MaxAge c < 0) cs \<Longrightarrow>
   map_of (browser_receives cs jar) k = (if k \<in> cookie_key ` set cs then None else map_of jar k)"
  by (induction cs arbitrary: jar) (auto simp: browser_receives_def jar_set_def)

lemma legacy_keys:
  "cookie_key ` set (clearLegacyScopedCookies cfg) =
    (if CC_Domain cfg = '''' then {}
     else {AccessTokenCookie, RefreshTokenCookie} \<times> set (legacy_scopes (CC_Domain cfg)) \<times> {CC_Path cfg})"
proof -
  have e: "cookie_scope '''' = ''''" by (simp add: cookie_scope_def strings_TrimPrefix_def)
  show ?thesis by (simp add: clearLegacyScopedCookies_def legacy_scopes_def cookie_key_def image_Un image_image e) auto
qed

lemma receives_tokens:
  assumes "setTokenCookies cfg a r w = (cs, w')" "CC_Domain cfg = '''' \<or> cookie_scope (CC_Domain cfg) \<noteq> ''''"
  shows "map_of (browser_receives cs jar) (n, d, p) =
    (if (n, d, p) = (AccessTokenCookie, cookie_scope (CC_Domain cfg), CC_Path cfg) then Some a
     else if (n, d, p) = (RefreshTokenCookie, cookie_scope (CC_Domain cfg), CC_Path cfg) then Some r
     else if CC_Domain cfg \<noteq> '''' \<and> n \<in> {AccessTokenCookie, RefreshTokenCookie} \<and>
             d \<in> set (legacy_scopes (CC_Domain cfg)) \<and> p = CC_Path cfg then None
     else map_of jar (n, d, p))"
proof -
  have l: "list_all (\<lambda>c. Cookie_MaxAge c < 0) (clearLegacyScopedCookies cfg)"
    by (auto simp: clearLegacyScopedCookies_def list_all_iff)
  obtain c1 c2 where c: "cs = [c1, c2] @ clearLegacyScopedCookies cfg"
    "cookie_key c1 = (AccessTokenCookie, cookie_scope (CC_Domain cfg), CC_Path cfg)" "Cookie_Value c1 = a" "0 \<le> Cookie_MaxAge c1"
    "cookie_key c2 = (RefreshTokenCookie, cookie_scope (CC_Domain cfg), CC_Path cfg)" "Cookie_Value c2 = r" "0 \<le> Cookie_MaxAge c2"
    using assms(1) by (auto simp: setTokenCookies_def time_Now_def cookie_key_def AccessTokenTTL_def RefreshTokenTTL_def Let_def)
  have "browser_receives cs jar = browser_receives (clearLegacyScopedCookies cfg) (jar_set c2 (jar_set c1 jar))"
    by (simp add: c(1) browser_receives_def)
  moreover have "AccessTokenCookie \<noteq> RefreshTokenCookie" by (simp add: AccessTokenCookie_def RefreshTokenCookie_def)
  ultimately show ?thesis using scope_not_legacy [of "CC_Domain cfg"] assms(2) c
    by (auto simp: receives_deletes [OF l] legacy_keys jar_set_def)
qed

section \<open>Reading back\<close>

text \<open>A name and a value as they travel in a \<^verbatim>\<open>Cookie\<close> header.\<close>

definition plain_cookie :: "string \<times> string \<Rightarrow> bool" where
  "plain_cookie c \<longleftrightarrow> (case c of (n, v) \<Rightarrow> ascii (n @ v) \<and> CHR '';'' \<notin> set (n @ v) \<and> CHR ''='' \<notin> set n \<and>
     n \<noteq> '''' \<and> \<not> sp (hd n) \<and> (v \<noteq> '''' \<longrightarrow> \<not> sp (last v)))"

lemma sp_simps [simp]: "sp (CHR '' '')" "\<not> sp (CHR ''='')"
  by (simp_all add: sp_def unicode_IsSpace_def)

lemma TrimSpace_pair:
  assumes "plain_cookie (n, v)"
  shows "strings_TrimSpace (n @ CHR ''='' # v) = n @ CHR ''='' # v"
    "strings_TrimSpace (CHR '' '' # n @ CHR ''='' # v) = n @ CHR ''='' # v"
proof -
  have a: "ascii (n @ CHR ''='' # v)" "ascii (CHR '' '' # n @ CHR ''='' # v)" using assms by (auto simp: plain_cookie_def ascii_def)
  obtain c n' where n: "n = c # n'" "\<not> sp c" using assms by (cases n) (auto simp: plain_cookie_def)
  have "dropWhile sp (rev v @ CHR ''='' # rev n) = rev v @ CHR ''='' # rev n"
    using assms by (cases v rule: rev_cases) (auto simp: plain_cookie_def)
  then show "strings_TrimSpace (n @ CHR ''='' # v) = n @ CHR ''='' # v"
    "strings_TrimSpace (CHR '' '' # n @ CHR ''='' # v) = n @ CHR ''='' # v"
    unfolding TrimSpace_ascii [OF a(1)] TrimSpace_ascii [OF a(2)] using n by auto
qed

lemma Cut_pair: "plain_cookie (n, v) \<Longrightarrow> strings_Cut (CHR ''='') (n @ CHR ''='' # v) = (n, v, True)"
proof -
  assume "plain_cookie (n, v)"
  then have "\<forall>c\<in>set n. c \<noteq> CHR ''=''" by (auto simp: plain_cookie_def)
  then show ?thesis by (simp add: strings_Cut_def takeWhile_append2 dropWhile_append2)
qed

lemma findCookie_pairs:
  assumes "list_all plain_cookie sent" "pad = '''' \<or> pad = '' ''"
  shows "findCookie name (map (\<lambda>(n, v). pad @ n @ CHR ''='' # v) sent) =
    (case filter (\<lambda>(n, v). n = name \<and> v \<noteq> '''') sent of [] \<Rightarrow> '''' | (n, v) # rest \<Rightarrow> v)"
  using assms(1)
proof (induction sent)
  case (Cons c sent)
  obtain n v where c: "c = (n, v)" by (cases c)
  have "strings_TrimSpace (pad @ n @ CHR ''='' # v) = n @ CHR ''='' # v"
    using Cons.prems assms(2) by (auto simp: c TrimSpace_pair)
  with Cons show ?case by (simp add: c Cut_pair)
qed simp

lemma Split_header:
  assumes "list_all plain_cookie ((n, v) # sent)"
  shows "strings_Split (CHR '';'') (cookie_header ((n, v) # sent)) =
    (n @ CHR ''='' # v) # map (\<lambda>(n, v). '' '' @ n @ CHR ''='' # v) sent"
  using assms
proof (induction sent arbitrary: n v)
  case Nil
  then show ?case by (simp add: cookie_header_def plain_cookie_def)
next
  case (Cons nv sent)
  obtain n' v' where nv: "nv = (n', v')" by (cases nv)
  have s: "CHR '';'' \<notin> set (n @ CHR ''='' # v)" using Cons.prems by (simp add: plain_cookie_def)
  have "cookie_header ((n, v) # nv # sent) = (n @ CHR ''='' # v) @ CHR '';'' # CHR '' '' # cookie_header (nv # sent)"
    by (simp add: cookie_header_def nv)
  then have "strings_Split (CHR '';'') (cookie_header ((n, v) # nv # sent)) =
      (n @ CHR ''='' # v) # strings_Split (CHR '';'') (CHR '' '' # cookie_header (nv # sent))"
    by (simp only: Split_append [OF s])
  then show ?case using Cons.IH [of n' v'] Cons.prems by (simp add: nv)
qed

lemma getCookie_sent:
  assumes "list_all plain_cookie sent" "header_Get hdr ''Cookie'' = cookie_header sent"
    and "\<forall>v. (name, v) \<in> set sent \<longrightarrow> v = a" "(name, a) \<in> set sent"
  shows "getCookieFromHeader hdr name = a"
proof -
  obtain n v rest where s: "sent = (n, v) # rest" using assms(4) by (cases sent) auto
  have f: "findCookie name (strings_Split (CHR '';'') (cookie_header sent)) =
      (case filter (\<lambda>(n, v). n = name \<and> v \<noteq> '''') sent of [] \<Rightarrow> '''' | (n, v) # rest \<Rightarrow> v)"
    unfolding s Split_header [OF assms(1) [unfolded s]]
    using findCookie_pairs [of rest "'' ''" name] assms(1) by (auto simp: s TrimSpace_pair Cut_pair)
  have "cookie_header sent \<noteq> ''''" by (cases rest) (simp_all add: s cookie_header_def)
  moreover have "(case filter (\<lambda>(n, v). n = name \<and> v \<noteq> '''') sent of [] \<Rightarrow> '''' | (n, v) # rest \<Rightarrow> v) = a"
  proof (cases "filter (\<lambda>(n, v). n = name \<and> v \<noteq> '''') sent")
    case Nil
    then show ?thesis using assms(4) by (auto simp: filter_empty_conv)
  next
    case (Cons p ps)
    then have "p \<in> set (filter (\<lambda>(n, v). n = name \<and> v \<noteq> '''') sent)" by simp
    then have "p \<in> set sent" "fst p = name" by auto
    then have "snd p = a" using assms(3) by (metis prod.collapse)
    then show ?thesis unfolding Cons by (cases p) simp
  qed
  ultimately show ?thesis by (simp add: getCookieFromHeader_def assms(2) f)
qed


section \<open>Witness\<close>

definition demo_cookie_config :: CookieConfig where
  "demo_cookie_config = \<lparr>CC_Enabled = True, CC_Domain = ''a.b.io'', CC_Path = ''/'', CC_Secure = True,
     CC_SameSite = SameSiteLaxMode\<rparr>"

definition stale_jar :: jar where
  "stale_jar = [((''psina_access'', '''', ''/''), ''old1''), ((''psina_access'', ''b.io'', ''/''), ''old2''),
     ((''psina_refresh'', ''b.io'', ''/''), ''old3'')]"

lemma demo_parents: "parentDomains ''a.b.io'' = [''b.io'']"
  by (simp add: parentDomains_def strings_TrimPrefix_def strings_HasPrefix_def upt_rec)

lemma demo_scopes: "cookie_scope ''a.b.io'' = ''a.b.io''" "legacy_scopes ''a.b.io'' = ['''', ''b.io'']"
  by (simp_all add: cookie_scope_def legacy_scopes_def demo_parents strings_TrimPrefix_def strings_HasPrefix_def)


end
