(* ===== verification/Challenge_Port.thy ===== *)
theory Challenge_Port
  imports OAuth_Service Wallet_Service
begin

text \<open>
  The contract of \<^verbatim>\<open>ChallengeStore\<close> and what its two clients, the OAuth callback and the
  wallet sign-in, get from it: a challenge is consumed at most once, only by a request that
  passes every check, and a request that fails a check cannot burn it.
\<close>

text \<open>\<open>chs s\<close> is the table of challenges by nonce. A get may drop the challenge it finds
  expired; a save may drop challenges that have expired. \<open>row\<close> is what the store keeps of a challenge.\<close>

locale challenge_store =
  fixes cs :: "'st ChallengeStore"
    and chs :: "'st \<Rightarrow> string \<Rightarrow> Challenge option"
    and ok :: "'st \<Rightarrow> bool"
    and row :: "Challenge \<Rightarrow> Challenge"
  assumes get_ok: "ok s \<Longrightarrow> GetChallenge cs n now s = (Inr c, s') \<Longrightarrow>
      ok s' \<and> chs s' = chs s \<and> chs s n = Some c"
    and get_err: "ok s \<Longrightarrow> GetChallenge cs n now s = (Inl e, s') \<Longrightarrow> ok s' \<and>
      (chs s' = chs s \<or>
       chs s' = (chs s)(n := None) \<and> (\<exists>c. chs s n = Some c \<and> Ch_ExpiresAt c < now))"
    and del_ok: "ok s \<Longrightarrow> DeleteChallenge cs n s = (Inr u, s') \<Longrightarrow>
      ok s' \<and> chs s n \<noteq> None \<and> chs s' = (chs s)(n := None)"
    and del_err: "ok s \<Longrightarrow> DeleteChallenge cs n s = (Inl e, s') \<Longrightarrow> ok s' \<and> chs s' = chs s"
    and save_ok: "ok s \<Longrightarrow> SaveChallenge cs c now s = (Inr u, s') \<Longrightarrow>
      ok s' \<and> (\<exists>k. chs s' (Ch_Nonce c) = Some (row (c\<lparr>Ch_CreatedAt := k\<rparr>)))"

locale challenge_service = challenge_store cs chs ok row
  for cs :: "'st ChallengeStore" and chs and ok and row +
  fixes svc :: "'st Service"
  assumes clock_quiet: "svc_now svc w = (t, w') \<Longrightarrow> \<exists>n. w' = w\<lparr>tick := n\<rparr>"
begin

section \<open>OAuth state\<close>

lemma oauth_consume_ok:
  assumes "ok (store w)" "op_challenges part = cs" "Service_consumeOAuthState svc part req w = (Inr ch, w')"
  shows "ok (store w')" "chs (store w) (OCR_State req) = Some ch"
    "chs (store w') = (chs (store w))(OCR_State req := None)"
    "Ch_Message ch = oauthStateBinding (OCR_Provider req) (OCR_RedirectURI req)"
    "Ch_BindingHash ch = hashBinding w (OCR_Binding req)" "Ch_BindingHash ch \<noteq> ''''"
    "\<exists>now n. svc_now svc (w\<lparr>tick := Suc (tick w), store := n\<rparr>) = (now, w'\<lparr>store := n\<rparr>) \<and> now < Ch_ExpiresAt ch"
proof -
  obtain s1 now w2 u s3 where
    g: "GetChallenge cs (OCR_State req) (wall w (tick w)) (store w) = (Inr ch, s1)" and
    n: "svc_now svc (w\<lparr>tick := Suc (tick w), store := s1\<rparr>) = (now, w2)" and
    c: "now < Ch_ExpiresAt ch" "Ch_Message ch = oauthStateBinding (OCR_Provider req) (OCR_RedirectURI req)"
      "Ch_BindingHash ch \<noteq> ''''" "hashBinding w2 (OCR_Binding req) = Ch_BindingHash ch" and
    d: "DeleteChallenge cs (OCR_State req) (store w2) = (Inr u, s3)" and w': "w' = w2\<lparr>store := s3\<rparr>"
    using assms(2,3)
    by (auto simp: Service_consumeOAuthState_def call_iffs Let_def split: prod.splits sum.splits if_splits)
  obtain k where k: "w2 = w\<lparr>store := s1, tick := k\<rparr>" using clock_quiet [OF n] by auto
  have g': "ok s1" "chs s1 = chs (store w)" "chs (store w) (OCR_State req) = Some ch"
    using get_ok [OF assms(1) g] by auto
  have d': "ok s3" "chs s3 = (chs s1)(OCR_State req := None)"
    using del_ok [of "store w2"] d k g'(1) by auto
  show "ok (store w')" "chs (store w) (OCR_State req) = Some ch"
    "chs (store w') = (chs (store w))(OCR_State req := None)"
    "Ch_Message ch = oauthStateBinding (OCR_Provider req) (OCR_RedirectURI req)"
    "Ch_BindingHash ch \<noteq> ''''" using g' d' c w' by auto
  show "Ch_BindingHash ch = hashBinding w (OCR_Binding req)"
    using c(4) k by (simp add: hashBinding_def)
  show "\<exists>now n. svc_now svc (w\<lparr>tick := Suc (tick w), store := n\<rparr>) = (now, w'\<lparr>store := n\<rparr>) \<and> now < Ch_ExpiresAt ch"
    using n c(1) k w' by (intro exI [of _ now] exI [of _ s1]) simp
qed

text \<open>A refused request leaves every challenge, unless the store found this one expired.\<close>

lemma oauth_consume_err:
  assumes "ok (store w)" "op_challenges part = cs" "Service_consumeOAuthState svc part req w = (Inl e, w')"
  shows "ok (store w') \<and> (chs (store w') = chs (store w) \<or>
     chs (store w') = (chs (store w))(OCR_State req := None) \<and>
     (\<exists>c. chs (store w) (OCR_State req) = Some c \<and> Ch_ExpiresAt c < wall w (tick w)))"
proof (cases "GetChallenge cs (OCR_State req) (wall w (tick w)) (store w)")
  case (Pair r s1)
  show ?thesis
  proof (cases r)
    case (Inl x)
    then show ?thesis using assms(2,3) Pair get_err [OF assms(1), of "OCR_State req" "wall w (tick w)" x s1] assms(1)
      by (auto simp: Service_consumeOAuthState_def call_now_iff Let_def split: prod.splits if_splits)
  next
    case (Inr ch)
    obtain now w2 where n: "svc_now svc (w\<lparr>tick := Suc (tick w), store := s1\<rparr>) = (now, w2)"
      by (metis prod.exhaust)
    obtain k where k: "w2 = w\<lparr>store := s1, tick := k\<rparr>" using clock_quiet [OF n] by auto
    show ?thesis
      using assms Pair Inr n k get_ok [OF assms(1), of "OCR_State req" "wall w (tick w)" ch s1]
      by (auto simp: Service_consumeOAuthState_def call_now_iff call_iff Let_def
          dest: del_err split: prod.splits sum.splits if_splits)
  qed
qed

lemma oauth_consume_missing:
  assumes "ok (store w)" "op_challenges part = cs" "chs (store w) (OCR_State req) = None"
  shows "\<exists>e. fst (Service_consumeOAuthState svc part req w) = Inl e"
  using oauth_consume_ok(2) [OF assms(1,2), of req] assms(3)
  by (cases "Service_consumeOAuthState svc part req w"; cases "fst (Service_consumeOAuthState svc part req w)") auto

section \<open>Wallet challenges\<close>

lemma wallet_consume_ok:
  assumes "ok (store w)" "wp_challenges part = cs" "Service_consumeWalletChallenge svc part p req addr w = (None, w')"
  shows "ok (store w') \<and> (\<exists>ch. chs (store w) (WAR_Nonce req) = Some ch \<and> Ch_Chain ch = WAR_Chain req \<and>
     Ch_Address ch = addr \<and> VerifySignature p addr (Ch_Message ch) (WAR_Signature req) = None \<and>
     (\<exists>now n. svc_now svc (w\<lparr>tick := Suc (tick w), store := n\<rparr>) = (now, w'\<lparr>store := n\<rparr>) \<and> now < Ch_ExpiresAt ch)) \<and>
     chs (store w') = (chs (store w))(WAR_Nonce req := None)"
proof -
  obtain ch s1 now w2 u s3 where
    g: "GetChallenge cs (WAR_Nonce req) (wall w (tick w)) (store w) = (Inr ch, s1)" and
    n: "svc_now svc (w\<lparr>tick := Suc (tick w), store := s1\<rparr>) = (now, w2)" and
    c: "now < Ch_ExpiresAt ch" "Ch_Chain ch = WAR_Chain req" "Ch_Address ch = addr"
      "VerifySignature p addr (Ch_Message ch) (WAR_Signature req) = None" and
    d: "DeleteChallenge cs (WAR_Nonce req) (store w2) = (Inr u, s3)" and w': "w' = w2\<lparr>store := s3\<rparr>"
    using assms(2,3)
    by (auto simp: Service_consumeWalletChallenge_def call_iffs Let_def split: prod.splits sum.splits if_splits)
  obtain k where k: "w2 = w\<lparr>store := s1, tick := k\<rparr>" using clock_quiet [OF n] by auto
  have g': "ok s1" "chs s1 = chs (store w)" "chs (store w) (WAR_Nonce req) = Some ch"
    using get_ok [OF assms(1) g] by auto
  have d': "ok s3" "chs s3 = (chs s1)(WAR_Nonce req := None)"
    using del_ok [of "store w2"] d k g'(1) by auto
  have "\<exists>now n. svc_now svc (w\<lparr>tick := Suc (tick w), store := n\<rparr>) = (now, w'\<lparr>store := n\<rparr>) \<and> now < Ch_ExpiresAt ch"
    using n c(1) k w' by (intro exI [of _ now] exI [of _ s1]) simp
  then show ?thesis using g' c d' w' by auto
qed

lemma wallet_consume_err:
  assumes "ok (store w)" "wp_challenges part = cs"
    and "Service_consumeWalletChallenge svc part p req addr w = (Some e, w')"
  shows "ok (store w') \<and> (chs (store w') = chs (store w) \<or>
     chs (store w') = (chs (store w))(WAR_Nonce req := None) \<and>
     (\<exists>c. chs (store w) (WAR_Nonce req) = Some c \<and> Ch_ExpiresAt c < wall w (tick w)))"
proof (cases "GetChallenge cs (WAR_Nonce req) (wall w (tick w)) (store w)")
  case (Pair r s1)
  show ?thesis
  proof (cases r)
    case (Inl x)
    then show ?thesis using assms(2,3) Pair get_err [OF assms(1), of "WAR_Nonce req" "wall w (tick w)" x s1] assms(1)
      by (auto simp: Service_consumeWalletChallenge_def call_now_iff Let_def split: prod.splits if_splits)
  next
    case (Inr ch)
    obtain now w2 where n: "svc_now svc (w\<lparr>tick := Suc (tick w), store := s1\<rparr>) = (now, w2)"
      by (metis prod.exhaust)
    obtain k where k: "w2 = w\<lparr>store := s1, tick := k\<rparr>" using clock_quiet [OF n] by auto
    show ?thesis
      using assms Pair Inr n k get_ok [OF assms(1), of "WAR_Nonce req" "wall w (tick w)" ch s1]
      by (auto simp: Service_consumeWalletChallenge_def call_now_iff call_iff Let_def
          dest: del_err split: prod.splits sum.splits if_splits)
  qed
qed

end

end
