(* ===== verification/Service_Session.thy ===== *)
theory Service_Session
  imports Service
begin

text \<open>
  The session life cycle of the service, proved once against the contracts of the token store
  and the issuer: what a successful refresh leaves behind, that a logout or a detected replay
  ends the whole family, and that nothing revives an ended session.
\<close>

text \<open>
  When a replay of a spent token counts as a duplicate of a legitimate refresh, on the token
  table: the grace is on, the token is not expired, it was spent by a rotation at most
  \<open>leeway\<close> away from \<open>now\<close>, that rotation is the latest of its family, and the
  session has not ended.
\<close>

definition is_duplicate ::
    "duration \<Rightarrow> (string \<Rightarrow> RefreshToken option) \<Rightarrow> RefreshToken \<Rightarrow> time \<Rightarrow> bool" where
  "is_duplicate leeway tab t now \<longleftrightarrow> leeway \<noteq> 0 \<and> now < RT_ExpiresAt t \<and>
     (\<exists>r. RT_RotatedAt t = Some r \<and> time_Sub now r \<le> leeway \<and> - leeway \<le> time_Sub now r \<and>
       (\<forall>h t'. tab h = Some t' \<and> inFamily (familyRoot t) t' \<longrightarrow>
          RT_EndedAt t' = None \<and> (\<forall>r'. RT_RotatedAt t' = Some r' \<longrightarrow> r' \<le> r)))"

lemma inFamily_familyRoot [simp]: "inFamily (familyRoot t) t"
  by (simp add: inFamily_def familyRoot_def)

text \<open>The row of a freshly issued refresh token.\<close>

abbreviation fresh_row :: "string \<Rightarrow> string \<Rightarrow> string \<Rightarrow> time \<Rightarrow> time \<Rightarrow> RefreshToken" where
  "fresh_row hash u parent at c \<equiv>
     \<lparr>RT_Hash = hash, RT_UserID = u, RT_Parent = parent, RT_ExpiresAt = at + RefreshTokenTTL,
      RT_CreatedAt = c, RT_Revoked = False, RT_RotatedAt = None, RT_EndedAt = None\<rparr>"

locale session_service = token_store ts tokens ok keep row + token_issuer iss
  for ts :: "'st TokenStore" and tokens and ok and keep and row and iss :: "'st TokenIssuer" +
  fixes svc :: "'st Service"
  assumes svc_ts [simp]: "svc_tokenStore svc = ts"
    and svc_iss [simp]: "svc_issuer svc = iss"
    and clock_quiet: "svc_now svc w = (t, w') \<Longrightarrow> \<exists>n. w' = w\<lparr>tick := n\<rparr>"
begin

text \<open>Issuing a pair: the one row it adds.\<close>

lemma issue_ok:
  assumes "ok (store w)" "Service_issueTokens svc u em rs parent w = (Inr pair, w')"
  obtains at c where "ok (store w')"
    "parent \<noteq> '''' \<longrightarrow> (\<exists>root. tokens (store w) parent = Some root \<and> RT_EndedAt root = None)"
    "tokens (store w') = (tokens (store w))(HashToken w (RefreshTokenText pair) \<mapsto>
       row (fresh_row (HashToken w (RefreshTokenText pair)) u parent at c))"
    "HashToken w' = HashToken w"
proof -
  obtain hash w1 where g: "GenerateTokens iss u em rs w = (Inr (pair, hash), w1)"
    using assms(2) by (auto simp: Service_issueTokens_def Let_def split: prod.splits sum.splits)
  obtain at w2 where n: "svc_now svc w1 = (at, w2)" by (cases "svc_now svc w1") auto
  obtain k where k: "w2 = w\<lparr>tick := k\<rparr>"
    using gen_quiet [OF g] clock_quiet [OF n] by auto
  define rt where "rt = \<lparr>RT_Hash = hash, RT_UserID = u, RT_Parent = parent,
    RT_ExpiresAt = at + RefreshTokenTTL, RT_CreatedAt = at, RT_Revoked = False,
    RT_RotatedAt = None, RT_EndedAt = None\<rparr>"
  obtain now v s' where s: "SaveRefreshToken ts rt now (store w) = (Inr v, s')"
    and w': "w' = w2\<lparr>tick := Suc (tick w2), store := s'\<rparr>"
    using assms(2) g n k by (auto simp: Service_issueTokens_def Let_def rt_def call_now_iff
        split: prod.splits sum.splits)
  have st: "store w' = s'" and h: "HashToken w' = HashToken w" by (auto simp: w' k)
  from save_ok [OF assms(1) s] obtain c where
    "ok s'" "RT_Parent rt \<noteq> '''' \<longrightarrow> (\<exists>root. tokens (store w) (RT_Parent rt) = Some root \<and> RT_EndedAt root = None)"
    "tokens s' = (tokens (store w))(RT_Hash rt \<mapsto> row (rt\<lparr>RT_CreatedAt := c\<rparr>))" by auto
  then show thesis
    using that [of at c] gen_hash [OF g] st h by (simp add: rt_def)
qed

lemma issue_err:
  assumes "ok (store w)" "Service_issueTokens svc u em rs parent w = (Inl e, w')"
  shows "ok (store w') \<and> tokens (store w') = tokens (store w)"
proof (cases "GenerateTokens iss u em rs w")
  case (Pair r w1)
  obtain k where k: "w1 = w\<lparr>tick := k\<rparr>" using gen_quiet [OF Pair] by auto
  obtain at w2 where n: "svc_now svc w1 = (at, w2)" by (cases "svc_now svc w1") auto
  obtain m where m: "w2 = w\<lparr>tick := m\<rparr>" using clock_quiet [OF n] k by auto
  show ?thesis
    using assms Pair k n m
    by (auto simp: Service_issueTokens_def call_now_iff Let_def dest: save_err
        split: sum.splits prod.splits)
qed

text \<open>In an ended session the successor is refused.\<close>

lemma issue_over:
  assumes "ok (store w)" "session_over root (tokens (store w))" "root \<noteq> ''''"
  shows "\<exists>e. fst (Service_issueTokens svc u em rs root w) = Inl e"
proof (rule ccontr)
  assume "\<not> ?thesis"
  then obtain pair w' where i: "Service_issueTokens svc u em rs root w = (Inr pair, w')"
    by (cases "Service_issueTokens svc u em rs root w"; cases "fst (Service_issueTokens svc u em rs root w)") auto
  from issue_ok [OF assms(1) i] obtain r where
    "tokens (store w) root = Some r" "RT_EndedAt r = None" using assms(3) by metis
  then show False using session_overD [OF assms(2)] by blast
qed

text \<open>\<^verbatim>\<open>isDuplicateRefresh\<close> decides that condition, unless the store fails.\<close>

lemma dup_iff:
  assumes "ok s" "tokens s h = Some t" "Service_isDuplicateRefresh svc t now s = Inr b"
  shows "b = is_duplicate (svc_refreshReuseLeeway svc) (tokens s) t now"
proof (cases "RT_RotatedAt t")
  case (Some r)
  show ?thesis
  proof (cases "GetRefreshFamily ts (familyRoot t) s")
    case (Inr f)
    note fam = family_ok [OF assms(1) Inr]
    then obtain l where l: "LastRotatedAt f = Some l" "r \<le> l"
      using assms(2) Some inFamily_familyRoot by blast
    have "l \<le> r \<longleftrightarrow> (\<forall>h t' r'. tokens s h = Some t' \<and> inFamily (familyRoot t) t' \<and>
        RT_RotatedAt t' = Some r' \<longrightarrow> r' \<le> r)"
      using fam l by (metis option.inject order_trans)
    moreover have "SessionEnded f \<longleftrightarrow>
        \<not> (\<forall>h t'. tokens s h = Some t' \<and> inFamily (familyRoot t) t' \<longrightarrow> RT_EndedAt t' = None)"
      using conjunct1 [OF fam] by auto
    ultimately have q: "(\<forall>h t'. tokens s h = Some t' \<and> inFamily (familyRoot t) t' \<longrightarrow>
          RT_EndedAt t' = None \<and> (\<forall>r'. RT_RotatedAt t' = Some r' \<longrightarrow> r' \<le> r)) \<longleftrightarrow>
        \<not> SessionEnded f \<and> l \<le> r" by blast
    have d: "is_duplicate leeway (tokens s) t now \<longleftrightarrow> leeway \<noteq> 0 \<and> now < RT_ExpiresAt t \<and>
        time_Sub now r \<le> leeway \<and> - leeway \<le> time_Sub now r \<and> \<not> SessionEnded f \<and> l \<le> r" for leeway
      unfolding is_duplicate_def Some q [symmetric] by simp
    show ?thesis
      using assms(3) Some Inr l
      by (auto simp: Service_isDuplicateRefresh_def Let_def d split: if_splits)
  qed (use assms(3) Some in \<open>auto simp: Service_isDuplicateRefresh_def is_duplicate_def Let_def split: if_splits\<close>)
qed (use assms(3) in \<open>auto simp: Service_isDuplicateRefresh_def is_duplicate_def split: if_splits\<close>)

lemma dup_over:
  assumes "ok s" "tokens s h = Some t" "RT_EndedAt t \<noteq> None"
  shows "Service_isDuplicateRefresh svc t now s \<noteq> Inr True"
proof
  assume dup: "Service_isDuplicateRefresh svc t now s = Inr True"
  then obtain f where f: "GetRefreshFamily ts (familyRoot t) s = Inr f" "\<not> SessionEnded f"
    by (auto simp: Service_isDuplicateRefresh_def Let_def split: if_splits option.splits sum.splits)
  then show False using family_ok [OF assms(1) f(1)] assms(2,3) inFamily_familyRoot by blast
qed

lemma revoke_reused:
  assumes "ok (store w)" "Service_revokeReusedFamily svc rt w = (e, w')"
  shows "e = TokenReuseError (RT_UserID rt)" "ok (store w')"
    "session_over root (tokens (store w)) \<Longrightarrow> session_over root (tokens (store w'))"
proof -
  obtain res s' where r: "RevokeTokens ts (familyRoot rt) (wall w (tick w)) (store w) = (res, s')"
    and w': "w' = w\<lparr>tick := Suc (tick w), store := s'\<rparr>" and "e = TokenReuseError (RT_UserID rt)"
    using assms(2) by (auto simp: Service_revokeReusedFamily_def Let_def call_now_iff split: prod.splits)
  then show "e = TokenReuseError (RT_UserID rt)" by simp
  show "ok (store w')"
    using r w' revoke_ok [OF assms(1), of "familyRoot rt" "wall w (tick w)" _ s']
      revoke_err [OF assms(1), of "familyRoot rt" "wall w (tick w)" _ s'] by (cases res) auto
  show "session_over root (tokens (store w'))" if "session_over root (tokens (store w))"
    using over_revoke_keeps [OF assms(1) that r] w' by simp
qed

text \<open>The store's answer at the start of a refresh.\<close>

lemma refresh_start:
  obtains now w1 rt err s' n where "svc_now svc w = (now, w1)" "w1 = w\<lparr>tick := n\<rparr>"
    "RotateRefreshToken ts (HashToken w tok) now (store w) = ((rt, err), s')"
proof -
  obtain now w1 where n: "svc_now svc w = (now, w1)" by (cases "svc_now svc w") auto
  obtain rt err s' where "RotateRefreshToken ts (HashToken w tok) now (store w) = ((rt, err), s')"
    by (metis prod.exhaust)
  then show thesis using that n clock_quiet [OF n] by metis
qed

text \<open>Refreshing with a token of an ended session fails, and the session stays ended.\<close>

lemma refresh_over:
  assumes "ok (store w)" "session_over (familyRoot t) (tokens (store w))"
    and "tokens (store w) (HashToken w tok) = Some t" "Service_Refresh svc tok w = (r, w')"
  shows "(\<exists>e. r = Inl e) \<and> ok (store w') \<and> session_over (familyRoot t) (tokens (store w'))"
proof -
  obtain now w1 rt err s' n where n: "svc_now svc w = (now, w1)" "w1 = w\<lparr>tick := n\<rparr>"
    and rot: "RotateRefreshToken ts (HashToken w tok) now (store w) = ((rt, err), s')"
    by (rule refresh_start)
  obtain e where e: "err = Some e"
    using over_rotate [OF assms(1,2,3) inFamily_familyRoot rot] by auto
  note rot' = rot [unfolded e]
  have s': "ok s'" "tokens s' = tokens (store w)" using rotate_err [OF assms(1) rot'] by auto
  have rt: "rt = Some t" if "errors_Is e Store_ErrTokenRevoked"
    using rotate_err [OF assms(1) rot'] that assms(3) by auto
  have ended: "RT_EndedAt t \<noteq> None" using session_overD [OF assms(2,3)] inFamily_familyRoot by blast
  let ?w2 = "w\<lparr>tick := n, store := s'\<rparr>"
  have dup: "Service_isDuplicateRefresh svc t now s' \<noteq> Inr True"
    by (rule dup_over [OF s'(1) _ ended]) (use s'(2) assms(3) in simp)
  obtain re wr where rev: "Service_revokeReusedFamily svc t ?w2 = (re, wr)"
    by (metis prod.exhaust)
  note keep = revoke_reused [OF _ rev]
  show ?thesis
  proof (cases "errors_Is e Store_ErrTokenNotFound \<or> errors_Is e Store_ErrTokenExpired \<or>
      \<not> errors_Is e Store_ErrTokenRevoked")
    case True
    then show ?thesis
      using assms(2,4) n rot' s' by (auto simp: Service_Refresh_def call_def Let_def split: if_splits)
  next
    case False
    then have b: "Service_Refresh svc tok w = (case Service_isDuplicateRefresh svc t now s' of
        Inl err \<Rightarrow> (Inl err, ?w2)
      | Inr dup \<Rightarrow> if \<not> dup then (Inl re, wr) else Service_refreshAccepted svc t ?w2)"
      using n rot' rt rev by (simp add: Service_Refresh_def call_def split: sum.split)
    then show ?thesis
      using assms(2,4) s' dup keep by (auto split: sum.splits if_splits)
  qed
qed

text \<open>A logout that reports success has ended the whole family of a known token.\<close>

lemma logout_ends:
  assumes "ok (store w)" "tokens (store w) (HashToken w tok) = Some t"
    and "Service_Logout svc tok w = (None, w')"
  shows "ok (store w') \<and> session_over (familyRoot t) (tokens (store w'))"
proof -
  have miss: "\<not> errors_Is e Store_ErrTokenNotFound" if "GetRefreshToken ts (HashToken w tok) (store w) = Inl e" for e
    using get_missing [OF assms(1) that] assms(2) by auto
  have "GetRefreshToken ts (HashToken w tok) (store w) = Inr t"
    using assms(3) miss get_ok [OF assms(1)] assms(2)
    by (cases "GetRefreshToken ts (HashToken w tok) (store w)")
       (auto simp: Service_Logout_def)
  then obtain u s' where r: "RevokeTokens ts (familyRoot t) (wall w (tick w)) (store w) = (Inr u, s')"
    and w': "w' = w\<lparr>tick := Suc (tick w), store := s'\<rparr>"
    using assms(3) by (auto simp: Service_Logout_def call_now_iff split: prod.splits sum.splits)
  show ?thesis
    using revoke_ok [OF assms(1) r] revoke_ends [OF assms(1) r] w' by simp
qed

text \<open>The token as a successful refresh leaves it: rotated now, or, for a duplicate within the
  leeway, as it was.\<close>

lemma accepted_ok:
  assumes "ok (store w)" "Service_refreshAccepted svc t w = (Inr pair, w')"
  obtains user :: User and at c where "GetByID (svc_userStore svc) (RT_UserID t) (store w) = Inr user" "ok (store w')"
    "familyRoot t \<noteq> '''' \<longrightarrow>
       (\<exists>root. tokens (store w) (familyRoot t) = Some root \<and> RT_EndedAt root = None)"
    "tokens (store w') = (tokens (store w))(HashToken w (RefreshTokenText pair) \<mapsto>
       row (fresh_row (HashToken w (RefreshTokenText pair)) (User_ID user) (familyRoot t) at c))"
proof -
  obtain user where u: "GetByID (svc_userStore svc) (RT_UserID t) (store w) = Inr user"
    and i: "Service_issueTokens svc (User_ID user) (User_Email user) (User_Roles user) (familyRoot t) w = (Inr pair, w')"
    using assms(2) by (auto simp: Service_refreshAccepted_def split: sum.splits prod.splits if_splits)
  show thesis by (rule issue_ok [OF assms(1) i]) (rule that [OF u])
qed

text \<open>What a successful refresh means: the token presented was live, or a duplicate within the
  grace; it is spent now; and the one new row is its live successor in the same family.\<close>

lemma refresh_ok:
  assumes "ok (store w)" "svc_now svc w = (now, w1)" "Service_Refresh svc tok w = (Inr pair, w')"
  obtains t and user :: User and at c where
    "tokens (store w) (HashToken w tok) = Some t" "ok (store w')"
    "if RT_Revoked t then is_duplicate (svc_refreshReuseLeeway svc) (tokens (store w)) t now
     else keep now < RT_ExpiresAt t"
    "\<exists>s. ok s \<and> GetByID (svc_userStore svc) (RT_UserID t) s = Inr user"
    "tokens (store w') = (tokens (store w))(HashToken w tok \<mapsto>
         (if RT_Revoked t then t else t\<lparr>RT_Revoked := True, RT_RotatedAt := Some (keep now)\<rparr>),
       HashToken w (RefreshTokenText pair) \<mapsto>
       row (fresh_row (HashToken w (RefreshTokenText pair)) (User_ID user) (familyRoot t) at c))"
proof -
  obtain rt err s' where rot: "RotateRefreshToken ts (HashToken w tok) now (store w) = ((rt, err), s')"
    by (metis prod.exhaust)
  obtain n where n: "w1 = w\<lparr>tick := n\<rparr>" using clock_quiet [OF assms(2)] by auto
  let ?w2 = "w\<lparr>tick := n, store := s'\<rparr>"
  show thesis
  proof (cases err)
    case None
    then obtain t where t: "tokens (store w) (HashToken w tok) = Some t" "\<not> RT_Revoked t"
      "keep now < RT_ExpiresAt t" "rt = Some (t\<lparr>RT_Revoked := True, RT_RotatedAt := Some (keep now)\<rparr>)" "ok s'"
      "tokens s' = (tokens (store w))(HashToken w tok \<mapsto> t\<lparr>RT_Revoked := True, RT_RotatedAt := Some (keep now)\<rparr>)"
      using rotate_ok [OF assms(1)] rot by metis
    have okw: "ok (store ?w2)" using t by simp
    from t have acc: "Service_refreshAccepted svc (t\<lparr>RT_Revoked := True, RT_RotatedAt := Some (keep now)\<rparr>) ?w2 = (Inr pair, w')"
      using assms(2,3) n rot None by (simp add: Service_Refresh_def call_def)
    show thesis
    proof (rule accepted_ok [OF okw acc])
      fix user :: User and at c
      assume "GetByID (svc_userStore svc) (RT_UserID (t\<lparr>RT_Revoked := True, RT_RotatedAt := Some (keep now)\<rparr>)) (store ?w2) = Inr user"
        "ok (store w')" "tokens (store w') = (tokens (store ?w2))(HashToken ?w2 (RefreshTokenText pair) \<mapsto>
        row (fresh_row (HashToken ?w2 (RefreshTokenText pair)) (User_ID user)
          (familyRoot (t\<lparr>RT_Revoked := True, RT_RotatedAt := Some (keep now)\<rparr>)) at c))"
      then show thesis
        using t okw by (intro that [of t user at c]) (auto simp: familyRoot_def)
    qed
  next
    case (Some e)
    note rot' = rot [unfolded Some]
    have rev: "errors_Is e Store_ErrTokenRevoked"
      using assms(2,3) n rot' by (auto simp: Service_Refresh_def call_def Let_def split: if_splits)
    then obtain t where t: "tokens (store w) (HashToken w tok) = Some t" "rt = Some t" "RT_Revoked t"
      and s': "ok s'" "tokens s' = tokens (store w)"
      using rotate_err [OF assms(1) rot'] by auto
    then have "Service_isDuplicateRefresh svc t now s' = Inr True"
      and acc: "Service_refreshAccepted svc t ?w2 = (Inr pair, w')"
      using assms(2,3) n rot' t rev
      by (auto simp: Service_Refresh_def call_def Let_def split: if_splits sum.splits prod.splits)
    then have dup: "is_duplicate (svc_refreshReuseLeeway svc) (tokens (store w)) t now"
      using dup_iff [OF s'(1)] s'(2) t(1) by metis
    have okw: "ok (store ?w2)" using s' by simp
    show thesis
    proof (rule accepted_ok [OF okw acc])
      fix user :: User and at c
      assume "GetByID (svc_userStore svc) (RT_UserID t) (store ?w2) = Inr user" "ok (store w')"
        "tokens (store w') = (tokens (store ?w2))(HashToken ?w2 (RefreshTokenText pair) \<mapsto>
        row (fresh_row (HashToken ?w2 (RefreshTokenText pair)) (User_ID user) (familyRoot t) at c))"
      then show thesis
        using t s' dup by (intro that [of t user at c]) (auto simp: fun_upd_idem)
    qed
  qed
qed

end

end
