(* ===== verification/Local_Provider.thy ===== *)
theory Local_Provider
  imports Ports Go_Strings
begin

text \<open>
  \<^verbatim>\<open>provider/local/local.go\<close>: registration and authentication with a password. The
  Argon2id key derivation is the environment's \<open>argon2_IDKey\<close>. A provider holds its two
  stores; \<open>localTable\<close> is its method table. The error of the rollback \<^verbatim>\<open>Delete\<close>, which
  the code only logs, has no effect.
\<close>

section \<open>Password hashes\<close>

definition argon2Memory :: nat where "argon2Memory = 64 * 1024"
definition argon2Iterations :: nat where "argon2Iterations = 3"
definition argon2Parallelism :: nat where "argon2Parallelism = 2"
definition argon2SaltLength :: nat where "argon2SaltLength = 16"
definition argon2KeyLength :: nat where "argon2KeyLength = 32"

definition derive :: "'st world \<Rightarrow> string \<Rightarrow> string \<Rightarrow> string" where
  "derive w password salt =
     argon2_IDKey w password salt argon2Iterations argon2Memory argon2Parallelism argon2KeyLength"

definition encodeHash :: "string \<Rightarrow> string \<Rightarrow> string" where
  "encodeHash salt hash =
    ''$argon2id$v=19$m='' @ digits argon2Memory @ '',t='' @ digits argon2Iterations @ '',p='' @
    digits argon2Parallelism @ ''$'' @ b64_encode False salt @ ''$'' @ b64_encode False hash"

definition hashPassword :: "string \<Rightarrow> 'st world \<Rightarrow> (error + string) \<times> 'st world" where
  "hashPassword password w =
    (case draw_bytes argon2SaltLength w of
       (None, w1) \<Rightarrow> (Inl (Errorf ''generate salt: %w'' [Foreign ''rand'']), w1)
     | (Some salt, w1) \<Rightarrow> (Inr (encodeHash salt (derive w1 password salt)), w1))"

definition verifyPassword :: "'st world \<Rightarrow> string \<Rightarrow> string \<Rightarrow> bool" where
  "verifyPassword w password encodedHash =
    (let parts = strings_Split (CHR ''$'') encodedHash in
     if length parts \<noteq> 6 then False
     else (case b64_decode False (parts ! 4) of
             None \<Rightarrow> False
           | Some salt \<Rightarrow>
               (case b64_decode False (parts ! 5) of
                  None \<Rightarrow> False
                | Some storedHash \<Rightarrow> storedHash = derive w password salt)))"

section \<open>The provider\<close>

record 'st LocalProvider =
  lp_userStore :: "'st UserStore"
  lp_credentialStore :: "'st CredentialStore"

definition generateUserID :: "'st world \<Rightarrow> string \<times> 'st world" where
  "generateUserID w =
    (case draw_NewV7 w of
       (None, w1) \<Rightarrow> draw_NewString w1
     | (Some uid, w1) \<Rightarrow> (uid, w1))"

definition Local_Register ::
    "'st LocalProvider \<Rightarrow> RegisterRequest \<Rightarrow> 'st world \<Rightarrow> (error + Identity) \<times> 'st world" where
  "Local_Register p req w =
    (if RegReq_Email req = '''' then (Inl (Errorf ''%w: email required'' [Sentinel ErrInvalidEmail]), w)
     else if RegReq_Password req = ''''
     then (Inl (Errorf ''%w: password required'' [Sentinel ErrPasswordTooShort]), w)
     else
       case GetByEmail (lp_userStore p) (RegReq_Email req) (store w) of
         Inr _ \<Rightarrow> (Inl (Errorf ''%w: %s'' [Sentinel Store_ErrUserExists]), w)
       | Inl err \<Rightarrow>
           if \<not> errors_Is err Store_ErrUserNotFound then (Inl (Errorf ''lookup user: %w'' [err]), w)
           else
             (case hashPassword (RegReq_Password req) w of
                (Inl err, w1) \<Rightarrow> (Inl (Errorf ''hash password: %w'' [err]), w1)
              | (Inr passwordHash, w1) \<Rightarrow>
                  let (uid, w2) = generateUserID w1;
                      user = \<lparr>User_ID = uid, User_Email = RegReq_Email req, User_Roles = [],
                              User_CreatedAt = 0, User_UpdatedAt = 0\<rparr>
                  in case call_now (Create (lp_userStore p) user) w2 of
                       (Inl err, w3) \<Rightarrow> (Inl (Errorf ''create user: %w'' [err]), w3)
                     | (Inr user, w3) \<Rightarrow>
                         (case call (SavePasswordHash (lp_credentialStore p) (User_ID user) passwordHash) w3 of
                            (Inl err, w4) \<Rightarrow>
                              let (delErr, w5) = call (Delete (lp_userStore p) (User_ID user)) w4
                              in (Inl (Errorf ''store password: %w'' [err]), w5)
                          | (Inr _, w4) \<Rightarrow>
                              (Inr \<lparr>Identity_UserID = User_ID user, Identity_Email = User_Email user,
                                    Identity_Provider = ProviderTypeLocal, Identity_Metadata = []\<rparr>, w4))))"

definition Local_Authenticate ::
    "'st LocalProvider \<Rightarrow> AuthRequest \<Rightarrow> 'st world \<Rightarrow> (error + Identity) \<times> 'st world" where
  "Local_Authenticate p req w =
    (if AuthReq_Email req = '''' \<or> AuthReq_Password req = ''''
     then (Inl (CredentialsError ReasonMalformedCredentials ''''), w)
     else
       case GetByEmail (lp_userStore p) (AuthReq_Email req) (store w) of
         Inl err \<Rightarrow>
           if errors_Is err Store_ErrUserNotFound
           then (Inl (CredentialsError ReasonUnknownUser ''''), w)
           else (Inl (Errorf ''get user: %w'' [err]), w)
       | Inr user \<Rightarrow>
           (case GetPasswordHash (lp_credentialStore p) (User_ID user) (store w) of
              Inl err \<Rightarrow>
                if errors_Is err Store_ErrCredentialNotFound
                then (Inl (CredentialsError ReasonNoPassword (User_ID user)), w)
                else (Inl (Errorf ''get password hash: %w'' [err]), w)
            | Inr storedHash \<Rightarrow>
                if \<not> verifyPassword w (AuthReq_Password req) storedHash
                then (Inl (CredentialsError ReasonBadPassword (User_ID user)), w)
                else (Inr \<lparr>Identity_UserID = User_ID user, Identity_Email = User_Email user,
                           Identity_Provider = ProviderTypeLocal, Identity_Metadata = []\<rparr>, w)))"

definition localTable :: "'st LocalProvider \<Rightarrow> 'st Provider" where
  "localTable p = \<lparr>Provider_Type = ProviderTypeLocal, Authenticate = Local_Authenticate p,
     Register = Local_Register p\<rparr>"

lemma localTable_simps [simp]:
  "Provider_Type (localTable p) = ''local''" "Authenticate (localTable p) = Local_Authenticate p"
  "Register (localTable p) = Local_Register p"
  by (simp_all add: localTable_def ProviderTypeLocal_def)

section \<open>Properties of password hashes\<close>

lemma no_dollar_digits: "CHR ''$'' \<notin> set (digits n)"
proof (induction n rule: digits.induct)
  case (1 n)
  have d: "CHR ''$'' \<noteq> char_of (48 + k)" if "k < 10" for k :: nat
  proof
    assume "CHR ''$'' = char_of (48 + k)"
    then have "byte (CHR ''$'') = byte (char_of (48 + k))" by (rule arg_cong)
    with that show False by simp
  qed
  show ?case
    using 1 d [of n] d [of "n mod 10"] by (subst digits.simps) (cases "n < 10"; auto)
qed

lemma Split_six:
  assumes "list_all (\<lambda>x. sep \<notin> set x) [a, b, c, d, e, f]"
  shows "strings_Split sep (a @ sep # b @ sep # c @ sep # d @ sep # e @ sep # f) = [a, b, c, d, e, f]"
  using assms by (simp add: Split_append)

lemma Split_encodeHash:
  "strings_Split (CHR ''$'') (encodeHash salt hash) =
     ['''', ''argon2id'', ''v=19'', ''m='' @ digits argon2Memory @ '',t='' @ digits argon2Iterations @
      '',p='' @ digits argon2Parallelism, b64_encode False salt, b64_encode False hash]"
proof -
  have e: "encodeHash salt hash = '''' @ CHR ''$'' # ''argon2id'' @ CHR ''$'' # ''v=19'' @ CHR ''$'' #
      (''m='' @ digits argon2Memory @ '',t='' @ digits argon2Iterations @ '',p='' @ digits argon2Parallelism) @
      CHR ''$'' # b64_encode False salt @ CHR ''$'' # b64_encode False hash"
    by (simp add: encodeHash_def)
  show ?thesis
    unfolding e by (rule Split_six) (simp add: no_dollar_digits b64_encode_no_dollar)
qed

lemma verify_encodeHash [simp]:
  "verifyPassword w p (encodeHash salt h) \<longleftrightarrow> h = derive w p salt"
  by (simp add: verifyPassword_def Split_encodeHash)

lemma derive_frame [simp]:
  "derive (w\<lparr>tick := n\<rparr>) p s = derive w p s" "derive (w\<lparr>store := st\<rparr>) p s = derive w p s"
  by (simp_all add: derive_def)

lemma verifyPassword_frame [simp]:
  "verifyPassword (w\<lparr>tick := n\<rparr>) p h = verifyPassword w p h"
  "verifyPassword (w\<lparr>store := st\<rparr>) p h = verifyPassword w p h"
  by (simp_all add: verifyPassword_def Let_def split: option.split)

end
