(* ===== verification/Dev_Service.thy ===== *)
theory Dev_Service
  imports Service_Session Local_Provider Memory_Session
begin

text \<open>
  The service as \<^verbatim>\<open>run\<close> in \<^verbatim>\<open>cmd/psina/main.go\<close> assembles it without a database: the
  in-memory store behind every port, the JWT issuer, the local provider and the configured
  options. The session contract is interpreted for this service, which gives its end-to-end
  session properties.
\<close>

section \<open>Assembly\<close>

definition memLocal :: "Store LocalProvider" where
  "memLocal = \<lparr>lp_userStore = memUserStore, lp_credentialStore = memCredentialStore\<rparr>"

text \<open>The option list of \<^verbatim>\<open>run\<close>; the OAuth and wallet options store their part.\<close>

definition devOptions :: "duration \<Rightarrow> PATConfig option \<Rightarrow> Store OAuthPart option \<Rightarrow>
    Store WalletPart option \<Rightarrow> Store ServiceOption list" where
  "devOptions leeway pat oauth wallet =
    [WithRefreshReuseLeeway leeway] @
    (case pat of None \<Rightarrow> [] | Some cfg \<Rightarrow> [WithPAT (Some memPATStore) cfg]) @
    (case oauth of None \<Rightarrow> [] | Some part \<Rightarrow> [\<lambda>s. s\<lparr>svc_oauth := Some part\<rparr>]) @
    (case wallet of None \<Rightarrow> [] | Some part \<Rightarrow> [\<lambda>s. s\<lparr>svc_wallet := Some part\<rparr>])"

definition devService :: "jose \<Rightarrow> Issuer \<Rightarrow> duration \<Rightarrow> PATConfig option \<Rightarrow> Store OAuthPart option \<Rightarrow>
    Store WalletPart option \<Rightarrow> Store Service" where
  "devService j i leeway pat oauth wallet =
    (case NewService memTokenStore memUserStore (issuerTable j i) [localTable memLocal]
            (devOptions leeway pat oauth wallet) of
       Inr svc \<Rightarrow> svc
     | Inl e \<Rightarrow> undefined)"

lemma NewService_dev:
  "NewService memTokenStore memUserStore (issuerTable j i) [localTable memLocal]
     (devOptions leeway pat oauth wallet) = Inr (devService j i leeway pat oauth wallet)"
  by (simp add: devService_def NewService_def)

lemma devService_simps [simp]:
  "svc_tokenStore (devService j i l p oa wa) = memTokenStore"
  "svc_userStore (devService j i l p oa wa) = memUserStore"
  "svc_issuer (devService j i l p oa wa) = issuerTable j i"
  "svc_now (devService j i l p oa wa) = time_Now"
  "svc_localProvider (devService j i l p oa wa) = Some (localTable memLocal)"
  "svc_refreshReuseLeeway (devService j i l p oa wa) = max l 0"
  "svc_patStore (devService j i l p oa wa) = map_option (\<lambda>_. memPATStore) p"
  "svc_oauth (devService j i l p oa wa) = oa"
  "svc_wallet (devService j i l p oa wa) = wa"
  by (simp_all add: devService_def NewService_def devOptions_def WithRefreshReuseLeeway_def
      WithPAT_def ProviderTypeLocal_def Let_def split: option.split)

lemmas mem_table_simps =
  memUserStore_def memTokenStore_def memPATStore_def memOAuthIdentityStore_def
  memWalletIdentityStore_def memChallengeStore_def memCredentialStore_def

interpretation dev: session_service memTokenStore mem_tokens mem_inv "\<lambda>t. t" "\<lambda>t. t" "issuerTable j i"
  "devService j i l p oa wa" for j i l p oa wa
  by unfold_locales (auto simp: time_Now_def)

section \<open>The refresh decision\<close>

lemma dev_dup:
  assumes "mem_inv s" "mem_tokens s h = Some t"
  shows "Service_isDuplicateRefresh (devService j i l p oa wa) t now s =
    Inr (is_duplicate (max l 0) (mem_tokens s) t now)"
proof -
  have "Service_isDuplicateRefresh (devService j i l p oa wa) t now s \<noteq> Inl e" for e
    by (simp add: Service_isDuplicateRefresh_def Memory_GetRefreshFamily_def Let_def
        split: option.split)
  then obtain b where b: "Service_isDuplicateRefresh (devService j i l p oa wa) t now s = Inr b"
    by (metis sum.exhaust)
  from dev.dup_iff [OF assms b] b show ?thesis by simp
qed

text \<open>A spent token goes to the duplicate check, a live one to rotation.\<close>

lemma dev_Refresh_spent:
  assumes "mem_inv (store w)" "mem_tokens (store w) (HashToken w tok) = Some t" "RT_Revoked t"
  shows "Service_Refresh (devService j i l p oa wa) tok w =
    (let w2 = w\<lparr>tick := Suc (tick w)\<rparr> in
     if is_duplicate (max l 0) (mem_tokens (store w)) t (wall w (tick w))
     then Service_refreshAccepted (devService j i l p oa wa) t w2
     else (Inl (TokenReuseError (RT_UserID t)),
           w2\<lparr>tick := Suc (Suc (tick w)),
              store := snd (Memory_RevokeTokens (familyRoot t) (wall w (Suc (tick w))) (store w))\<rparr>))"
  using assms dev_dup [OF assms(1,2)]
  by (simp add: Service_Refresh_def Memory_RotateRefreshToken_def time_Now_def call_def Let_def
      Service_revokeReusedFamily_def call_now_def)

lemma dev_Refresh_live:
  assumes "mem_tokens (store w) (HashToken w tok) = Some t" "\<not> RT_Revoked t" "wall w (tick w) < RT_ExpiresAt t"
  shows "Service_Refresh (devService j i l p oa wa) tok w =
    Service_refreshAccepted (devService j i l p oa wa)
      (t\<lparr>RT_Revoked := True, RT_RotatedAt := Some (wall w (tick w))\<rparr>)
      (w\<lparr>tick := Suc (tick w), store := snd (Memory_RotateRefreshToken (HashToken w tok) (wall w (tick w)) (store w))\<rparr>)"
  using assms
  by (simp add: Service_Refresh_def Memory_RotateRefreshToken_def time_Now_def call_def Let_def)

lemma dev_Refresh_expired:
  assumes "mem_tokens (store w) (HashToken w tok) = Some t" "\<not> RT_Revoked t" "\<not> wall w (tick w) < RT_ExpiresAt t"
  shows "Service_Refresh (devService j i l p oa wa) tok w =
    (Inl (Errorf ''%w: %w'' [Sentinel ErrInvalidCredentials, Sentinel ErrTokenExpired]), w\<lparr>tick := Suc (tick w)\<rparr>)"
  using assms
  by (simp add: Service_Refresh_def Memory_RotateRefreshToken_def time_Now_def call_def Let_def)

lemma dev_Refresh_unknown:
  assumes "mem_tokens (store w) (HashToken w tok) = None"
  shows "Service_Refresh (devService j i l p oa wa) tok w =
    (Inl (Errorf ''%w: %w'' [Sentinel ErrInvalidCredentials, Sentinel Store_ErrTokenNotFound]),
     w\<lparr>tick := Suc (tick w)\<rparr>)"
  using assms
  by (simp add: Service_Refresh_def Memory_RotateRefreshToken_def time_Now_def call_def Let_def)

lemma mem_inv_user_ID: "mem_inv s \<Longrightarrow> map_of (mem_users s) k = Some u \<Longrightarrow> User_ID u = k"
  by (simp add: mem_inv_user)

text \<open>The second half over the in-memory store: it fails only for an ended session, a deleted
  user, or because no pair could be generated.\<close>

lemma dev_accepted_err:
  assumes "mem_inv (store w)" "Service_refreshAccepted (devService j i l p oa wa) t w = (Inl e, w')"
  shows "errors_Is e ErrInvalidCredentials \<or> (\<exists>x. e = Errorf ''generate tokens: %w'' [x])"
  using assms(2)
  by (auto dest!: Issuer_frame(1) simp: Service_refreshAccepted_def Service_issueTokens_def
      Memory_GetByID_def Memory_SaveRefreshToken_def Memory_requireUser_def call_now_iff
      time_Now_def Let_def split: option.splits sum.splits prod.splits if_splits)
    (metis mem_inv_user_ID [OF assms(1)] option.distinct(1))+

end
