(* ===== verification/Memory_Challenges.thy ===== *)
theory Memory_Challenges
  imports Challenge_Port Dev_Service
begin

text \<open>
  Challenges in the in-memory backend: the challenge contract for \<^verbatim>\<open>memory.Store\<close> and for
  the assembled service, what interleaved requests can do to one challenge, and the assembly of
  the OAuth and wallet parts over the same store.
\<close>

abbreviation mem_chs :: "Store \<Rightarrow> string \<Rightarrow> Challenge option" where
  "mem_chs s \<equiv> map_of (mem_challenges s)"

section \<open>The backend keeps the challenge contract\<close>

interpretation mem_cs: challenge_store memChallengeStore mem_chs mem_inv "\<lambda>c. c"
proof unfold_locales
  fix s n now c s'
  assume "mem_inv s" "GetChallenge memChallengeStore n now s = (Inr c, s')"
  then show "mem_inv s' \<and> mem_chs s' = mem_chs s \<and> mem_chs s n = Some c"
    by (auto simp: Memory_GetChallenge_def split: option.splits if_splits)
next
  fix s n now e s'
  assume s: "mem_inv s" and g: "GetChallenge memChallengeStore n now s = (Inl e, s')"
  then have "mem_inv s'" using mem_inv_GetChallenge [OF s, of n now] by simp
  then show "mem_inv s' \<and> (mem_chs s' = mem_chs s \<or> mem_chs s' = (mem_chs s)(n := None) \<and>
      (\<exists>c. mem_chs s n = Some c \<and> Ch_ExpiresAt c < now))"
    using g by (auto simp: Memory_GetChallenge_def fun_eq_iff split: option.splits if_splits)
next
  fix s n u s'
  assume s: "mem_inv s" and d: "DeleteChallenge memChallengeStore n s = (Inr u, s')"
  then have "mem_inv s'" using mem_inv_DeleteChallenge [OF s, of n] by simp
  then show "mem_inv s' \<and> mem_chs s n \<noteq> None \<and> mem_chs s' = (mem_chs s)(n := None)"
    using d by (auto simp: Memory_DeleteChallenge_def fun_eq_iff split: if_splits)
next
  fix s n e s'
  assume "mem_inv s" "DeleteChallenge memChallengeStore n s = (Inl e, s')"
  then show "mem_inv s' \<and> mem_chs s' = mem_chs s"
    by (auto simp: Memory_DeleteChallenge_def split: if_splits)
next
  fix s c now u s'
  assume s: "mem_inv s" and v: "SaveChallenge memChallengeStore c now s = (Inr u, s')"
  then have "mem_inv s'" using mem_inv_SaveChallenge [OF s, of c now] by simp
  moreover have "mem_chs s' (Ch_Nonce c) = Some (c\<lparr>Ch_CreatedAt :=
      if time_IsZero (Ch_CreatedAt c) then now else Ch_CreatedAt c\<rparr>)"
    using v by (cases c) (auto simp: Memory_SaveChallenge_def Let_def)
  ultimately show "mem_inv s' \<and> (\<exists>k. mem_chs s' (Ch_Nonce c) = Some (c\<lparr>Ch_CreatedAt := k\<rparr>))" by blast
qed

interpretation dev_ch: challenge_service memChallengeStore mem_chs mem_inv "\<lambda>c. c" "devService j i l p oa wa"
  for j i l p oa wa
  by unfold_locales (auto simp: time_Now_def)

section \<open>Interleaved requests\<close>

text \<open>A consumed challenge stays away unless its nonce is saved again.\<close>

fun saves_nonce :: "string \<Rightarrow> mem_op \<Rightarrow> bool" where
  "saves_nonce n (OpSaveChallenge c _) = (Ch_Nonce c = n)"
| "saves_nonce n _ = False"

lemma apply_op_gone:
  "mem_inv s \<Longrightarrow> mem_chs s n = None \<Longrightarrow> \<not> saves_nonce n op \<Longrightarrow> mem_chs (apply_op op s) n = None"
  by (cases op)
    (auto simp: backend_def Let_def map_of_DeleteFunc mem_inv_def mem_wf_def split: option.splits prod.splits)

lemma run_ops_gone:
  "mem_inv s \<Longrightarrow> mem_chs s n = None \<Longrightarrow> list_all (\<lambda>op. \<not> saves_nonce n op) ops \<Longrightarrow>
   mem_chs (run_ops ops s) n = None"
  by (induction ops arbitrary: s) (auto simp: apply_op_gone mem_inv_apply_op)

text \<open>An operation disturbs a challenge when it deletes it, overwrites it, or runs after its
  expiry and sweeps it.\<close>

fun disturbs :: "Challenge \<Rightarrow> mem_op \<Rightarrow> bool" where
  "disturbs ch (OpSaveChallenge c now) = (Ch_Nonce c = Ch_Nonce ch \<or> Ch_ExpiresAt ch < now)"
| "disturbs ch (OpGetChallenge n now) = (n = Ch_Nonce ch \<and> Ch_ExpiresAt ch < now)"
| "disturbs ch (OpDeleteChallenge n) = (n = Ch_Nonce ch)"
| "disturbs ch _ = False"

lemma apply_op_challenge:
  "mem_inv s \<Longrightarrow> mem_chs s (Ch_Nonce ch) = Some ch \<Longrightarrow> \<not> disturbs ch op \<Longrightarrow>
   mem_chs (apply_op op s) (Ch_Nonce ch) = Some ch"
  by (cases op)
    (auto simp: backend_def Let_def map_of_DeleteFunc mem_inv_def mem_wf_def split: option.splits prod.splits)

lemma run_ops_challenge:
  "mem_inv s \<Longrightarrow> mem_chs s (Ch_Nonce ch) = Some ch \<Longrightarrow> list_all (\<lambda>op. \<not> disturbs ch op) ops \<Longrightarrow>
   mem_chs (run_ops ops s) (Ch_Nonce ch) = Some ch"
  by (induction ops arbitrary: s) (auto simp: apply_op_challenge mem_inv_apply_op)

section \<open>The OAuth and wallet parts over the in-memory store\<close>

definition memOAuth :: "(string, Store OAuthProvider) gomap \<Rightarrow> OAuthConfig \<Rightarrow> Store OAuthPart" where
  "memOAuth providers cfg = \<lparr>op_providers = providers, op_identities = memOAuthIdentityStore,
     op_challenges = memChallengeStore, op_credentials = memCredentialStore, op_config = cfg\<rparr>"

definition memWallet :: "(string, WalletProvider) gomap \<Rightarrow> WalletConfig \<Rightarrow> Store WalletPart" where
  "memWallet providers cfg = \<lparr>wp_providers = providers, wp_identities = memWalletIdentityStore,
     wp_challenges = memChallengeStore, wp_config = cfg\<rparr>"

lemma memOAuth_simps [simp]:
  "op_providers (memOAuth ps cfg) = ps" "op_identities (memOAuth ps cfg) = memOAuthIdentityStore"
  "op_challenges (memOAuth ps cfg) = memChallengeStore" "op_credentials (memOAuth ps cfg) = memCredentialStore"
  "op_config (memOAuth ps cfg) = cfg"
  by (simp_all add: memOAuth_def)

lemma memWallet_simps [simp]:
  "wp_providers (memWallet ps cfg) = ps" "wp_identities (memWallet ps cfg) = memWalletIdentityStore"
  "wp_challenges (memWallet ps cfg) = memChallengeStore" "wp_config (memWallet ps cfg) = cfg"
  by (simp_all add: memWallet_def)

text \<open>An absent challenge is refused as such, by either sign-in.\<close>

lemma dev_oauth_missing:
  "mem_chs (store w) (OCR_State req) = None \<Longrightarrow>
   fst (Service_consumeOAuthState (devService j i l p oa wa) (memOAuth ps cfg) req w) =
     Inl (Sentinel ErrOAuthStateInvalid)"
  by (simp add: Service_consumeOAuthState_def Memory_GetChallenge_def call_now_def call_def time_Now_def Let_def)

lemma dev_wallet_missing:
  "mem_chs (store w) (WAR_Nonce req) = None \<Longrightarrow>
   fst (Service_consumeWalletChallenge (devService j i l p oa wa) (memWallet ps cfg) q req addr w) =
     Some (Sentinel ErrWalletChallengeInvalid)"
  by (simp add: Service_consumeWalletChallenge_def Memory_GetChallenge_def call_now_def call_def time_Now_def Let_def)

end
