(* ===== verification/Dev_Session.thy ===== *)
theory Dev_Session
  imports Dev_Service
begin

text \<open>
  The session properties of the assembled service: what a refresh may do, that a logout is
  final and that a replay is detected, each together with the hash table of refresh tokens
  it leaves behind.
\<close>

section \<open>A concrete store\<close>

text \<open>One user with one live session, at which the hypotheses below hold.\<close>

definition demo_user :: User where
  "demo_user = \<lparr>User_ID = ''u1'', User_Email = ''a@b.co'', User_Roles = [''admin''],
     User_CreatedAt = 1, User_UpdatedAt = 1\<rparr>"

definition demo_token :: RefreshToken where
  "demo_token = fresh_row (b64_encode True ''r'') ''u1'' '''' hour hour"

definition demo_store :: Store where
  "demo_store = Memory_New\<lparr>mem_users := [(''u1'', demo_user)], mem_usersByEmail := [(''a@b.co'', demo_user)],
     mem_refreshTokens := [(b64_encode True ''r'', demo_token)]\<rparr>"

lemma demo_store_inv [simp]: "mem_inv demo_store"
  by (simp add: mem_inv_defs demo_store_def Memory_New_def demo_user_def demo_token_def map_all_def
      has_user_def)

lemma demo_tokens [simp]:
  "mem_tokens demo_store (b64_encode True ''r'') = Some demo_token" "familyRoot demo_token = b64_encode True ''r''"
  "HashToken (demo_world s) x = b64_encode True x"
  by (simp_all add: demo_store_def demo_token_def familyRoot_def HashToken_def)

section \<open>Refresh\<close>


text \<open>
  C17. Every refusal is recognisable. Over the in-memory store a refresh fails either with an
  error matching \<^verbatim>\<open>ErrInvalidCredentials\<close> (the 401 path) or because no token pair could
  be generated (no entropy, signing failure); there is no third kind.
\<close>

theorem Refresh_errors:
  assumes "mem_inv (store w)"
    and "Service_Refresh (devService j i l p oa wa) tok w = (Inl e, w')"
  shows "errors_Is e ErrInvalidCredentials \<or> (\<exists>x. e = Errorf ''generate tokens: %w'' [x])"
proof (cases "mem_tokens (store w) (HashToken w tok)")
  case None
  then show ?thesis using assms(2) dev_Refresh_unknown [OF None, of j i l p oa wa] by auto
next
  case (Some t)
  consider "RT_Revoked t" | "\<not> RT_Revoked t" "wall w (tick w) < RT_ExpiresAt t"
    | "\<not> RT_Revoked t" "\<not> wall w (tick w) < RT_ExpiresAt t" by blast
  then show ?thesis
  proof cases
    case 1
    then show ?thesis
      using assms dev_Refresh_spent [OF assms(1) Some 1, of j i l p oa wa]
        dev_accepted_err [of "w\<lparr>tick := Suc (tick w)\<rparr>" j i l p oa wa t e w']
      by (auto simp: Let_def split: if_splits)
  next
    case 2
    let ?w = "w\<lparr>tick := Suc (tick w),
      store := snd (Memory_RotateRefreshToken (HashToken w tok) (wall w (tick w)) (store w))\<rparr>"
    have "mem_inv (store ?w)" using assms(1) by (simp add: mem_inv_RotateRefreshToken)
    from dev_accepted_err [OF this] show ?thesis
      using assms(2) dev_Refresh_live [OF Some 2, of j i l p oa wa] by simp
  next
    case 3
    then show ?thesis using assms(2) dev_Refresh_expired [OF Some 3, of j i l p oa wa] by auto
  qed
qed

theorem Refresh_errors_witness:
  "\<exists>e w'. Service_Refresh (devService demo_jose demo_issuer (10 * second) None None None) ''nope''
       (demo_world demo_store) = (Inl e, w') \<and> errors_Is e ErrInvalidCredentials"
proof -
  have m: "mem_tokens (store (demo_world demo_store)) (HashToken (demo_world demo_store) ''nope'') = None"
    by (simp add: demo_store_def b64_encode_inject)
  show ?thesis
    using dev_Refresh_unknown [OF m, of demo_jose demo_issuer "10 * second" None None None]
      Refresh_errors [of "demo_world demo_store" demo_jose demo_issuer "10 * second" None None None "''nope''"]
    by auto
qed

section \<open>Replay and logout\<close>

lemma over_not_duplicate:
  "session_over (familyRoot t) tab \<Longrightarrow> tab h = Some t \<Longrightarrow> \<not> is_duplicate l tab t now"
  using session_overD [of "familyRoot t" tab h t] inFamily_familyRoot [of t]
  unfolding is_duplicate_def by fastforce

lemma dev_replay:
  assumes "mem_inv (store w)" "mem_tokens (store w) (HashToken w tok) = Some t" "RT_Revoked t"
    and "\<not> is_duplicate (max l 0) (mem_tokens (store w)) t (wall w (tick w))"
  shows "\<exists>w'. Service_Refresh (devService j i l p oa wa) tok w = (Inl (TokenReuseError (RT_UserID t)), w') \<and>
    mem_inv (store w') \<and> session_over (familyRoot t) (mem_tokens (store w'))"
  using assms(4) dev_Refresh_spent [OF assms(1-3), of j i l p oa wa]
    mem_inv_RevokeTokens [OF assms(1)]
    mem_ts.revoke_ends [OF assms(1), of "familyRoot t" "wall w (Suc (tick w))" "()"]
  by (simp add: Let_def Memory_RevokeTokens_def)

text \<open>
  C3. A replay outside the grace ends the session. Presenting a spent refresh token that is
  not a duplicate within the leeway yields a reuse error naming the owner, and every token of
  the family, live successors included, is revoked and ended.
\<close>

theorem Refresh_replay:
  assumes "mem_inv (store w)" "mem_tokens (store w) (HashToken w tok) = Some t" "RT_Revoked t"
    and "\<not> is_duplicate (max l 0) (mem_tokens (store w)) t (wall w (tick w))"
  shows "\<exists>w'. Service_Refresh (devService j i l p oa wa) tok w = (Inl (TokenReuseError (RT_UserID t)), w') \<and>
    mem_inv (store w') \<and> session_over (familyRoot t) (mem_tokens (store w'))"
  using assms by (rule dev_replay)

text \<open>
  C1. A logout is final. After a logout with a known refresh token, whatever the store is asked
  to do in between by any interleaving of other requests, a refresh with any token of that
  family is refused as reuse and the session stays ended. (The one exclusion is a new token
  whose SHA-256 hash collides with the family root.)
\<close>

theorem Logout_final:
  assumes "mem_inv (store w)" "mem_tokens (store w) (HashToken w tok) = Some t" "familyRoot t \<noteq> ''''"
    and "Service_Logout (devService j i l p oa wa) tok w = (None, w1)"
    and "list_all (\<lambda>op. \<not> saves_hash (familyRoot t) op) ops" "store w2 = run_ops ops (store w1)"
    and "mem_tokens (store w2) (HashToken w2 tok') = Some t'" "familyRoot t' = familyRoot t"
  shows "\<exists>w3. Service_Refresh (devService j i l p oa wa) tok' w2 = (Inl (TokenReuseError (RT_UserID t')), w3) \<and>
    session_over (familyRoot t) (mem_tokens (store w3))"
proof -
  have 1: "mem_inv (store w1)" "session_over (familyRoot t) (mem_tokens (store w1))"
    using dev.logout_ends [OF assms(1,2,4)] by auto
  then have 2: "mem_inv (store w2)" "session_over (familyRoot t') (mem_tokens (store w2))"
    using assms(3,5,6,8) by (simp_all add: mem_inv_run_ops run_ops_session_over)
  have "RT_Revoked t'" using session_overD [OF 2(2) assms(7)] by simp
  from dev_replay [OF 2(1) assms(7) this, of l j i p oa wa] over_not_duplicate [OF 2(2) assms(7)]
  show ?thesis using assms(8) by auto
qed

section \<open>Witnesses\<close>

abbreviation lax_jose :: jose where
  "lax_jose \<equiv> demo_jose\<lparr>Serialize := (\<lambda>s c. Inr ''jwt'')\<rparr>"

abbreviation demo_service :: "Store Service" where
  "demo_service \<equiv> devService lax_jose demo_issuer (10 * second) None None None"

lemma demo_Refresh:
  "\<exists>w'. Service_Refresh demo_service ''r'' (demo_world demo_store) =
     (Inr \<lparr>AccessToken = ''jwt'', RefreshTokenText = b64_encode True (replicate 32 (char_of (111::nat))),
           ExpiresIn = 900\<rparr>, w')"
  using dev_Refresh_live [of "demo_world demo_store" "''r''" demo_token lax_jose demo_issuer "10 * second" None None None]
  by (simp add: demo_token_def RefreshTokenTTL_def Service_refreshAccepted_def Memory_GetByID_def
      Memory_RotateRefreshToken_def Let_def demo_store_def demo_user_def Service_issueTokens_def issuer_defs
      Memory_SaveRefreshToken_def Memory_requireUser_def AccessTokenTTL_def familyRoot_def HashToken_def
      time_IsZero_def b64_encode.simps)


definition demo_spent :: RefreshToken where
  "demo_spent = demo_token\<lparr>RT_Revoked := True, RT_RotatedAt := Some 0\<rparr>"

definition demo_spent_store :: Store where
  "demo_spent_store = demo_store\<lparr>mem_refreshTokens := [(b64_encode True ''r'', demo_spent)]\<rparr>"

lemma demo_spent_facts:
  "mem_inv (store (demo_world demo_spent_store))"
  "mem_tokens (store (demo_world demo_spent_store)) (HashToken (demo_world demo_spent_store) ''r'') = Some demo_spent"
  "RT_Revoked demo_spent"
  "\<not> is_duplicate (max (10 * second) 0) (mem_tokens (store (demo_world demo_spent_store))) demo_spent
     (wall (demo_world demo_spent_store) (tick (demo_world demo_spent_store)))"
  by (simp_all add: demo_spent_store_def demo_spent_def is_duplicate_def time_Sub_small mem_inv_defs demo_store_def
      Memory_New_def demo_user_def demo_token_def map_all_def has_user_def)

theorem Refresh_replay_witness:
  "\<exists>w'. Service_Refresh demo_service ''r'' (demo_world demo_spent_store) = (Inl (TokenReuseError ''u1''), w') \<and>
     session_over (b64_encode True ''r'') (mem_tokens (store w'))"
  using Refresh_replay [OF demo_spent_facts, of lax_jose demo_issuer None None None]
  by (auto simp: demo_spent_def demo_token_def familyRoot_def)

theorem Logout_final_witness:
  "\<exists>w1 w3. Service_Logout demo_service ''r'' (demo_world demo_store) = (None, w1) \<and>
     Service_Refresh demo_service ''r'' w1 = (Inl (TokenReuseError ''u1''), w3)"
proof -
  let ?w1 = "(demo_world demo_store)\<lparr>tick := 1,
    store := snd (Memory_RevokeTokens (b64_encode True ''r'') hour demo_store)\<rparr>"
  have l: "Service_Logout demo_service ''r'' (demo_world demo_store) = (None, ?w1)"
    by (simp add: Service_Logout_def Memory_GetRefreshToken_def call_now_def time_Now_def call_def
        Memory_RevokeTokens_def)
  have t: "mem_tokens (store ?w1) (HashToken ?w1 ''r'') = Some (endToken hour demo_token)"
    by (simp add: Memory_RevokeTokens_def demo_token_def demo_store_def)
  have 1: "mem_inv (store (demo_world demo_store))"
    "mem_tokens (store (demo_world demo_store)) (HashToken (demo_world demo_store) ''r'') = Some demo_token"
    "familyRoot demo_token \<noteq> ''''" by simp_all
  have 2: "list_all (\<lambda>op. \<not> saves_hash (familyRoot demo_token) op) []" "store ?w1 = run_ops [] (store ?w1)"
    "familyRoot (endToken hour demo_token) = familyRoot demo_token"
    by (simp_all add: familyRoot_def)
  show ?thesis
    using Logout_final [OF 1 l 2(1,2) t 2(3)] l by (auto simp: demo_token_def)
qed

end
