(* ===== verification/OAuth_Properties.thy ===== *)
theory OAuth_Properties
  imports Memory_Challenges Dev_Session
begin

text \<open>
  OAuth sign-in over the in-memory store: the state a flow stores is single-use, bound to its
  browser, provider and redirect URI, and cannot be burned by a request that fails a check; the
  account a callback signs in to is the linked one, a verified-email match without a password,
  or a new one.
\<close>

section \<open>The state\<close>

text \<open>
  C26. An OAuth state is single-use. Once a callback has consumed a state, every later callback that
  presents it is refused with \<^verbatim>\<open>ErrOAuthStateInvalid\<close>, whatever interleaved requests did to
  the store in between. (The one exclusion is a later flow whose 256-bit random state collides.)
\<close>

theorem OAuth_state_single_use:
  assumes "mem_inv (store w)"
    and "Service_consumeOAuthState (devService j i l p (Some (memOAuth ps cfg)) wa) (memOAuth ps cfg) req w = (Inr ch, w1)"
    and "list_all (\<lambda>op. \<not> saves_nonce (OCR_State req) op) ops" "store w2 = run_ops ops (store w1)"
    and "OCR_State req' = OCR_State req" "map_of ps (OCR_Provider req') = Some pr"
  shows "fst (Service_OAuthCallback (devService j i l p (Some (memOAuth ps cfg)) wa) req' w2) =
    Inl (Sentinel ErrOAuthStateInvalid)"
proof -
  have part: "op_challenges (memOAuth ps cfg) = memChallengeStore" by simp
  have "mem_inv (store w1)" "mem_chs (store w1) (OCR_State req) = None"
    using dev_ch.oauth_consume_ok(1,3) [OF assms(1) part assms(2)] by auto
  then have "mem_chs (store w2) (OCR_State req') = None"
    using assms(3-5) by (simp add: run_ops_gone)
  from dev_oauth_missing [OF this, of j i l p "Some (memOAuth ps cfg)" wa ps cfg] show ?thesis
    using assms(6)
    by (cases "Service_consumeOAuthState (devService j i l p (Some (memOAuth ps cfg)) wa) (memOAuth ps cfg) req' w2")
      (simp add: Service_OAuthCallback_def Service_oauthProvider_def)
qed

text \<open>
  C27. A callback signs in only against the state it started with. When a callback succeeds, the
  state it presented was stored and unexpired, carries the same provider and redirect URI, was
  bound to the browser secret the callback presented, and is deleted before the code is exchanged,
  with the PKCE verifier and nonce of that state.
\<close>

theorem OAuth_callback_bound:
  assumes "mem_inv (store w)"
    and "Service_OAuthCallback (devService j i l p (Some (memOAuth ps cfg)) wa) req w = (Inr res, w')"
  shows "\<exists>ch pr w1 info w2. mem_chs (store w) (OCR_State req) = Some ch \<and>
    wall w (Suc (tick w)) < Ch_ExpiresAt ch \<and>
    Ch_Message ch = oauthStateBinding (OCR_Provider req) (OCR_RedirectURI req) \<and>
    Ch_BindingHash ch = hashBinding w (OCR_Binding req) \<and>
    mem_chs (store w1) = (mem_chs (store w))(OCR_State req := None) \<and>
    map_of ps (OCR_Provider req) = Some pr \<and>
    ExchangeCode pr (OCR_Code req) \<lparr>Auth_State = OCR_State req, Auth_RedirectURI = OCR_RedirectURI req,
      Auth_CodeVerifier = Ch_CodeVerifier ch, Auth_Nonce = Ch_OAuthNonce ch\<rparr> w1 = (Inr info, w2) \<and>
    Info_ExternalID info \<noteq> ''''"
proof -
  let ?svc = "devService j i l p (Some (memOAuth ps cfg)) wa"
  obtain pr ch w1 info w2 where
    pr: "map_of ps (OCR_Provider req) = Some pr" and
    c: "Service_consumeOAuthState ?svc (memOAuth ps cfg) req w = (Inr ch, w1)" and
    x: "ExchangeCode pr (OCR_Code req) \<lparr>Auth_State = OCR_State req, Auth_RedirectURI = OCR_RedirectURI req,
      Auth_CodeVerifier = Ch_CodeVerifier ch, Auth_Nonce = Ch_OAuthNonce ch\<rparr> w1 = (Inr info, w2)"
      "Info_ExternalID info \<noteq> ''''"
    using assms(2) by (auto simp: Service_OAuthCallback_def Service_oauthProvider_def
        split: option.splits sum.splits prod.splits if_splits)
  have part: "op_challenges (memOAuth ps cfg) = memChallengeStore" by simp
  note k = dev_ch.oauth_consume_ok [OF assms(1) part c]
  have "wall w (Suc (tick w)) < Ch_ExpiresAt ch" using k(7) by (auto simp: time_Now_def)
  with k pr x show ?thesis by blast
qed

text \<open>
  A refused callback does not burn the state. A callback that fails the state check (wrong
  browser, provider or redirect URI) before the state expires leaves every stored challenge, so
  the legitimate browser can still finish the flow.
\<close>

theorem OAuth_state_not_burned:
  assumes "mem_inv (store w)" "mem_chs (store w) (OCR_State req) = Some ch" "wall w (tick w) \<le> Ch_ExpiresAt ch"
    and "Service_consumeOAuthState (devService j i l p (Some (memOAuth ps cfg)) wa) (memOAuth ps cfg) req w = (Inl e, w')"
  shows "mem_chs (store w') = mem_chs (store w)"
  using dev_ch.oauth_consume_err [OF assms(1) memOAuth_simps(3) assms(4)] assms(2,3) by auto

section \<open>A whole flow\<close>

lemma randomSecret_ok:
  "randomSecret w = (Inr x, w') \<Longrightarrow>
   \<exists>b. rand_Read w (tick w) oauthSecretBytes = Some b \<and> x = b64_encode True b \<and> w' = w\<lparr>tick := Suc (tick w)\<rparr>"
  by (auto simp: randomSecret_def draw_bytes_def split: option.splits)

lemma dev_GetOAuthURL_ok:
  assumes "mem_inv (store w)"
    and "Service_GetOAuthURL (devService j i l p (Some (memOAuth ps cfg)) wa) provider redirectURI w = (Inr res, w')"
  obtains b b' verifier nonce pr k where "rand_Read w (tick w) oauthSecretBytes = Some b"
    "rand_Read w (tick w + 2) oauthSecretBytes = Some b'"
    "OUR_State res = b64_encode True b" "OUR_Binding res = b64_encode True b'" "mem_inv (store w')"
    "mem_chs (store w') (OUR_State res) = Some \<lparr>Ch_Nonce = OUR_State res,
      Ch_Message = oauthStateBinding provider redirectURI, Ch_Chain = '''', Ch_Address = '''',
      Ch_CodeVerifier = verifier, Ch_OAuthNonce = nonce, Ch_BindingHash = hashBinding w (OUR_Binding res),
      Ch_ExpiresAt = wall w (tick w + 4) + OC_StateTTL cfg, Ch_CreatedAt = k\<rparr>"
    "map_of ps provider = Some pr"
    "AuthCodeURL pr \<lparr>Auth_State = OUR_State res, Auth_RedirectURI = redirectURI,
        Auth_CodeVerifier = verifier, Auth_Nonce = nonce\<rparr> = Inr (OUR_URL res)"
proof -
  obtain pr state nonce binding w1 w2 w3 where
    pr: "map_of ps provider = Some pr" and
    r: "randomSecret w = (Inr state, w1)" "randomSecret w1 = (Inr nonce, w2)" "randomSecret w2 = (Inr binding, w3)"
    using assms(2) by (auto simp: Service_GetOAuthURL_def Service_oauthProvider_def
        split: option.splits sum.splits prod.splits)
  obtain b b' where b: "rand_Read w (tick w) oauthSecretBytes = Some b" "state = b64_encode True b"
    "rand_Read w (tick w + 2) oauthSecretBytes = Some b'" "binding = b64_encode True b'"
    and w: "w1 = w\<lparr>tick := Suc (tick w)\<rparr>" "w2 = w\<lparr>tick := tick w + 2\<rparr>" "w3 = w\<lparr>tick := tick w + 3\<rparr>"
    using randomSecret_ok [OF r(1)] randomSecret_ok [OF r(2)] randomSecret_ok [OF r(3)]
    by (auto simp: numeral_2_eq_2 numeral_3_eq_3)
  let ?ver = "oauth2_GenerateVerifier w (tick w + 3)"
  let ?ch = "\<lparr>Ch_Nonce = state, Ch_Message = oauthStateBinding provider redirectURI, Ch_Chain = '''',
      Ch_Address = '''', Ch_CodeVerifier = ?ver, Ch_OAuthNonce = nonce, Ch_BindingHash = hashBinding w binding,
      Ch_ExpiresAt = wall w (tick w + 4) + OC_StateTTL cfg, Ch_CreatedAt = wall w (tick w + 4)\<rparr>"
  have h: "hashBinding (w\<lparr>tick := n\<rparr>) x = hashBinding w x" for n x by (simp add: hashBinding_def)
  have u: "AuthCodeURL pr \<lparr>Auth_State = state, Auth_RedirectURI = redirectURI,
        Auth_CodeVerifier = ?ver, Auth_Nonce = nonce\<rparr> = Inr (OUR_URL res)"
    and res: "OUR_State res = state" "OUR_Binding res = binding"
    and st: "store w' = snd (Memory_SaveChallenge ?ch (wall w (tick w + 5)) (store w))"
    using assms(2) pr r w
    by (auto simp: Service_GetOAuthURL_def Service_oauthProvider_def draw_verifier_def time_Now_def
        call_now_def call_def h Let_def eval_nat_numeral split: sum.splits prod.splits)
  obtain k where "mem_chs (store w') state = Some (?ch\<lparr>Ch_CreatedAt := k\<rparr>)"
    unfolding st using mem_cs.save_ok [OF assms(1), of ?ch "wall w (tick w + 5)" "()"]
    by (auto simp: Memory_SaveChallenge_def Let_def)
  moreover have "mem_inv (store w')" unfolding st by (rule mem_inv_SaveChallenge [OF assms(1)])
  ultimately show ?thesis using that [of b b' ?ver nonce k pr] b pr u res by simp
qed

text \<open>
  A flow that is started can be finished. After \<^verbatim>\<open>GetOAuthURL\<close> handed out a URL, a state
  and a binding, the callback that presents that state and binding before the state expires
  passes the state check, and receives the PKCE verifier and nonce the provider was sent, whatever
  interleaved requests did in between that neither expire, delete nor overwrite this state.
  The hypotheses say that \<^verbatim>\<open>rand.Read\<close> fills its slice, that SHA-256 digests are not empty
  and that the hash function is the same in both requests.
\<close>

theorem OAuth_flow_roundtrip:
  fixes w :: "Store world"
  assumes "mem_inv (store w)"
    and "Service_GetOAuthURL (devService j i l p (Some (memOAuth ps cfg)) wa) provider redirectURI w = (Inr res, w1)"
    and "\<forall>n b. rand_Read w n 32 = Some b \<longrightarrow> length b = 32" "\<forall>x. sha256 w x \<noteq> ''''" "sha256 w2 = sha256 w"
    and "list_all (\<lambda>op. \<not> disturbs (the (mem_chs (store w1) (OUR_State res))) op) ops"
    and "store w2 = run_ops ops (store w1)" "code \<noteq> ''''"
    and "wall w2 (tick w2) \<le> wall w (tick w + 4) + OC_StateTTL cfg"
    and "wall w2 (Suc (tick w2)) < wall w (tick w + 4) + OC_StateTTL cfg"
  shows "\<exists>ch pr. map_of ps provider = Some pr \<and>
    AuthCodeURL pr \<lparr>Auth_State = OUR_State res, Auth_RedirectURI = redirectURI,
      Auth_CodeVerifier = Ch_CodeVerifier ch, Auth_Nonce = Ch_OAuthNonce ch\<rparr> = Inr (OUR_URL res) \<and>
    fst (Service_consumeOAuthState (devService j i l p (Some (memOAuth ps cfg)) wa) (memOAuth ps cfg)
      \<lparr>OCR_Provider = provider, OCR_Code = code, OCR_State = OUR_State res, OCR_RedirectURI = redirectURI,
       OCR_Binding = OUR_Binding res\<rparr> w2) = Inr ch"
proof -
  obtain b b' verifier nonce pr k where r: "rand_Read w (tick w) oauthSecretBytes = Some b"
    "rand_Read w (tick w + 2) oauthSecretBytes = Some b'"
    "OUR_State res = b64_encode True b" "OUR_Binding res = b64_encode True b'" "mem_inv (store w1)"
    and c: "mem_chs (store w1) (OUR_State res) = Some \<lparr>Ch_Nonce = OUR_State res,
      Ch_Message = oauthStateBinding provider redirectURI, Ch_Chain = '''', Ch_Address = '''',
      Ch_CodeVerifier = verifier, Ch_OAuthNonce = nonce, Ch_BindingHash = hashBinding w (OUR_Binding res),
      Ch_ExpiresAt = wall w (tick w + 4) + OC_StateTTL cfg, Ch_CreatedAt = k\<rparr>" (is "_ = Some ?ch")
    and u: "map_of ps provider = Some pr" "AuthCodeURL pr \<lparr>Auth_State = OUR_State res,
        Auth_RedirectURI = redirectURI, Auth_CodeVerifier = verifier, Auth_Nonce = nonce\<rparr> = Inr (OUR_URL res)"
    by (rule dev_GetOAuthURL_ok [OF assms(1,2)])
  have "length b = 32" "length b' = 32" using assms(3) r(1,2) by (auto simp: oauthSecretBytes_def)
  then have ne: "OUR_State res \<noteq> ''''" "OUR_Binding res \<noteq> ''''" using r(3,4) by auto
  have c2: "mem_chs (store w2) (OUR_State res) = Some ?ch"
    using run_ops_challenge [OF r(5), of ?ch ops] c assms(6,7) by simp
  have h: "hashBinding (w2\<lparr>tick := n\<rparr>) x = hashBinding w x" "hashBinding w x \<noteq> ''''" for n x
    using assms(4,5) by (simp_all add: hashBinding_def)
  have g: "Memory_GetChallenge (OUR_State res) (wall w2 (tick w2)) (store w2) = (Inr ?ch, store w2)"
    using c2 assms(9) by (simp add: Memory_GetChallenge_def)
  have d: "fst (Memory_DeleteChallenge (OUR_State res) (store w2)) = Inr ()"
    using c2 by (simp add: Memory_DeleteChallenge_def)
  have "fst (Service_consumeOAuthState (devService j i l p (Some (memOAuth ps cfg)) wa) (memOAuth ps cfg)
      \<lparr>OCR_Provider = provider, OCR_Code = code, OCR_State = OUR_State res, OCR_RedirectURI = redirectURI,
       OCR_Binding = OUR_Binding res\<rparr> w2) = Inr ?ch"
    using ne assms(8,10)
    by (simp add: Service_consumeOAuthState_def call_now_def call_def time_Now_def g d h Let_def)  with u show ?thesis by auto
qed

section \<open>The account\<close>

lemma dev_findOrCreate_ok:
  assumes "mem_inv (store w)"
    and "Service_findOrCreateUser (devService j i l p oa wa) email w = (Inr (user, isNew), w')"
  shows "mem_inv (store w')" "map_of (mem_users (store w')) (User_ID user) = Some user"
    "mem_oauthIdentities (store w') = mem_oauthIdentities (store w)"
    "mem_passwordHashes (store w') = mem_passwordHashes (store w)"
    "email \<noteq> '''' \<Longrightarrow> User_Email user = email"
    "if isNew then map_of (mem_users (store w)) (User_ID user) = None \<and>
        map_of (mem_users (store w')) = (map_of (mem_users (store w)))(User_ID user \<mapsto> user) \<and>
        (email \<noteq> '''' \<longrightarrow> map_of (mem_usersByEmail (store w)) email = None)
     else store w' = store w"
proof -
  have "mem_inv (store w') \<and> map_of (mem_users (store w')) (User_ID user) = Some user \<and>
    mem_oauthIdentities (store w') = mem_oauthIdentities (store w) \<and>
    mem_passwordHashes (store w') = mem_passwordHashes (store w) \<and>
    (email \<noteq> '''' \<longrightarrow> User_Email user = email) \<and>
    (if isNew then map_of (mem_users (store w)) (User_ID user) = None \<and>
        map_of (mem_users (store w')) = (map_of (mem_users (store w)))(User_ID user \<mapsto> user) \<and>
        (email \<noteq> '''' \<longrightarrow> map_of (mem_usersByEmail (store w)) email = None)
     else store w' = store w)"
  proof (cases "map_of (mem_usersByEmail (store w)) email")
    case (Some u)
    then show ?thesis using assms mem_inv_by_email [OF assms(1) Some]
      by (auto simp: Service_findOrCreateUser_def Memory_GetByEmail_def)
  next
    case None
    obtain uid where uid: "uuid_NewV7 w (tick w) = Some uid"
      using assms(2) None
      by (auto simp: Service_findOrCreateUser_def Memory_GetByEmail_def draw_NewV7_def split: option.splits)
    let ?u = "\<lparr>User_ID = uid, User_Email = email, User_Roles = [],
      User_CreatedAt = wall w (Suc (tick w)), User_UpdatedAt = wall w (Suc (tick w))\<rparr>"
    show ?thesis
    proof (cases "map_of (mem_users (store w)) uid")
      case (Some v)
      then show ?thesis using assms(2) None uid
        by (auto simp: Service_findOrCreateUser_def Memory_GetByEmail_def draw_NewV7_def time_Now_def
            call_now_def call_def Memory_Create_err Let_def)
    next
      case new: None
      then show ?thesis using assms(2) None uid mem_inv_Create [OF assms(1), of ?u "wall w (Suc (Suc (tick w)))"]
        by (auto simp: Service_findOrCreateUser_def Memory_GetByEmail_def draw_NewV7_def time_Now_def
            call_now_def call_def Memory_Create_ok Let_def fun_eq_iff)
    qed
  qed
  then show "mem_inv (store w')" "map_of (mem_users (store w')) (User_ID user) = Some user"
    "mem_oauthIdentities (store w') = mem_oauthIdentities (store w)"
    "mem_passwordHashes (store w') = mem_passwordHashes (store w)"
    "email \<noteq> '''' \<Longrightarrow> User_Email user = email"
    "if isNew then map_of (mem_users (store w)) (User_ID user) = None \<and>
        map_of (mem_users (store w')) = (map_of (mem_users (store w)))(User_ID user \<mapsto> user) \<and>
        (email \<noteq> '''' \<longrightarrow> map_of (mem_usersByEmail (store w)) email = None)
     else store w' = store w" by auto
qed

text \<open>Linking an identity nobody holds yet to an existing user always succeeds.\<close>

lemma dev_link_free:
  assumes "mem_inv (store w)" "map_of (mem_users (store w)) (User_ID user) \<noteq> None"
    and "map_of (mem_oauthIdentities (store w)) (provider, Info_ExternalID info) = None"
  obtains row w' where
    "Service_linkOAuthUser (devService j i l p oa wa) (memOAuth ps cfg) provider info email user isNew origin w =
      (Inr (user, origin), w')" "mem_inv (store w')" "OI_UserID row = User_ID user" "OI_Email row = email"
    "map_of (mem_oauthIdentities (store w')) = (map_of (mem_oauthIdentities (store w)))((provider, Info_ExternalID info) \<mapsto> row)"
    "mem_users (store w') = mem_users (store w)"
proof -
  let ?row = "\<lparr>OI_ID = uuid_NewString w (tick w), OI_UserID = User_ID user, OI_Provider = provider,
    OI_ExternalID = Info_ExternalID info, OI_Email = email, OI_CreatedAt = wall w (Suc (tick w))\<rparr>"
  let ?now = "wall w (Suc (Suc (tick w)))"
  let ?s = "snd (Memory_SaveOAuthIdentity ?row ?now (store w))"
  let ?row' = "if time_IsZero (OI_CreatedAt ?row) then ?row\<lparr>OI_CreatedAt := ?now\<rparr> else ?row"
  have r: "Memory_requireUser (User_ID user) (store w) = None"
    using assms(2) by (simp add: requireUser_None has_user_def)
  have s: "fst (Memory_SaveOAuthIdentity ?row ?now (store w)) = Inr ()"
    using r assms(3) by (simp add: Memory_SaveOAuthIdentity_def Let_def)
  have t: "map_of (mem_oauthIdentities ?s) =
      (map_of (mem_oauthIdentities (store w)))((provider, Info_ExternalID info) \<mapsto> ?row')" "mem_users ?s = mem_users (store w)"
    using r assms(3) by (simp_all add: Memory_SaveOAuthIdentity_def Let_def fun_eq_iff)
  have l: "Service_linkOAuthUser (devService j i l p oa wa) (memOAuth ps cfg) provider info email user isNew origin w =
      (Inr (user, origin), w\<lparr>tick := Suc (Suc (Suc (tick w))), store := ?s\<rparr>)"
    using s by (simp add: Service_linkOAuthUser_def draw_NewString_def time_Now_def call_now_def call_def Let_def)
  show ?thesis
    using mem_inv_SaveOAuthIdentity [OF assms(1), of ?row ?now] t
    by (intro that [OF l, of ?row']) simp_all
qed

text \<open>What a resolved account may be.\<close>

definition may_sign_in :: "OAuthConfig \<Rightarrow> string option \<Rightarrow> UserInfo \<Rightarrow> User \<Rightarrow> oauthUserOrigin \<Rightarrow> Store \<Rightarrow> Store \<Rightarrow> bool" where
  "may_sign_in cfg email info user origin s s' \<longleftrightarrow>
    (case origin of
       oauthUserExisting \<Rightarrow> s' = s
     | oauthUserLinked \<Rightarrow> Info_EmailVerified info \<and> email = Some (User_Email user) \<and>
         \<not> OC_DisableAutoLinkEmail cfg \<and> map_of (mem_users s) (User_ID user) = Some user \<and>
         map_of (mem_passwordHashes s) (User_ID user) = None \<and> mem_users s' = mem_users s
     | oauthUserCreated \<Rightarrow> Info_EmailVerified info \<and> email = Some (User_Email user) \<and>
         map_of (mem_usersByEmail s) (User_Email user) = None \<and>
         map_of (mem_users s') = (map_of (mem_users s))(User_ID user \<mapsto> user) \<and>
         map_of (mem_users s) (User_ID user) = None)"

text \<open>
  C28. No account takeover through OAuth. When a callback resolves to a user, the external identity
  is linked to that user afterwards, and one of three cases holds: the link existed (and the store
  is unchanged); or the provider verified the email, auto-linking is enabled and the user with that
  normalised email has no password; or the provider verified the email, no user had it, and the user
  was created with it.
\<close>

theorem OAuth_resolve_safe:
  assumes "mem_inv (store w)"
    and "Service_resolveOAuthUser (devService j i l p oa wa) (memOAuth ps cfg) provider info w = (Inr (user, origin), w')"
  shows "mem_inv (store w') \<and> map_of (mem_users (store w')) (User_ID user) = Some user \<and>
    (\<exists>row. map_of (mem_oauthIdentities (store w')) (provider, Info_ExternalID info) = Some row \<and>
       OI_UserID row = User_ID user) \<and>
    may_sign_in cfg (case NormalizeEmail w (Info_Email info) of Inl _ \<Rightarrow> None | Inr e \<Rightarrow> Some e) info user origin
      (store w) (store w')"
proof (cases "map_of (mem_oauthIdentities (store w)) (provider, Info_ExternalID info)")
  case (Some row)
  then have "Service_oauthIdentityUser (devService j i l p oa wa) (memOAuth ps cfg) provider (Info_ExternalID info)
      (store w) = (case map_of (mem_users (store w)) (OI_UserID row) of
        None \<Rightarrow> Inl (Errorf ''get oauth user: %w'' [Errorf ''%w: %s'' [Sentinel Store_ErrUserNotFound]])
      | Some u \<Rightarrow> Inr u)"
    by (simp add: Service_oauthIdentityUser_def Memory_GetOAuthIdentity_def Memory_GetByID_def split: option.split)
  then show ?thesis using assms Some mem_inv_user_ID [OF assms(1)]
    by (auto simp: Service_resolveOAuthUser_def may_sign_in_def split: option.splits if_splits)
next
  case None
  then have n: "Service_oauthIdentityUser (devService j i l p oa wa) (memOAuth ps cfg) provider (Info_ExternalID info)
      (store w) = Inl (Errorf ''%w: %s/%s'' [Sentinel Store_ErrOAuthIdentityNotFound])"
    by (simp add: Service_oauthIdentityUser_def Memory_GetOAuthIdentity_def)
  obtain email isNew u w1 where e: "NormalizeEmail w (Info_Email info) = Inr email" "Info_EmailVerified info"
    and f: "Service_findOrCreateUser (devService j i l p oa wa) email w = (Inr (u, isNew), w1)"
    and r: "if isNew
       then Service_linkOAuthUser (devService j i l p oa wa) (memOAuth ps cfg) provider info email u isNew oauthUserCreated w1 = (Inr (user, origin), w')
       else Service_checkAutoLink (memOAuth ps cfg) (User_ID u) (store w1) = None \<and>
         Service_linkOAuthUser (devService j i l p oa wa) (memOAuth ps cfg) provider info email u isNew oauthUserLinked w1 = (Inr (user, origin), w')"
    using assms(2) n by (auto simp: Service_resolveOAuthUser_def split: sum.splits prod.splits if_splits option.splits)
  note fc = dev_findOrCreate_ok [OF assms(1) f]
  have ne: "email \<noteq> ''''" using e(1) NormalizeEmail_cases [of w "Info_Email info"] by auto
  have "map_of (mem_oauthIdentities (store w1)) (provider, Info_ExternalID info) = None" using None fc(3) by simp
  moreover have "map_of (mem_users (store w1)) (User_ID u) \<noteq> None" using fc(2) by simp
  ultimately obtain row w2 where l: "Service_linkOAuthUser (devService j i l p oa wa) (memOAuth ps cfg) provider info email u isNew
      (if isNew then oauthUserCreated else oauthUserLinked) w1 = (Inr (u, if isNew then oauthUserCreated else oauthUserLinked), w2)"
    "mem_inv (store w2)" "OI_UserID row = User_ID u" "OI_Email row = email"
    "map_of (mem_oauthIdentities (store w2)) = (map_of (mem_oauthIdentities (store w1)))((provider, Info_ExternalID info) \<mapsto> row)"
    "mem_users (store w2) = mem_users (store w1)"
    using dev_link_free [OF fc(1)] by metis  have w2: "w' = w2" "user = u" "origin = (if isNew then oauthUserCreated else oauthUserLinked)"
    using l(1) r by (auto split: if_splits)
  have al: "\<not> OC_DisableAutoLinkEmail cfg \<and> map_of (mem_passwordHashes (store w1)) (User_ID u) = None" if "\<not> isNew"
    using r that by (auto simp: Service_checkAutoLink_def Memory_GetPasswordHash_def split: option.splits if_splits)
  show ?thesis using l(2-6) fc ne e al unfolding w2 by (auto simp: may_sign_in_def split: if_splits)
qed

text \<open>
  The loser of a concurrent first sign-in leaves nothing behind. When another request linked
  the external identity to a user after this request had created its own new user, linking fails,
  the fresh user is deleted with every row it owned, and the request signs in to the winner's account.
\<close>

theorem OAuth_race_loser:
  assumes "mem_inv (store w)" "map_of (mem_users (store w)) (User_ID user) = Some user"
    and "map_of (mem_oauthIdentities (store w)) (provider, Info_ExternalID info) = Some row"
    and "OI_UserID row \<noteq> User_ID user"
    and "Memory_ListOAuthIdentities (User_ID user) (store w) = Inr []"
  shows "\<exists>winner w'. map_of (mem_users (store w)) (OI_UserID row) = Some winner \<and>
    Service_linkOAuthUser (devService j i l p oa wa) (memOAuth ps cfg) provider info email user True oauthUserCreated w =
      (Inr (winner, oauthUserExisting), w') \<and>
    mem_inv (store w') \<and> map_of (mem_users (store w')) = (map_of (mem_users (store w)))(User_ID user := None)"
proof -
  obtain winner where v: "map_of (mem_users (store w)) (OI_UserID row) = Some winner" "User_ID winner = OI_UserID row"
    using mem_inv_oauth [OF assms(1,3)] mem_inv_user_ID [OF assms(1)] by (auto simp: has_user_def)
  let ?d = "snd (Memory_Delete (User_ID user) (store w))"
  have d: "map_of (mem_users ?d) = (map_of (mem_users (store w)))(User_ID user := None)"
    "map_of (mem_oauthIdentities ?d) (provider, Info_ExternalID info) = Some row"
    using assms(1-4) by (auto simp: Memory_Delete_def map_of_DeleteFunc mem_inv_def mem_wf_def fun_eq_iff)
  have f: "fst (Memory_SaveOAuthIdentity (x\<lparr>OI_UserID := User_ID user, OI_Provider := provider,
        OI_ExternalID := Info_ExternalID info\<rparr>) t (store w)) = Inl (Errorf ''%w: %s/%s'' [Sentinel Store_ErrOAuthIdentityExists])"
    "snd (Memory_SaveOAuthIdentity (x\<lparr>OI_UserID := User_ID user, OI_Provider := provider,
        OI_ExternalID := Info_ExternalID info\<rparr>) t (store w)) = store w" for x t
    using assms(2,3) by (simp_all add: Memory_SaveOAuthIdentity_def Memory_requireUser_def Let_def)
  note f' = f [of "\<lparr>OI_ID = a, OI_UserID = '''', OI_Provider = '''', OI_ExternalID = '''', OI_Email = b, OI_CreatedAt = c\<rparr>"
      for a b c, simplified]
  have g: "Service_oauthIdentityUser (devService j i l p oa wa) (memOAuth ps cfg) provider (Info_ExternalID info) ?d = Inr winner"
    using d v assms(4) by (simp add: Service_oauthIdentityUser_def Memory_GetOAuthIdentity_def Memory_GetByID_def)
  show ?thesis
    using v assms(4,5) d(1) g mem_inv_Delete [OF assms(1), of "User_ID user"]
    by (simp add: Service_linkOAuthUser_def Service_discardUnlinkedUser_def draw_NewString_def time_Now_def
        call_now_def call_def f' Let_def)
qed

section \<open>Witnesses\<close>

definition demo_idp :: "Store OAuthProvider" where
  "demo_idp = \<lparr>ProviderName = ''google'', AuthCodeURL = (\<lambda>p. Inr (''https://idp/?state='' @ Auth_State p)),
     ExchangeCode = (\<lambda>code p w. (Inr \<lparr>Info_ExternalID = ''g-7'', Info_Email = ''a@b.co'', Info_EmailVerified = True\<rparr>, w))\<rparr>"

definition demo_oauth_config :: OAuthConfig where
  "demo_oauth_config = \<lparr>OC_DisableAutoLinkEmail = False, OC_StateTTL = 15 * minute\<rparr>"

abbreviation demo_oauth :: "Store OAuthPart" where
  "demo_oauth \<equiv> memOAuth [(''google'', demo_idp)] demo_oauth_config"

abbreviation demo_oauth_service :: "Store Service" where
  "demo_oauth_service \<equiv> devService lax_jose demo_issuer 0 None (Some demo_oauth) None"

definition demo_state :: Challenge where
  "demo_state = \<lparr>Ch_Nonce = ''st'', Ch_Message = oauthStateBinding ''google'' ''https://app'', Ch_Chain = '''',
     Ch_Address = '''', Ch_CodeVerifier = ''v'', Ch_OAuthNonce = ''n'', Ch_BindingHash = hex_EncodeToString ''bind'',
     Ch_ExpiresAt = 2 * hour, Ch_CreatedAt = hour\<rparr>"

definition demo_flow_store :: Store where
  "demo_flow_store = Memory_New\<lparr>mem_users := [(''u1'', demo_user)], mem_usersByEmail := [(''a@b.co'', demo_user)],
     mem_challenges := [(''st'', demo_state)]\<rparr>"

definition demo_callback :: OAuthCallbackRequest where
  "demo_callback = \<lparr>OCR_Provider = ''google'', OCR_Code = ''c'', OCR_State = ''st'',
     OCR_RedirectURI = ''https://app'', OCR_Binding = ''bind''\<rparr>"

lemma demo_flow_inv [simp]: "mem_inv demo_flow_store"
  by (simp add: mem_inv_defs demo_flow_store_def Memory_New_def demo_user_def demo_state_def map_all_def has_user_def)

lemma demo_consume:
  "\<exists>w1. Service_consumeOAuthState demo_oauth_service demo_oauth demo_callback (demo_world demo_flow_store) =
     (Inr demo_state, w1)"
  by (simp add: Service_consumeOAuthState_def demo_callback_def demo_flow_store_def demo_state_def call_now_def call_def
      time_Now_def Memory_GetChallenge_def Memory_DeleteChallenge_def hashBinding_def Let_def)

theorem OAuth_state_single_use_witness:
  "\<exists>w1. Service_consumeOAuthState demo_oauth_service demo_oauth demo_callback (demo_world demo_flow_store) = (Inr demo_state, w1) \<and>
     fst (Service_OAuthCallback demo_oauth_service demo_callback w1) = Inl (Sentinel ErrOAuthStateInvalid)"
proof -
  obtain w1 where c: "Service_consumeOAuthState demo_oauth_service demo_oauth demo_callback (demo_world demo_flow_store) =
      (Inr demo_state, w1)" using demo_consume by blast
  have p: "map_of [(''google'', demo_idp)] (OCR_Provider demo_callback) = Some demo_idp" by (simp add: demo_callback_def)
  have "mem_inv (store (demo_world demo_flow_store))" by simp
  from OAuth_state_single_use [OF this c, of "[]" w1 demo_callback demo_idp] p c show ?thesis by auto
qed

theorem OAuth_state_not_burned_witness:
  "\<exists>e w'. Service_consumeOAuthState demo_oauth_service demo_oauth (demo_callback\<lparr>OCR_Binding := ''evil''\<rparr>)
       (demo_world demo_flow_store) = (Inl e, w') \<and> mem_chs (store w') ''st'' = Some demo_state"
proof -
  let ?r = "demo_callback\<lparr>OCR_Binding := ''evil''\<rparr>"
  have "hex_EncodeToString ''evil'' \<noteq> hex_EncodeToString ''bind''" by (simp only: hex_encode_inject) simp
  then obtain w' where c: "Service_consumeOAuthState demo_oauth_service demo_oauth ?r (demo_world demo_flow_store) =
      (Inl (Sentinel ErrOAuthStateInvalid), w')"
    by (simp add: Service_consumeOAuthState_def demo_callback_def demo_flow_store_def demo_state_def call_now_def call_def
      time_Now_def Memory_GetChallenge_def hashBinding_def Let_def)
  have "mem_inv (store (demo_world demo_flow_store))"
    "mem_chs (store (demo_world demo_flow_store)) (OCR_State ?r) = Some demo_state"
    "wall (demo_world demo_flow_store) (tick (demo_world demo_flow_store)) \<le> Ch_ExpiresAt demo_state"
    by simp_all (simp_all add: demo_flow_store_def demo_callback_def demo_state_def)
  from OAuth_state_not_burned [OF this c] c show ?thesis by (simp add: demo_flow_store_def)
qed

definition demo_info :: UserInfo where
  "demo_info = \<lparr>Info_ExternalID = ''g-7'', Info_Email = ''a@b.co'', Info_EmailVerified = True\<rparr>"

lemma demo_resolve:
  "\<exists>w'. Service_resolveOAuthUser demo_oauth_service demo_oauth ''google'' demo_info
      ((demo_world s)\<lparr>tick := k, store := demo_flow_store\<lparr>mem_challenges := c\<rparr>\<rparr>) = (Inr (demo_user, oauthUserLinked), w') \<and>
    mem_users (store w') = [(''u1'', demo_user)]"
  using demo_email [of s]
  by (simp add: Service_resolveOAuthUser_def Service_oauthIdentityUser_def Memory_GetOAuthIdentity_def demo_flow_store_def
      Memory_New_def demo_info_def Service_findOrCreateUser_def Memory_GetByEmail_def Service_checkAutoLink_def
      demo_oauth_config_def Memory_GetPasswordHash_def Service_linkOAuthUser_def draw_NewString_def time_Now_def
      call_now_def call_def Memory_SaveOAuthIdentity_def Memory_requireUser_def demo_user_def time_IsZero_def Let_def)

theorem OAuth_resolve_safe_witness:
  "\<exists>w'. Service_resolveOAuthUser demo_oauth_service demo_oauth ''google'' demo_info (demo_world demo_flow_store) =
      (Inr (demo_user, oauthUserLinked), w') \<and>
    (\<exists>row. map_of (mem_oauthIdentities (store w')) (''google'', ''g-7'') = Some row \<and> OI_UserID row = ''u1'')"
proof -
  obtain w' where r: "Service_resolveOAuthUser demo_oauth_service demo_oauth ''google'' demo_info (demo_world demo_flow_store) =
      (Inr (demo_user, oauthUserLinked), w')"
    using demo_resolve [where s = demo_flow_store and k = 0 and c = "mem_challenges demo_flow_store"] by (auto simp: demo_world_def)
  have "mem_inv (store (demo_world demo_flow_store))" by simp
  from OAuth_resolve_safe [OF this r] r show ?thesis by (auto simp: demo_info_def demo_user_def)
qed

lemma demo_issue:
  assumes "map_of (mem_users (store w)) ''u1'' \<noteq> None" "\<And>n len. \<exists>b. rand_Read w n len = Some b"
  shows "\<exists>pair w'. Service_issueTokens demo_oauth_service ''u1'' email roles '''' w = (Inr pair, w')"
proof -
  obtain b b' where b: "rand_Read w (Suc (tick w)) 16 = Some b" "rand_Read w (Suc (Suc (tick w))) 32 = Some b'"
    using assms(2) by blast
  show ?thesis using assms(1) b
    by (auto simp: Service_issueTokens_def issuer_defs Memory_SaveRefreshToken_def Memory_requireUser_def
      call_now_def call_def time_Now_def Let_def split: option.splits)
qed

lemma resolve_sources:
  "Service_resolveOAuthUser (devService j i l p oa wa) (memOAuth ps cfg) provider info w = (r, w') \<Longrightarrow>
   rand_Read w' = rand_Read w"
  by (auto simp: Service_resolveOAuthUser_def Service_findOrCreateUser_def Service_linkOAuthUser_def
      Service_discardUnlinkedUser_def draw_NewString_def draw_NewV7_def time_Now_def call_now_def call_def Let_def
      split: option.splits sum.splits prod.splits if_splits)

theorem OAuth_callback_bound_witness:
  "\<exists>res w'. Service_OAuthCallback demo_oauth_service demo_callback (demo_world demo_flow_store) = (Inr res, w') \<and>
     (\<exists>ch. mem_chs demo_flow_store ''st'' = Some ch \<and> Ch_BindingHash ch = hex_EncodeToString ''bind'')"
proof -
  let ?w = "(demo_world demo_flow_store)\<lparr>tick := 2, store := demo_flow_store\<lparr>mem_challenges := []\<rparr>\<rparr>"
  have c: "Service_consumeOAuthState demo_oauth_service demo_oauth demo_callback (demo_world demo_flow_store) =
     (Inr demo_state, ?w)"
    by (simp add: Service_consumeOAuthState_def demo_callback_def demo_flow_store_def demo_state_def call_now_def call_def
        time_Now_def Memory_GetChallenge_def Memory_DeleteChallenge_def hashBinding_def Let_def)
  obtain w2 where r: "Service_resolveOAuthUser demo_oauth_service demo_oauth ''google'' demo_info ?w =
      (Inr (demo_user, oauthUserLinked), w2)" "mem_users (store w2) = [(''u1'', demo_user)]"
    using demo_resolve [where s = demo_flow_store and k = 2 and c = "[]"] by blast
  have s: "rand_Read w2 n len = rand_Read ?w n len" for n len using resolve_sources [OF r(1)] by simp
  obtain pair w3 where t: "Service_issueTokens demo_oauth_service ''u1'' ''a@b.co'' [''admin''] '''' w2 = (Inr pair, w3)"
    using demo_issue [of w2 "''a@b.co''" "[''admin'']"] r(2) s by auto
  have ok: "\<exists>res w'. Service_OAuthCallback demo_oauth_service demo_callback (demo_world demo_flow_store) = (Inr res, w')"
    using c r(1) t by (simp add: Service_OAuthCallback_def Service_oauthProvider_def demo_callback_def demo_idp_def
        demo_info_def demo_user_def)
  have "mem_inv (store (demo_world demo_flow_store))" by simp
  with ok OAuth_callback_bound [of "demo_world demo_flow_store"] show ?thesis
    by (fastforce simp: demo_callback_def hashBinding_def)
qed

abbreviation salted_world :: "Store world" where
  "salted_world \<equiv> (demo_world demo_store)\<lparr>sha256 := (\<lambda>s. CHR ''#'' # s)\<rparr>"

theorem OAuth_flow_roundtrip_witness:
  "\<exists>res w1 ch. Service_GetOAuthURL demo_oauth_service ''google'' ''https://app'' salted_world = (Inr res, w1) \<and>
     fst (Service_consumeOAuthState demo_oauth_service demo_oauth \<lparr>OCR_Provider = ''google'', OCR_Code = ''c'',
       OCR_State = OUR_State res, OCR_RedirectURI = ''https://app'', OCR_Binding = OUR_Binding res\<rparr> w1) = Inr ch"
proof -
  obtain res w1 where g: "Service_GetOAuthURL demo_oauth_service ''google'' ''https://app'' salted_world = (Inr res, w1)"
    and w1: "sha256 w1 = sha256 salted_world" "wall w1 = wall salted_world" "tick w1 = 6"
    by (simp add: Service_GetOAuthURL_def Service_oauthProvider_def randomSecret_def draw_bytes_def draw_verifier_def
        time_Now_def call_now_def call_def demo_idp_def Memory_SaveChallenge_def Let_def)
  have h: "mem_inv (store salted_world)" "\<forall>n b. rand_Read salted_world n 32 = Some b \<longrightarrow> length b = 32"
    "\<forall>x. sha256 salted_world x \<noteq> ''''"
    "list_all (\<lambda>op. \<not> disturbs (the (mem_chs (store w1) (OUR_State res))) op) []" "store w1 = run_ops [] (store w1)"
    "''c'' \<noteq> ''''" "wall w1 (tick w1) \<le> wall salted_world (tick salted_world + 4) + OC_StateTTL demo_oauth_config"
    "wall w1 (Suc (tick w1)) < wall salted_world (tick salted_world + 4) + OC_StateTTL demo_oauth_config"
    by (auto simp: w1 demo_oauth_config_def)
  from OAuth_flow_roundtrip [OF h(1) g h(2,3) w1(1) h(4-8)] g show ?thesis by blast
qed

definition demo_late :: User where
  "demo_late = \<lparr>User_ID = ''u2'', User_Email = ''c@d.co'', User_Roles = [], User_CreatedAt = 2, User_UpdatedAt = 2\<rparr>"

definition demo_link :: OAuthIdentity where
  "demo_link = \<lparr>OI_ID = ''i1'', OI_UserID = ''u1'', OI_Provider = ''google'', OI_ExternalID = ''g-7'',
     OI_Email = ''a@b.co'', OI_CreatedAt = 2\<rparr>"

definition demo_race_store :: Store where
  "demo_race_store = Memory_New\<lparr>mem_users := [(''u1'', demo_user), (''u2'', demo_late)],
     mem_usersByEmail := [(''a@b.co'', demo_user), (''c@d.co'', demo_late)],
     mem_oauthIdentities := [((''google'', ''g-7''), demo_link)]\<rparr>"

theorem OAuth_race_loser_witness:
  "\<exists>w'. Service_linkOAuthUser demo_oauth_service demo_oauth ''google'' demo_info ''c@d.co'' demo_late True
       oauthUserCreated (demo_world demo_race_store) = (Inr (demo_user, oauthUserExisting), w') \<and>
     map_of (mem_users (store w')) ''u2'' = None"
proof -
  have "mem_inv (store (demo_world demo_race_store))"
    "map_of (mem_users (store (demo_world demo_race_store))) (User_ID demo_late) = Some demo_late"
    "map_of (mem_oauthIdentities (store (demo_world demo_race_store))) (''google'', Info_ExternalID demo_info) = Some demo_link"
    "OI_UserID demo_link \<noteq> User_ID demo_late"
    "Memory_ListOAuthIdentities (User_ID demo_late) (store (demo_world demo_race_store)) = Inr []"
    by (simp_all add: demo_race_store_def demo_info_def demo_late_def demo_link_def demo_user_def mem_inv_defs
        Memory_New_def map_all_def has_user_def Memory_ListOAuthIdentities_def map_values_def newestFirst_def)
  note r = OAuth_race_loser [OF this, of lax_jose demo_issuer 0 None "Some demo_oauth" None
      "[(''google'', demo_idp)]" demo_oauth_config "''c@d.co''"]
  have "map_of (mem_users (store (demo_world demo_race_store))) (OI_UserID demo_link) = Some demo_user"
    by (simp add: demo_race_store_def demo_link_def)
  with r show ?thesis by (auto simp: demo_late_def)
qed

end
