(* ===== verification/Wallet_Properties.thy ===== *)
theory Wallet_Properties
  imports Memory_Challenges Dev_Session
begin

text \<open>
  Wallet sign-in over the in-memory store: a sign-in proves control of the address by a
  signature over the stored message, spends its challenge, and always reaches the account the
  chain and address are linked to.
\<close>

section \<open>The account of a wallet\<close>

text \<open>What resolving a wallet leaves: the link exists, points to the returned user, and is new
  exactly when the user is.\<close>

lemma dev_resolve_wallet:
  assumes "mem_inv (store w)"
    and "Service_resolveWalletUser (devService j i l p oa wa) (memWallet ps cfg) chain addr w = (Inr (user, isNew), w')"
  shows "mem_inv (store w') \<and> map_of (mem_users (store w')) (User_ID user) = Some user \<and>
    (\<exists>row. map_of (mem_walletIdentities (store w')) (chain, addr) = Some row \<and> WI_UserID row = User_ID user) \<and>
    (isNew \<longleftrightarrow> map_of (mem_walletIdentities (store w)) (chain, addr) = None) \<and>
    (isNew \<longrightarrow> map_of (mem_users (store w)) (User_ID user) = None \<and> User_Email user = '''' \<and>
       map_of (mem_users (store w')) = (map_of (mem_users (store w)))(User_ID user \<mapsto> user)) \<and>
    (\<not> isNew \<longrightarrow> store w' = store w) \<and> mem_challenges (store w') = mem_challenges (store w)"
proof (cases "map_of (mem_walletIdentities (store w)) (chain, addr)")
  case (Some row)
  obtain u where u: "map_of (mem_users (store w)) (WI_UserID row) = Some u" "User_ID u = WI_UserID row"
    using mem_inv_wallet [OF assms(1) Some] mem_inv_user_ID [OF assms(1)] by (auto simp: has_user_def)
  then show ?thesis using assms Some
    by (auto simp: Service_resolveWalletUser_def Service_walletIdentityUser_def Memory_GetWalletIdentity_def
        Memory_GetByID_def)
next
  case None
  obtain uid where uid: "uuid_NewV7 w (tick w) = Some uid"
    using assms(2) None by (auto simp: Service_resolveWalletUser_def Service_walletIdentityUser_def
        Memory_GetWalletIdentity_def draw_NewV7_def split: option.splits)
  let ?u = "\<lparr>User_ID = uid, User_Email = '''', User_Roles = [],
      User_CreatedAt = wall w (Suc (tick w)), User_UpdatedAt = wall w (Suc (tick w))\<rparr>"
  let ?n = "wall w (Suc (Suc (tick w)))"
  let ?s1 = "snd (Memory_Create ?u ?n (store w))"
  have new: "map_of (mem_users (store w)) uid = None"
  proof (rule ccontr)
    assume "map_of (mem_users (store w)) uid \<noteq> None"
    with assms(2) None uid show False
      by (simp add: Service_resolveWalletUser_def Service_walletIdentityUser_def Memory_GetWalletIdentity_def
          draw_NewV7_def time_Now_def call_now_def call_def Memory_Create_err Let_def)
  qed
  have c: "fst (Memory_Create ?u ?n (store w)) = Inr (stamped ?u ?n)" "map_of (mem_users ?s1) uid = Some (stamped ?u ?n)"
    "mem_walletIdentities ?s1 = mem_walletIdentities (store w)" "mem_challenges ?s1 = mem_challenges (store w)"
    "map_of (mem_users ?s1) = (map_of (mem_users (store w)))(uid \<mapsto> stamped ?u ?n)"
    using new by (simp_all add: Memory_Create_ok)
  let ?row = "\<lparr>WI_ID = uuid_NewString w (tick w + 3), WI_UserID = uid, WI_Chain = chain, WI_Address = addr,
      WI_CreatedAt = wall w (Suc (tick w))\<rparr>"
  let ?s2 = "snd (Memory_SaveWalletIdentity ?row (wall w (tick w + 4)) ?s1)"
  have r: "Memory_requireUser uid ?s1 = None" using c(2) by (simp add: requireUser_None has_user_def)
  have d: "fst (Memory_SaveWalletIdentity ?row (wall w (tick w + 4)) ?s1) = Inr ()"
    "\<exists>row. map_of (mem_walletIdentities ?s2) (chain, addr) = Some row \<and> WI_UserID row = uid"
    "mem_users ?s2 = mem_users ?s1" "mem_challenges ?s2 = mem_challenges ?s1"
    using r None c(3) by (simp_all add: Memory_SaveWalletIdentity_def Let_def)
  have "user = stamped ?u ?n \<and> isNew \<and> store w' = ?s2"
    using assms(2) None uid c(1) d(1)
    by (simp add: Service_resolveWalletUser_def Service_walletIdentityUser_def Memory_GetWalletIdentity_def
          draw_NewV7_def draw_NewString_def time_Now_def call_now_def call_def Let_def eval_nat_numeral) auto
  moreover have "mem_inv ?s2" by (intro mem_inv_SaveWalletIdentity mem_inv_Create assms(1))
  ultimately show ?thesis using None new c(2,4,5) d(2-4) by simp
qed

lemma dev_issue_frame:
  assumes "Service_issueTokens (devService j i l p oa wa) u em roles par w = (r, w')"
  shows "mem_inv (store w) \<Longrightarrow> mem_inv (store w')" "mem_users (store w') = mem_users (store w)"
    "mem_walletIdentities (store w') = mem_walletIdentities (store w)" "mem_challenges (store w') = mem_challenges (store w)"
proof -
  obtain n where n: "store w' = store w \<or> (\<exists>t now. store w' = snd (Memory_SaveRefreshToken t now (store w)))"
    using assms by (auto dest!: Issuer_frame(1) simp: Service_issueTokens_def time_Now_def call_now_def call_def Let_def
        split: sum.splits prod.splits) blast+
  then show "mem_inv (store w) \<Longrightarrow> mem_inv (store w')" by (auto intro: mem_inv_SaveRefreshToken)
  have f: "mem_users (snd (Memory_SaveRefreshToken t now s)) = mem_users s"
    "mem_walletIdentities (snd (Memory_SaveRefreshToken t now s)) = mem_walletIdentities s"
    "mem_challenges (snd (Memory_SaveRefreshToken t now s)) = mem_challenges s" for t now s
    by (auto simp: Memory_SaveRefreshToken_def Let_def split: option.splits)
  show "mem_users (store w') = mem_users (store w)"
    "mem_walletIdentities (store w') = mem_walletIdentities (store w)" "mem_challenges (store w') = mem_challenges (store w)"
    using n by (auto simp: f)
qed

section \<open>Signing in\<close>

text \<open>The whole sign-in, taken apart.\<close>

lemma dev_wallet_signin:
  assumes "mem_inv (store w)"
    and "Service_AuthenticateWallet (devService j i l p oa (Some (memWallet ps cfg))) req w = (Inr res, w')"
  obtains pr addr ch user where "map_of ps (WAR_Chain req) = Some pr" "NormalizeAddress pr (WAR_Address req) = Inr addr"
    "mem_chs (store w) (WAR_Nonce req) = Some ch" "Ch_Chain ch = WAR_Chain req" "Ch_Address ch = addr"
    "wall w (Suc (tick w)) < Ch_ExpiresAt ch" "VerifySignature pr addr (Ch_Message ch) (WAR_Signature req) = None"
    "mem_inv (store w')" "mem_chs (store w') = (mem_chs (store w))(WAR_Nonce req := None)"
    "map_of (mem_users (store w')) (WARes_UserID res) = Some user" "WARes_Email res = User_Email user"
    "\<exists>row. map_of (mem_walletIdentities (store w')) (WAR_Chain req, addr) = Some row \<and> WI_UserID row = WARes_UserID res"
    "WARes_IsNewUser res \<longleftrightarrow> map_of (mem_walletIdentities (store w)) (WAR_Chain req, addr) = None"
    "\<not> WARes_IsNewUser res \<Longrightarrow> mem_users (store w') = mem_users (store w) \<and>
      mem_walletIdentities (store w') = mem_walletIdentities (store w)"
proof -
  let ?svc = "devService j i l p oa (Some (memWallet ps cfg))"
  obtain pr addr w1 user isNew w2 pair where
    p: "map_of ps (WAR_Chain req) = Some pr" "NormalizeAddress pr (WAR_Address req) = Inr addr" and
    c: "Service_consumeWalletChallenge ?svc (memWallet ps cfg) pr req addr w = (None, w1)" and
    r: "Service_resolveWalletUser ?svc (memWallet ps cfg) (WAR_Chain req) addr w1 = (Inr (user, isNew), w2)" and
    t: "Service_issueTokens ?svc (User_ID user) (User_Email user) (User_Roles user) '''' w2 = (Inr pair, w')" and
    res: "res = \<lparr>WARes_UserID = User_ID user, WARes_Email = User_Email user, WARes_TokenPair = pair,
      WARes_IsNewUser = isNew\<rparr>"
    using assms(2) by (auto simp: Service_AuthenticateWallet_def Service_walletProvider_def Dispatcher_Provider_def
        split: option.splits sum.splits prod.splits)
  obtain ch where k: "mem_inv (store w1)" "mem_chs (store w) (WAR_Nonce req) = Some ch" "Ch_Chain ch = WAR_Chain req"
    "Ch_Address ch = addr" "VerifySignature pr addr (Ch_Message ch) (WAR_Signature req) = None"
    "wall w (Suc (tick w)) < Ch_ExpiresAt ch" "mem_chs (store w1) = (mem_chs (store w))(WAR_Nonce req := None)"
    using dev_ch.wallet_consume_ok [OF assms(1) memWallet_simps(3) c] by (auto simp: time_Now_def)
  have s: "mem_walletIdentities (store w1) = mem_walletIdentities (store w)" "mem_users (store w1) = mem_users (store w)"
    using c by (auto simp: Service_consumeWalletChallenge_def call_iffs time_Now_def Let_def
        Memory_GetChallenge_def Memory_DeleteChallenge_def split: option.splits prod.splits sum.splits if_splits)
  note x = dev_resolve_wallet [OF k(1) r]
  note f = dev_issue_frame [OF t]
  show ?thesis
    by (rule that [OF p k(2-4) k(6,5)]) (use x f k(7) s res in auto)
qed


text \<open>
  A wallet challenge is single-use. Once a sign-in has consumed a challenge, a later sign-in with
  the same nonce is refused with \<^verbatim>\<open>ErrWalletChallengeInvalid\<close>, whatever signature it carries
  and whatever interleaved requests did in between, unless a later challenge has the same
  128-bit random nonce.
\<close>

theorem Wallet_challenge_single_use:
  assumes "mem_inv (store w)"
    and "Service_AuthenticateWallet (devService j i l p oa (Some (memWallet ps cfg))) req w = (Inr res, w1)"
    and "list_all (\<lambda>op. \<not> saves_nonce (WAR_Nonce req) op) ops" "store w2 = run_ops ops (store w1)"
    and "WAR_Nonce req' = WAR_Nonce req" "map_of ps (WAR_Chain req') = Some pr"
    and "NormalizeAddress pr (WAR_Address req') = Inr addr"
  shows "fst (Service_AuthenticateWallet (devService j i l p oa (Some (memWallet ps cfg))) req' w2) =
    Inl (Sentinel ErrWalletChallengeInvalid)"
proof -
  let ?svc = "devService j i l p oa (Some (memWallet ps cfg))"
  have "mem_inv (store w1) \<and> mem_chs (store w1) (WAR_Nonce req) = None"
    by (rule dev_wallet_signin [OF assms(1,2)]) simp
  then have "mem_chs (store w2) (WAR_Nonce req') = None" using assms(3-5) by (simp add: run_ops_gone)
  from dev_wallet_missing [OF this, of j i l p oa "Some (memWallet ps cfg)" ps cfg pr addr] show ?thesis using assms(6,7)
    by (cases "Service_consumeWalletChallenge ?svc (memWallet ps cfg) pr req' addr w2")
      (simp add: Service_AuthenticateWallet_def Service_walletProvider_def Dispatcher_Provider_def)
qed

section \<open>One wallet, one account\<close>

lemma apply_op_link:
  "mem_inv s \<Longrightarrow> map_of (mem_walletIdentities s) k = Some row \<Longrightarrow> \<not> deletes_user (WI_UserID row) op \<Longrightarrow>
   map_of (mem_walletIdentities (apply_op op s)) k = Some row"
  by (cases op) (auto simp: backend_def Let_def map_of_DeleteFunc mem_inv_def mem_wf_def split: option.splits prod.splits)

lemma run_ops_link:
  "mem_inv s \<Longrightarrow> map_of (mem_walletIdentities s) k = Some row \<Longrightarrow>
   list_all (\<lambda>op. \<not> deletes_user (WI_UserID row) op) ops \<Longrightarrow> map_of (mem_walletIdentities (run_ops ops s)) k = Some row"
  by (induction ops arbitrary: s) (auto simp: apply_op_link mem_inv_apply_op)

text \<open>
  One wallet, one account. As long as the account is not deleted, every later sign-in with the
  same chain and an address with the same normal form reaches the same user, and is not a new one,
  whatever interleaved requests did in between.
\<close>

theorem Wallet_account_stable:
  assumes "mem_inv (store w)"
    and "Service_AuthenticateWallet (devService j i l p oa (Some (memWallet ps cfg))) req w = (Inr res, w1)"
    and "list_all (\<lambda>op. \<not> deletes_user (WARes_UserID res) op) ops" "store w2 = run_ops ops (store w1)"
    and "Service_AuthenticateWallet (devService j i l p oa (Some (memWallet ps cfg))) req' w2 = (Inr res', w3)"
    and "WAR_Chain req' = WAR_Chain req" "map_of ps (WAR_Chain req) = Some pr"
    and "NormalizeAddress pr (WAR_Address req') = NormalizeAddress pr (WAR_Address req)"
  shows "WARes_UserID res' = WARes_UserID res \<and> \<not> WARes_IsNewUser res'"
proof -
  have "\<exists>addr row. mem_inv (store w1) \<and> NormalizeAddress pr (WAR_Address req) = Inr addr \<and>
    map_of (mem_walletIdentities (store w1)) (WAR_Chain req, addr) = Some row \<and> WI_UserID row = WARes_UserID res"
    by (rule dev_wallet_signin [OF assms(1,2)]) (use assms(7) in auto)
  then obtain addr row where 1: "mem_inv (store w1)" "NormalizeAddress pr (WAR_Address req) = Inr addr"
    "map_of (mem_walletIdentities (store w1)) (WAR_Chain req, addr) = Some row" "WI_UserID row = WARes_UserID res"
    by blast
  have 2: "mem_inv (store w2)" "map_of (mem_walletIdentities (store w2)) (WAR_Chain req, addr) = Some row"
    using 1 assms(3,4) by (simp_all add: mem_inv_run_ops run_ops_link)
  show ?thesis
    by (rule dev_wallet_signin [OF 2(1) assms(5)]) (use 1 2 assms(6-8) in auto)
qed

section \<open>Witnesses\<close>

definition demo_chain :: WalletProvider where
  "demo_chain = \<lparr>Chain = ''ethereum'', NormalizeAddress = Inr, BuildMessage = (\<lambda>a n opts. a @ n),
     VerifySignature = (\<lambda>a m sig. if sig = ''sig'' then None else Some (Sentinel EVM_ErrInvalidSignature))\<rparr>"

definition demo_wallet_config :: WalletConfig where
  "demo_wallet_config = \<lparr>WC_Domain = ''app'', WC_URI = ''https://app'', WC_Statement = '''', WC_ChallengeTTL = 5 * minute\<rparr>"

abbreviation demo_wallet :: "Store WalletPart" where
  "demo_wallet \<equiv> memWallet [(''ethereum'', demo_chain)] demo_wallet_config"

abbreviation demo_wallet_service :: "Store Service" where
  "demo_wallet_service \<equiv> devService lax_jose demo_issuer 0 None None (Some demo_wallet)"

definition demo_challenge :: "string \<Rightarrow> Challenge" where
  "demo_challenge n = \<lparr>Ch_Nonce = n, Ch_Message = ''m'', Ch_Chain = ''ethereum'', Ch_Address = ''0xa'', Ch_CodeVerifier = '''',
     Ch_OAuthNonce = '''', Ch_BindingHash = '''', Ch_ExpiresAt = 2 * hour, Ch_CreatedAt = hour\<rparr>"

definition demo_wallet_store :: Store where
  "demo_wallet_store = Memory_New\<lparr>mem_users := [(''u1'', demo_user)], mem_usersByEmail := [(''a@b.co'', demo_user)],
     mem_walletIdentities := [((''ethereum'', ''0xa''), \<lparr>WI_ID = ''w'', WI_UserID = ''u1'', WI_Chain = ''ethereum'',
       WI_Address = ''0xa'', WI_CreatedAt = 1\<rparr>)],
     mem_challenges := [(''n'', demo_challenge ''n''), (''n2'', demo_challenge ''n2'')]\<rparr>"

abbreviation demo_signin :: "string \<Rightarrow> WalletAuthRequest" where
  "demo_signin n \<equiv> \<lparr>WAR_Chain = ''ethereum'', WAR_Address = ''0xa'', WAR_Nonce = n, WAR_Signature = ''sig''\<rparr>"

lemma demo_wallet_inv [simp]: "mem_inv demo_wallet_store"
  by (simp add: mem_inv_defs demo_wallet_store_def Memory_New_def demo_user_def demo_challenge_def map_all_def has_user_def)

lemma demo_wallet_issue:
  assumes "map_of (mem_users (store w)) ''u1'' \<noteq> None" "\<And>n len. \<exists>b. rand_Read w n len = Some b"
  shows "\<exists>pair s n. Service_issueTokens demo_wallet_service ''u1'' email roles '''' w = (Inr pair, w\<lparr>tick := n, store := s\<rparr>)"
proof -
  obtain b b' where b: "rand_Read w (Suc (tick w)) 16 = Some b" "rand_Read w (Suc (Suc (tick w))) 32 = Some b'"
    using assms(2) by blast
  show ?thesis using assms(1) b
    by (auto simp: Service_issueTokens_def issuer_defs Memory_SaveRefreshToken_def Memory_requireUser_def
      call_now_def call_def time_Now_def Let_def split: option.splits)
qed

text \<open>A sign-in with either challenge succeeds.\<close>

lemma demo_wallet_signin:
  assumes "mem_chs (store w) n = Some (demo_challenge n)" "n \<noteq> ''''" "mem_users (store w) = [(''u1'', demo_user)]"
    and "\<exists>i. map_of (mem_walletIdentities (store w)) (''ethereum'', ''0xa'') = Some i \<and> WI_UserID i = ''u1''"
    and "wall w (tick w) < 2 * hour" "wall w (Suc (tick w)) < 2 * hour" "\<And>n len. \<exists>b. rand_Read w n len = Some b"
  shows "\<exists>res s k. Service_AuthenticateWallet demo_wallet_service (demo_signin n) w = (Inr res, w\<lparr>tick := k, store := s\<rparr>) \<and>
    WARes_UserID res = ''u1''"
proof -
  let ?s = "(store w)\<lparr>mem_challenges := map_del n (mem_challenges (store w))\<rparr>"
  let ?w = "w\<lparr>tick := Suc (Suc (tick w)), store := ?s\<rparr>"
  have c: "Service_consumeWalletChallenge demo_wallet_service demo_wallet demo_chain (demo_signin n) ''0xa'' w = (None, ?w)"
    using assms(1,2,5,6) by (simp add: Service_consumeWalletChallenge_def call_now_def call_def time_Now_def
        Memory_GetChallenge_def Memory_DeleteChallenge_def demo_challenge_def demo_chain_def Let_def)
  have r: "Service_resolveWalletUser demo_wallet_service demo_wallet ''ethereum'' ''0xa'' ?w = (Inr (demo_user, False), ?w)"
    using assms(3,4) by (auto simp: Service_resolveWalletUser_def Service_walletIdentityUser_def
        Memory_GetWalletIdentity_def Memory_GetByID_def)
  obtain pair s k where t: "Service_issueTokens demo_wallet_service ''u1'' (User_Email demo_user) (User_Roles demo_user) '''' ?w =
      (Inr pair, ?w\<lparr>tick := k, store := s\<rparr>)"
    using demo_wallet_issue [of ?w "User_Email demo_user" "User_Roles demo_user"] assms(3,7) by auto
  have u: "User_ID demo_user = ''u1''" by (simp add: demo_user_def)
  show ?thesis using c r t u
    by (auto simp: Service_AuthenticateWallet_def Service_walletProvider_def Dispatcher_Provider_def demo_chain_def)
qed

abbreviation demo_wallet_world :: "Store world" where
  "demo_wallet_world \<equiv> demo_world demo_wallet_store"

lemma demo_first_signin:
  "\<exists>res s k. Service_AuthenticateWallet demo_wallet_service (demo_signin ''n'') demo_wallet_world =
     (Inr res, demo_wallet_world\<lparr>tick := k, store := s\<rparr>) \<and> WARes_UserID res = ''u1''"
  by (rule demo_wallet_signin) (simp_all add: demo_wallet_store_def)


theorem Wallet_challenge_single_use_witness:
  "\<exists>res w1. Service_AuthenticateWallet demo_wallet_service (demo_signin ''n'') demo_wallet_world = (Inr res, w1) \<and>
     fst (Service_AuthenticateWallet demo_wallet_service (demo_signin ''n'') w1) = Inl (Sentinel ErrWalletChallengeInvalid)"
proof -
  obtain res w1 where r: "Service_AuthenticateWallet demo_wallet_service (demo_signin ''n'') demo_wallet_world = (Inr res, w1)"
    using demo_first_signin by blast
  have i: "mem_inv (store demo_wallet_world)" by simp
  have "map_of [(''ethereum'', demo_chain)] (WAR_Chain (demo_signin ''n'')) = Some demo_chain"
    "NormalizeAddress demo_chain (WAR_Address (demo_signin ''n'')) = Inr ''0xa''" by (simp_all add: demo_chain_def)
  from Wallet_challenge_single_use [OF i r, of "[]" w1 "demo_signin ''n''", OF _ _ _ this] r show ?thesis by auto
qed

theorem Wallet_account_stable_witness:
  "\<exists>res w1 res' w3. Service_AuthenticateWallet demo_wallet_service (demo_signin ''n'') demo_wallet_world = (Inr res, w1) \<and>
     Service_AuthenticateWallet demo_wallet_service (demo_signin ''n2'') (w1\<lparr>tick := 0\<rparr>) = (Inr res', w3) \<and>
     WARes_UserID res' = WARes_UserID res"
proof -
  obtain res s k where r: "Service_AuthenticateWallet demo_wallet_service (demo_signin ''n'') demo_wallet_world =
      (Inr res, demo_wallet_world\<lparr>tick := k, store := s\<rparr>)" (is "_ = (_, ?w1)")
    using demo_first_signin by blast
  have i: "mem_inv (store demo_wallet_world)" by simp
  have "mem_chs s ''n2'' = Some (demo_challenge ''n2'') \<and> mem_users s = [(''u1'', demo_user)] \<and>
      (\<exists>i. map_of (mem_walletIdentities s) (''ethereum'', ''0xa'') = Some i \<and> WI_UserID i = ''u1'')"
    by (rule dev_wallet_signin [OF i r]) (auto simp: demo_wallet_store_def demo_chain_def)
  then have "\<exists>res' s' k'. Service_AuthenticateWallet demo_wallet_service (demo_signin ''n2'') (?w1\<lparr>tick := 0\<rparr>) =
      (Inr res', ?w1\<lparr>tick := 0, tick := k', store := s'\<rparr>) \<and> WARes_UserID res' = ''u1''"
    by (intro demo_wallet_signin) simp_all  then obtain res' w3 where r2: "Service_AuthenticateWallet demo_wallet_service (demo_signin ''n2'') (?w1\<lparr>tick := 0\<rparr>) = (Inr res', w3)"
    by blast
  have h: "list_all (\<lambda>op. \<not> deletes_user (WARes_UserID res) op) []" "store (?w1\<lparr>tick := 0\<rparr>) = run_ops [] (store ?w1)"
    "WAR_Chain (demo_signin ''n2'') = WAR_Chain (demo_signin ''n'')"
    "map_of [(''ethereum'', demo_chain)] (WAR_Chain (demo_signin ''n'')) = Some demo_chain"
    "NormalizeAddress demo_chain (WAR_Address (demo_signin ''n2'')) = NormalizeAddress demo_chain (WAR_Address (demo_signin ''n''))"
    by simp_all
  from Wallet_account_stable [OF i r h(1,2) r2 h(3-5)] r r2 show ?thesis by blast
qed

end
