(* ===== verification/Account_Port.thy ===== *)
theory Account_Port
  imports Local_Provider
begin

text \<open>
  The contract of \<^verbatim>\<open>UserStore\<close> and \<^verbatim>\<open>CredentialStore\<close> and what the local provider gets
  from it: a registration stores one user with a hash of the password, a failed one is rolled
  back, and an authentication succeeds only for a stored user and a password its hash verifies.
\<close>

text \<open>\<open>users s\<close> is the user table, \<open>hashes s\<close> the table of password hashes by user id. Every
  method may also fail for a reason of its own, without effect.\<close>

locale account_store =
  fixes us :: "'st UserStore" and cs :: "'st CredentialStore"
    and users :: "'st \<Rightarrow> string \<Rightarrow> User option" and hashes :: "'st \<Rightarrow> string \<Rightarrow> string option"
    and ok :: "'st \<Rightarrow> bool"
  assumes create_ok: "ok s \<Longrightarrow> Create us u now s = (Inr v, s') \<Longrightarrow> ok s' \<and> users s (User_ID u) = None \<and>
      User_ID v = User_ID u \<and> User_Email v = User_Email u \<and> User_Roles v = User_Roles u \<and>
      users s' = (users s)(User_ID u \<mapsto> v) \<and> hashes s' = hashes s"
    and create_err: "ok s \<Longrightarrow> Create us u now s = (Inl e, s') \<Longrightarrow>
      ok s' \<and> users s' = users s \<and> hashes s' = hashes s"
    and email_ok: "ok s \<Longrightarrow> GetByEmail us email s = Inr v \<Longrightarrow> users s (User_ID v) = Some v \<and> User_Email v = email"
    and email_missing: "ok s \<Longrightarrow> GetByEmail us email s = Inl e \<Longrightarrow> errors_Is e Store_ErrUserNotFound \<Longrightarrow>
      email \<noteq> '''' \<Longrightarrow> users s k = Some v \<Longrightarrow> User_Email v \<noteq> email"
    and delete_ok: "ok s \<Longrightarrow> Delete us k s = (Inr x, s') \<Longrightarrow>
      ok s' \<and> users s' = (users s)(k := None) \<and> hashes s' = (hashes s)(k := None)"
    and delete_err: "ok s \<Longrightarrow> Delete us k s = (Inl e, s') \<Longrightarrow>
      ok s' \<and> users s' = users s \<and> hashes s' = hashes s"
    and save_ok: "ok s \<Longrightarrow> SavePasswordHash cs k h s = (Inr x, s') \<Longrightarrow>
      ok s' \<and> users s k \<noteq> None \<and> users s' = users s \<and> hashes s' = (hashes s)(k \<mapsto> h)"
    and save_err: "ok s \<Longrightarrow> SavePasswordHash cs k h s = (Inl e, s') \<Longrightarrow>
      ok s' \<and> users s' = users s \<and> hashes s' = hashes s"
    and hash_ok: "ok s \<Longrightarrow> GetPasswordHash cs k s = Inr h \<Longrightarrow> hashes s k = Some h"
    and hash_missing: "ok s \<Longrightarrow> GetPasswordHash cs k s = Inl e \<Longrightarrow> errors_Is e Store_ErrCredentialNotFound \<Longrightarrow>
      hashes s k = None"
    and hash_owned: "ok s \<Longrightarrow> hashes s k = Some h \<Longrightarrow> users s k \<noteq> None"
begin

abbreviation prov :: "'st LocalProvider" where
  "prov \<equiv> \<lparr>lp_userStore = us, lp_credentialStore = cs\<rparr>"

lemma hashPassword_ok:
  "hashPassword pw w = (Inr h, w') \<Longrightarrow> verifyPassword w pw h \<and> w' = w\<lparr>tick := Suc (tick w)\<rparr>"
  by (auto simp: hashPassword_def draw_bytes_def split: option.splits)

lemma generateUserID_frame: "generateUserID w = (uid, w') \<Longrightarrow> \<exists>n. w' = w\<lparr>tick := n\<rparr>"
  by (auto simp: generateUserID_def draw_NewV7_def draw_NewString_def split: option.splits)

lemma register_ok:
  assumes "ok (store w)" "Local_Register prov req w = (Inr ident, w')"
  shows "ok (store w') \<and> Identity_Email ident = RegReq_Email req \<and> RegReq_Email req \<noteq> '''' \<and>
    (\<forall>k v. users (store w) k = Some v \<longrightarrow> User_Email v \<noteq> RegReq_Email req) \<and>
    users (store w) (Identity_UserID ident) = None \<and>
    (\<exists>u. users (store w') = (users (store w))(Identity_UserID ident \<mapsto> u) \<and>
       User_ID u = Identity_UserID ident \<and> User_Email u = RegReq_Email req \<and> User_Roles u = []) \<and>
    (\<exists>h. hashes (store w') = (hashes (store w))(Identity_UserID ident \<mapsto> h) \<and>
       verifyPassword w (RegReq_Password req) h) \<and>
    (\<exists>n s. w' = w\<lparr>tick := n, store := s\<rparr>)"
proof -
  let ?u = "\<lambda>uid. \<lparr>User_ID = uid, User_Email = RegReq_Email req, User_Roles = [], User_CreatedAt = 0, User_UpdatedAt = 0\<rparr>"
  obtain e h w1 uid w2 v s3 x s4 where
    g: "RegReq_Email req \<noteq> ''''" "GetByEmail us (RegReq_Email req) (store w) = Inl e" "errors_Is e Store_ErrUserNotFound" and
    h: "hashPassword (RegReq_Password req) w = (Inr h, w1)" and i: "generateUserID w1 = (uid, w2)" and
    c: "Create us (?u uid) (wall w2 (tick w2)) (store w2) = (Inr v, s3)" and
    s: "SavePasswordHash cs (User_ID v) h s3 = (Inr x, s4)" and
    r: "w' = w2\<lparr>tick := Suc (tick w2), store := s4\<rparr>" "Identity_UserID ident = User_ID v" "Identity_Email ident = User_Email v"
    using assms(2) by (auto simp: Local_Register_def call_iffs Let_def split: sum.splits prod.splits if_splits)
  obtain n where w2: "w2 = w\<lparr>tick := n\<rparr>" "verifyPassword w (RegReq_Password req) h"
    using hashPassword_ok [OF h] generateUserID_frame [OF i] by auto
  then have c': "ok s3" "users (store w) uid = None" "User_ID v = uid" "User_Email v = RegReq_Email req" "User_Roles v = []"
    "users s3 = (users (store w))(uid \<mapsto> v)" "hashes s3 = hashes (store w)"
    using create_ok [of "store w" "?u uid"] c assms(1) by auto
  show ?thesis
    using save_ok [OF c'(1) s] c'(2-7) r w2 g email_missing [OF assms(1) g(2,3,1)] by auto
qed

text \<open>A failed registration leaves both tables as they were, unless the rollback failed too.\<close>

lemma register_err:
  assumes "ok (store w)" "Local_Register prov req w = (Inl e, w')"
  shows "ok (store w') \<and> (users (store w') = users (store w) \<and> hashes (store w') = hashes (store w) \<or>
     (\<exists>k s x. ok s \<and> users s k \<noteq> None \<and> Delete us k s = (Inl x, store w')))"
proof -
  let ?u = "\<lambda>uid. \<lparr>User_ID = uid, User_Email = RegReq_Email req, User_Roles = [], User_CreatedAt = 0, User_UpdatedAt = 0\<rparr>"
  consider "store w' = store w"
    | h w1 uid w2 x where "hashPassword (RegReq_Password req) w = (Inr h, w1)" "generateUserID w1 = (uid, w2)"
        "fst (Create us (?u uid) (wall w2 (tick w2)) (store w2)) = Inl x"
        "store w' = snd (Create us (?u uid) (wall w2 (tick w2)) (store w2))"
    | h w1 uid w2 v s3 x where "hashPassword (RegReq_Password req) w = (Inr h, w1)" "generateUserID w1 = (uid, w2)"
        "Create us (?u uid) (wall w2 (tick w2)) (store w2) = (Inr v, s3)"
        "fst (SavePasswordHash cs (User_ID v) h s3) = Inl x"
        "store w' = snd (Delete us (User_ID v) (snd (SavePasswordHash cs (User_ID v) h s3)))"
    using assms(2)
    by (auto simp: Local_Register_def call_def call_now_iff call_iff hashPassword_def draw_bytes_def Let_def
        split: sum.splits prod.splits option.splits if_splits)
  then show ?thesis
  proof cases
    case 2
    have "store w2 = store w" using hashPassword_ok [OF 2(1)] generateUserID_frame [OF 2(2)] by auto
    then show ?thesis using 2 create_err [OF assms(1)] by (metis prod.collapse)
  next
    case 3
    have "store w2 = store w" using hashPassword_ok [OF 3(1)] generateUserID_frame [OF 3(2)] by auto
    then have c: "ok s3" "users (store w) uid = None" "User_ID v = uid" "users s3 = (users (store w))(uid \<mapsto> v)"
      "hashes s3 = hashes (store w)" using 3 create_ok [OF assms(1), of "?u uid"] by auto
    then have n: "hashes (store w) uid = None" using hash_owned [OF assms(1), of uid] by (cases "hashes (store w) uid") auto
    let ?s4 = "snd (SavePasswordHash cs uid h s3)"
    have s4: "ok ?s4" "users ?s4 = users s3" "hashes ?s4 = hashes s3"
      using 3(4) c(3) save_err [OF c(1), of uid h x ?s4] by (simp_all add: prod_eq_iff)
    show ?thesis
    proof (cases "Delete us uid ?s4")
      case (Pair r s5)
      have w': "store w' = s5" "users ?s4 uid \<noteq> None" using 3(5) c(3,4) s4(2) Pair by simp_all
      show ?thesis
      proof (cases r)
        case (Inl x)
        then show ?thesis using Pair w' s4(1) delete_err [OF s4(1)] by blast
      next
        case (Inr x)
        then show ?thesis using Pair w' s4 c(2,4,5) n delete_ok [OF s4(1)] by (auto simp: fun_eq_iff)
      qed
    qed
  qed (use assms(1) in auto)
qed
lemma authenticate_ok:
  assumes "ok (store w)" "Local_Authenticate prov req w = (Inr ident, w')"
  shows "w' = w \<and> (\<exists>u h. users (store w) (Identity_UserID ident) = Some u \<and> User_Email u = AuthReq_Email req \<and>
    Identity_Email ident = User_Email u \<and> User_ID u = Identity_UserID ident \<and>
    hashes (store w) (Identity_UserID ident) = Some h \<and> verifyPassword w (AuthReq_Password req) h)"
proof -
  obtain u h where "w' = w" "GetByEmail us (AuthReq_Email req) (store w) = Inr u"
    "GetPasswordHash cs (User_ID u) (store w) = Inr h" "verifyPassword w (AuthReq_Password req) h"
    "ident = \<lparr>Identity_UserID = User_ID u, Identity_Email = User_Email u, Identity_Provider = ProviderTypeLocal,
       Identity_Metadata = []\<rparr>"
    using assms(2) by (auto simp: Local_Authenticate_def split: sum.splits if_splits)
  then show ?thesis using email_ok [OF assms(1)] hash_ok [OF assms(1)] by fastforce
qed

end

end
