(* ===== verification/Account_Properties.thy ===== *)
theory Account_Properties
  imports Account_Port Dev_Session
begin

text \<open>
  Password accounts over the in-memory store: registering and logging in, the errors of both,
  and what is stored after a failure.
\<close>

abbreviation mem_userTab :: "Store \<Rightarrow> string \<Rightarrow> User option" where
  "mem_userTab s \<equiv> map_of (mem_users s)"

abbreviation mem_hashTab :: "Store \<Rightarrow> string \<Rightarrow> string option" where
  "mem_hashTab s \<equiv> map_of (mem_passwordHashes s)"

section \<open>The backend keeps the account contract\<close>

lemma Memory_Create_spec:
  assumes "mem_inv s" "Memory_Create u now s = (Inr v, s')"
  shows "mem_inv s' \<and> mem_userTab s (User_ID u) = None \<and> v = stamped u now \<and>
    mem_userTab s' = (mem_userTab s)(User_ID u \<mapsto> v) \<and> mem_passwordHashes s' = mem_passwordHashes s"
proof -
  have "\<not> (mem_userTab s (User_ID u) \<noteq> None \<or> User_Email u \<noteq> '''' \<and> map_of (mem_usersByEmail s) (User_Email u) \<noteq> None)"
    (is "\<not> ?taken")
  proof
    assume ?taken
    from Memory_Create_err [OF this, of now] assms(2) show False by simp
  qed
  then show ?thesis using assms mem_inv_Create [OF assms(1), of u now]
    by (auto simp: Memory_Create_ok fun_eq_iff)
qed

interpretation mem_as: account_store memUserStore memCredentialStore mem_userTab mem_hashTab mem_inv
proof unfold_locales
  fix s u now v s' assume "mem_inv s" "Create memUserStore u now s = (Inr v, s')"
  then show "mem_inv s' \<and> mem_userTab s (User_ID u) = None \<and> User_ID v = User_ID u \<and> User_Email v = User_Email u \<and>
      User_Roles v = User_Roles u \<and> mem_userTab s' = (mem_userTab s)(User_ID u \<mapsto> v) \<and> mem_hashTab s' = mem_hashTab s"
    using Memory_Create_spec [of s u now v s'] by auto
next
  fix s u now e s' assume "mem_inv s" "Create memUserStore u now s = (Inl e, s')"
  then show "mem_inv s' \<and> mem_userTab s' = mem_userTab s \<and> mem_hashTab s' = mem_hashTab s"
    by (auto simp: Memory_Create_def Let_def split: if_splits)
next
  fix s email v assume "mem_inv s" "GetByEmail memUserStore email s = Inr v"
  then show "mem_userTab s (User_ID v) = Some v \<and> User_Email v = email"
    by (auto simp: Memory_GetByEmail_def dest: mem_inv_by_email split: option.splits)
next
  fix s email e k v assume "mem_inv s" "GetByEmail memUserStore email s = Inl e" "email \<noteq> ''''" "mem_userTab s k = Some v"
  then show "User_Email v \<noteq> email"
    using mem_inv_user [of s k v] by (auto simp: Memory_GetByEmail_def split: option.splits)
next
  fix s k x s' assume s: "mem_inv s" and "Delete memUserStore k s = (Inr x, s')"
  then show "mem_inv s' \<and> mem_userTab s' = (mem_userTab s)(k := None) \<and> mem_hashTab s' = (mem_hashTab s)(k := None)"
    using mem_inv_Delete [OF s, of k] by (auto simp: Memory_Delete_def fun_eq_iff split: option.splits)
next
  fix s k e s' assume "mem_inv s" "Delete memUserStore k s = (Inl e, s')"
  then show "mem_inv s' \<and> mem_userTab s' = mem_userTab s \<and> mem_hashTab s' = mem_hashTab s"
    by (auto simp: Memory_Delete_def split: option.splits)
next
  fix s k h x s' assume s: "mem_inv s" and "SavePasswordHash memCredentialStore k h s = (Inr x, s')"
  then show "mem_inv s' \<and> mem_userTab s k \<noteq> None \<and> mem_userTab s' = mem_userTab s \<and> mem_hashTab s' = (mem_hashTab s)(k \<mapsto> h)"
    using mem_inv_SavePasswordHash [OF s, of k h]
    by (auto simp: Memory_SavePasswordHash_def Memory_requireUser_def fun_eq_iff split: option.splits)
next
  fix s k h e s' assume "mem_inv s" "SavePasswordHash memCredentialStore k h s = (Inl e, s')"
  then show "mem_inv s' \<and> mem_userTab s' = mem_userTab s \<and> mem_hashTab s' = mem_hashTab s"
    by (auto simp: Memory_SavePasswordHash_def split: option.splits)
next
  fix s k h assume "mem_inv s" "GetPasswordHash memCredentialStore k s = Inr h"
  then show "mem_hashTab s k = Some h" by (auto simp: Memory_GetPasswordHash_def split: option.splits)
next
  fix s k e assume "mem_inv s" "GetPasswordHash memCredentialStore k s = Inl e"
  then show "mem_hashTab s k = None" by (auto simp: Memory_GetPasswordHash_def split: option.splits)
next
  fix s k h assume "mem_inv s" "mem_hashTab s k = Some h"
  then show "mem_userTab s k \<noteq> None"
    using map_allD [of "\<lambda>u _. has_user s u" "mem_passwordHashes s" k h] by (auto simp: mem_inv_def owned_ok_def has_user_def)
qed

lemma memLocal_prov: "memLocal = \<lparr>lp_userStore = memUserStore, lp_credentialStore = memCredentialStore\<rparr>"
  by (simp add: memLocal_def)

section \<open>Issuing the first tokens\<close>

text \<open>For an existing user a new session fails only when no pair can be generated.\<close>

lemma dev_issue_err:
  assumes "mem_userTab (store w) u \<noteq> None" "Service_issueTokens (devService j i l p oa wa) u em roles '''' w = (Inl e, w')"
  shows "store w' = store w \<and> (\<exists>x. e = Errorf ''generate tokens: %w'' [x])"
  using assms by (auto dest!: Issuer_frame(1) simp: Service_issueTokens_def Memory_SaveRefreshToken_def
      Memory_requireUser_def call_now_iff time_Now_def Let_def split: option.splits sum.splits prod.splits if_splits)

lemma dev_issue_users:
  "Service_issueTokens (devService j i l p oa wa) u em roles par w = (r, w') \<Longrightarrow>
   mem_users (store w') = mem_users (store w) \<and> mem_passwordHashes (store w') = mem_passwordHashes (store w)"
  by (auto dest!: Issuer_frame(1) simp: Service_issueTokens_def Memory_SaveRefreshToken_def
      Memory_requireUser_def call_now_iff time_Now_def Let_def split: option.splits sum.splits prod.splits if_splits)

section \<open>Registration\<close>

text \<open>
  C23. A failed registration leaves no account behind. Over the in-memory store a registration that
  fails either leaves the user and password tables as they were, or failed only in issuing tokens;
  then the error says so and the account it created is complete: the user exists with the
  normalised email and a hash that verifies the password.
\<close>

theorem Register_atomic:
  assumes "mem_inv (store w)" "Service_Register (devService j i l p oa wa) email pw w = (Inl e, w')"
  shows "mem_userTab (store w') = mem_userTab (store w) \<and> mem_hashTab (store w') = mem_hashTab (store w) \<or>
    (\<exists>uid u h x. e = AccountError \<lparr>change_userID = uid, change_created = True, change_linked = False\<rparr>
         (Errorf ''issue tokens: %w'' [Errorf ''generate tokens: %w'' [x]]) \<and>
       mem_userTab (store w') = (mem_userTab (store w))(uid \<mapsto> u) \<and> NormalizeEmail w email = Inr (User_Email u) \<and>
       mem_hashTab (store w') = (mem_hashTab (store w))(uid \<mapsto> h) \<and> verifyPassword w pw h)"
proof -
  consider "store w' = store w"
    | em x w1 where "Local_Register memLocal \<lparr>RegReq_Email = em, RegReq_Password = pw\<rparr> w = (Inl x, w1)" "w' = w1"
    | em ident w1 x where "NormalizeEmail w email = Inr em"
        "Local_Register memLocal \<lparr>RegReq_Email = em, RegReq_Password = pw\<rparr> w = (Inr ident, w1)"
        "Service_issueTokens (devService j i l p oa wa) (Identity_UserID ident) (Identity_Email ident) [] '''' w1 = (Inl x, w')"
        "e = AccountError \<lparr>change_userID = Identity_UserID ident, change_created = True, change_linked = False\<rparr>
           (Errorf ''issue tokens: %w'' [x])"
    using assms(2) by (auto simp: Service_Register_def split: sum.splits prod.splits option.splits if_splits)
  then show ?thesis
  proof cases
    case 2
    show ?thesis using mem_as.register_err [OF assms(1) 2(1) [unfolded memLocal_prov]] 2(2)
      by (auto simp: Memory_Delete_def split: option.splits)
  next
    case 3
    from mem_as.register_ok [OF assms(1) 3(2) [unfolded memLocal_prov]] obtain u h where
      r: "mem_userTab (store w1) = (mem_userTab (store w))(Identity_UserID ident \<mapsto> u)" "User_Email u = em"
        "mem_hashTab (store w1) = (mem_hashTab (store w))(Identity_UserID ident \<mapsto> h)" "verifyPassword w pw h" by auto
    then have "mem_userTab (store w1) (Identity_UserID ident) \<noteq> None" by simp
    from dev_issue_err [OF this 3(3)] show ?thesis using 3(1,4) r by auto
  qed simp
qed

section \<open>Login\<close>

text \<open>What a login needs.\<close>

lemma dev_login_ok:
  assumes "mem_inv (store w)" "Service_Login (devService j i l p oa wa) email pw w = (Inr res, w')"
  shows "\<exists>e u h. NormalizeEmail w email = Inr e \<and> User_Email u = e \<and> LoginResult_Email res = e \<and>
    mem_userTab (store w) (LoginResult_UserID res) = Some u \<and>
    mem_hashTab (store w) (LoginResult_UserID res) = Some h \<and> verifyPassword w pw h \<and>
    Service_issueTokens (devService j i l p oa wa) (LoginResult_UserID res) e (User_Roles u) '''' w =
      (Inr (LoginResult_TokenPair res), w')"
proof -
  obtain e ident u where n: "NormalizeEmail w email = Inr e" and
    a: "Local_Authenticate memLocal \<lparr>AuthReq_Email = e, AuthReq_Password = pw\<rparr> w = (Inr ident, w)" and
    g: "mem_userTab (store w) (Identity_UserID ident) = Some u" and
    t: "Service_issueTokens (devService j i l p oa wa) (Identity_UserID ident) (Identity_Email ident) (User_Roles u) '''' w =
      (Inr (LoginResult_TokenPair res), w')" and
    r: "LoginResult_UserID res = Identity_UserID ident" "LoginResult_Email res = Identity_Email ident"
    using assms(2) by (auto simp: Service_Login_def Memory_GetByID_def Local_Authenticate_def
        split: sum.splits prod.splits option.splits if_splits)
  from mem_as.authenticate_ok [OF assms(1) a [unfolded memLocal_prov]] show ?thesis using n g t r by fastforce
qed


lemma mem_authenticate_err:
  "Local_Authenticate memLocal req w = (Inl e, w') \<Longrightarrow> w' = w \<and> (\<exists>reason uid. e = CredentialsError reason uid)"
  by (auto simp: Local_Authenticate_def memLocal_def Memory_GetByEmail_def Memory_GetPasswordHash_def
      split: option.splits sum.splits if_splits)

text \<open>
  A refused login tells the caller one thing. Over the in-memory store a login fails either
  with an error that matches \<^verbatim>\<open>ErrInvalidCredentials\<close>, the same for an unknown email, a
  wrong password and an account without password, and then nothing is stored; or because no token
  pair could be generated, with an error that names the account.
\<close>

theorem Login_errors:
  assumes "mem_inv (store w)" "Service_Login (devService j i l p oa wa) email pw w = (Inl e, w')"
  shows "store w' = store w \<and> ((\<exists>reason uid. e = CredentialsError reason uid) \<or>
    (\<exists>uid x. e = AccountError (knownAccount uid) (Errorf ''issue tokens: %w'' [Errorf ''generate tokens: %w'' [x]])))"
proof -
  consider reason uid where "e = CredentialsError reason uid" "store w' = store w"
    | em ident u x where "Local_Authenticate memLocal \<lparr>AuthReq_Email = em, AuthReq_Password = pw\<rparr> w = (Inr ident, w)"
        "mem_userTab (store w) (Identity_UserID ident) = Some u"
        "Service_issueTokens (devService j i l p oa wa) (Identity_UserID ident) (Identity_Email ident) (User_Roles u) '''' w =
          (Inl x, w')" "e = AccountError (knownAccount (Identity_UserID ident)) (Errorf ''issue tokens: %w'' [x])"
  proof (cases "NormalizeEmail w email")
    case (Inl x)
    then show ?thesis using assms(2) by (intro that(1)) (auto simp: Service_Login_def)
  next
    case (Inr em)
    let ?req = "\<lparr>AuthReq_Email = em, AuthReq_Password = pw\<rparr>"
    show ?thesis
    proof (cases "Local_Authenticate memLocal ?req w")
      case (Pair r w1)
      show ?thesis
      proof (cases r)
        case err: (Inl x)
        then obtain reason uid where "w1 = w" "x = CredentialsError reason uid"
          using mem_authenticate_err [of ?req w x w1] Pair by auto
        then show ?thesis using assms(2) Inr Pair err by (intro that(1)) (auto simp: Service_Login_def)
      next
        case ok: (Inr ident)
        obtain u where u: "w1 = w" "mem_userTab (store w) (Identity_UserID ident) = Some u"
          using mem_as.authenticate_ok [OF assms(1) Pair [unfolded ok memLocal_prov]] by auto
        then obtain x where "Service_issueTokens (devService j i l p oa wa) (Identity_UserID ident) (Identity_Email ident)
            (User_Roles u) '''' w = (Inl x, w')"
          "e = AccountError (knownAccount (Identity_UserID ident)) (Errorf ''issue tokens: %w'' [x])"
          using assms(2) Inr Pair ok by (auto simp: Service_Login_def Memory_GetByID_def split: sum.splits prod.splits)
        then show ?thesis using that(2) [of em ident u x] Pair ok u by simp
      qed
    qed
  qed
  then show ?thesis
  proof cases
    case 2
    then show ?thesis using dev_issue_err [OF _ 2(3)] by auto
  qed auto
qed

section \<open>Registering, then logging in\<close>

fun sets_password :: "string \<Rightarrow> mem_op \<Rightarrow> bool" where
  "sets_password u (OpSavePasswordHash uid _) = (uid = u)"
| "sets_password u _ = False"

lemma apply_op_account:
  "mem_inv s \<Longrightarrow> mem_userTab s k = Some u \<Longrightarrow> \<not> deletes_user k op \<Longrightarrow> mem_userTab (apply_op op s) k = Some u"
  "mem_inv s \<Longrightarrow> mem_hashTab s k = Some h \<Longrightarrow> \<not> deletes_user k op \<Longrightarrow> \<not> sets_password k op \<Longrightarrow>
   mem_hashTab (apply_op op s) k = Some h"
  by (cases op; auto simp: backend_def Let_def split: option.splits prod.splits)+

lemma run_ops_account:
  "mem_inv s \<Longrightarrow> mem_userTab s k = Some u \<Longrightarrow> mem_hashTab s k = Some h \<Longrightarrow>
   list_all (\<lambda>op. \<not> deletes_user k op \<and> \<not> sets_password k op) ops \<Longrightarrow>
   mem_userTab (run_ops ops s) k = Some u \<and> mem_hashTab (run_ops ops s) k = Some h"
  by (induction ops arbitrary: s) (auto simp: apply_op_account mem_inv_apply_op)

lemma verifyPassword_cong: "argon2_IDKey w' = argon2_IDKey w \<Longrightarrow> verifyPassword w' = verifyPassword w"
  by (simp add: verifyPassword_def derive_def fun_eq_iff Let_def split: option.split)

lemma dev_Register_ok:
  assumes "mem_inv (store w)" "Service_Register (devService j i l p oa wa) email pw w = (Inr reg, w')"
  shows "\<exists>u h. mem_inv (store w') \<and> NormalizeEmail w email = Inr (User_Email u) \<and> User_ID u = RegResult_UserID reg \<and>
    pw \<noteq> '''' \<and> mem_userTab (store w') (RegResult_UserID reg) = Some u \<and>
    mem_hashTab (store w') (RegResult_UserID reg) = Some h \<and> verifyPassword w pw h"
proof -
  obtain em ident w1 where n: "NormalizeEmail w email = Inr em" and
    r: "Local_Register memLocal \<lparr>RegReq_Email = em, RegReq_Password = pw\<rparr> w = (Inr ident, w1)" and
    t: "Service_issueTokens (devService j i l p oa wa) (Identity_UserID ident) (Identity_Email ident) [] '''' w1 =
      (Inr (RegResult_TokenPair reg), w')" and i: "RegResult_UserID reg = Identity_UserID ident"
    using assms(2) by (auto simp: Service_Register_def split: sum.splits prod.splits option.splits if_splits)
  from mem_as.register_ok [OF assms(1) r [unfolded memLocal_prov]] obtain u h where
    k: "mem_inv (store w1)" "mem_userTab (store w1) (Identity_UserID ident) = Some u" "User_Email u = em"
      "User_ID u = Identity_UserID ident" "mem_hashTab (store w1) (Identity_UserID ident) = Some h" "verifyPassword w pw h" by auto
  have "mem_inv (store w')" by (rule dev.issue_ok [OF k(1) t])
  moreover have "pw \<noteq> ''''" using r by (auto simp: Local_Register_def split: if_splits)
  ultimately show ?thesis using k n i dev_issue_users [OF t] by auto
qed

text \<open>
  C25. Who registers can log in. After a registration, a login with the same password and any email
  of the same normal form is never refused for its credentials: it signs in to the registered user,
  or fails only because no token pair could be generated, whatever interleaved requests did in
  between except deleting the account or changing its password.
\<close>

theorem Register_then_Login:
  assumes "mem_inv (store w)" "Service_Register (devService j i l p oa wa) email pw w = (Inr reg, w1)"
    and "list_all (\<lambda>op. \<not> deletes_user (RegResult_UserID reg) op \<and> \<not> sets_password (RegResult_UserID reg) op) ops"
    and "store w2 = run_ops ops (store w1)" "argon2_IDKey w2 = argon2_IDKey w"
    and "NormalizeEmail w2 email' = NormalizeEmail w email"
  shows "case fst (Service_Login (devService j i l p oa wa) email' pw w2) of
      Inr res \<Rightarrow> LoginResult_UserID res = RegResult_UserID reg
    | Inl e \<Rightarrow> \<exists>x. e = AccountError (knownAccount (RegResult_UserID reg))
        (Errorf ''issue tokens: %w'' [Errorf ''generate tokens: %w'' [x]])"
proof -
  obtain u h where 1: "mem_inv (store w1)" "NormalizeEmail w email = Inr (User_Email u)" "User_ID u = RegResult_UserID reg"
    "pw \<noteq> ''''" "mem_userTab (store w1) (RegResult_UserID reg) = Some u" "mem_hashTab (store w1) (RegResult_UserID reg) = Some h"
    "verifyPassword w pw h" using dev_Register_ok [OF assms(1,2)] by blast
  have 2: "mem_inv (store w2)" "mem_userTab (store w2) (User_ID u) = Some u" "mem_hashTab (store w2) (User_ID u) = Some h"
    unfolding 1(3) assms(4) using run_ops_account [OF 1(1,5,6) assms(3)] mem_inv_run_ops [OF 1(1)] by blast+
  have e: "User_Email u \<noteq> ''''" using 1(2) NormalizeEmail_cases [of w email] by auto
  have ix: "map_of (mem_usersByEmail (store w2)) (User_Email u) = Some u" using mem_inv_user [OF 2(1,2)] e by simp
  have v: "verifyPassword w2 pw h" using 1(7) verifyPassword_cong [OF assms(5)] by simp
  have a: "Local_Authenticate memLocal \<lparr>AuthReq_Email = User_Email u, AuthReq_Password = pw\<rparr> w2 =
    (Inr \<lparr>Identity_UserID = User_ID u, Identity_Email = User_Email u, Identity_Provider = ProviderTypeLocal,
       Identity_Metadata = []\<rparr>, w2)"
    using 1(4) 2(3) ix v e
    by (simp add: Local_Authenticate_def memLocal_def Memory_GetByEmail_def Memory_GetPasswordHash_def)
  show ?thesis
  proof (cases "Service_issueTokens (devService j i l p oa wa) (User_ID u) (User_Email u) (User_Roles u) [] w2")
    case (Pair r w3)
    have "fst (Service_Login (devService j i l p oa wa) email' pw w2) =
      (case r of Inl err \<Rightarrow> Inl (AccountError (knownAccount (User_ID u)) (Errorf ''issue tokens: %w'' [err]))
       | Inr pair \<Rightarrow> Inr \<lparr>LoginResult_UserID = User_ID u, LoginResult_Email = User_Email u, LoginResult_TokenPair = pair\<rparr>)"
      using Pair a 1(2) 2(2) assms(6) by (cases r) (simp_all add: Service_Login_def Memory_GetByID_def)
    moreover have "\<exists>x. err = Errorf ''generate tokens: %w'' [x]" if "r = Inl err" for err
      using dev_issue_err [OF _ Pair [unfolded that]] 2(2) by simp
    ultimately show ?thesis using 1(3) by (cases r) auto
  qed
qed

section \<open>Witnesses\<close>

definition demo_hash :: string where
  "demo_hash = encodeHash ''salt'' (''salt'' @ ''password'')"

definition demo_login_store :: Store where
  "demo_login_store = demo_store\<lparr>mem_passwordHashes := [(''u1'', demo_hash)]\<rparr>"

lemma demo_login_inv [simp]: "mem_inv demo_login_store"
  by (simp add: demo_login_store_def mem_inv_defs demo_store_def Memory_New_def demo_user_def demo_token_def map_all_def
      has_user_def)

lemma demo_verify [simp]: "verifyPassword (demo_world s) pw demo_hash \<longleftrightarrow> pw = ''password''"
  by (auto simp: demo_hash_def derive_def)

lemma demo_authenticate:
  "Local_Authenticate memLocal \<lparr>AuthReq_Email = ''a@b.co'', AuthReq_Password = pw\<rparr> (demo_world demo_login_store) =
    (if pw = '''' then (Inl (CredentialsError ReasonMalformedCredentials ''''), demo_world demo_login_store)
     else if pw \<noteq> ''password'' then (Inl (CredentialsError ReasonBadPassword ''u1''), demo_world demo_login_store)
     else (Inr \<lparr>Identity_UserID = ''u1'', Identity_Email = ''a@b.co'', Identity_Provider = ProviderTypeLocal,
       Identity_Metadata = []\<rparr>, demo_world demo_login_store))"
  by (simp add: Local_Authenticate_def memLocal_def Memory_GetByEmail_def Memory_GetPasswordHash_def demo_login_store_def
      demo_store_def demo_user_def)

lemma demo_login:
  "\<exists>res w'. Service_Login demo_service ''a@b.co'' ''password'' (demo_world demo_login_store) = (Inr res, w') \<and>
     LoginResult_UserID res = ''u1''"
  by (simp add: Service_Login_def demo_email demo_authenticate Memory_GetByID_def)
    (simp add: demo_login_store_def demo_store_def demo_user_def Service_issueTokens_def issuer_defs
      Memory_SaveRefreshToken_def Memory_requireUser_def time_IsZero_def)


theorem Login_errors_witness:
  "\<exists>e w'. Service_Login demo_service ''a@b.co'' ''guess'' (demo_world demo_login_store) = (Inl e, w') \<and>
     errors_Is e ErrInvalidCredentials \<and> store w' = demo_login_store"
proof -
  have r: "Service_Login demo_service ''a@b.co'' ''guess'' (demo_world demo_login_store) =
      (Inl (CredentialsError ReasonBadPassword ''u1''), demo_world demo_login_store)"
    by (simp add: Service_Login_def demo_email demo_authenticate)
  have "mem_inv (store (demo_world demo_login_store))" by simp
  from Login_errors [OF this r] r show ?thesis by simp
qed

lemma demo_register:
  "\<exists>reg n s. Service_Register demo_service ''a@b.co'' ''password'' (demo_world Memory_New) =
     (Inr reg, (demo_world Memory_New)\<lparr>tick := n, store := s\<rparr>)"
proof -
  have v: "ValidatePassword ''password'' = None"
    by (simp add: ValidatePassword_def utf8_RuneCountInString_def runes_ascii ascii_def MinPasswordLength_def MaxPasswordLength_def)
  show ?thesis
    by (simp add: Service_Register_def demo_email v Local_Register_def memLocal_def hashPassword_def generateUserID_def
        Memory_GetByEmail_def Memory_New_def Memory_Create_def Memory_SavePasswordHash_def Memory_requireUser_def
        Service_issueTokens_def issuer_defs Memory_SaveRefreshToken_def time_IsZero_def) blast
qed

theorem Register_then_Login_witness:
  "\<exists>reg w1. Service_Register demo_service ''a@b.co'' ''password'' (demo_world Memory_New) = (Inr reg, w1) \<and>
     (case fst (Service_Login demo_service ''a@b.co'' ''password'' w1) of
        Inr res \<Rightarrow> LoginResult_UserID res = RegResult_UserID reg
      | Inl e \<Rightarrow> (\<exists>c x. e = AccountError c x))"
proof -
  obtain reg n s where r: "Service_Register demo_service ''a@b.co'' ''password'' (demo_world Memory_New) =
     (Inr reg, (demo_world Memory_New)\<lparr>tick := n, store := s\<rparr>)" (is "_ = (_, ?w1)") using demo_register by blast
  have h: "mem_inv (store (demo_world Memory_New))" "store ?w1 = run_ops [] (store ?w1)"
    "argon2_IDKey ?w1 = argon2_IDKey (demo_world Memory_New)"
    "NormalizeEmail ?w1 ''a@b.co'' = NormalizeEmail (demo_world Memory_New) ''a@b.co''"
    by (simp_all add: mem_inv_New)
  from Register_then_Login [OF h(1) r _ h(2-4)] r show ?thesis
    by (intro exI [of _ reg] exI [of _ ?w1] conjI) (auto split: sum.splits)
qed

theorem Register_atomic_witness:
  "\<exists>e w'. Service_Register demo_service ''bad'' ''password'' (demo_world demo_login_store) = (Inl e, w') \<and>
     mem_userTab (store w') ''u1'' = Some demo_user"
proof -
  have n: "NormalizeEmail (demo_world s) ''bad'' = Inl (Sentinel ErrInvalidEmail)" for s
    by (simp add: NormalizeEmail_def TrimSpace_ascii ToLower_ascii ascii_def sp_def unicode_IsSpace_def)
  have r: "Service_Register demo_service ''bad'' ''password'' (demo_world demo_login_store) =
      (Inl (Errorf ''validate email: %w'' [Sentinel ErrInvalidEmail]), demo_world demo_login_store)"
    by (simp add: Service_Register_def n)
  have "mem_inv (store (demo_world demo_login_store))" by simp
  from Register_atomic [OF this r] r show ?thesis by (simp add: demo_login_store_def demo_store_def)
qed

end
