(* ===== verification/PAT_Properties.thy ===== *)
theory PAT_Properties
  imports Dev_Session
begin

text \<open>
  Personal access tokens and token verification over the in-memory store: what a created token
  is, that it verifies until it expires or is revoked, and that every refusal is a credentials
  error.
\<close>

abbreviation mem_patTab :: "Store \<Rightarrow> string \<Rightarrow> PersonalAccessToken option" where
  "mem_patTab s \<equiv> map_of (mem_pats s)"

text \<open>The configuration after the defaults of \<^verbatim>\<open>WithPAT\<close>.\<close>

definition patDefaults :: "PATConfig \<Rightarrow> PATConfig" where
  "patDefaults cfg = cfg\<lparr>
     PC_MaxPerUser := (if PC_MaxPerUser cfg = 0 then 50 else PC_MaxPerUser cfg),
     PC_TouchInterval := (if PC_TouchInterval cfg = 0 then minute else PC_TouchInterval cfg)\<rparr>"

lemma dev_patConfig [simp]: "svc_patConfig (devService j i l (Some cfg) oa wa) = patDefaults cfg"
  by (cases cfg) (simp add: devService_def NewService_def devOptions_def WithRefreshReuseLeeway_def WithPAT_def
      ProviderTypeLocal_def Let_def DefaultPATMaxPerUser_def DefaultPATTouchInterval_def patDefaults_def split: option.split)

section \<open>Creation\<close>

text \<open>The expiry rules, as a predicate.\<close>

definition expiry_allowed :: "duration \<Rightarrow> time \<Rightarrow> time option \<Rightarrow> bool" where
  "expiry_allowed maxTTL now expiresAt \<longleftrightarrow>
    (case expiresAt of
       None \<Rightarrow> maxTTL \<le> 0
     | Some e \<Rightarrow> now < e \<and> (0 < maxTTL \<longrightarrow> time_Sub e now \<le> maxTTL))"

lemma patExpiryError_None: "patExpiryError cfg now e = None \<longleftrightarrow> expiry_allowed (PC_MaxTTL cfg) now e"
  by (auto simp: patExpiryError_def expiry_allowed_def split: option.splits)

lemma savePATLocked_ok:
  "Memory_savePATLocked pat now s = (Inr pat', s') \<Longrightarrow>
   mem_patTab s (PAT_Hash pat) = None \<and> mem_patTab s' = (mem_patTab s)(PAT_Hash pat \<mapsto> pat') \<and>
   pat' = pat\<lparr>PAT_CreatedAt := (if time_IsZero (PAT_CreatedAt pat) then now else PAT_CreatedAt pat)\<rparr>"
  by (cases pat) (auto simp: Memory_savePATLocked_def Let_def fun_eq_iff split: if_splits)

lemma SavePAT_ok:
  assumes "mem_inv s" "Memory_SavePAT pat now s = (Inr pat', s') \<or> Memory_SavePATLimited pat limit at now s = (Inr pat', s')"
  shows "\<exists>c. pat' = pat\<lparr>PAT_CreatedAt := c\<rparr> \<and> mem_patTab s' (PAT_Hash pat) = Some pat' \<and> mem_inv s'"
proof -
  have "mem_inv s'" using assms(2) mem_inv_SavePAT [OF assms(1), of pat now]
      mem_inv_SavePATLimited [OF assms(1), of pat limit at now] by auto
  moreover obtain s1 where "Memory_savePATLocked pat now s1 = (Inr pat', s')"
    using assms(2) by (auto simp: Memory_SavePAT_def Memory_SavePATLimited_def Let_def split: option.splits if_splits)
  moreover have "pat' = pat\<lparr>PAT_CreatedAt := PAT_CreatedAt pat'\<rparr>" "mem_patTab s' (PAT_Hash pat) = Some pat'"
    if "Memory_savePATLocked pat now s1 = (Inr pat', s')" for s1
    using savePATLocked_ok [OF that] by auto
  ultimately show ?thesis by blast
qed

lemma SavePATLimited_count:
  assumes "Memory_SavePATLimited pat limit at now s = (Inr pat', s')" "0 < limit"
  shows "int (length (user_pats (PAT_UserID pat) s')) \<le> limit"
proof -
  let ?m = "maps_DeleteFunc (\<lambda>p. PAT_UserID p = PAT_UserID pat \<and> patExpired at p) (mem_pats s)"
  have c: "length (filter (\<lambda>p. PAT_UserID p = PAT_UserID pat) (map_values ?m)) =
      length (filter (\<lambda>p. PAT_UserID p = PAT_UserID pat \<and> \<not> patExpired at p) (map_values (mem_pats s)))"
    by (simp add: user_pats_DeleteFunc cong: conj_cong)
  show ?thesis using assms c
    by (auto simp: Memory_SavePATLimited_def Memory_savePATLocked_def Let_def user_pats_def user_pats_set
        split: option.splits if_splits)
qed

lemma dev_CreatePAT_ok:
  assumes "mem_inv (store w)" "Service_CreatePAT (devService j i l (Some cfg) oa wa) uid name scopes expires w = (Inr res, w')"
  obtains b c iid n s where "rand_Read w (Suc (tick w)) 32 = Some b"
    "PATResult_Plaintext res = PATPrefix @ b64_encode True b"
    "PATResult_Token res = \<lparr>PAT_ID = iid, PAT_Hash = HashToken w (PATResult_Plaintext res), PAT_UserID = uid,
       PAT_Name = strings_TrimSpace name, PAT_Scopes = scopes, PAT_ExpiresAt = expires, PAT_LastUsedAt = None,
       PAT_CreatedAt = c\<rparr>"
    "strings_TrimSpace name \<noteq> ''''" "length (strings_TrimSpace name) \<le> maxPATNameLength"
    "expiry_allowed (PC_MaxTTL cfg) (wall w (tick w)) expires"
    "mem_patTab (store w') (PAT_Hash (PATResult_Token res)) = Some (PATResult_Token res)" "mem_inv (store w')"
    "0 < PC_MaxPerUser (patDefaults cfg) \<longrightarrow> int (length (user_pats uid (store w'))) \<le> PC_MaxPerUser (patDefaults cfg)"
    "w' = w\<lparr>tick := n, store := s\<rparr>"
proof -
  let ?c = "patDefaults cfg"
  have tt: "PC_MaxTTL ?c = PC_MaxTTL cfg" by (simp add: patDefaults_def)
  let ?pat = "\<lambda>b. \<lparr>PAT_ID = uuid_NewString w (tick w + 2), PAT_Hash = HashToken w (PATPrefix @ b64_encode True b),
       PAT_UserID = uid, PAT_Name = strings_TrimSpace name, PAT_Scopes = scopes, PAT_ExpiresAt = expires,
       PAT_LastUsedAt = None, PAT_CreatedAt = wall w (tick w)\<rparr>"
  obtain b pat' s where b: "rand_Read w (Suc (tick w)) 32 = Some b" and
    n: "strings_TrimSpace name \<noteq> ''''" "length (strings_TrimSpace name) \<le> maxPATNameLength" and
    e: "patExpiryError ?c (wall w (tick w)) expires = None" and
    s: "if 0 < PC_MaxPerUser ?c
        then Memory_SavePATLimited (?pat b) (PC_MaxPerUser ?c) (wall w (tick w)) (wall w (tick w + 3)) (store w) = (Inr pat', s)
        else Memory_SavePAT (?pat b) (wall w (tick w + 3)) (store w) = (Inr pat', s)" and
    r: "PATResult_Plaintext res = PATPrefix @ b64_encode True b" "PATResult_Token res = pat'" "w' = w\<lparr>tick := tick w + 4, store := s\<rparr>"
    using assms(2) by (auto simp: Service_CreatePAT_def GeneratePAT_def draw_bytes_def draw_NewString_def time_Now_def call_now_iff
        Let_def eval_nat_numeral split: option.splits prod.splits sum.splits if_splits)
  obtain c where k: "pat' = (?pat b)\<lparr>PAT_CreatedAt := c\<rparr>" "mem_patTab s (PAT_Hash (?pat b)) = Some pat'" "mem_inv s"
    using SavePAT_ok [OF assms(1), of "?pat b" "wall w (tick w + 3)" pat' s] s by (auto split: if_splits)
  have "int (length (user_pats uid s)) \<le> PC_MaxPerUser ?c" if "0 < PC_MaxPerUser ?c"
    using s that SavePATLimited_count [of "?pat b"] by simp
  then show ?thesis using that [where b = b and c = c and iid = "uuid_NewString w (tick w + 2)" and n = "tick w + 4" and s = s] b r n e k
    by (simp add: patExpiryError_None tt)
qed

text \<open>
  C30. What a created personal access token is. It belongs to the caller, carries the trimmed
  non-empty name of at most 100 bytes, the requested scopes and expiry; the expiry is in the future
  and within the configured maximum, and required when there is one; the plaintext has the
  \<^verbatim>\<open>psn_\<close> prefix and only its hash is stored; and the user's stored tokens are at most the
  configured limit.
\<close>

theorem CreatePAT_sound:
  assumes "mem_inv (store w)" "Service_CreatePAT (devService j i l (Some cfg) oa wa) uid name scopes expires w = (Inr res, w')"
  shows "PAT_UserID (PATResult_Token res) = uid \<and> PAT_Name (PATResult_Token res) = strings_TrimSpace name \<and>
    PAT_Name (PATResult_Token res) \<noteq> '''' \<and> length (PAT_Name (PATResult_Token res)) \<le> 100 \<and>
    PAT_Scopes (PATResult_Token res) = scopes \<and> PAT_ExpiresAt (PATResult_Token res) = expires \<and>
    expiry_allowed (PC_MaxTTL cfg) (wall w (tick w)) expires \<and>
    strings_HasPrefix (PATResult_Plaintext res) ''psn_'' \<and>
    PAT_Hash (PATResult_Token res) = HashToken w (PATResult_Plaintext res) \<and>
    mem_patTab (store w') (HashToken w (PATResult_Plaintext res)) = Some (PATResult_Token res) \<and>
    (0 < PC_MaxPerUser (patDefaults cfg) \<longrightarrow>
      int (length (user_pats uid (store w'))) \<le> PC_MaxPerUser (patDefaults cfg))"
  by (rule dev_CreatePAT_ok [OF assms])
    (auto simp: maxPATNameLength_def strings_HasPrefix_def PATPrefix_def)

section \<open>Verification\<close>

lemma Memory_TouchPAT_spec:
  "fst (Memory_TouchPAT h t s) = Inr ()"
  "mem_patTab (snd (Memory_TouchPAT h t s)) =
     (mem_patTab s)(h := map_option (\<lambda>p. p\<lparr>PAT_LastUsedAt := Some t\<rparr>) (mem_patTab s h))"
  "mem_users (snd (Memory_TouchPAT h t s)) = mem_users s"
  by (auto simp: Memory_TouchPAT_def fun_eq_iff split: option.splits)

text \<open>\<open>used_since p q\<close>: \<open>q\<close> is \<open>p\<close>, perhaps with a newer last use.\<close>

definition used_since :: "PersonalAccessToken \<Rightarrow> PersonalAccessToken \<Rightarrow> bool" where
  "used_since p q \<longleftrightarrow> (\<exists>t. q = p\<lparr>PAT_LastUsedAt := t\<rparr>)"

lemma used_since_refl [simp]: "used_since p p"
  unfolding used_since_def by (rule exI [of _ "PAT_LastUsedAt p"]) simp

lemma used_since_touch: "used_since p q \<Longrightarrow> used_since p (q\<lparr>PAT_LastUsedAt := t\<rparr>)"
  by (auto simp: used_since_def)

lemma used_since_fields:
  "used_since p q \<Longrightarrow> PAT_ExpiresAt q = PAT_ExpiresAt p \<and> PAT_UserID q = PAT_UserID p \<and> PAT_Hash q = PAT_Hash p \<and>
     PAT_ID q = PAT_ID p \<and> patExpired at q = patExpired at p"
  by (auto simp: used_since_def patExpired_def)

text \<open>Touching writes nothing but the last use of that token.\<close>

lemma touchPAT_frame:
  "\<exists>n t. Service_touchPAT svc memPATStore pat w = w\<lparr>tick := n\<rparr> \<or>
     Service_touchPAT svc memPATStore pat w = w\<lparr>tick := n, store := snd (Memory_TouchPAT (PAT_Hash pat) t (store w))\<rparr>"
  by (auto simp: Service_touchPAT_def time_Now_def call_def Let_def split: option.splits)

text \<open>The decision of \<^verbatim>\<open>verifyPAT\<close> over the in-memory store.\<close>

lemma dev_verifyPAT:
  assumes "mem_inv (store w)"
  shows "fst (Service_verifyPAT (devService j i l p oa wa) tok w) =
    (if p = None then Inl (Sentinel ErrInvalidCredentials)
     else case mem_patTab (store w) (HashToken w tok) of
       None \<Rightarrow> Inl (Errorf ''%w: %w'' [Sentinel ErrInvalidCredentials, Sentinel Store_ErrTokenNotFound])
     | Some pat \<Rightarrow>
         if patExpired (wall w (tick w)) pat
         then Inl (Errorf ''%w: %w'' [Sentinel ErrInvalidCredentials, Sentinel ErrTokenExpired])
         else (let u = the (map_of (mem_users (store w)) (PAT_UserID pat)) in
           Inr \<lparr>Claims_UserID = User_ID u, Claims_Email = User_Email u, Claims_Roles = User_Roles u,
             Claims_Issuer = JWTIssuer, Claims_Exp = 0, Claims_Iat = 0\<rparr>))"
proof (cases "p = None \<or> mem_patTab (store w) (HashToken w tok) = None")
  case True
  then show ?thesis
    by (cases p) (auto simp: Service_verifyPAT_def Memory_GetPAT_def)
next
  case False
  then obtain cfg pat where p: "p = Some cfg" "mem_patTab (store w) (HashToken w tok) = Some pat" by auto
  obtain u where u: "map_of (mem_users (store w)) (PAT_UserID pat) = Some u"
    using mem_inv_pat [OF assms p(2)] by (auto simp: has_user_def)
  show ?thesis
    using p u by (auto simp: Service_verifyPAT_def Memory_GetPAT_def Memory_GetByID_def patExpired_def time_Now_def Let_def
        split: option.splits)
qed

text \<open>
  Every refused access token is a credentials error. Over the in-memory store, verifying a
  JWT or a personal access token fails only with an error that matches
  \<^verbatim>\<open>ErrInvalidCredentials\<close>, and a refusal stores nothing.
\<close>

theorem Verify_errors:
  assumes "mem_inv (store w)" "Service_Verify (devService j i l p oa wa) tok w = (Inl e, w')"
  shows "errors_Is e ErrInvalidCredentials \<and> store w' = store w"
proof (cases "strings_HasPrefix tok PATPrefix")
  case True
  then have v: "Service_verifyPAT (devService j i l p oa wa) tok w = (Inl e, w')"
    using assms(2) by (simp add: Service_Verify_def)
  have "errors_Is e ErrInvalidCredentials"
    using dev_verifyPAT [OF assms(1), of j i l p oa wa tok] v by (auto simp: Let_def split: option.splits if_splits)
  moreover have "store w' = store w"
    using v by (auto simp: Service_verifyPAT_def time_Now_def Let_def split: option.splits sum.splits if_splits)
  ultimately show ?thesis by simp
next
  case False
  then obtain x where "Issuer_ParseToken j i tok w = (Inl x, w')" "e = Errorf ''%w: %w'' [Sentinel ErrInvalidCredentials, x]"
    using assms(2) by (auto simp: Service_Verify_def split: sum.splits prod.splits)
  then show ?thesis by (auto dest!: Issuer_frame(2))
qed

text \<open>An operation drops a token when it deletes its user, revokes it or prunes it as expired.\<close>

fun drops_pat :: "PersonalAccessToken \<Rightarrow> mem_op \<Rightarrow> bool" where
  "drops_pat pat (OpDelete uid) = (uid = PAT_UserID pat)"
| "drops_pat pat (OpDeletePAT uid i) = (uid = PAT_UserID pat \<and> i = PAT_ID pat)"
| "drops_pat pat (OpSavePATLimited p _ at _) = (PAT_UserID p = PAT_UserID pat \<and> patExpired at pat)"
| "drops_pat pat _ = False"

lemma find_Some_in: "find P xs = Some x \<Longrightarrow> x \<in> set xs \<and> P x"
  by (auto simp: find_Some_iff)

lemma DeletePAT_keeps:
  assumes "mem_inv s" "mem_patTab s h = Some q" "\<not> (PAT_UserID q = u \<and> PAT_ID q = i)"
  shows "mem_patTab (snd (Memory_DeletePAT u i s)) h = Some q"
proof (cases "find (\<lambda>kv. PAT_ID (snd kv) = i \<and> PAT_UserID (snd kv) = u) (mem_pats s)")
  case (Some kv)
  then have "kv \<in> set (mem_pats s)" "PAT_ID (snd kv) = i \<and> PAT_UserID (snd kv) = u" by (auto dest: find_Some_in)
  moreover have "wf_map (mem_pats s)" using assms(1) by (simp add: mem_inv_def mem_wf_def)
  ultimately have "fst kv \<noteq> h" using assms(2,3) map_of_is_SomeI [of "mem_pats s" h "snd kv"]
    by (cases kv) auto
  then show ?thesis using Some assms(2) by (cases kv) (simp add: Memory_DeletePAT_def)
qed (use assms(2) in \<open>simp add: Memory_DeletePAT_def\<close>)

lemma apply_op_pat:
  assumes "mem_inv s" "mem_patTab s h = Some q" "used_since pat q" "\<not> drops_pat pat op"
  shows "\<exists>q'. mem_patTab (apply_op op s) h = Some q' \<and> used_since pat q'"
proof (cases "writes_pats op")
  case False
  then show ?thesis using assms by (simp add: apply_op_pats)
next
  case True
  note f = used_since_fields [OF assms(3)]
  have wf: "wf_map (mem_pats s)" and ph: "PAT_Hash q = h"
    using assms(1) mem_inv_pat [OF assms(1,2)] by (simp_all add: mem_inv_def mem_wf_def)
  have l: "mem_patTab (snd (Memory_savePATLocked x now s1)) h = Some q" if "mem_patTab s1 h = Some q" for x now s1
    using that by (auto simp: Memory_savePATLocked_def Let_def)
  show ?thesis
  proof (cases op)
    case (OpDelete uid)
    then show ?thesis using assms f wf
      by (auto simp: Memory_Delete_def map_of_DeleteFunc split: option.splits)
  next
    case (OpSavePAT x now)
    then show ?thesis using assms l [of s] by (auto simp: Memory_SavePAT_def split: option.splits)
  next
    case (OpSavePATLimited x lim at now)
    then show ?thesis using assms f wf l
      by (auto simp: Memory_SavePATLimited_def map_of_DeleteFunc Let_def split: option.splits)
  next
    case (OpDeletePAT u i)
    then show ?thesis using assms f DeletePAT_keeps [OF assms(1,2), of u i] by auto
  next
    case (OpTouchPAT h' t)
    then show ?thesis using assms by (auto simp: Memory_TouchPAT_spec intro: used_since_touch)
  qed (use True in auto)
qed

lemma run_ops_pat:
  "mem_inv s \<Longrightarrow> mem_patTab s h = Some q \<Longrightarrow> used_since pat q \<Longrightarrow> list_all (\<lambda>op. \<not> drops_pat pat op) ops \<Longrightarrow>
   \<exists>q'. mem_patTab (run_ops ops s) h = Some q' \<and> used_since pat q'"
proof (induction ops arbitrary: s q)
  case (Cons op ops)
  then obtain q' where "mem_patTab (apply_op op s) h = Some q'" "used_since pat q'"
    using apply_op_pat [of s h q pat op] by auto
  with Cons show ?case by (simp add: mem_inv_apply_op)
qed auto

text \<open>
  C31. A personal access token works until it expires or is revoked. Whatever interleaved requests
  did after its creation, other than deleting its user, revoking it or pruning it as expired,
  presenting the plaintext at a time that is not past the expiry verifies as its owner, with the
  owner's current email and roles; and past the expiry it is refused as expired.
\<close>

theorem PAT_verifies:
  assumes "mem_inv (store w)"
    and "Service_CreatePAT (devService j i l (Some cfg) oa wa) uid name scopes expires w = (Inr res, w1)"
    and "list_all (\<lambda>op. \<not> drops_pat (PATResult_Token res) op) ops" "store w2 = run_ops ops (store w1)"
    and "sha256 w2 = sha256 w"
  shows "\<exists>u. map_of (mem_users (store w2)) uid = Some u \<and>
    fst (Service_Verify (devService j i l (Some cfg) oa wa) (PATResult_Plaintext res) w2) =
      (if case expires of None \<Rightarrow> False | Some e \<Rightarrow> e < wall w2 (tick w2)
       then Inl (Errorf ''%w: %w'' [Sentinel ErrInvalidCredentials, Sentinel ErrTokenExpired])
       else Inr \<lparr>Claims_UserID = uid, Claims_Email = User_Email u, Claims_Roles = User_Roles u,
         Claims_Issuer = JWTIssuer, Claims_Exp = 0, Claims_Iat = 0\<rparr>)"
proof -
  let ?pat = "PATResult_Token res" and ?h = "HashToken w (PATResult_Plaintext res)"
  have c: "mem_inv (store w1) \<and> mem_patTab (store w1) ?h = Some ?pat \<and> PAT_UserID ?pat = uid \<and>
      PAT_ExpiresAt ?pat = expires \<and> strings_HasPrefix (PATResult_Plaintext res) PATPrefix"
    by (rule dev_CreatePAT_ok [OF assms(1,2)]) (simp add: strings_HasPrefix_def)
  have i2: "mem_inv (store w2)" using c assms(4) by (simp add: mem_inv_run_ops)
  obtain q where q: "mem_patTab (store w2) ?h = Some q" "used_since ?pat q"
    using run_ops_pat [of "store w1" ?h ?pat ?pat ops] c assms(3,4) by auto
  have h: "HashToken w2 (PATResult_Plaintext res) = ?h" using assms(5) by (simp add: HashToken_def)
  note f = used_since_fields [OF q(2)]
  obtain u where u: "map_of (mem_users (store w2)) uid = Some u"
    using mem_inv_pat [OF i2 q(1)] f c by (auto simp: has_user_def)
  then have id: "User_ID u = uid" using mem_inv_user [OF i2] by blast
  have "fst (Service_Verify (devService j i l (Some cfg) oa wa) (PATResult_Plaintext res) w2) =
      fst (Service_verifyPAT (devService j i l (Some cfg) oa wa) (PATResult_Plaintext res) w2)"
    using c by (simp add: Service_Verify_def)
  also have "\<dots> = (if patExpired (wall w2 (tick w2)) q
       then Inl (Errorf ''%w: %w'' [Sentinel ErrInvalidCredentials, Sentinel ErrTokenExpired])
       else Inr \<lparr>Claims_UserID = uid, Claims_Email = User_Email u, Claims_Roles = User_Roles u,
         Claims_Issuer = JWTIssuer, Claims_Exp = 0, Claims_Iat = 0\<rparr>)"
    using q(1) u f c id by (simp add: dev_verifyPAT [OF i2] h)
  finally show ?thesis using u f c by (simp add: patExpired_def)
qed

section \<open>Witnesses\<close>

definition demo_pat_config :: PATConfig where
  "demo_pat_config = \<lparr>PC_MaxPerUser = 0, PC_MaxTTL = hour, PC_TouchInterval = 0\<rparr>"

abbreviation demo_pat_service :: "Store Service" where
  "demo_pat_service \<equiv> devService lax_jose demo_issuer 0 (Some demo_pat_config) None None"

lemma demo_CreatePAT:
  "\<exists>res n s. Service_CreatePAT demo_pat_service ''u1'' '' ci '' [''read''] (Some (2 * hour)) (demo_world demo_store) =
     (Inr res, (demo_world demo_store)\<lparr>tick := n, store := s\<rparr>)"
proof -
  have t: "strings_TrimSpace '' ci '' = ''ci''"
    by (simp add: TrimSpace_ascii ascii_def sp_def unicode_IsSpace_def)
  show ?thesis
    by (simp add: Service_CreatePAT_def t maxPATNameLength_def patExpiryError_def time_Now_def demo_pat_config_def
        patDefaults_def time_Sub_small GeneratePAT_def draw_bytes_def draw_NewString_def call_now_def call_def
        Memory_SavePATLimited_def Memory_requireUser_def demo_store_def demo_user_def Memory_New_def
        Memory_savePATLocked_def map_values_def maps_DeleteFunc_def time_IsZero_def Let_def) blast
qed

theorem CreatePAT_sound_witness:
  "\<exists>res w'. Service_CreatePAT demo_pat_service ''u1'' '' ci '' [''read''] (Some (2 * hour)) (demo_world demo_store) = (Inr res, w') \<and>
     PAT_UserID (PATResult_Token res) = ''u1'' \<and> strings_HasPrefix (PATResult_Plaintext res) ''psn_''"
proof -
  obtain res w' where r: "Service_CreatePAT demo_pat_service ''u1'' '' ci '' [''read''] (Some (2 * hour)) (demo_world demo_store) =
     (Inr res, w')" using demo_CreatePAT by blast
  have "mem_inv (store (demo_world demo_store))" by simp
  from CreatePAT_sound [OF this r] r show ?thesis by blast
qed

theorem PAT_verifies_witness:
  "\<exists>res w1 c. Service_CreatePAT demo_pat_service ''u1'' '' ci '' [''read''] (Some (2 * hour)) (demo_world demo_store) = (Inr res, w1) \<and>
     fst (Service_Verify demo_pat_service (PATResult_Plaintext res) (w1\<lparr>tick := 0\<rparr>)) = Inr c \<and> Claims_UserID c = ''u1''"
proof -
  obtain res n s where r: "Service_CreatePAT demo_pat_service ''u1'' '' ci '' [''read''] (Some (2 * hour)) (demo_world demo_store) =
     (Inr res, (demo_world demo_store)\<lparr>tick := n, store := s\<rparr>)" (is "_ = (_, ?w1)") using demo_CreatePAT by blast
  have h: "mem_inv (store (demo_world demo_store))" "list_all (\<lambda>op. \<not> drops_pat (PATResult_Token res) op) []"
    "store (?w1\<lparr>tick := 0\<rparr>) = run_ops [] (store ?w1)" "sha256 (?w1\<lparr>tick := 0\<rparr>) = sha256 (demo_world demo_store)"
    by simp_all
  have "wall (?w1\<lparr>tick := 0\<rparr>) (tick (?w1\<lparr>tick := 0\<rparr>)) = hour" by simp
  with PAT_verifies [OF h(1) r h(2-4)] r show ?thesis by auto
qed

theorem Verify_errors_witness:
  "\<exists>e w'. Service_Verify demo_pat_service ''psn_unknown'' (demo_world demo_store) = (Inl e, w') \<and>
     errors_Is e ErrInvalidCredentials"
proof -
  obtain e w' where r: "Service_Verify demo_pat_service ''psn_unknown'' (demo_world demo_store) = (Inl e, w')"
    by (simp add: Service_Verify_def strings_HasPrefix_def PATPrefix_def Service_verifyPAT_def Memory_GetPAT_def
        demo_store_def Memory_New_def)
  have "mem_inv (store (demo_world demo_store))" by simp
  from Verify_errors [OF this r] r show ?thesis by blast
qed

end
