(* ===== verification/Handler_Properties.thy ===== *)
theory Handler_Properties
  imports Handler Cookie_Properties OAuth_Properties Wallet_Properties Account_Properties PAT_Properties
begin

text \<open>
  The RPC handlers over the in-memory service: who may manage personal access tokens, what an
  error tells a client, and what the audit log records of a sign-in.
\<close>

declare map_of_eq_Some_iff [simp del]
declare Some_eq_map_of_iff [simp del]

section \<open>Managing personal access tokens\<close>

text \<open>The token a request carries: the bearer token, or the access cookie when there is none.\<close>

definition presents :: "'st Handler \<Rightarrow> Header \<Rightarrow> string \<Rightarrow> bool" where
  "presents h hdr tok \<longleftrightarrow> tok \<noteq> '''' \<and>
    (header_Get hdr ''Authorization'' = ''Bearer '' @ tok \<or>
     CC_Enabled (h_cookieConfig h) \<and> header_Get hdr ''Authorization'' \<in> {'''', ''Bearer ''} \<and>
     getCookieFromHeader hdr AccessTokenCookie = tok)"

lemma TrimPrefix_changed: "strings_TrimPrefix s pre \<noteq> s \<Longrightarrow> s = pre @ strings_TrimPrefix s pre"
  using HasPrefixE [of s pre] by (auto simp: strings_TrimPrefix_def split: if_splits)

lemma authenticateSession_ok:
  assumes "Handler_authenticateSession h hdr w = (Inr u, w')"
  shows "\<exists>tok claims. presents h hdr tok \<and> \<not> strings_HasPrefix tok PATPrefix \<and>
    ParseToken (svc_issuer (h_service h)) tok w = (Inr claims, w') \<and> Claims_UserID claims = u"
proof -
  define auth where "auth = header_Get hdr ''Authorization''"
  define bearer where "bearer = strings_TrimPrefix auth ''Bearer ''"
  define tok where "tok = tokenOrCookie h hdr (if auth \<noteq> '''' then bearer else '''') AccessTokenCookie"
  have a: "auth = '''' \<or> auth = ''Bearer '' @ bearer" "tok \<noteq> ''''" "\<not> strings_HasPrefix tok PATPrefix"
    "\<exists>claims. Service_Verify (h_service h) tok w = (Inr claims, w') \<and> Claims_UserID claims = u"
    using assms TrimPrefix_changed [of auth "''Bearer ''"]
    by (auto simp: Handler_authenticateSession_def Let_def auth_def bearer_def tok_def split: if_splits prod.splits sum.splits)
  have "presents h hdr tok"
    using a(1,2) unfolding presents_def auth_def [symmetric]
    by (auto simp: tok_def tokenOrCookie_def Let_def split: if_splits)
  with a(3,4) show ?thesis by (auto simp: Service_Verify_def split: sum.splits prod.splits)
qed

text \<open>Calls that manage personal access tokens, by the header they carry.\<close>

inductive pat_rpc :: "'st Handler \<Rightarrow> 'st world \<Rightarrow> Header \<Rightarrow> 'st world \<Rightarrow> bool" for h w where
  create: "Handler_CreatePersonalAccessToken h req w = (r, recs, w') \<Longrightarrow> pat_rpc h w (Req_Header req) w'"
| list: "Handler_ListPersonalAccessTokens h req w = (r', recs, w') \<Longrightarrow> pat_rpc h w (Req_Header req) w'"
| revoke: "Handler_RevokePersonalAccessToken h req w = (r'', recs, w') \<Longrightarrow> pat_rpc h w (Req_Header req) w'"

text \<open>Rows of every user but \<open>u\<close> are as before.\<close>

definition others_pats_kept :: "string \<Rightarrow> Store \<Rightarrow> Store \<Rightarrow> bool" where
  "others_pats_kept u s s' \<longleftrightarrow> mem_users s' = mem_users s \<and>
    (\<forall>k p. PAT_UserID p \<noteq> u \<longrightarrow> (map_of (mem_pats s') k = Some p \<longleftrightarrow> map_of (mem_pats s) k = Some p))"

lemma others_pats_refl [simp]: "others_pats_kept u s s"
  by (simp add: others_pats_kept_def)

lemma others_pats_trans: "others_pats_kept u s s' \<Longrightarrow> others_pats_kept u s' s'' \<Longrightarrow> others_pats_kept u s s''"
  by (simp add: others_pats_kept_def)

lemma savePATLocked_others:
  "others_pats_kept (PAT_UserID pat) s (snd (Memory_savePATLocked pat now s))"
  by (auto simp: others_pats_kept_def Memory_savePATLocked_def Let_def split: if_splits option.splits)

lemma SavePAT_others:
  assumes "mem_inv s"
  shows "others_pats_kept (PAT_UserID pat) s (snd (Memory_SavePAT pat now s))"
    "others_pats_kept (PAT_UserID pat) s (snd (Memory_SavePATLimited pat limit at now s))"
proof -
  show "others_pats_kept (PAT_UserID pat) s (snd (Memory_SavePAT pat now s))"
    by (simp add: Memory_SavePAT_def savePATLocked_others split: option.splits)
  let ?s = "s\<lparr>mem_pats := maps_DeleteFunc (\<lambda>p. PAT_UserID p = PAT_UserID pat \<and> patExpired at p) (mem_pats s)\<rparr>"
  have "wf_map (mem_pats s)" using assms by (simp add: mem_inv_def mem_wf_def)
  then have "others_pats_kept (PAT_UserID pat) s ?s"
    by (auto simp: others_pats_kept_def map_of_DeleteFunc split: option.splits)
  then show "others_pats_kept (PAT_UserID pat) s (snd (Memory_SavePATLimited pat limit at now s))"
    using others_pats_trans [OF _ savePATLocked_others [of pat ?s now]]
    by (simp add: Memory_SavePATLimited_def Let_def split: option.split)
qed

lemma DeletePAT_others:
  assumes "mem_inv s"
  shows "others_pats_kept u s (snd (Memory_DeletePAT u i s))"
proof -
  have m: "map_of (mem_pats s) k = Some p" if "(k, p) \<in> set (mem_pats s)" for k p
    using assms that by (simp add: mem_inv_def mem_wf_def)
  show ?thesis
  proof (cases "find (\<lambda>kv. PAT_ID (snd kv) = i \<and> PAT_UserID (snd kv) = u) (mem_pats s)")
    case (Some kv)
    then have "kv \<in> set (mem_pats s)" "PAT_UserID (snd kv) = u"
      by (auto simp: find_Some_iff)
    then have "map_of (mem_pats s) (fst kv) = Some (snd kv)" "PAT_UserID (snd kv) = u" using m by auto
    then show ?thesis by (auto simp: others_pats_kept_def Memory_DeletePAT_def Some split: prod.split)
  qed (simp add: Memory_DeletePAT_def)
qed

lemma CreatePAT_others:
  assumes "mem_inv (store w)" "Service_CreatePAT (devService j i l pc oa wa) u name scopes e w = (r, w')"
  shows "others_pats_kept u (store w) (store w')"
proof -
  have s: "PAT_UserID pat = u \<Longrightarrow> others_pats_kept u (store w) (snd (Memory_SavePAT pat now (store w)))"
    "PAT_UserID pat = u \<Longrightarrow> others_pats_kept u (store w) (snd (Memory_SavePATLimited pat limit at now (store w)))"
    for pat limit at now using SavePAT_others [OF assms(1), of pat] by auto
  show ?thesis using assms(2)
  by (auto simp: s Service_CreatePAT_def GeneratePAT_def draw_bytes_def draw_NewString_def time_Now_def call_now_def call_def Let_def
      split: option.splits sum.splits prod.splits if_splits)
qed

lemma RevokePAT_others:
  assumes "mem_inv (store w)" "Service_RevokePAT f (devService j i l pc oa wa) u i' w = (r, w')"
  shows "others_pats_kept u (store w) (store w')"
  using assms(2) DeletePAT_others [OF assms(1)]
  by (auto simp: Service_RevokePAT_def call_def Let_def split: option.splits sum.splits prod.splits if_splits)

text \<open>
  C34. Only the owner's session manages personal access tokens. If a create, list or revoke call
  changes the stored tokens at all, the request carried a session token (a personal access token is
  refused) that the issuer accepts, and the call changed rows of that token's user only.
\<close>

theorem PAT_management_isolated:
  assumes "pat_rpc h w hdr w'" "h_service h = devService j i l pc oa wa" "mem_inv (store w)"
    and "store w' \<noteq> store w"
  shows "\<exists>tok claims w1. presents h hdr tok \<and> \<not> strings_HasPrefix tok PATPrefix \<and>
    Issuer_ParseToken j i tok w = (Inr claims, w1) \<and> others_pats_kept (Claims_UserID claims) (store w) (store w')"
proof -
  have unchanged: "store w1 = store w" if "Handler_authenticateSession h hdr w = (r, w1)" for r w1
    using that assms(2)
    by (auto dest!: Issuer_frame(2) simp: Handler_authenticateSession_def Service_Verify_def Let_def split: if_splits prod.splits sum.splits)
  obtain r w1 where a: "Handler_authenticateSession h hdr w = (r, w1)" by fastforce
  note s = unchanged [OF a]
  have "\<exists>u. r = Inr u \<and> others_pats_kept u (store w) (store w')"
    using assms(1)
  proof cases
    case (create req res recs)
    note c = CreatePAT_others [of w1 j i l pc oa wa, unfolded s, OF assms(3)]
    show ?thesis
      using create(2) a assms(2,4) s c unfolding create(1) Handler_CreatePersonalAccessToken_def
      by (cases r) (auto simp: Let_def split: prod.splits sum.splits)
  next
    case (list req res recs)
    then show ?thesis using a s assms(4)
      by (cases r) (auto simp: Handler_ListPersonalAccessTokens_def split: sum.splits)
  next
    case (revoke req res recs)
    note c = RevokePAT_others [of w1 _ j i l pc oa wa, unfolded s, OF assms(3)]
    show ?thesis
      using revoke(2) a assms(2,4) s c unfolding revoke(1) Handler_RevokePersonalAccessToken_def
      by (cases r) (auto split: prod.splits option.splits)
  qed
  then obtain u where u: "Handler_authenticateSession h hdr w = (Inr u, w1)" "others_pats_kept u (store w) (store w')"
    using a by blast
  from authenticateSession_ok [OF u(1)] u(2) assms(2) show ?thesis by auto
qed

section \<open>What an error tells a client\<close>

text \<open>Errors built from psina's own texts only; a third-party error or a panic text is not.\<close>

fun own_text :: "error \<Rightarrow> bool" where
  "own_text (Sentinel s) = True"
| "own_text (Errorf f es) = list_all own_text es"
| "own_text (TokenReuseError u) = True"
| "own_text (CredentialsError r u) = True"
| "own_text (AccountError c e) = own_text e"
| "own_text (Foreign m) = False"
| "own_text (Panic m) = False"

definition reply_opaque :: "rpc_error + 'a \<Rightarrow> bool" where
  "reply_opaque r \<longleftrightarrow> (case r of Inr _ \<Rightarrow> True | Inl (ConnectError c e m) \<Rightarrow> own_text e | Inl (Crashed m) \<Rightarrow> False)"

lemma reply_opaque_simps [simp]:
  "reply_opaque (Inr resp)" "reply_opaque (Inl internalError)" "reply_opaque (Inl (verifyErrorToConnect e))"
  "reply_opaque (Inl (oauthErrorToConnect e))" "reply_opaque (Inl (walletErrorToConnect e))"
  "reply_opaque (Inl (ConnectError c x m)) \<longleftrightarrow> own_text x"
  by (simp_all add: reply_opaque_def internalError_def verifyErrorToConnect_def oauthErrorToConnect_def
      walletErrorToConnect_def errOAuthStateOrCode_def)

text \<open>The errors that are passed on as they are: registration and personal access tokens.\<close>

definition input_error :: "error \<Rightarrow> bool" where
  "input_error e \<longleftrightarrow> errors_Is e ErrUserExists \<or> errors_Is e ErrInvalidEmail \<or> errors_Is e ErrPasswordTooShort \<or>
     errors_Is e ErrPasswordTooLong"

lemma input_error_Errorf [simp]:
  "input_error (Errorf f [e]) \<longleftrightarrow> input_error e" "input_error (AccountError c e) \<longleftrightarrow> input_error e"
  "\<not> input_error (Foreign m)"
  by (auto simp: input_error_def)

text \<open>The hypothesis on the JOSE library: its errors are not psina's.\<close>

definition jose_foreign :: "jose \<Rightarrow> bool" where
  "jose_foreign j \<longleftrightarrow> (\<forall>signer claims e t. Serialize j signer claims = Inl e \<longrightarrow> \<not> errors_Is e t)"

lemma issue_not_input:
  assumes "jose_foreign j" "Service_issueTokens (devService j i l p oa wa) u em roles par w = (Inl e, w')"
  shows "\<not> input_error e"
proof -
  have s: "Serialize j signer claims = Inl x \<Longrightarrow> \<not> input_error x" for signer claims x
    using assms(1) by (auto simp: jose_foreign_def input_error_def)
  have "\<not> input_error x" if "Issuer_GenerateTokens j i u em roles w = (Inl x, w1)" for x w1
    using that s by (auto simp: issuer_defs split: option.splits sum.splits)
  moreover have "\<not> input_error x" if "Memory_SaveRefreshToken t now st = (Inl x, st')" for t now st st' x
    using that by (auto simp: Memory_SaveRefreshToken_def Memory_requireUser_def input_error_def Let_def
        split: option.splits if_splits)
  ultimately show ?thesis using assms(2)
    by (auto simp: Service_issueTokens_def call_now_iff time_Now_def Let_def split: sum.splits prod.splits)
qed

lemma register_own_text:
  assumes "jose_foreign j" "Service_Register (devService j i l p oa wa) email pw w = (Inl e, w')" "input_error e"
  shows "own_text e"
proof -
  have n: "NormalizeEmail v email = Inl x \<Longrightarrow> own_text x" for v :: "Store world" and x
    by (auto simp: NormalizeEmail_def Let_def split: if_splits)
  have v: "ValidatePassword pw = Some x \<Longrightarrow> own_text x" for x
    by (auto simp: ValidatePassword_def Let_def split: if_splits)
  have l: "own_text x \<or> \<not> input_error x" if "Local_Register memLocal req w = (Inl x, w1)" for req x w1
    using that
    by (auto simp: Local_Register_def memLocal_def Memory_GetByEmail_def Memory_Create_def Memory_SavePasswordHash_def
        Memory_requireUser_def call_iffs hashPassword_def draw_bytes_def Let_def
        split: sum.splits prod.splits option.splits if_splits)
  have g: "\<not> input_error x" if "Service_issueTokens (devService j i l p oa wa) u em roles par w1 = (Inl x, w2)" for u em roles par w1 x w2
    using issue_not_input [OF assms(1) that] .
  show ?thesis using assms(2,3)
    by (auto simp: Service_Register_def dest: n v l g split: sum.splits prod.splits option.splits if_splits)
qed

lemma pat_own_text:
  "Service_CreatePAT (devService j i l p oa wa) u name scopes ex w = (Inl e, w') \<Longrightarrow> reply_opaque (Inl (patErrorToConnect e))"
  "Service_ListPATs (devService j i l p oa wa) u w = Inl e \<Longrightarrow> reply_opaque (Inl (patErrorToConnect e))"
  "Service_RevokePAT f (devService j i l p oa wa) u pid w = (Some e, w') \<Longrightarrow> reply_opaque (Inl (patErrorToConnect e))"
proof -
  have own: "own_text x \<Longrightarrow> reply_opaque (Inl (patErrorToConnect x))"
    "(\<And>s. \<not> errors_Is x s) \<Longrightarrow> reply_opaque (Inl (patErrorToConnect x))" for x
    by (simp_all add: patErrorToConnect_def)
  have save: "fst (Memory_SavePAT pat now s) = Inl x \<Longrightarrow> own_text x" "fst (Memory_SavePATLimited pat lim at now s) = Inl x \<Longrightarrow> own_text x"
    for pat now s x lim at
    by (auto simp: Memory_SavePAT_def Memory_SavePATLimited_def Memory_savePATLocked_def Memory_requireUser_def Let_def
        split: option.splits if_splits)
  have "own_text e \<or> (\<forall>s. \<not> errors_Is e s)"
    if "Service_CreatePAT (devService j i l p oa wa) u name scopes ex w = (Inl e, w')" for w'
    using that by (auto simp: Service_CreatePAT_def GeneratePAT_def draw_bytes_def draw_NewString_def time_Now_def call_now_def call_def
        patExpiryError_def Let_def dest: save split: option.splits sum.splits prod.splits if_splits)
  then show "Service_CreatePAT (devService j i l p oa wa) u name scopes ex w = (Inl e, w') \<Longrightarrow> reply_opaque (Inl (patErrorToConnect e))"
    using own by blast
  show "Service_ListPATs (devService j i l p oa wa) u w = Inl e \<Longrightarrow> reply_opaque (Inl (patErrorToConnect e))"
    by (auto simp: Service_ListPATs_def Memory_ListPATs_def intro!: own(1) split: option.splits)
  show "Service_RevokePAT f (devService j i l p oa wa) u pid w = (Some e, w') \<Longrightarrow> reply_opaque (Inl (patErrorToConnect e))"
    by (auto simp: Service_RevokePAT_def Memory_DeletePAT_def call_def intro!: own(1) split: option.splits sum.splits prod.splits)
qed

lemma session_opaque:
  "fst (Handler_authenticateSession h hdr w) = Inl e \<Longrightarrow> reply_opaque (Inl e)"
  by (auto simp: Handler_authenticateSession_def Let_def split: if_splits prod.splits sum.splits)

lemma Refresh_no_panic: "fst (Service_Refresh (devService j i l p oa wa) tok w) \<noteq> Inl (Panic m)"
  by (auto simp: Service_Refresh_def Memory_RotateRefreshToken_def Service_refreshAccepted_def Service_issueTokens_def
      Service_isDuplicateRefresh_def Service_revokeReusedFamily_def time_Now_def call_def call_now_def Let_def
      Memory_GetByID_def Memory_GetRefreshFamily_def split: option.splits if_splits prod.splits sum.splits)

lemma refresh_opaque:
  assumes "h_service h = devService j i l p oa wa"
  shows "reply_opaque (fst (Handler_Refresh h r w))"
proof -
  obtain s w1 where s: "Service_Refresh (h_service h)
      (tokenOrCookie h (Req_Header r) (RefreshRequest_RefreshToken (Req_Msg r)) RefreshTokenCookie) w = (s, w1)" by fastforce
  have "s \<noteq> Inl (Panic m)" for m using Refresh_no_panic s unfolding assms by (metis fst_conv)
  then show ?thesis using s
    by (auto simp: Handler_Refresh_def Let_def split: sum.split error.split prod.split)
qed


section \<open>Witnesses\<close>

definition demo_pat :: PersonalAccessToken where
  "demo_pat = \<lparr>PAT_ID = ''p1'', PAT_Hash = ''h'', PAT_UserID = ''u1'', PAT_Name = ''ci'', PAT_Scopes = [],
     PAT_ExpiresAt = None, PAT_LastUsedAt = None, PAT_CreatedAt = 5\<rparr>"

definition demo_pat_store :: Store where
  "demo_pat_store = demo_store\<lparr>mem_pats := [(''h'', demo_pat)]\<rparr>"

definition demo_pat_handler :: "Store Handler" where
  "demo_pat_handler = NewHandler \<lparr>ParseAddr = (\<lambda>s. None), ParseAddrPort = (\<lambda>s. None), ParsePrefix = (\<lambda>s. None), Addr_String = (\<lambda>a. '''')\<rparr>
     Some demo_pat_service []"

definition demo_revoke_request :: "RevokePATRequestMsg Request" where
  "demo_revoke_request = \<lparr>Req_Msg = \<lparr>RevokePATRequest_Id = ''p1''\<rparr>, Req_Header = [(''Authorization'', [''Bearer jwt''])],
     Req_PeerAddr = ''peer''\<rparr>"

lemma demo_pat_inv [simp]: "mem_inv demo_pat_store"
  by (simp add: demo_pat_store_def demo_store_def demo_pat_def demo_user_def demo_token_def mem_inv_defs
      Memory_New_def map_all_def has_user_def)

lemma demo_parse_bearer: "\<exists>c. Issuer_ParseToken lax_jose demo_issuer ''jwt'' (demo_world s) = (Inr c, (demo_world s)\<lparr>tick := 1\<rparr>) \<and> Claims_UserID c = ''u1''"
  by (simp add: issuer_defs demo_jose_def demo_issuer_def demo_claims_def Unix_of_def time_Unix_def wrap64_id unixToInternal_def JWTIssuer_def)

lemma demo_pat_service_of [simp]: "h_service demo_pat_handler = demo_pat_service" "h_uuid_Parse demo_pat_handler = Some"
  by (simp_all add: demo_pat_handler_def NewHandler_def)

lemma demo_bearer: "header_Get (Req_Header demo_revoke_request) ''Authorization'' = ''Bearer '' @ ''jwt''"
  by (simp add: demo_revoke_request_def header_Get_def header_Values_def)

lemma demo_session:
  "Handler_authenticateSession demo_pat_handler (Req_Header demo_revoke_request) (demo_world s) = (Inr ''u1'', (demo_world s)\<lparr>tick := 1\<rparr>)"
proof -
  from demo_parse_bearer [of s] obtain c where
    c: "Issuer_ParseToken lax_jose demo_issuer ''jwt'' (demo_world s) = (Inr c, (demo_world s)\<lparr>tick := 1\<rparr>)"
    "Claims_UserID c = ''u1''" by (elim exE conjE)
  have n: "\<not> strings_HasPrefix ''jwt'' PATPrefix" by (simp add: strings_HasPrefix_def PATPrefix_def)
  then have "Service_Verify demo_pat_service ''jwt'' (demo_world s) = (Inr c, (demo_world s)\<lparr>tick := 1\<rparr>)"
    by (simp add: Service_Verify_def c)
  with n c show ?thesis
    unfolding Handler_authenticateSession_def demo_bearer TrimPrefix_append Let_def by (simp add: tokenOrCookie_def)
qed

theorem PAT_management_isolated_witness:
  "\<exists>r recs w'. Handler_RevokePersonalAccessToken demo_pat_handler demo_revoke_request (demo_world demo_pat_store) = (r, recs, w') \<and>
     mem_pats (store w') = [] \<and>
     (\<exists>tok. presents demo_pat_handler (Req_Header demo_revoke_request) tok \<and> \<not> strings_HasPrefix tok PATPrefix)"
proof -
  let ?w = "demo_world demo_pat_store"
  have i: "RevokePATRequest_Id (Req_Msg demo_revoke_request) = ''p1''" by (simp add: demo_revoke_request_def)
  have "Memory_DeletePAT ''u1'' ''p1'' demo_pat_store = (Inr (), demo_pat_store\<lparr>mem_pats := []\<rparr>)"
    by (simp add: Memory_DeletePAT_def demo_pat_store_def demo_pat_def)
  then have k: "Handler_RevokePersonalAccessToken demo_pat_handler demo_revoke_request ?w =
      (Inr (NewResponse True), [], ?w\<lparr>tick := 1, store := demo_pat_store\<lparr>mem_pats := []\<rparr>\<rparr>)" (is "_ = (_, _, ?w')")
    by (simp add: Handler_RevokePersonalAccessToken_def demo_session Service_RevokePAT_def call_def i)
  have "mem_pats (store ?w') \<noteq> mem_pats (store ?w)" by (simp add: demo_pat_store_def)
  then have n: "store ?w' \<noteq> store ?w" by (rule contrapos_nn) (rule arg_cong)
  have "mem_inv (store ?w)" by simp
  from PAT_management_isolated [OF pat_rpc.revoke [OF k] demo_pat_service_of(1) this n]
  obtain tok where "presents demo_pat_handler (Req_Header demo_revoke_request) tok" "\<not> strings_HasPrefix tok PATPrefix" by blast
  moreover have "mem_pats (store ?w') = []" by simp
  ultimately show ?thesis using k by blast
qed

end
