(* ===== verification/Audit_Properties.thy ===== *)
theory Audit_Properties
  imports Handler OAuth_Properties Wallet_Properties Account_Properties
begin

text \<open>
  What the audit log records: every sign-in request writes one outcome record that agrees with the
  response, and every account that comes into being is named in a record of the request that
  created it, also when the request then fails.
\<close>

declare map_of_eq_Some_iff [simp del]
declare Some_eq_map_of_iff [simp del]

section \<open>Outcome records\<close>

definition attr_of :: "string \<Rightarrow> audit_record \<Rightarrow> attr_value option" where
  "attr_of k r = map_of (AR_Attrs r) k"

definition outcome :: "string \<Rightarrow> bool \<Rightarrow> audit_record \<Rightarrow> bool" where
  "outcome event success r \<longleftrightarrow> attr_of ''audit'' r = Some (ABool True) \<and> attr_of ''event'' r = Some (AString event) \<and>
     attr_of ''result'' r = Some (AString (if success then ''success'' else ''failure'')) \<and>
     AR_Level r = (if success then LevelInfo else LevelWarn)"

lemma outcome_success: "auditSuccess h req event u attrs = [r] \<Longrightarrow> outcome event True r"
  by (auto simp: auditSuccess_def writeAudit_def outcome_def attr_of_def auditResultSuccess_def)

lemma outcome_failure: "auditFailure h req event reason attrs = [r] \<Longrightarrow> outcome event False r"
  by (auto simp: auditFailure_def writeAudit_def outcome_def attr_of_def auditResultFailure_def)

lemma auditSuccess_one: "\<exists>r. auditSuccess h req event u attrs = [r] \<and> outcome event True r \<and> (''user_id'', AString u) \<in> set (AR_Attrs r)"
  by (auto simp: auditSuccess_def writeAudit_def outcome_def attr_of_def auditResultSuccess_def)

lemma auditFailure_one: "\<exists>r. auditFailure h req event reason attrs = [r] \<and> outcome event False r \<and> set attrs \<subseteq> set (AR_Attrs r)"
  by (auto simp: auditFailure_def writeAudit_def outcome_def attr_of_def auditResultFailure_def)

text \<open>The records of one request: at most one account change, then the outcome.\<close>

definition audited :: "string \<Rightarrow> bool \<Rightarrow> audit_record list \<Rightarrow> bool" where
  "audited event success recs \<longleftrightarrow>
    (\<exists>changes r. recs = changes @ [r] \<and> outcome event success r \<and> length changes \<le> 1 \<and>
       list_all (\<lambda>c. outcome auditEventUserCreated True c \<or> outcome auditEventOAuthLink True c) changes)"

lemma audited_single: "outcome event success r \<Longrightarrow> audited event success [r]"
  by (auto simp: audited_def)

lemma audited_success: "audited event True (auditSuccess h req event u attrs)"
  using auditSuccess_one audited_single by metis

lemma audited_failure: "audited event False (auditFailure h req event reason attrs)"
  using auditFailure_one audited_single by metis

lemma changes_audited:
  "length (auditAccountChange h req m c attr) \<le> 1 \<and>
   list_all (\<lambda>c. outcome auditEventUserCreated True c \<or> outcome auditEventOAuthLink True c) (auditAccountChange h req m c attr)"
proof -
  obtain r where r: "auditSuccess h req auditEventUserCreated (change_userID c) [(''method'', AString m), attr] = [r]"
    "outcome auditEventUserCreated True r" using auditSuccess_one by blast
  obtain r' where r': "auditSuccess h req auditEventOAuthLink (change_userID c) [attr] = [r']"
    "outcome auditEventOAuthLink True r'" using auditSuccess_one by blast
  show ?thesis using r r' by (simp add: auditAccountChange_def)
qed

lemma audited_change: "outcome event success r \<Longrightarrow> audited event success (auditAccountChange h req m c attr @ [r])"
  using changes_audited unfolding audited_def by blast

lemma audited_signIn: "audited event True (auditSignIn h req event m change attr)"
proof -
  obtain r where r: "auditSuccess h req event (change_userID change) [attr, (''new_user'', ABool (change_created change))] = [r]"
    "outcome event True r" using auditSuccess_one by blast
  show ?thesis unfolding auditSignIn_def r(1) by (rule audited_change [OF r(2)])
qed

lemma audited_signInFailure: "audited event False (auditSignInFailure h req event m reason err attr)"
proof (cases "failedAccount err")
  case None
  then show ?thesis by (simp add: auditSignInFailure_def audited_failure)
next
  case (Some ae)
  obtain r where r: "auditFailure h req event reason [attr, (''user_id'', AString (change_userID ae))] = [r]"
    "outcome event False r" using auditFailure_one by blast
  show ?thesis unfolding auditSignInFailure_def Some option.case r(1) by (rule audited_change [OF r(2)])
qed
text \<open>
  C35. Every sign-in request is audited once, truthfully. Whatever the request and the state, the
  records a register, login, OAuth or wallet sign-in writes end with exactly one outcome record of
  its event; it says success (at info level) exactly when the client gets a response and failure
  (at warn level) exactly when it gets an error, and at most one record of an account change
  comes before it.
\<close>

theorem signin_audited:
  "audited auditEventRegister (\<not> isl (fst (Handler_Register h r1 w))) (fst (snd (Handler_Register h r1 w))) \<and>
   audited auditEventLogin (\<not> isl (fst (Handler_Login h r2 w))) (fst (snd (Handler_Login h r2 w))) \<and>
   audited auditEventOAuthSignIn (\<not> isl (fst (Handler_OAuthCallback h r3 w))) (fst (snd (Handler_OAuthCallback h r3 w))) \<and>
   audited auditEventWalletSignIn (\<not> isl (fst (Handler_AuthenticateWallet h r4 w))) (fst (snd (Handler_AuthenticateWallet h r4 w)))"
proof (intro conjI)
  show "audited auditEventRegister (\<not> isl (fst (Handler_Register h r1 w))) (fst (snd (Handler_Register h r1 w)))"
    by (simp add: Handler_Register_def audited_success audited_failure Let_def split: prod.split sum.split)
  show "audited auditEventLogin (\<not> isl (fst (Handler_Login h r2 w))) (fst (snd (Handler_Login h r2 w)))"
    by (simp add: Handler_Login_def audited_success audited_failure Let_def split: prod.split sum.split)
  show "audited auditEventOAuthSignIn (\<not> isl (fst (Handler_OAuthCallback h r3 w))) (fst (snd (Handler_OAuthCallback h r3 w)))"
    by (simp add: Handler_OAuthCallback_def audited_signIn audited_signInFailure audited_failure Let_def split: prod.split sum.split)
  show "audited auditEventWalletSignIn (\<not> isl (fst (Handler_AuthenticateWallet h r4 w))) (fst (snd (Handler_AuthenticateWallet h r4 w)))"
    by (simp add: Handler_AuthenticateWallet_def audited_signIn audited_signInFailure audited_failure Let_def split: prod.split sum.split)
qed

section \<open>Accounts created\<close>

text \<open>The users a request added.\<close>

definition created :: "string \<Rightarrow> Store \<Rightarrow> Store \<Rightarrow> bool" where
  "created u s s' \<longleftrightarrow> map_of (mem_users s) u = None \<and> map_of (mem_users s') u \<noteq> None"

lemma created_same [simp]: "mem_users s' = mem_users s \<Longrightarrow> \<not> created u s s'"
  by (auto simp: created_def)

lemma register_created:
  assumes "mem_inv (store w)" "Service_Register (devService j i l p oa wa) email pw w = (r, w')" "created u (store w) (store w')"
  shows "case r of Inr reg \<Rightarrow> RegResult_UserID reg = u
    | Inl e \<Rightarrow> \<exists>c. failedAccount e = Some c \<and> change_userID c = u"
proof -
  consider "store w' = store w"
    | em x w1 where "Local_Register memLocal \<lparr>RegReq_Email = em, RegReq_Password = pw\<rparr> w = (Inl x, w1)" "w' = w1"
    | em ident w1 t where "Local_Register memLocal \<lparr>RegReq_Email = em, RegReq_Password = pw\<rparr> w = (Inr ident, w1)"
        "Service_issueTokens (devService j i l p oa wa) (Identity_UserID ident) (Identity_Email ident) [] '''' w1 = (t, w')"
        "r = (case t of Inl x \<Rightarrow> Inl (AccountError \<lparr>change_userID = Identity_UserID ident, change_created = True, change_linked = False\<rparr>
           (Errorf ''issue tokens: %w'' [x])) | Inr pair \<Rightarrow> Inr \<lparr>RegResult_UserID = Identity_UserID ident,
             RegResult_Email = Identity_Email ident, RegResult_TokenPair = pair\<rparr>)"
    using assms(2) by (auto simp: Service_Register_def split: sum.splits prod.splits option.splits if_splits)
  then show ?thesis
  proof cases
    case 1
    then show ?thesis using assms(3) by simp
  next
    case 2
    have "mem_userTab (store w') = mem_userTab (store w)"
      using mem_as.register_err [OF assms(1) 2(1) [unfolded memLocal_prov]] 2(2) by (auto simp: Memory_Delete_def split: option.splits)
    then show ?thesis using assms(3) by (auto simp: created_def)
  next
    case 3
    from mem_as.register_ok [OF assms(1) 3(1) [unfolded memLocal_prov]] obtain v where
      "mem_userTab (store w1) = (mem_userTab (store w))(Identity_UserID ident \<mapsto> v)" by auto
    then have "Identity_UserID ident = u" using assms(3) dev_issue_users [OF 3(2)] by (auto simp: created_def split: if_splits)
    then show ?thesis using 3(3) by (cases t) (simp_all add: failedAccount_def)
  qed
qed

lemma resolve_oauth_created:
  assumes "mem_inv (store w)" "created u (store w) (store w')"
    and "Service_resolveOAuthUser (devService j i l p oa wa) (memOAuth ps cfg) provider info w = (r, w')"
  shows "\<exists>user. r = Inr (user, oauthUserCreated) \<and> User_ID user = u"
proof (cases "map_of (mem_oauthIdentities (store w)) (provider, Info_ExternalID info)")
  case (Some row)
  then have "store w' = store w"
    using assms(3) by (auto simp: Service_resolveOAuthUser_def Service_oauthIdentityUser_def Memory_GetOAuthIdentity_def
        Memory_GetByID_def split: option.splits)
  then show ?thesis using assms(2) by simp
next
  case None
  then have n: "Service_oauthIdentityUser (devService j i l p oa wa) (memOAuth ps cfg) provider (Info_ExternalID info)
      (store w) = Inl (Errorf ''%w: %s/%s'' [Sentinel Store_ErrOAuthIdentityNotFound])"
    by (simp add: Service_oauthIdentityUser_def Memory_GetOAuthIdentity_def)
  have fe: "mem_users (store w1) = mem_users (store w)"
    if "Service_findOrCreateUser (devService j i l p oa wa) email w = (Inl e, w1)" for email e w1
    using that by (auto simp: Service_findOrCreateUser_def Memory_GetByEmail_def draw_NewV7_def time_Now_def call_now_def call_def
        Memory_Create_def Let_def split: option.splits if_splits)
  show ?thesis
  proof (rule ccontr)
    assume nr: "\<not> ?thesis"
    obtain email v isNew w1 where f: "Service_findOrCreateUser (devService j i l p oa wa) email w = (Inr (v, isNew), w1)"
      and k: "if isNew
        then Service_linkOAuthUser (devService j i l p oa wa) (memOAuth ps cfg) provider info email v isNew oauthUserCreated w1 = (r, w')
        else w' = w1 \<or> Service_linkOAuthUser (devService j i l p oa wa) (memOAuth ps cfg) provider info email v isNew oauthUserLinked w1 = (r, w')"
      using assms(2,3) n fe by (auto simp: Service_resolveOAuthUser_def split: sum.splits prod.splits option.splits if_splits)    note fc = dev_findOrCreate_ok [OF assms(1) f]
    have i: "map_of (mem_users (store w1)) (User_ID v) \<noteq> None" "map_of (mem_oauthIdentities (store w1)) (provider, Info_ExternalID info) = None"
      using fc(2,3) None by simp_all
    note lf = dev_link_free [OF fc(1) i, of j i l p oa wa ps cfg email isNew]
    show False
    proof (cases isNew)
      case True
      from lf [of oauthUserCreated] obtain w2 where "r = Inr (v, oauthUserCreated)" "mem_users (store w') = mem_users (store w1)"
        using k True by (metis prod.inject)
      then show False using nr fc(6) True assms(2) by (auto simp: created_def split: if_splits)
    next
      case False
      from lf [of oauthUserLinked] have "mem_users (store w') = mem_users (store w1)"
        using k False by (metis prod.inject)
      then show False using fc(6) False assms(2) by simp
    qed
  qed
qed

lemma consume_users:
  "Service_consumeOAuthState (devService j i l p oa wa) (memOAuth ps cfg) req w = (r, w') \<Longrightarrow> mem_users (store w') = mem_users (store w)"
  "Service_consumeWalletChallenge (devService j i l p oa wa) (memWallet qs wcfg) pr wreq addr w = (e, w') \<Longrightarrow>
   mem_users (store w') = mem_users (store w)"
  by (auto simp: Service_consumeOAuthState_def Service_consumeWalletChallenge_def call_iffs time_Now_def Let_def
      Memory_GetChallenge_def Memory_DeleteChallenge_def split: option.splits prod.splits sum.splits if_splits)

lemma resolve_wallet_created:
  assumes "mem_inv (store w)" "created u (store w) (store w')"
    and "Service_resolveWalletUser (devService j i l p oa wa) (memWallet ps cfg) chain addr w = (r, w')"
  shows "\<exists>user. r = Inr (user, True) \<and> User_ID user = u"
proof (cases r)
  case (Inr x)
  then obtain user isNew where x: "r = Inr (user, isNew)" by (cases x) auto
  note k = dev_resolve_wallet [OF assms(1) assms(3) [unfolded x]]
  then show ?thesis using x assms(2) by (cases isNew) (auto simp: created_def split: if_splits)
next
  case (Inl e)
  have "mem_users (store w') = mem_users (store w)"
  proof (cases "map_of (mem_walletIdentities (store w)) (chain, addr)")
    case (Some row)
    then show ?thesis using assms(3)
      by (auto simp: Service_resolveWalletUser_def Service_walletIdentityUser_def Memory_GetWalletIdentity_def Memory_GetByID_def
          split: option.splits)
  next
    case None
    then have n: "Service_walletIdentityUser (devService j i l p oa wa) (memWallet ps cfg) chain addr (store w) =
        Inl (Errorf ''%w: %s/%s'' [Sentinel Store_ErrWalletIdentityNotFound])"
      by (simp add: Service_walletIdentityUser_def Memory_GetWalletIdentity_def)
    show ?thesis
    proof (cases "uuid_NewV7 w (tick w)")
      case None
      then show ?thesis using assms(3) n by (simp add: Service_resolveWalletUser_def draw_NewV7_def) auto
    next
      case (Some uid)
      show ?thesis
      proof (cases "map_of (mem_users (store w)) uid")
        case (Some v)
        then show ?thesis using assms(3) n \<open>uuid_NewV7 w (tick w) = Some uid\<close>
          by (simp add: Service_resolveWalletUser_def draw_NewV7_def time_Now_def call_now_def call_def Memory_Create_err Let_def) auto
      next
        case new: None
        then show ?thesis using assms(3) n Some None Inl
          by (simp add: Service_resolveWalletUser_def draw_NewV7_def draw_NewString_def time_Now_def call_now_def call_def
              Memory_Create_ok Memory_SaveWalletIdentity_def Memory_requireUser_def Let_def)
      qed
    qed
  qed  then show ?thesis using assms(2) by simp
qed

lemma callback_created:
  assumes "mem_inv (store w)" "created u (store w) (store w')"
    and "\<forall>pr code params w. pr \<in> snd ` set ps \<longrightarrow> store (snd (ExchangeCode pr code params w)) = store w"
    and "Service_OAuthCallback (devService j i l p (Some (memOAuth ps cfg)) wa) req w = (r, w')"
  shows "case r of Inr res \<Rightarrow> OCRes_UserID res = u \<and> OCRes_IsNewUser res
    | Inl e \<Rightarrow> \<exists>c. failedAccount e = Some c \<and> change_userID c = u \<and> change_created c"
proof -
  let ?svc = "devService j i l p (Some (memOAuth ps cfg)) wa"
  obtain pr where pr: "map_of ps (OCR_Provider req) = Some pr"
    using assms(2,4) by (cases "map_of ps (OCR_Provider req)") (auto simp: Service_OAuthCallback_def Service_oauthProvider_def)
  then have x: "store (snd (ExchangeCode pr c a w)) = store w" for c a w
    using assms(3) map_of_SomeD [OF pr] by force
  obtain ch w1 where c: "Service_consumeOAuthState ?svc (memOAuth ps cfg) req w = (Inr ch, w1)"
    using assms(2,4) pr consume_users(1)
    by (cases "Service_consumeOAuthState ?svc (memOAuth ps cfg) req w")
      (fastforce simp: Service_OAuthCallback_def Service_oauthProvider_def split: sum.splits)
  have part: "op_challenges (memOAuth ps cfg) = memChallengeStore" by simp
  have s1: "mem_inv (store w1)" "mem_users (store w1) = mem_users (store w)"
    using dev_ch.oauth_consume_ok(1) [OF assms(1) part c] consume_users(1) [OF c] by auto
  let ?x = "ExchangeCode pr (OCR_Code req) \<lparr>Auth_State = OCR_State req, Auth_RedirectURI = OCR_RedirectURI req,
      Auth_CodeVerifier = Ch_CodeVerifier ch, Auth_Nonce = Ch_OAuthNonce ch\<rparr> w1"
  obtain info w2 where e: "?x = (Inr info, w2)" "Info_ExternalID info \<noteq> ''''"
  proof (cases ?x)
    case (Pair a w2)
    have "store w2 = store w1" using x [of "OCR_Code req" _ w1] Pair by (metis snd_conv)
    then have "\<not> created u (store w) (store w2)" using s1(2) by simp
    then show ?thesis using that assms(2,4) pr c Pair
      by (cases a) (auto simp: Service_OAuthCallback_def Service_oauthProvider_def split: if_splits)
  qed
  have s2: "store w2 = store w1" using x [of "OCR_Code req" _ w1] e(1) by (metis snd_conv)
  obtain t w3 where t: "Service_resolveOAuthUser ?svc (memOAuth ps cfg) (OCR_Provider req) info w2 = (t, w3)" by fastforce
  have "mem_users (store w') = mem_users (store w3)"
    using assms(4) pr c e t dev_issue_users
    by (auto simp: Service_OAuthCallback_def Service_oauthProvider_def Let_def split: sum.splits prod.splits)
  then have "created u (store w2) (store w3)" using assms(2) s1(2) s2 by (simp add: created_def)
  from resolve_oauth_created [OF _ this t] obtain user where "t = Inr (user, oauthUserCreated)" "User_ID user = u"
    using s1(1) s2 by auto
  then show ?thesis using assms(4) pr c e t
    by (auto simp: Service_OAuthCallback_def Service_oauthProvider_def Let_def failedAccount_def split: sum.splits prod.splits)
qed

lemma wallet_created:
  assumes "mem_inv (store w)" "created u (store w) (store w')"
    and "Service_AuthenticateWallet (devService j i l p oa (Some (memWallet ps cfg))) req w = (r, w')"
  shows "case r of Inr res \<Rightarrow> WARes_UserID res = u \<and> WARes_IsNewUser res
    | Inl e \<Rightarrow> \<exists>c. failedAccount e = Some c \<and> change_userID c = u \<and> change_created c"
proof -
  let ?svc = "devService j i l p oa (Some (memWallet ps cfg))"
  obtain pr addr where pr: "map_of ps (WAR_Chain req) = Some pr" "NormalizeAddress pr (WAR_Address req) = Inr addr"
    using assms(2,3) by (auto simp: Service_AuthenticateWallet_def Service_walletProvider_def Dispatcher_Provider_def
        split: option.splits sum.splits)
  obtain e w1 where c: "Service_consumeWalletChallenge ?svc (memWallet ps cfg) pr req addr w = (e, w1)" by fastforce
  have s1: "mem_users (store w1) = mem_users (store w)" by (rule consume_users(2) [OF c])
  then have e: "e = None" using assms(2,3) pr c
    by (cases e) (auto simp: Service_AuthenticateWallet_def Service_walletProvider_def Dispatcher_Provider_def)
  have i1: "mem_inv (store w1)" using dev_ch.wallet_consume_ok [OF assms(1) memWallet_simps(3) c [unfolded e]] by auto
  obtain t w2 where t: "Service_resolveWalletUser ?svc (memWallet ps cfg) (WAR_Chain req) addr w1 = (t, w2)" by fastforce
  have "mem_users (store w') = mem_users (store w2)"
    using assms(3) pr c e t dev_issue_users
    by (auto simp: Service_AuthenticateWallet_def Service_walletProvider_def Dispatcher_Provider_def split: sum.splits prod.splits)
  then have "created u (store w1) (store w2)" using assms(2) s1 by (simp add: created_def)
  from resolve_wallet_created [OF i1 this t] obtain user where "t = Inr (user, True)" "User_ID user = u" by auto
  then show ?thesis using assms(3) pr c e t
    by (auto simp: Service_AuthenticateWallet_def Service_walletProvider_def Dispatcher_Provider_def failedAccount_def
        split: sum.splits prod.splits)
qed

text \<open>The sign-in calls, with the records they write.\<close>

inductive signin_rpc :: "'st Handler \<Rightarrow> 'st world \<Rightarrow> audit_record list \<Rightarrow> 'st world \<Rightarrow> bool" for h w where
  register: "Handler_Register h r1 w = (res1, recs, w') \<Longrightarrow> signin_rpc h w recs w'"
| login: "Handler_Login h r2 w = (res2, recs, w') \<Longrightarrow> signin_rpc h w recs w'"
| oauth: "Handler_OAuthCallback h r3 w = (res3, recs, w') \<Longrightarrow> signin_rpc h w recs w'"
| wallet: "Handler_AuthenticateWallet h r4 w = (res4, recs, w') \<Longrightarrow> signin_rpc h w recs w'"

definition creation_recorded :: "string \<Rightarrow> audit_record list \<Rightarrow> bool" where
  "creation_recorded u recs \<longleftrightarrow>
    (\<exists>r\<in>set recs. (''user_id'', AString u) \<in> set (AR_Attrs r) \<and>
       (outcome auditEventUserCreated True r \<or> outcome auditEventRegister True r \<or> outcome auditEventRegister False r))"

lemma sessionCookies_same: "sessionCookies h pair w = (cs, w') \<Longrightarrow> store w' = store w"
  by (auto simp: sessionCookies_def setTokenCookies_def time_Now_def Let_def split: if_splits)

lemma change_recorded: "change_created c \<Longrightarrow> creation_recorded (change_userID c) (auditAccountChange h req m c attr @ rest)"
  using auditSuccess_one [of h req auditEventUserCreated "change_userID c" "[(''method'', AString m), attr]"]
  by (auto simp: auditAccountChange_def creation_recorded_def)

lemma signInFailure_recorded:
  "failedAccount e = Some c \<Longrightarrow> change_created c \<Longrightarrow>
   creation_recorded (change_userID c) (auditSignInFailure h req event m reason e attr)"
  by (simp add: auditSignInFailure_def change_recorded)

lemma register_recorded:
  "creation_recorded u (auditSuccess h req auditEventRegister u attrs)"
  "failedAccount e = Some c \<Longrightarrow>
   creation_recorded (change_userID c) (auditFailure h req auditEventRegister reason (accountAttrs e))"
proof -
  show "creation_recorded u (auditSuccess h req auditEventRegister u attrs)"
    using auditSuccess_one [of h req auditEventRegister u attrs] by (auto simp: creation_recorded_def)
  show "creation_recorded (change_userID c) (auditFailure h req auditEventRegister reason (accountAttrs e))"
    if "failedAccount e = Some c"
    using that auditFailure_one [of h req auditEventRegister reason "accountAttrs e"]
    by (auto simp: creation_recorded_def accountAttrs_def)
qed

lemma login_users:
  assumes "Service_Login (devService j i l p oa wa) email pw w = (r, w')"
  shows "mem_users (store w') = mem_users (store w)"
proof -
  have "store (snd (Local_Authenticate memLocal req w)) = store w" for req
    by (simp add: Local_Authenticate_def memLocal_def Let_def split: sum.split)
  then have "Local_Authenticate memLocal req w = (x, w1) \<Longrightarrow> store w1 = store w" for req x w1 by (metis snd_conv)
  then show ?thesis using assms
    by (auto dest: dev_issue_users simp: Service_Login_def split: sum.splits prod.splits option.splits if_splits)
qed

text \<open>What the handlers add to the service calls: records and, at most, clock readings.\<close>

lemma Handler_records:
  "Service_Register (h_service h) (RegisterRequest_Email (Req_Msg r1)) (RegisterRequest_Password (Req_Msg r1)) w = (s1, w1) \<Longrightarrow>
   Handler_Register h r1 w = (res1, recs, w') \<Longrightarrow> store w' = store w1 \<and>
     recs = (case s1 of Inl e \<Rightarrow> auditFailure h r1 auditEventRegister (registerFailureReason e) (accountAttrs e)
       | Inr x \<Rightarrow> auditSuccess h r1 auditEventRegister (RegResult_UserID x) [])"
  "Service_Login (h_service h) (LoginRequest_Email (Req_Msg r2)) (LoginRequest_Password (Req_Msg r2)) w = (s2, w1) \<Longrightarrow>
   Handler_Login h r2 w = (res2, recs, w') \<Longrightarrow> store w' = store w1"
  by (cases s1; auto simp: Handler_Register_def Let_def sessionCookies_same split: prod.splits)
    (cases s2; auto simp: Handler_Login_def Let_def sessionCookies_same split: prod.splits)

lemma Handler_oauth_records:
  assumes "Handler_OAuthCallback h req w = (res, recs, w')"
  shows "store w' = store w \<or> (\<exists>creq s w1. Service_OAuthCallback (h_service h) creq w = (s, w1) \<and> store w' = store w1 \<and>
    (\<exists>a. recs = (case s of
        Inl e \<Rightarrow> auditSignInFailure h req auditEventOAuthSignIn auditMethodOAuth (oauthFailureReason e) e a
      | Inr x \<Rightarrow> auditSignIn h req auditEventOAuthSignIn auditMethodOAuth
          \<lparr>change_userID = OCRes_UserID x, change_created = OCRes_IsNewUser x, change_linked = OCRes_Linked x\<rparr> a)))"
proof -
  let ?m = "Req_Msg req"
  let ?c = "\<lparr>OCR_Provider = OAuthCallbackRequest_Provider ?m, OCR_Code = OAuthCallbackRequest_Code ?m,
      OCR_State = OAuthCallbackRequest_State ?m, OCR_RedirectURI = OAuthCallbackRequest_RedirectUri ?m,
      OCR_Binding = (if CC_Enabled (h_cookieConfig h)
        then getCookieFromHeader (Req_Header req) (oauthBindingCookieName (OAuthCallbackRequest_State ?m))
        else OAuthCallbackRequest_Binding ?m)\<rparr>"
  obtain s w1 where s: "Service_OAuthCallback (h_service h) ?c w = (s, w1)" by fastforce
  show ?thesis
  proof (cases "OAuthCallbackRequest_Provider (Req_Msg req) = [] \<or> OAuthCallbackRequest_RedirectUri (Req_Msg req) = []")
    case True
    then show ?thesis using assms by (simp add: Handler_OAuthCallback_def Let_def)
  next
    case False
    have "store w' = store w1 \<and> recs = (case s of
        Inl e \<Rightarrow> auditSignInFailure h req auditEventOAuthSignIn auditMethodOAuth (oauthFailureReason e) e (clientAttr ''provider'' (OAuthCallbackRequest_Provider ?m))
      | Inr x \<Rightarrow> auditSignIn h req auditEventOAuthSignIn auditMethodOAuth
          \<lparr>change_userID = OCRes_UserID x, change_created = OCRes_IsNewUser x, change_linked = OCRes_Linked x\<rparr> (clientAttr ''provider'' (OAuthCallbackRequest_Provider ?m)))"
      using assms False s unfolding Handler_OAuthCallback_def Let_def
      by (cases s) (auto simp: sessionCookies_same split: prod.splits)
    with s show ?thesis by blast
  qed
qed

lemma Handler_wallet_records:
  assumes "Handler_AuthenticateWallet h req w = (res, recs, w')"
  shows "store w' = store w \<or> (\<exists>wreq s w1. Service_AuthenticateWallet (h_service h) wreq w = (s, w1) \<and> store w' = store w1 \<and>
    (\<exists>a. recs = (case s of
        Inl e \<Rightarrow> auditSignInFailure h req auditEventWalletSignIn auditMethodWallet (walletFailureReason e) e a
      | Inr x \<Rightarrow> auditSignIn h req auditEventWalletSignIn auditMethodWallet
          \<lparr>change_userID = WARes_UserID x, change_created = WARes_IsNewUser x, change_linked = False\<rparr> a)))"
proof -
  let ?m = "Req_Msg req"
  let ?c = "\<lparr>WAR_Chain = AuthenticateWalletRequest_Chain ?m, WAR_Address = AuthenticateWalletRequest_Address ?m,
      WAR_Nonce = AuthenticateWalletRequest_Nonce ?m, WAR_Signature = AuthenticateWalletRequest_Signature ?m\<rparr>"
  obtain s w1 where s: "Service_AuthenticateWallet (h_service h) ?c w = (s, w1)" by fastforce
  show ?thesis
  proof (cases "AuthenticateWalletRequest_Chain (Req_Msg req) = [] \<or> AuthenticateWalletRequest_Address (Req_Msg req) = []")
    case True
    then show ?thesis using assms by (simp add: Handler_AuthenticateWallet_def Let_def)
  next
    case False
    have "store w' = store w1 \<and> recs = (case s of
        Inl e \<Rightarrow> auditSignInFailure h req auditEventWalletSignIn auditMethodWallet (walletFailureReason e) e (clientAttr ''chain'' (AuthenticateWalletRequest_Chain ?m))
      | Inr x \<Rightarrow> auditSignIn h req auditEventWalletSignIn auditMethodWallet
          \<lparr>change_userID = WARes_UserID x, change_created = WARes_IsNewUser x, change_linked = False\<rparr> (clientAttr ''chain'' (AuthenticateWalletRequest_Chain ?m)))"
      using assms False s unfolding Handler_AuthenticateWallet_def Let_def
      by (cases s) (auto simp: sessionCookies_same split: prod.splits)
    with s show ?thesis by blast
  qed
qed

lemma signIn_recorded:
  "creation_recorded u (auditSignIn h req event m \<lparr>change_userID = u, change_created = True, change_linked = l\<rparr> attr)"
  using change_recorded [of "\<lparr>change_userID = u, change_created = True, change_linked = l\<rparr>"] by (simp add: auditSignIn_def)

lemma oauth_recorded:
  assumes "Handler_OAuthCallback h req w = (res, recs, w')" "mem_inv (store w)"
    and "h_service h = devService j i l p (Some (memOAuth ps cfg)) wo"
    and "\<forall>pr code params w. pr \<in> snd ` set ps \<longrightarrow> store (snd (ExchangeCode pr code params w)) = store w"
    and "created u (store w) (store w')"
  shows "creation_recorded u recs"
proof -
  from Handler_oauth_records [OF assms(1)] consider "store w' = store w"
    | creq s w1 a where "Service_OAuthCallback (h_service h) creq w = (s, w1)" "store w' = store w1"
      "recs = (case s of
        Inl e \<Rightarrow> auditSignInFailure h req auditEventOAuthSignIn auditMethodOAuth (oauthFailureReason e) e a
      | Inr x \<Rightarrow> auditSignIn h req auditEventOAuthSignIn auditMethodOAuth
          \<lparr>change_userID = OCRes_UserID x, change_created = OCRes_IsNewUser x, change_linked = OCRes_Linked x\<rparr> a)" by blast
  then show ?thesis
  proof cases
    case 1
    then show ?thesis using assms(5) by simp
  next
    case 2
    from callback_created [OF assms(2) assms(5) [unfolded 2(2)] assms(4) 2(1) [unfolded assms(3)]] show ?thesis
      by (cases s) (auto simp: 2(3) signInFailure_recorded signIn_recorded)
  qed
qed

lemma wallet_recorded:
  assumes "Handler_AuthenticateWallet h req w = (res, recs, w')" "mem_inv (store w)"
    and "h_service h = devService j i l p oa (Some (memWallet qs wcfg))"
    and "created u (store w) (store w')"
  shows "creation_recorded u recs"
proof -
  from Handler_wallet_records [OF assms(1)] consider "store w' = store w"
    | wreq s w1 a where "Service_AuthenticateWallet (h_service h) wreq w = (s, w1)" "store w' = store w1"
      "recs = (case s of
        Inl e \<Rightarrow> auditSignInFailure h req auditEventWalletSignIn auditMethodWallet (walletFailureReason e) e a
      | Inr x \<Rightarrow> auditSignIn h req auditEventWalletSignIn auditMethodWallet
          \<lparr>change_userID = WARes_UserID x, change_created = WARes_IsNewUser x, change_linked = False\<rparr> a)" by blast
  then show ?thesis
  proof cases
    case 1
    then show ?thesis using assms(4) by simp
  next
    case 2
    from wallet_created [OF assms(2) assms(4) [unfolded 2(2)] 2(1) [unfolded assms(3)]] show ?thesis
      by (cases s) (auto simp: 2(3) signInFailure_recorded signIn_recorded)
  qed
qed


section \<open>Witness\<close>

definition demo_wallet_config_a :: WalletConfig where
  "demo_wallet_config_a = \<lparr>WC_Domain = ''app'', WC_URI = ''https://app'', WC_Statement = '''', WC_ChallengeTTL = 5 * minute\<rparr>"

definition demo_handler :: "Store Handler" where
  "demo_handler = NewHandler \<lparr>ParseAddr = (\<lambda>s. None), ParseAddrPort = (\<lambda>s. None), ParsePrefix = (\<lambda>s. None), Addr_String = (\<lambda>a. '''')\<rparr>
     (\<lambda>s. None) (devService lax_jose demo_issuer 0 None (Some (memOAuth [] demo_oauth_config)) (Some (memWallet [] demo_wallet_config_a))) []"

definition demo_register_request :: "RegisterRequestMsg Request" where
  "demo_register_request = \<lparr>Req_Msg = \<lparr>RegisterRequest_Email = ''a@b.co'', RegisterRequest_Password = ''password''\<rparr>,
     Req_Header = [], Req_PeerAddr = ''peer''\<rparr>"


end
