(* ===== verification/Config.thy ===== *)
theory Config
  imports Audit_Log
begin

text \<open>
  \<^verbatim>\<open>cmd/psina/config.go\<close>: reading and validating the configuration. The libraries that parse
  flags and YAML, merge the sources and fill the struct (\<^verbatim>\<open>pflag\<close>, \<^verbatim>\<open>koanf\<close>) are the
  parameter record \<open>config_lib\<close>; flattening, list splitting and validation are psina's own.
\<close>

section \<open>The configuration\<close>

record OAuthClientConfig =
  Oc_ClientID :: string
  Oc_ClientSecret :: string
  Oc_RedirectURIs :: "string list"

record Config =
  Cfg_Dev :: bool
  Cfg_Logger_Level :: string
  Cfg_Logger_Format :: string
  Cfg_Server_Port :: int
  Cfg_Server_TrustedProxies :: "string list"
  Cfg_DB_URL :: string
  Cfg_DB_TablePrefix :: string
  Cfg_JWT_PrivateKeyPath :: string
  Cfg_JWT_PrivateKey :: string
  Cfg_JWT_Algorithm :: string
  Cfg_Token_RefreshReuseLeeway :: duration
  Cfg_Cookie_Enabled :: bool
  Cfg_Cookie_Domain :: string
  Cfg_Cookie_Secure :: bool
  Cfg_Cookie_SameSite :: string
  Cfg_Cookie_Path :: string
  Cfg_PAT_Enabled :: bool
  Cfg_PAT_MaxPerUser :: int
  Cfg_PAT_MaxTTL :: duration
  Cfg_PAT_TouchInterval :: duration
  Cfg_OAuth_AutoLinkEmail :: bool
  Cfg_OAuth_Google :: OAuthClientConfig
  Cfg_OAuth_GitHub :: OAuthClientConfig
  Cfg_Wallet_Domain :: string
  Cfg_Wallet_URI :: string
  Cfg_Wallet_Statement :: string
  Cfg_Wallet_ChallengeTTL :: duration
  Cfg_Wallet_EVMChains :: "string list"

record evmChain =
  chain_Name :: string
  chain_ID :: int

text \<open>A configuration value: a section, a null or a leaf (its content is the library's).\<close>

datatype cfg_value = CSection "(string \<times> cfg_value) list" | CNull | CLeaf string

section \<open>Flattening a file\<close>

type_synonym flat_conf = "(string, string) gomap"
type_synonym spellings = "(string, string) gomap"

text \<open>\<^verbatim>\<open>a < b\<close> on Go strings: bytewise, a proper prefix first.\<close>

fun string_less :: "string \<Rightarrow> string \<Rightarrow> bool" where
  "string_less [] b = (b \<noteq> [])"
| "string_less (x # a) [] = False"
| "string_less (x # a) (y # b) = (byte x < byte y \<or> x = y \<and> string_less a b)"

text \<open>The two spellings in a stable order; they are part of the text.\<close>

definition duplicateKeyError :: "string \<Rightarrow> string \<Rightarrow> error" where
  "duplicateKeyError a b =
    (let (a, b) = (if string_less b a then (b, a) else (a, b))
     in Errorf (''load config file: duplicate key '' @ a @ '' and '' @ b) [])"

text \<open>\<open>lo\<close> is \<^verbatim>\<open>strings.ToLower\<close>. A map is iterated in list order.\<close>

function flattenConfig :: "(string \<Rightarrow> string) \<Rightarrow> (string \<times> cfg_value) list \<Rightarrow> string \<Rightarrow> flat_conf \<times> spellings \<Rightarrow>
    error + flat_conf \<times> spellings" where
  "flattenConfig lo [] pre st = Inr st"
| "flattenConfig lo ((key, CSection sec) # m) pre st =
     (case flattenConfig lo sec (pre @ key @ ''.'') st of
        Inl err \<Rightarrow> Inl err
      | Inr st \<Rightarrow> flattenConfig lo m pre st)"
| "flattenConfig lo ((key, CNull) # m) pre st =
     (let path = pre @ key; lower = lo path in
      case map_of (snd st) lower of
        Some prev \<Rightarrow> Inl (duplicateKeyError prev path)
      | None \<Rightarrow> flattenConfig lo m pre (fst st, map_set lower path (snd st)))"
| "flattenConfig lo ((key, CLeaf v) # m) pre st =
     (let path = pre @ key; lower = lo path in
      case map_of (snd st) lower of
        Some prev \<Rightarrow> Inl (duplicateKeyError prev path)
      | None \<Rightarrow> flattenConfig lo m pre (map_set lower v (fst st), map_set lower path (snd st)))"
  by pat_completeness auto

termination by lexicographic_order

text \<open>\<^verbatim>\<open>strings.IndexByte\<close>, \<^verbatim>\<open>nextDot\<close> and the loop over the dots of a key.\<close>

fun strings_IndexByte :: "string \<Rightarrow> char \<Rightarrow> int" where
  "strings_IndexByte [] c = -1"
| "strings_IndexByte (x # xs) c =
     (if x = c then 0 else let j = strings_IndexByte xs c in if j < 0 then -1 else j + 1)"

definition nextDot :: "string \<Rightarrow> int \<Rightarrow> int" where
  "nextDot key i =
    (let j = strings_IndexByte (drop (nat i + 1) key) (CHR ''.'')
     in if j < 0 then -1 else i + 1 + j)"

lemma IndexByte_bounds: "-1 \<le> strings_IndexByte s c \<and> strings_IndexByte s c < int (length s)"
  by (induction s) (auto simp: Let_def)

lemma nextDot_bounds: "0 \<le> i \<Longrightarrow> 0 \<le> nextDot key i \<Longrightarrow> i < nextDot key i \<and> nextDot key i < int (length key)"
  using IndexByte_bounds [of "drop (nat i + 1) key" "CHR ''.''"]
  by (auto simp: nextDot_def Let_def split: if_splits)

definition spelled :: "spellings \<Rightarrow> string \<Rightarrow> string" where
  "spelled spelling k = (case map_of spelling k of None \<Rightarrow> '''' | Some s \<Rightarrow> s)"

lemma nextDot_decreases:
  "\<not> i < 0 \<Longrightarrow> \<not> nextDot key i < 0 \<Longrightarrow> Suc (length key) - nat (nextDot key i) < Suc (length key) - nat i"
  using nextDot_bounds [of i key] by linarith

function dotLoop :: "flat_conf \<Rightarrow> spellings \<Rightarrow> string \<Rightarrow> int \<Rightarrow> error option" where
  "dotLoop flat spelling key i =
    (if i < 0 then None
     else if map_of flat (take (nat i) key) \<noteq> None
     then Some (duplicateKeyError (spelled spelling (take (nat i) key)) (spelled spelling key))
     else dotLoop flat spelling key (nextDot key i))"
  by pat_completeness auto

termination
  by (relation "measure (\<lambda>(_, _, key, i). if i < 0 then 0 else Suc (length key) - nat i + 1)")
    (use nextDot_decreases in \<open>auto split: if_splits\<close>)

declare dotLoop.simps [simp del]

text \<open>The first collision over the keys of the flattened file.\<close>

fun firstCollision :: "flat_conf \<Rightarrow> spellings \<Rightarrow> string list \<Rightarrow> error option" where
  "firstCollision flat spelling [] = None"
| "firstCollision flat spelling (key # keys) =
     (case dotLoop flat spelling key (strings_IndexByte key (CHR ''.'')) of
        Some err \<Rightarrow> Some err
      | None \<Rightarrow> firstCollision flat spelling keys)"

text \<open>Reading flags, a YAML file (as its top-level map) and the environment, merging flat
  configurations in order and filling the struct; \<open>unicode_Lower\<close> is the table of
  \<^verbatim>\<open>unicode.ToLower\<close> beyond ASCII.\<close>

record config_lib =
  pflag_Parse :: "string list \<Rightarrow> error + string"
  file_ReadBytes :: "string \<Rightarrow> error + string"
  yaml_Unmarshal :: "string \<Rightarrow> error + (string \<times> cfg_value) list"
  k_Load :: "flat_conf \<Rightarrow> flat_conf \<Rightarrow> error + flat_conf"
  k_Unmarshal :: "flat_conf \<Rightarrow> error + Config"
  environ :: "(string \<times> string) list"
  duration_String :: "duration \<Rightarrow> string"
  unicode_Lower :: "nat \<Rightarrow> nat"

abbreviation conf_ToLower :: "config_lib \<Rightarrow> string \<Rightarrow> string" where
  "conf_ToLower lib \<equiv> strings_ToLower (unicode_Lower lib)"

definition loadConfigFile :: "config_lib \<Rightarrow> string \<Rightarrow> error + flat_conf" where
  "loadConfigFile lib path =
    (case file_ReadBytes lib path of
       Inl err \<Rightarrow> Inl (Errorf ''load config file: %w'' [err])
     | Inr data \<Rightarrow>
         (case yaml_Unmarshal lib data of
            Inl err \<Rightarrow> Inl (Errorf ''load config file: %w'' [err])
          | Inr raw \<Rightarrow>
              (case flattenConfig (conf_ToLower lib) raw '''' ([], []) of
                 Inl err \<Rightarrow> Inl err
               | Inr (flat, spelling) \<Rightarrow>
                   (case firstCollision flat spelling (map fst flat) of
                      Some err \<Rightarrow> Inl err
                    | None \<Rightarrow> Inr flat))))"

section \<open>Loading\<close>

definition splitList :: "string list \<Rightarrow> string list" where
  "splitList values =
    concat (map (\<lambda>v. filter (\<lambda>item. item \<noteq> '''') (map strings_TrimSpace (strings_Split (CHR '','') v))) values)"

definition default_conf :: "config_lib \<Rightarrow> flat_conf" where
  "default_conf lib =
    [(''dev'', ''false''), (''logger.level'', ''info''), (''logger.format'', ''json''), (''server.port'', ''8080''),
     (''db.tableprefix'', ''''), (''jwt.algorithm'', ''RS256''),
     (''token.refreshreuseleeway'', duration_String lib DefaultRefreshReuseLeeway),
     (''cookie.enabled'', ''false''), (''cookie.secure'', ''true''), (''cookie.samesite'', ''strict''), (''cookie.path'', ''/''),
     (''pat.enabled'', ''true''), (''pat.maxperuser'', strconv_Itoa DefaultPATMaxPerUser), (''pat.maxttl'', ''0s''),
     (''pat.touchinterval'', duration_String lib DefaultPATTouchInterval), (''oauth.autolinkemail'', ''true''),
     (''wallet.challengettl'', duration_String lib DefaultWalletChallengeTTL), (''wallet.evmchains'', ''ethereum=1'')]"

text \<open>\<^verbatim>\<open>PSINA_SERVER_PORT\<close> names \<^verbatim>\<open>server.port\<close>.\<close>

definition envKey :: "config_lib \<Rightarrow> string \<Rightarrow> string" where
  "envKey lib s = map (\<lambda>c. if c = CHR ''_'' then CHR ''.'' else c) (conf_ToLower lib (strings_TrimPrefix s ''PSINA_''))"

definition env_conf :: "config_lib \<Rightarrow> flat_conf" where
  "env_conf lib = map (\<lambda>(k, v). (envKey lib k, v)) (filter (\<lambda>(k, v). strings_HasPrefix k ''PSINA_'') (environ lib))"

section \<open>Validation\<close>

definition validateDevFallbacks :: "Config \<Rightarrow> error option" where
  "validateDevFallbacks c =
    (if Cfg_Dev c then None
     else if Cfg_DB_URL c = ''''
     then Some (Errorf ''db.url is empty: set it, or set dev: true (PSINA_DEV) to use the in-memory store'' [])
     else if Cfg_JWT_PrivateKey c = '''' \<and> Cfg_JWT_PrivateKeyPath c = ''''
     then Some (Errorf ''no jwt key: set jwt.privatekeypath or jwt.privatekey, or set dev: true (PSINA_DEV) to use an ephemeral key'' [])
     else None)"

definition parseLogLevel :: "(string \<Rightarrow> string) \<Rightarrow> string \<Rightarrow> Level \<times> error option" where
  "parseLogLevel lo level =
    (let s = lo level in
     if s = ''debug'' then (LevelDebug, None)
     else if s = ''info'' \<or> s = '''' then (LevelInfo, None)
     else if s = ''warn'' then (LevelWarn, None)
     else if s = ''error'' then (LevelError, None)
     else (LevelInfo, Some (Errorf ''invalid logger.level: %s (supported: debug, info, warn, error)'' [])))"

text \<open>\<^verbatim>\<open>strconv.Atoi\<close>: an optional sign and decimal digits within the range of a 64-bit int.\<close>

definition decimal_value :: "string \<Rightarrow> int option" where
  "decimal_value s =
    (if s \<noteq> '''' \<and> list_all (\<lambda>c. 48 \<le> byte c \<and> byte c \<le> 57) s
     then Some (foldl (\<lambda>n c. 10 * n + int (byte c - 48)) 0 s) else None)"

definition strconv_Atoi :: "string \<Rightarrow> int option" where
  "strconv_Atoi s =
    (let (neg, body) = (case s of CHR ''-'' # t \<Rightarrow> (True, t) | CHR ''+'' # t \<Rightarrow> (False, t) | _ \<Rightarrow> (False, s)) in
     case decimal_value body of
       None \<Rightarrow> None
     | Some n \<Rightarrow>
         let i = (if neg then - n else n)
         in if - (2 ^ 63) \<le> i \<and> i < 2 ^ 63 then Some i else None)"

fun parseEVMChainsLoop :: "string list \<Rightarrow> string set \<Rightarrow> int set \<Rightarrow> error + evmChain list" where
  "parseEVMChainsLoop [] seen seenID = Inr []"
| "parseEVMChainsLoop (entry # entries) seen seenID =
     (let (name, rawID, ok) = strings_Cut (CHR ''='') entry;
          name = strings_TrimSpace name;
          bad = Inl (Errorf ''wallet.evmchains: %q is not name=chainID'' [])
      in case strconv_Atoi (strings_TrimSpace rawID) of
           None \<Rightarrow> bad
         | Some i \<Rightarrow>
             if \<not> ok \<or> name = '''' \<or> i \<le> 0 then bad
             else if name \<in> seen then Inl (Errorf ''wallet.evmchains: duplicate chain %q'' [])
             else if i \<in> seenID then Inl (Errorf ''wallet.evmchains: duplicate chain id %d'' [])
             else
               (case parseEVMChainsLoop entries (insert name seen) (insert i seenID) of
                  Inl err \<Rightarrow> Inl err
                | Inr cs \<Rightarrow> Inr (\<lparr>chain_Name = name, chain_ID = i\<rparr> # cs)))"

definition parseEVMChains :: "string list \<Rightarrow> error + evmChain list" where
  "parseEVMChains entries =
    (if entries = [] then Inl (Errorf ''wallet.evmchains is empty'' []) else parseEVMChainsLoop entries {} {})"

definition validateWallet :: "Config \<Rightarrow> error option" where
  "validateWallet c =
    (case parseEVMChains (Cfg_Wallet_EVMChains c) of
       Inl err \<Rightarrow> Some err
     | Inr _ \<Rightarrow>
         if Cfg_Wallet_Domain c = '''' \<and> Cfg_Wallet_URI c = '''' then None
         else if Cfg_Wallet_Domain c = '''' \<or> Cfg_Wallet_URI c = ''''
         then Some (Errorf ''wallet needs domain and uri together'' [])
         else if has_line_break (Cfg_Wallet_Domain c @ Cfg_Wallet_URI c @ Cfg_Wallet_Statement c)
         then Some (Errorf ''wallet.domain, wallet.uri and wallet.statement must be single-line'' [])
         else if Cfg_Wallet_ChallengeTTL c < 0
         then Some (Errorf ''wallet.challengettl must not be negative: %s'' [])
         else None)"

definition validateOAuthClient :: "string \<Rightarrow> OAuthClientConfig \<Rightarrow> error option" where
  "validateOAuthClient name cfg =
    (if (Oc_ClientID cfg \<noteq> '''' \<or> Oc_ClientSecret cfg \<noteq> '''' \<or> Oc_RedirectURIs cfg \<noteq> []) \<and>
        (Oc_ClientID cfg = '''' \<or> Oc_ClientSecret cfg = '''' \<or> Oc_RedirectURIs cfg = [])
     then Some (Errorf (''oauth.'' @ name @ '' needs clientid, clientsecret and redirecturis together'') [])
     else None)"

text \<open>The first error of a list of checks.\<close>

fun first_error :: "error option list \<Rightarrow> error option" where
  "first_error [] = None"
| "first_error (Some e # es) = Some e"
| "first_error (None # es) = first_error es"

definition validateConfig :: "netip \<Rightarrow> (string \<Rightarrow> string) \<Rightarrow> Config \<Rightarrow> error option" where
  "validateConfig np lo c = first_error
    [validateDevFallbacks c,
     snd (parseLogLevel lo (Cfg_Logger_Level c)),
     (if lo (Cfg_Logger_Format c) \<in> {''json'', ''text'', ''''} then None
      else Some (Errorf ''invalid logger.format: %s (supported: json, text)'' [])),
     (if Cfg_JWT_Algorithm c \<in> {''RS256'', ''ES256''} then None
      else Some (Errorf ''unsupported JWT algorithm: %s (supported: RS256, ES256)'' [])),
     (case parseTrustedProxies np (Cfg_Server_TrustedProxies c) of Inl err \<Rightarrow> Some err | Inr _ \<Rightarrow> None),
     (if Cfg_Token_RefreshReuseLeeway c < 0 then Some (Errorf ''token.refreshreuseleeway must not be negative: %s'' []) else None),
     (if lo (Cfg_Cookie_SameSite c) \<in> {''strict'', ''lax'', ''none'', ''''} then None
      else Some (Errorf ''invalid cookie.samesite: %s (supported: strict, lax, none)'' [])),
     (if Cfg_Cookie_Enabled c \<and> Cfg_Cookie_Domain c = ''''
      then Some (Errorf ''cookie.domain is required when cookies are enabled'' []) else None),
     validateOAuthClient ''google'' (Cfg_OAuth_Google c),
     validateOAuthClient ''github'' (Cfg_OAuth_GitHub c),
     validateWallet c]"

section \<open>The whole load\<close>

definition splitLists :: "Config \<Rightarrow> Config" where
  "splitLists c = c\<lparr>
     Cfg_OAuth_Google := (Cfg_OAuth_Google c)\<lparr>Oc_RedirectURIs := splitList (Oc_RedirectURIs (Cfg_OAuth_Google c))\<rparr>,
     Cfg_OAuth_GitHub := (Cfg_OAuth_GitHub c)\<lparr>Oc_RedirectURIs := splitList (Oc_RedirectURIs (Cfg_OAuth_GitHub c))\<rparr>,
     Cfg_Wallet_EVMChains := splitList (Cfg_Wallet_EVMChains c),
     Cfg_Server_TrustedProxies := splitList (Cfg_Server_TrustedProxies c)\<rparr>"

definition loadConfig :: "config_lib \<Rightarrow> netip \<Rightarrow> string list \<Rightarrow> error + Config" where
  "loadConfig lib np args =
    (case k_Load lib [] (default_conf lib) of
       Inl err \<Rightarrow> Inl (Errorf ''load defaults: %w'' [err])
     | Inr k \<Rightarrow>
         (case pflag_Parse lib args of
            Inl err \<Rightarrow> Inl (Errorf ''parse flags: %w'' [err])
          | Inr configFile \<Rightarrow>
              (case (if configFile = '''' then Inr k
                     else case loadConfigFile lib configFile of
                            Inl err \<Rightarrow> Inl err
                          | Inr fileConf \<Rightarrow>
                              (case k_Load lib k fileConf of
                                 Inl err \<Rightarrow> Inl (Errorf ''load config file: %w'' [err])
                               | Inr k \<Rightarrow> Inr k)) of
                 Inl err \<Rightarrow> Inl err
               | Inr k \<Rightarrow>
                   (case k_Load lib k (env_conf lib) of
                      Inl err \<Rightarrow> Inl (Errorf ''load env: %w'' [err])
                    | Inr k \<Rightarrow>
                        (case k_Unmarshal lib k of
                           Inl err \<Rightarrow> Inl (Errorf ''unmarshal config: %w'' [err])
                         | Inr config \<Rightarrow>
                             let config = splitLists config in
                             case validateConfig np (conf_ToLower lib) config of
                               Some err \<Rightarrow> Inl (Errorf ''validate config: %w'' [err])
                             | None \<Rightarrow> Inr config)))))"

end
