(* ===== verification/Config_Properties.thy ===== *)
theory Config_Properties
  imports Config "HOL-Library.Multiset"
begin

text \<open>
  What reading a configuration file promises: the flattening accepts exactly the files without two
  spellings of one key, whatever order a map is iterated in, and the configuration that validation
  accepts has chains that are pairwise distinct.
\<close>

declare map_of_eq_Some_iff [simp del]
declare Some_eq_map_of_iff [simp del]

section \<open>Flattening, specified\<close>

text \<open>The leaves of a configuration with their dotted paths as written; \<open>None\<close> for a null.\<close>

function leaves :: "(string \<times> cfg_value) list \<Rightarrow> string \<Rightarrow> (string \<times> string option) list" where
  "leaves [] pre = []"
| "leaves ((key, CSection sec) # m) pre = leaves sec (pre @ key @ ''.'') @ leaves m pre"
| "leaves ((key, CNull) # m) pre = (pre @ key, None) # leaves m pre"
| "leaves ((key, CLeaf v) # m) pre = (pre @ key, Some v) # leaves m pre"
  by pat_completeness auto

termination by lexicographic_order

text \<open>What a lowercased path stands for among leaves with distinct lowercased paths.\<close>

definition leaf_at :: "(string \<Rightarrow> string) \<Rightarrow> (string \<times> string option) list \<Rightarrow> string \<rightharpoonup> string" where
  "leaf_at lo ls k = (case map_of (map (\<lambda>(p, v). (lo p, v)) ls) k of Some (Some v) \<Rightarrow> Some v | _ \<Rightarrow> None)"

definition free_keys :: "string list \<Rightarrow> spellings \<Rightarrow> bool" where
  "free_keys ks spl \<longleftrightarrow> distinct ks \<and> (\<forall>k\<in>set ks. map_of spl k = None)"

abbreviation free_of :: "(string \<Rightarrow> string) \<Rightarrow> (string \<times> string option) list \<Rightarrow> spellings \<Rightarrow> bool" where
  "free_of lo ls spl \<equiv> free_keys (map (lo \<circ> fst) ls) spl"

lemma free_keys_Cons: "free_keys (k # ks) spl \<longleftrightarrow> map_of spl k = None \<and> free_keys ks (map_set k p spl)"
  by (auto simp: free_keys_def)

fun put_leaves :: "(string \<Rightarrow> string) \<Rightarrow> (string \<times> string option) list \<Rightarrow> flat_conf \<times> spellings \<Rightarrow> flat_conf \<times> spellings" where
  "put_leaves lo [] st = st"
| "put_leaves lo ((p, None) # ls) st = put_leaves lo ls (fst st, map_set (lo p) p (snd st))"
| "put_leaves lo ((p, Some v) # ls) st = put_leaves lo ls (map_set (lo p) v (fst st), map_set (lo p) p (snd st))"

lemma put_leaves_append: "put_leaves lo (xs @ ys) st = put_leaves lo ys (put_leaves lo xs st)"
  by (induction lo xs st rule: put_leaves.induct) auto

lemma map_of_spellings:
  "map_of (snd (put_leaves lo ls st)) k = None \<longleftrightarrow> map_of (snd st) k = None \<and> k \<notin> set (map (lo \<circ> fst) ls)"
  by (induction lo ls st rule: put_leaves.induct) auto

lemma free_of_append:
  "free_of lo (xs @ ys) (snd st) \<longleftrightarrow> free_of lo xs (snd st) \<and> free_of lo ys (snd (put_leaves lo xs st))"
  unfolding free_keys_def map_of_spellings map_append distinct_append set_append by blast

lemma flattenConfig_spec:
  "case flattenConfig lo m pre st of
     Inr st' \<Rightarrow> free_of lo (leaves m pre) (snd st) \<and> st' = put_leaves lo (leaves m pre) st
   | Inl e \<Rightarrow> \<not> free_of lo (leaves m pre) (snd st)"
proof (induction lo m pre st rule: flattenConfig.induct)
  case (2 lo key sec m pre st)
  have f: "free_of lo (leaves ((key, CSection sec) # m) pre) (snd st) \<longleftrightarrow> free_of lo (leaves sec (pre @ key @ ''.'')) (snd st) \<and>
      free_of lo (leaves m pre) (snd (put_leaves lo (leaves sec (pre @ key @ ''.'')) st))"
    unfolding leaves.simps by (rule free_of_append)
  have p: "put_leaves lo (leaves ((key, CSection sec) # m) pre) st =
      put_leaves lo (leaves m pre) (put_leaves lo (leaves sec (pre @ key @ ''.'')) st)"
    unfolding leaves.simps by (rule put_leaves_append)
  show ?case
  proof (cases "flattenConfig lo sec (pre @ key @ ''.'') st")
    case (Inl e)
    then show ?thesis unfolding f p using 2(1) by simp
  next
    case (Inr st')
    then have s: "free_of lo (leaves sec (pre @ key @ ''.'')) (snd st)"
      "st' = put_leaves lo (leaves sec (pre @ key @ ''.'')) st" using 2(1) by simp_all
    show ?thesis unfolding f p using 2(2) [OF Inr] Inr s by (simp add: comp_def split: sum.splits)
  qed
next
  case (3 lo key m pre st)
  show ?case
  proof (cases "map_of (snd st) (lo (pre @ key))")
    case None
    then show ?thesis using 3 [OF refl refl None]
      by (simp add: free_keys_Cons [where p = "pre @ key"] Let_def split: sum.splits)
  qed (simp add: free_keys_def Let_def)
next
  case (4 lo key v m pre st)
  show ?case
  proof (cases "map_of (snd st) (lo (pre @ key))")
    case None
    then show ?thesis using 4 [OF refl refl None]
      by (simp add: free_keys_Cons [where p = "pre @ key"] Let_def split: sum.splits)
  qed (simp add: free_keys_def Let_def)
qed (simp add: free_keys_def)

lemma map_of_leaf_None:
  "map_of (map (\<lambda>(p, v). (lo p, v)) ls) k = None \<longleftrightarrow> k \<notin> set (map (lo \<circ> fst) ls)"
  by (induction ls) auto

lemma flat_put_leaves:
  assumes "free_of lo ls (snd st)"
  shows "map_of (fst (put_leaves lo ls st)) k = (case leaf_at lo ls k of Some v \<Rightarrow> Some v | None \<Rightarrow> map_of (fst st) k)"
  using assms
proof (induction lo ls st rule: put_leaves.induct)
  case (2 lo p ls st)
  from 2(2) have "lo p \<notin> set (map (lo \<circ> fst) ls)" by (simp add: free_keys_def)
  then have l: "map_of (map (\<lambda>(p, v). (lo p, v)) ls) (lo p) = None" unfolding map_of_leaf_None .
  have "free_of lo ls (map_set (lo p) p (snd st))"
    using 2(2) free_keys_Cons [of "lo p" "map (lo \<circ> fst) ls" "snd st" p] by (simp add: comp_def)
  note 2(1) [unfolded fst_conv snd_conv, OF this]
  then show ?case using l by (cases "k = lo p") (simp_all add: leaf_at_def cong: option.case_cong)
next
  case (3 lo p v ls st)
  from 3(2) have "lo p \<notin> set (map (lo \<circ> fst) ls)" by (simp add: free_keys_def)
  then have l: "map_of (map (\<lambda>(p, v). (lo p, v)) ls) (lo p) = None" unfolding map_of_leaf_None .
  have "free_of lo ls (map_set (lo p) p (snd st))"
    using 3(2) free_keys_Cons [of "lo p" "map (lo \<circ> fst) ls" "snd st" p] by (simp add: comp_def)
  note 3(1) [unfolded fst_conv snd_conv, OF this]
  then show ?case using l by (cases "k = lo p") (simp_all add: leaf_at_def cong: option.case_cong)
qed (simp add: leaf_at_def)

section \<open>Colliding keys, specified\<close>

lemma IndexByte_neg: "strings_IndexByte s c < 0 \<longleftrightarrow> c \<notin> set s"
  by (induction s) (auto simp: Let_def)

lemma IndexByte_least:
  "strings_IndexByte s c = int n \<Longrightarrow> n < length s \<and> s ! n = c \<and> (\<forall>j<n. s ! j \<noteq> c)"
proof (induction s arbitrary: n)
  case (Cons x s)
  show ?case
  proof (cases "x = c")
    case True
    then show ?thesis using Cons.prems by simp
  next
    case False
    then obtain m where m: "strings_IndexByte s c = int m" "n = Suc m"
      using Cons.prems by (cases n) (auto simp: Let_def split: if_splits)
    then have "m < length s \<and> s ! m = c \<and> (\<forall>j<m. s ! j \<noteq> c)" by (intro Cons.IH)
    then show ?thesis using m(2) False by (auto simp: less_Suc_eq_0_disj)
  qed
qed simp

text \<open>The next dot is the first one strictly after \<open>i\<close>.\<close>

lemma nextDot_none:
  assumes "0 \<le> i" "nextDot key i < 0" "nat i < j" "j < length key"
  shows "key ! j \<noteq> CHR ''.''"
proof
  let ?s = "drop (nat i + 1) key"
  assume "key ! j = CHR ''.''"
  then have "?s ! (j - (nat i + 1)) = CHR ''.''" "j - (nat i + 1) < length ?s" using assms(3,4) by auto
  then have "CHR ''.'' \<in> set ?s" by (metis nth_mem)
  then have "\<not> strings_IndexByte ?s (CHR ''.'') < 0" by (simp only: IndexByte_neg) simp
  then show False using assms(1,2) by (simp add: nextDot_def Let_def)
qed

lemma nextDot_some:
  assumes "0 \<le> i" "\<not> nextDot key i < 0"
  obtains n where "nextDot key i = int n" "nat i < n" "n < length key" "key ! n = CHR ''.''"
    "\<forall>j. nat i < j \<and> j < n \<longrightarrow> key ! j \<noteq> CHR ''.''"
proof -
  let ?s = "drop (nat i + 1) key"
  have "0 \<le> strings_IndexByte ?s (CHR ''.'')" using assms(2) by (simp add: nextDot_def Let_def split: if_splits)
  then obtain m where m: "strings_IndexByte ?s (CHR ''.'') = int m" by (metis nonneg_int_cases)
  note k = IndexByte_least [OF m]
  let ?n = "nat i + 1 + m"
  have n: "nextDot key i = int ?n" using m assms(1) by (simp add: nextDot_def)
  have d: "key ! ?n = CHR ''.''" "?n < length key" using k by auto
  have "key ! j \<noteq> CHR ''.''" if j: "nat i < j" "j < ?n" for j
  proof -
    have "?s ! (j - (nat i + 1)) \<noteq> CHR ''.''" using k j by auto
    then show ?thesis using j d(2) by simp
  qed
  then show ?thesis using that [OF n] d by auto
qed

lemma dotLoop_None:
  assumes "0 \<le> i"
  shows "dotLoop flat spl key i = None \<longleftrightarrow> map_of flat (take (nat i) key) = None \<and>
    (\<forall>j. nat i < j \<and> j < length key \<and> key ! j = CHR ''.'' \<longrightarrow> map_of flat (take j key) = None)"
  using assms
proof (induction flat spl key i rule: dotLoop.induct)
  case (1 flat spl key i)
  let ?n = "nextDot key i"
  show ?case
  proof (cases "map_of flat (take (nat i) key) = None")
    case True
    have u: "dotLoop flat spl key i = dotLoop flat spl key ?n" using True 1(2) by (subst dotLoop.simps) simp
    show ?thesis
    proof (cases "?n < 0")
      case neg: True
      have "dotLoop flat spl key ?n = None" using neg by (subst dotLoop.simps) simp
      then show ?thesis using u True nextDot_none [OF 1(2) neg] by auto
    next
      case False
      obtain n where n: "?n = int n" "nat i < n" "n < length key" "key ! n = CHR ''.''"
        "\<forall>j. nat i < j \<and> j < n \<longrightarrow> key ! j \<noteq> CHR ''.''" by (rule nextDot_some [OF 1(2) False])
      have ih: "dotLoop flat spl key ?n = None \<longleftrightarrow> map_of flat (take n key) = None \<and>
        (\<forall>j. n < j \<and> j < length key \<and> key ! j = CHR ''.'' \<longrightarrow> map_of flat (take j key) = None)"
        using 1(1) True 1(2) n(1) by simp
      have "nat i < j \<and> j < length key \<and> key ! j = CHR ''.'' \<longleftrightarrow> j = n \<or> n < j \<and> j < length key \<and> key ! j = CHR ''.''" for j
        using n(2-5) by (cases "j < n") (auto simp: not_less le_less)
      then show ?thesis using u ih True by auto
    qed
  next
    case False
    then show ?thesis using 1(2) by (subst dotLoop.simps) auto
  qed
qed

text \<open>The loop over the dots of a key finds a key that is also a section above it, if there is one.\<close>

lemma dotted_prefixes:
  "(\<forall>k s. key = k @ CHR ''.'' # s \<longrightarrow> P k) \<longleftrightarrow> (\<forall>j. j < length key \<and> key ! j = CHR ''.'' \<longrightarrow> P (take j key))"
proof (intro iffI allI impI)
  fix j assume h: "\<forall>k s. key = k @ CHR ''.'' # s \<longrightarrow> P k" and j: "j < length key \<and> key ! j = CHR ''.''"
  have "key = take j key @ CHR ''.'' # drop (Suc j) key" using id_take_nth_drop [of j key] j by simp
  then show "P (take j key)" using h by blast
next
  fix k s assume h: "\<forall>j. j < length key \<and> key ! j = CHR ''.'' \<longrightarrow> P (take j key)" and k: "key = k @ CHR ''.'' # s"
  show "P k" using h [rule_format, of "length k"] unfolding k by simp
qed

lemma all_dots:
  assumes "strings_IndexByte key (CHR ''.'') = int n"
  shows "(\<forall>j. j < length key \<and> key ! j = CHR ''.'' \<longrightarrow> P j) \<longleftrightarrow>
    P n \<and> (\<forall>j. n < j \<and> j < length key \<and> key ! j = CHR ''.'' \<longrightarrow> P j)"
proof -
  note n = IndexByte_least [OF assms]
  have "j = n \<or> n < j" if "j < length key" "key ! j = CHR ''.''" for j using n that by (cases j n rule: linorder_cases) auto
  then show ?thesis using n by blast
qed

lemma dotLoop_iff:
  "dotLoop flat spl key (strings_IndexByte key (CHR ''.'')) = None \<longleftrightarrow>
    (\<forall>k s. key = k @ CHR ''.'' # s \<longrightarrow> map_of flat k = None)"
proof (cases "strings_IndexByte key (CHR ''.'') < 0")
  case False
  then obtain n where n: "strings_IndexByte key (CHR ''.'') = int n" using nonneg_int_cases [of "strings_IndexByte key (CHR ''.'')"] by auto
  have "dotLoop flat spl key (int n) = None \<longleftrightarrow> map_of flat (take n key) = None \<and>
      (\<forall>j. n < j \<and> j < length key \<and> key ! j = CHR ''.'' \<longrightarrow> map_of flat (take j key) = None)"
    using dotLoop_None [of "int n" flat spl key] by simp
  also have "\<dots> \<longleftrightarrow> (\<forall>j. j < length key \<and> key ! j = CHR ''.'' \<longrightarrow> map_of flat (take j key) = None)"
    unfolding all_dots [OF n] ..
  finally show ?thesis unfolding n using dotted_prefixes [of key "\<lambda>k. map_of flat k = None"] by (rule trans [OF _ sym])
next
  case True
  then have "CHR ''.'' \<notin> set key" by (simp only: IndexByte_neg) simp
  moreover have "dotLoop flat spl key (strings_IndexByte key (CHR ''.'')) = None" using True by (subst dotLoop.simps) simp
  ultimately show ?thesis by auto
qed
lemma option_case_None: "(case x of Some e \<Rightarrow> Some e | None \<Rightarrow> y) = None \<longleftrightarrow> x = None \<and> y = None"
  by (cases x) auto

lemma firstCollision_None:
  "firstCollision flat spl keys = None \<longleftrightarrow> (\<forall>key\<in>set keys. \<forall>k s. key = k @ CHR ''.'' # s \<longrightarrow> map_of flat k = None)"
proof (induction keys)
  case (Cons key keys)
  then show ?case unfolding firstCollision.simps option_case_None dotLoop_iff list.set ball_simps by (rule arg_cong)
qed simp

section \<open>A file is read only when it is unambiguous\<close>

text \<open>No two leaves with one lowercased path, and no key that is also a section above another key.\<close>

definition unambiguous :: "(string \<Rightarrow> string) \<Rightarrow> (string \<times> string option) list \<Rightarrow> bool" where
  "unambiguous lo ls \<longleftrightarrow> distinct (map (lo \<circ> fst) ls) \<and>
    (\<forall>k s. leaf_at lo ls (k @ CHR ''.'' # s) \<noteq> None \<longrightarrow> leaf_at lo ls k = None)"

lemma flattenConfig_top:
  "case flattenConfig lo m [] ([], []) of
     Inr (flat, spl) \<Rightarrow> distinct (map (lo \<circ> fst) (leaves m [])) \<and> map_of flat = leaf_at lo (leaves m [])
   | Inl e \<Rightarrow> \<not> distinct (map (lo \<circ> fst) (leaves m []))"
proof -
  have f: "free_of lo (leaves m []) (snd ([], [])) \<longleftrightarrow> distinct (map (lo \<circ> fst) (leaves m []))"
    by (simp add: free_keys_def)
  note s = flattenConfig_spec [of lo m "[]" "([], [])", unfolded f]
  show ?thesis
  proof (cases "flattenConfig lo m [] ([], [])")
    case (Inl e)
    then show ?thesis using s by simp
  next
    case (Inr st)
    then have d: "distinct (map (lo \<circ> fst) (leaves m []))" and st: "st = put_leaves lo (leaves m []) ([], [])"
      using s by simp_all
    have "map_of (fst st) k = leaf_at lo (leaves m []) k" for k
      using flat_put_leaves [OF f [THEN iffD2, OF d], of k] unfolding st by (simp split: option.splits)
    then show ?thesis using Inr d by (cases st) auto
  qed
qed

lemma collision_free:
  assumes "map_of flat = g"
  shows "firstCollision flat spl (map fst flat) = None \<longleftrightarrow> (\<forall>k s. g (k @ CHR ''.'' # s) \<noteq> None \<longrightarrow> g k = None)"
proof -
  have "key \<in> set (map fst flat) \<longleftrightarrow> g key \<noteq> None" for key using assms using map_of_eq_None_iff [of flat key] by auto
  then show ?thesis unfolding firstCollision_None assms by metis
qed

lemma loadConfigFile_spec:
  assumes "file_ReadBytes lib path = Inr data" "yaml_Unmarshal lib data = Inr raw"
  shows "case loadConfigFile lib path of
      Inl e \<Rightarrow> \<not> unambiguous (conf_ToLower lib) (leaves raw [])
    | Inr flat \<Rightarrow> unambiguous (conf_ToLower lib) (leaves raw []) \<and> map_of flat = leaf_at (conf_ToLower lib) (leaves raw [])"
proof -
  let ?lo = "conf_ToLower lib"
  note s = flattenConfig_top [of ?lo raw]
  show ?thesis
  proof (cases "flattenConfig ?lo raw [] ([], [])")
    case (Inl e)
    then show ?thesis using s assms by (simp add: loadConfigFile_def unambiguous_def)
  next
    case (Inr st)
    obtain flat spl where st: "st = (flat, spl)" by (cases st)
    have d: "distinct (map (?lo \<circ> fst) (leaves raw []))" and g: "map_of flat = leaf_at ?lo (leaves raw [])"
      using s Inr st by simp_all
    show ?thesis
    proof (cases "firstCollision flat spl (map fst flat)")
      case None
      then show ?thesis using Inr st assms d g collision_free [OF g, of spl] by (simp add: loadConfigFile_def unambiguous_def)
    next
      case (Some e)
      then have "\<not> unambiguous ?lo (leaves raw [])" using collision_free [OF g, of spl] by (simp add: unambiguous_def)
      then show ?thesis using Inr st assms Some by (simp add: loadConfigFile_def)
    qed
  qed
qed

text \<open>The order in which a map is iterated permutes the leaves.\<close>

lemma leaf_at_order:
  assumes "mset ls = mset ls'" "distinct (map (lo \<circ> fst) ls)"
  shows "leaf_at lo ls = leaf_at lo ls'"
proof -
  let ?f = "\<lambda>(p, v). (lo p, v)"
  have d: "distinct (map fst (map ?f xs)) \<longleftrightarrow> distinct (map (lo \<circ> fst) xs)" for xs :: "(string \<times> string option) list"
    by (simp add: comp_def split_def)
  have "distinct (map (lo \<circ> fst) ls')" using assms by (metis mset_map mset_eq_imp_distinct_iff)
  then have "map_of (map ?f ls) = map_of (map ?f ls')"
    using assms map_of_inject_set [of "map ?f ls" "map ?f ls'"] unfolding d by (metis list.set_map mset_eq_setD)
  then show ?thesis by (simp add: leaf_at_def fun_eq_iff)
qed

lemma unambiguous_order:
  assumes "mset ls = mset ls'"
  shows "unambiguous lo ls \<longleftrightarrow> unambiguous lo ls'"
proof -
  have "distinct (map (lo \<circ> fst) ls) \<longleftrightarrow> distinct (map (lo \<circ> fst) ls')" using assms by (metis mset_map mset_eq_imp_distinct_iff)
  then show ?thesis using leaf_at_order [OF assms, of lo] by (cases "distinct (map (lo \<circ> fst) ls)") (simp_all add: unambiguous_def)
qed

text \<open>
  C39. A configuration file is read exactly when no two of its keys are one key in another letter case or
  spelling, nested or dotted, and no key is at the same time a section above another key. What is read maps
  each lowercased dotted path to its leaf, nulls left out; the order in which Go iterates the maps of the file
  changes neither the verdict nor the values.
\<close>

theorem loadConfigFile_unambiguous:
  assumes "file_ReadBytes lib path = Inr data"
    and "yaml_Unmarshal lib data = Inr raw" and "yu data = Inr raw'"
    and "mset (leaves raw '''') = mset (leaves raw' '''')"
  shows "(case loadConfigFile lib path of
       Inl e \<Rightarrow> \<not> unambiguous (conf_ToLower lib) (leaves raw '''')
     | Inr flat \<Rightarrow> unambiguous (conf_ToLower lib) (leaves raw '''') \<and>
         map_of flat = leaf_at (conf_ToLower lib) (leaves raw '''')) \<and>
    rel_sum (\<lambda>_ _. True) (\<lambda>flat flat'. map_of flat = map_of flat')
      (loadConfigFile lib path) (loadConfigFile (lib\<lparr>yaml_Unmarshal := yu\<rparr>) path)"
proof -
  let ?lib = "lib\<lparr>yaml_Unmarshal := yu\<rparr>"
  note a = loadConfigFile_spec [OF assms(1,2)]
  have lo: "conf_ToLower ?lib = conf_ToLower lib" by simp
  have b: "case loadConfigFile ?lib path of
      Inl e \<Rightarrow> \<not> unambiguous (conf_ToLower lib) (leaves raw' [])
    | Inr flat \<Rightarrow> unambiguous (conf_ToLower lib) (leaves raw' []) \<and> map_of flat = leaf_at (conf_ToLower lib) (leaves raw' [])"
    using loadConfigFile_spec [of ?lib path data raw'] assms(1,3) unfolding lo by simp
  have "unambiguous (conf_ToLower lib) (leaves raw []) \<Longrightarrow>
      leaf_at (conf_ToLower lib) (leaves raw []) = leaf_at (conf_ToLower lib) (leaves raw' [])"
    using leaf_at_order [OF assms(4)] by (simp add: unambiguous_def)
  then show ?thesis using a b unambiguous_order [OF assms(4), of "conf_ToLower lib"]
    by (cases "loadConfigFile lib path"; cases "loadConfigFile ?lib path") simp_all
qed

definition demo_raw :: "(string \<times> cfg_value) list" where
  "demo_raw = [(''Server'', CSection [(''Port'', CLeaf ''8080''), (''trustedProxies'', CNull)]), (''dev'', CLeaf ''true'')]"

definition demo_config_lib :: config_lib where
  "demo_config_lib = \<lparr>
     pflag_Parse = (\<lambda>_. Inr ''c.yaml''), file_ReadBytes = (\<lambda>_. Inr ''''), yaml_Unmarshal = (\<lambda>_. Inr demo_raw),
     k_Load = (\<lambda>k c. Inr (c @ k)), k_Unmarshal = (\<lambda>_. Inl (Errorf '''' [])), environ = [],
     duration_String = (\<lambda>_. ''''), unicode_Lower = (\<lambda>r. r)\<rparr>"

lemma demo_load: "loadConfigFile demo_config_lib ''c.yaml'' = Inr [(''server.port'', ''8080''), (''dev'', ''true'')]"
  by code_simp

theorem loadConfigFile_unambiguous_witness:
  "unambiguous (strings_ToLower (\<lambda>r. r)) (leaves demo_raw '''') \<and>
   leaf_at (strings_ToLower (\<lambda>r. r)) (leaves demo_raw '''') = [''server.port'' \<mapsto> ''8080'', ''dev'' \<mapsto> ''true''] \<and>
   rel_sum (\<lambda>_ _. True) (\<lambda>flat flat'. map_of flat = map_of flat') (loadConfigFile demo_config_lib ''c.yaml'')
     (loadConfigFile (demo_config_lib\<lparr>yaml_Unmarshal := \<lambda>_. Inr (rev demo_raw)\<rparr>) ''c.yaml'')"
proof -
  have m: "mset (leaves demo_raw '''') = mset (leaves (rev demo_raw) '''')" by (simp add: demo_raw_def)
  have lo: "conf_ToLower demo_config_lib = strings_ToLower (\<lambda>r. r)" by (simp add: demo_config_lib_def)
  have "map_of [(''server.port'', ''8080''), (''dev'', ''true'')] = [''server.port'' \<mapsto> ''8080'', ''dev'' \<mapsto> ''true'']"
    by (simp add: fun_eq_iff)
  then show ?thesis
    using loadConfigFile_unambiguous [of demo_config_lib "''c.yaml''" "''''" demo_raw "\<lambda>_. Inr (rev demo_raw)" "rev demo_raw"] m
    unfolding demo_load lo by (simp add: demo_config_lib_def)
qed

end
