(* ===== verification/OAuth_Providers.thy ===== *)
theory OAuth_Providers
  imports Ports Go_Strings
begin

text \<open>
  \<^verbatim>\<open>provider/oauth/google\<close> and \<^verbatim>\<open>provider/oauth/github\<close>. The record \<open>oauth2_lib\<close>
  holds what they take from libraries and the network: \<^verbatim>\<open>golang.org/x/oauth2\<close> (building the
  authorization URL, exchanging a code), the JWT parser, the HTTP client and the JSON decoders.
  Network answers may differ from call to call, so they are read at the position \<open>tick\<close>.
\<close>

section \<open>Libraries\<close>

record oauth2_Config =
  O2_ClientID :: string
  O2_ClientSecret :: string
  O2_RedirectURL :: string
  O2_AuthURL :: string
  O2_TokenURL :: string
  O2_Scopes :: "string list"

datatype AuthCodeOption = S256ChallengeOption string | SetAuthURLParam string string | VerifierOption string

record oauth2_Token =
  O2T_AccessToken :: string
  O2T_id_token :: "string option"

text \<open>\<^verbatim>\<open>google.idTokenClaims\<close>, \<^verbatim>\<open>github.apiUser\<close> (its id) and \<^verbatim>\<open>github.apiEmail\<close>.\<close>

record idTokenClaims =
  IDT_Issuer :: string
  IDT_Subject :: string
  IDT_Audience :: "string list"
  IDT_Expiry :: "int option"
  IDT_NotBefore :: "int option"
  IDT_IssuedAt :: "int option"
  IDT_Email :: string
  IDT_EmailVerified :: bool
  IDT_Nonce :: string

record apiEmail =
  AE_Email :: string
  AE_Primary :: bool
  AE_Verified :: bool

record oauth2_lib =
  conf_AuthCodeURL :: "oauth2_Config \<Rightarrow> string \<Rightarrow> AuthCodeOption list \<Rightarrow> string"
  conf_Exchange :: "oauth2_Config \<Rightarrow> string \<Rightarrow> AuthCodeOption list \<Rightarrow> nat \<Rightarrow> error + oauth2_Token"
  id_ParseSigned :: "string \<Rightarrow> string list \<Rightarrow> error + string"
  id_UnsafeClaims :: "string \<Rightarrow> error + idTokenClaims"
  id_Validate :: "idTokenClaims \<Rightarrow> string list \<Rightarrow> time \<Rightarrow> error option"
  http_NewRequest :: "string \<Rightarrow> error option"
  client_Do :: "oauth2_Config \<Rightarrow> oauth2_Token \<Rightarrow> string \<Rightarrow> (string \<times> string) list \<Rightarrow> nat \<Rightarrow> error + int \<times> string"
  decode_apiUser :: "string \<Rightarrow> error + int"
  decode_apiEmails :: "string \<Rightarrow> error + apiEmail list"
  endpoint_GitHub :: "string \<times> string"

definition draw_net :: "(nat \<Rightarrow> 'r) \<Rightarrow> 'st world \<Rightarrow> 'r \<times> 'st world" where
  [ambient_def]: "draw_net f w = (f (tick w), w\<lparr>tick := Suc (tick w)\<rparr>)"

section \<open>Google\<close>

text \<open>\<^verbatim>\<open>google.Config\<close> and \<^verbatim>\<open>github.Config\<close> have the same fields.\<close>

record ClientConfig =
  CCf_ClientID :: string
  CCf_ClientSecret :: string
  CCf_RedirectURIs :: "string list"

record GoogleProvider =
  goog_cfg :: ClientConfig
  goog_endpoint :: "string \<times> string"

definition google_endpoint :: "string \<times> string" where
  "google_endpoint = (''https://accounts.google.com/o/oauth2/auth'', ''https://oauth2.googleapis.com/token'')"

definition Google_newWithEndpoint :: "ClientConfig \<Rightarrow> string \<times> string \<Rightarrow> error + GoogleProvider" where
  "Google_newWithEndpoint cfg ep =
    (if CCf_ClientID cfg = '''' then Inl (Errorf ''google: client id is required'' [])
     else if CCf_ClientSecret cfg = '''' then Inl (Errorf ''google: client secret is required'' [])
     else if CCf_RedirectURIs cfg = [] then Inl (Errorf ''google: at least one redirect uri is required'' [])
     else Inr \<lparr>goog_cfg = cfg, goog_endpoint = ep\<rparr>)"

definition Google_New :: "ClientConfig \<Rightarrow> error + GoogleProvider" where
  "Google_New cfg = Google_newWithEndpoint cfg google_endpoint"

definition Google_oauthConfig :: "GoogleProvider \<Rightarrow> string \<Rightarrow> error + oauth2_Config" where
  "Google_oauthConfig p redirectURI =
    (if redirectURI \<notin> set (CCf_RedirectURIs (goog_cfg p))
     then Inl (Errorf ''%w: %s'' [Sentinel OAuth_ErrRedirectURINotAllowed])
     else Inr \<lparr>O2_ClientID = CCf_ClientID (goog_cfg p), O2_ClientSecret = CCf_ClientSecret (goog_cfg p),
       O2_RedirectURL = redirectURI, O2_AuthURL = fst (goog_endpoint p), O2_TokenURL = snd (goog_endpoint p),
       O2_Scopes = [''openid'', ''email'']\<rparr>)"

definition Google_requireParams :: "AuthParams \<Rightarrow> error option" where
  "Google_requireParams params =
    (if Auth_CodeVerifier params = '''' then Some (Errorf ''%w: code verifier is required'' [Sentinel OAuth_ErrMissingAuthParams])
     else if Auth_Nonce params = '''' then Some (Errorf ''%w: nonce is required'' [Sentinel OAuth_ErrMissingAuthParams])
     else None)"

definition Google_AuthCodeURL :: "oauth2_lib \<Rightarrow> GoogleProvider \<Rightarrow> AuthParams \<Rightarrow> error + string" where
  "Google_AuthCodeURL lib p params =
    (case Google_requireParams params of
       Some err \<Rightarrow> Inl err
     | None \<Rightarrow>
         (case Google_oauthConfig p (Auth_RedirectURI params) of
            Inl err \<Rightarrow> Inl err
          | Inr conf \<Rightarrow>
              Inr (conf_AuthCodeURL lib conf (Auth_State params)
                [S256ChallengeOption (Auth_CodeVerifier params), SetAuthURLParam ''nonce'' (Auth_Nonce params)])))"

definition google_issuers :: "string list" where
  "google_issuers = [''https://accounts.google.com'', ''accounts.google.com'']"

text \<open>The checks on the claims of the ID token, at the time \<open>now\<close>.\<close>

definition Google_userInfo :: "oauth2_lib \<Rightarrow> GoogleProvider \<Rightarrow> AuthParams \<Rightarrow> idTokenClaims \<Rightarrow> time \<Rightarrow> error + UserInfo" where
  "Google_userInfo lib p params claims now =
    (case id_Validate lib claims [CCf_ClientID (goog_cfg p)] now of
       Some err \<Rightarrow> Inl (Errorf ''%w: validate id_token claims: %v'' [Sentinel OAuth_ErrInvalidToken])
     | None \<Rightarrow>
         if IDT_Issuer claims \<notin> set google_issuers
         then Inl (Errorf ''%w: unexpected issuer %q'' [Sentinel OAuth_ErrInvalidToken])
         else if IDT_Subject claims = '''' then Inl (Errorf ''%w: id_token has no sub'' [Sentinel OAuth_ErrInvalidToken])
         else if IDT_Nonce claims \<noteq> Auth_Nonce params
         then Inl (Errorf ''%w: id_token nonce mismatch'' [Sentinel OAuth_ErrInvalidToken])
         else Inr \<lparr>Info_ExternalID = IDT_Subject claims, Info_Email = IDT_Email claims,
                   Info_EmailVerified = IDT_EmailVerified claims\<rparr>)"

definition Google_ExchangeCode :: "oauth2_lib \<Rightarrow> GoogleProvider \<Rightarrow> string \<Rightarrow> AuthParams \<Rightarrow> 'st world \<Rightarrow>
    (error + UserInfo) \<times> 'st world" where
  "Google_ExchangeCode lib p code params w =
    (case Google_requireParams params of
       Some err \<Rightarrow> (Inl err, w)
     | None \<Rightarrow>
         (case Google_oauthConfig p (Auth_RedirectURI params) of
            Inl err \<Rightarrow> (Inl err, w)
          | Inr conf \<Rightarrow>
              (case draw_net (conf_Exchange lib conf code [VerifierOption (Auth_CodeVerifier params)]) w of
                 (Inl err, w1) \<Rightarrow> (Inl (Errorf ''google: exchange code: %w'' [err]), w1)
               | (Inr token, w1) \<Rightarrow>
                   (case O2T_id_token token of
                      None \<Rightarrow> (Inl (Errorf ''%w: token response has no id_token'' [Sentinel OAuth_ErrInvalidToken]), w1)
                    | Some rawIDToken \<Rightarrow>
                        if rawIDToken = ''''
                        then (Inl (Errorf ''%w: token response has no id_token'' [Sentinel OAuth_ErrInvalidToken]), w1)
                        else
                          (case id_ParseSigned lib rawIDToken [''RS256'', ''ES256''] of
                             Inl err \<Rightarrow> (Inl (Errorf ''%w: parse id_token: %v'' [Sentinel OAuth_ErrInvalidToken]), w1)
                           | Inr parsed \<Rightarrow>
                               (case id_UnsafeClaims lib parsed of
                                  Inl err \<Rightarrow> (Inl (Errorf ''%w: decode id_token claims: %v'' [Sentinel OAuth_ErrInvalidToken]), w1)
                                | Inr claims \<Rightarrow>
                                    let (now, w2) = time_Now w1 in (Google_userInfo lib p params claims now, w2)))))))"

definition googleTable :: "oauth2_lib \<Rightarrow> GoogleProvider \<Rightarrow> 'st OAuthProvider" where
  "googleTable lib p = \<lparr>ProviderName = ProviderTypeGoogle, AuthCodeURL = Google_AuthCodeURL lib p,
     ExchangeCode = Google_ExchangeCode lib p\<rparr>"

section \<open>GitHub\<close>

definition github_apiURL :: string where "github_apiURL = ''https://api.github.com''"
definition apiVersion :: string where "apiVersion = ''2022-11-28''"
definition maxAPIResponse :: nat where "maxAPIResponse = 1048576"
definition emailsPerPage :: int where "emailsPerPage = 100"

record GitHubProvider =
  gh_cfg :: ClientConfig
  gh_endpoint :: "string \<times> string"
  gh_apiURL :: string

definition GitHub_newWithEndpoint :: "ClientConfig \<Rightarrow> string \<times> string \<Rightarrow> string \<Rightarrow> error + GitHubProvider" where
  "GitHub_newWithEndpoint cfg ep baseURL =
    (if CCf_ClientID cfg = '''' then Inl (Errorf ''github: client id is required'' [])
     else if CCf_ClientSecret cfg = '''' then Inl (Errorf ''github: client secret is required'' [])
     else if CCf_RedirectURIs cfg = [] then Inl (Errorf ''github: at least one redirect uri is required'' [])
     else Inr \<lparr>gh_cfg = cfg, gh_endpoint = ep, gh_apiURL = baseURL\<rparr>)"

definition GitHub_New :: "oauth2_lib \<Rightarrow> ClientConfig \<Rightarrow> error + GitHubProvider" where
  "GitHub_New lib cfg = GitHub_newWithEndpoint cfg (endpoint_GitHub lib) github_apiURL"

definition GitHub_oauthConfig :: "GitHubProvider \<Rightarrow> string \<Rightarrow> error + oauth2_Config" where
  "GitHub_oauthConfig p redirectURI =
    (if redirectURI \<notin> set (CCf_RedirectURIs (gh_cfg p))
     then Inl (Errorf ''%w: %s'' [Sentinel OAuth_ErrRedirectURINotAllowed])
     else Inr \<lparr>O2_ClientID = CCf_ClientID (gh_cfg p), O2_ClientSecret = CCf_ClientSecret (gh_cfg p),
       O2_RedirectURL = redirectURI, O2_AuthURL = fst (gh_endpoint p), O2_TokenURL = snd (gh_endpoint p),
       O2_Scopes = [''user:email'']\<rparr>)"

definition GitHub_requireParams :: "AuthParams \<Rightarrow> error option" where
  "GitHub_requireParams params =
    (if Auth_CodeVerifier params = '''' then Some (Errorf ''%w: code verifier is required'' [Sentinel OAuth_ErrMissingAuthParams])
     else None)"

definition GitHub_AuthCodeURL :: "oauth2_lib \<Rightarrow> GitHubProvider \<Rightarrow> AuthParams \<Rightarrow> error + string" where
  "GitHub_AuthCodeURL lib p params =
    (case GitHub_requireParams params of
       Some err \<Rightarrow> Inl err
     | None \<Rightarrow>
         (case GitHub_oauthConfig p (Auth_RedirectURI params) of
            Inl err \<Rightarrow> Inl err
          | Inr conf \<Rightarrow> Inr (conf_AuthCodeURL lib conf (Auth_State params) [S256ChallengeOption (Auth_CodeVerifier params)])))"

text \<open>\<^verbatim>\<open>getJSON\<close>; \<open>decode\<close> is the decoder of the destination's type. At most
  \<^verbatim>\<open>maxAPIResponse\<close> bytes of the body are read.\<close>

definition GitHub_getJSON :: "oauth2_lib \<Rightarrow> GitHubProvider \<Rightarrow> oauth2_Config \<Rightarrow> oauth2_Token \<Rightarrow> string \<Rightarrow>
    (string \<Rightarrow> error + 'a) \<Rightarrow> 'st world \<Rightarrow> (error + 'a) \<times> 'st world" where
  "GitHub_getJSON lib p conf token path decode w =
    (case http_NewRequest lib (gh_apiURL p @ path) of
       Some err \<Rightarrow> (Inl (Errorf ''github: build %s request: %w'' [err]), w)
     | None \<Rightarrow>
         (case draw_net (client_Do lib conf token (gh_apiURL p @ path)
                 [(''Accept'', ''application/vnd.github+json''), (''X-GitHub-Api-Version'', apiVersion)]) w of
            (Inl err, w1) \<Rightarrow> (Inl (Errorf ''github: get %s: %w'' [err]), w1)
          | (Inr (status, body), w1) \<Rightarrow>
              if status \<noteq> 200 then (Inl (Errorf ''github: get %s: unexpected status %d'' []), w1)
              else
                (case decode (take maxAPIResponse body) of
                   Inl err \<Rightarrow> (Inl (Errorf ''%w: decode %s: %v'' [Sentinel OAuth_ErrInvalidToken]), w1)
                 | Inr x \<Rightarrow> (Inr x, w1))))"

definition GitHub_ExchangeCode :: "oauth2_lib \<Rightarrow> GitHubProvider \<Rightarrow> string \<Rightarrow> AuthParams \<Rightarrow> 'st world \<Rightarrow>
    (error + UserInfo) \<times> 'st world" where
  "GitHub_ExchangeCode lib p code params w =
    (case GitHub_requireParams params of
       Some err \<Rightarrow> (Inl err, w)
     | None \<Rightarrow>
         (case GitHub_oauthConfig p (Auth_RedirectURI params) of
            Inl err \<Rightarrow> (Inl err, w)
          | Inr conf \<Rightarrow>
              (case draw_net (conf_Exchange lib conf code [VerifierOption (Auth_CodeVerifier params)]) w of
                 (Inl err, w1) \<Rightarrow> (Inl (Errorf ''github: exchange code: %w'' [err]), w1)
               | (Inr token, w1) \<Rightarrow>
                   (case GitHub_getJSON lib p conf token ''/user'' (decode_apiUser lib) w1 of
                      (Inl err, w2) \<Rightarrow> (Inl err, w2)
                    | (Inr userID, w2) \<Rightarrow>
                        if userID \<le> 0 then (Inl (Errorf ''%w: /user has no id'' [Sentinel OAuth_ErrInvalidToken]), w2)
                        else
                          (case GitHub_getJSON lib p conf token (''/user/emails?per_page='' @ strconv_Itoa emailsPerPage)
                                  (decode_apiEmails lib) w2 of
                             (Inl err, w3) \<Rightarrow> (Inl err, w3)
                           | (Inr emails, w3) \<Rightarrow>
                               let info = \<lparr>Info_ExternalID = strconv_Itoa userID, Info_Email = '''', Info_EmailVerified = False\<rparr>
                               in (Inr (case find AE_Primary emails of
                                          None \<Rightarrow> info
                                        | Some e \<Rightarrow> info\<lparr>Info_Email := AE_Email e, Info_EmailVerified := AE_Verified e\<rparr>), w3))))))"

definition githubTable :: "oauth2_lib \<Rightarrow> GitHubProvider \<Rightarrow> 'st OAuthProvider" where
  "githubTable lib p = \<lparr>ProviderName = ProviderTypeGitHub, AuthCodeURL = GitHub_AuthCodeURL lib p,
     ExchangeCode = GitHub_ExchangeCode lib p\<rparr>"

lemma provider_tables [simp]:
  "ProviderName (googleTable lib g) = ProviderTypeGoogle" "ProviderName (githubTable lib h) = ProviderTypeGitHub"
  "AuthCodeURL (googleTable lib g) = Google_AuthCodeURL lib g" "AuthCodeURL (githubTable lib h) = GitHub_AuthCodeURL lib h"
  "ExchangeCode (googleTable lib g) = Google_ExchangeCode lib g" "ExchangeCode (githubTable lib h) = GitHub_ExchangeCode lib h"
  by (simp_all add: googleTable_def githubTable_def)

section \<open>What an exchange proves\<close>

text \<open>An exchange does not write to psina's store.\<close>

lemma getJSON_store: "GitHub_getJSON lib p conf token path decode w = (r, w') \<Longrightarrow> store w' = store w"
  by (auto simp: GitHub_getJSON_def draw_net_def split: option.splits sum.splits prod.splits if_splits)

lemma exchange_store:
  "store (snd (ExchangeCode (googleTable lib g) code params w)) = store w"
  "store (snd (ExchangeCode (githubTable lib h) code params w)) = store w"
proof -
  show "store (snd (ExchangeCode (googleTable lib g) code params w)) = store w"
    by (simp add: Google_ExchangeCode_def draw_net_def time_Now_def Let_def split: option.split sum.split)
  show "store (snd (ExchangeCode (githubTable lib h) code params w)) = store w"
    by (auto simp: GitHub_ExchangeCode_def draw_net_def Let_def dest!: getJSON_store split: option.split sum.split prod.split)
qed

end
