(* ===== verification/Server.thy ===== *)
theory Server
  imports Config OAuth_Providers EVM Handler Dev_Service
begin

text \<open>
  \<^verbatim>\<open>cmd/psina/main.go\<close>: assembling the service from a configuration, the HTTP endpoints
  beside the RPCs, and the run of the server until it has drained. PEM and X.509 decoding, reading
  the key file, connecting to Postgres and the libraries of the components are the parameter record
  \<open>server_lib\<close>. The stores are the ports of one backend. Log lines are left out.
\<close>

section \<open>Libraries\<close>

text \<open>A key decoded from PKCS8 is tagged with its type.\<close>

datatype pkcs8_key = RSAPrivateKey string | ECDSAPrivateKey string | OtherKey string

record 'st Backend =
  be_userStore :: "'st UserStore"
  be_tokenStore :: "'st TokenStore"
  be_credStore :: "'st CredentialStore"
  be_patStore :: "'st PATStore"
  be_oauthIdentityStore :: "'st OAuthIdentityStore"
  be_challengeStore :: "'st ChallengeStore"
  be_walletIdentityStore :: "'st WalletIdentityStore"
  be_ping :: "('st world \<Rightarrow> error option \<times> 'st world) option"

record 'st server_lib =
  pem_Decode :: "string \<Rightarrow> string option"
  x509_ParsePKCS1PrivateKey :: "string \<Rightarrow> error + string"
  x509_ParseECPrivateKey :: "string \<Rightarrow> error + string"
  x509_ParsePKCS8PrivateKey :: "string \<Rightarrow> error + pkcs8_key"
  os_ReadFile :: "string \<Rightarrow> error + string"
  postgres_NewWithDSN :: "string \<Rightarrow> string \<Rightarrow> 'st world \<Rightarrow> (error + 'st Backend) \<times> 'st world"
  memory_New :: "'st Backend"
  lib_jose :: jose
  lib_oauth2 :: oauth2_lib
  lib_evm :: evm_lib
  lib_netip :: netip
  lib_uuid_Parse :: "string \<Rightarrow> string option"
  lib_Lower :: "nat \<Rightarrow> nat"

section \<open>The token issuer\<close>

definition parseRSAPrivateKey :: "'st server_lib \<Rightarrow> string \<Rightarrow> error + string" where
  "parseRSAPrivateKey lib keyData =
    (case pem_Decode lib keyData of
       None \<Rightarrow> Inl (Errorf ''no PEM block found'' [])
     | Some bytes \<Rightarrow>
         (case x509_ParsePKCS1PrivateKey lib bytes of
            Inr key \<Rightarrow> Inr key
          | Inl _ \<Rightarrow>
              (case x509_ParsePKCS8PrivateKey lib bytes of
                 Inl err \<Rightarrow> Inl (Errorf ''parse private key: %w'' [err])
               | Inr (RSAPrivateKey key) \<Rightarrow> Inr key
               | Inr _ \<Rightarrow> Inl (Errorf ''key is not RSA'' []))))"

definition parseECDSAPrivateKey :: "'st server_lib \<Rightarrow> string \<Rightarrow> error + string" where
  "parseECDSAPrivateKey lib keyData =
    (case pem_Decode lib keyData of
       None \<Rightarrow> Inl (Errorf ''no PEM block found'' [])
     | Some bytes \<Rightarrow>
         (case x509_ParseECPrivateKey lib bytes of
            Inr key \<Rightarrow> Inr key
          | Inl _ \<Rightarrow>
              (case x509_ParsePKCS8PrivateKey lib bytes of
                 Inl err \<Rightarrow> Inl (Errorf ''parse private key: %w'' [err])
               | Inr (ECDSAPrivateKey key) \<Rightarrow> Inr key
               | Inr _ \<Rightarrow> Inl (Errorf ''key is not ECDSA'' []))))"

text \<open>The second switch of \<^verbatim>\<open>createTokenIssuer\<close>.\<close>

definition issuerOfKey :: "'st server_lib \<Rightarrow> Config \<Rightarrow> string \<Rightarrow> error + Issuer" where
  "issuerOfKey lib config keyData =
    (if Cfg_JWT_Algorithm config = ''ES256'' then
       (case parseECDSAPrivateKey lib keyData of
          Inl err \<Rightarrow> Inl (Errorf ''parse ecdsa key: %w'' [err])
        | Inr privateKey \<Rightarrow> NewWithECDSAKey (lib_jose lib) privateKey)
     else
       (case parseRSAPrivateKey lib keyData of
          Inl err \<Rightarrow> Inl (Errorf ''parse rsa key: %w'' [err])
        | Inr privateKey \<Rightarrow> NewWithRSAKey (lib_jose lib) privateKey))"

definition createTokenIssuer :: "'st server_lib \<Rightarrow> Config \<Rightarrow> 'st world \<Rightarrow> (error + Issuer) \<times> 'st world" where
  "createTokenIssuer lib config w =
    (if Cfg_JWT_PrivateKey config \<noteq> '''' then (issuerOfKey lib config (Cfg_JWT_PrivateKey config), w)
     else if Cfg_JWT_PrivateKeyPath config \<noteq> '''' then
       (case os_ReadFile lib (Cfg_JWT_PrivateKeyPath config) of
          Inl err \<Rightarrow> (Inl (Errorf ''read jwt key file: %w'' [err]), w)
        | Inr keyData \<Rightarrow> (issuerOfKey lib config keyData, w))
     else NewWithAlgorithm (lib_jose lib) (Cfg_JWT_Algorithm config) w)"

section \<open>Logging\<close>

text \<open>\<^verbatim>\<open>slog\<close> levels are ordered by severity; a handler passes the records at its level or above.\<close>

fun level_value :: "Level \<Rightarrow> int" where
  "level_value LevelDebug = -4"
| "level_value LevelInfo = 0"
| "level_value LevelWarn = 4"
| "level_value LevelError = 8"

instantiation Level :: linorder
begin

definition less_eq_Level :: "Level \<Rightarrow> Level \<Rightarrow> bool" where
  "less_eq_Level a b \<longleftrightarrow> level_value a \<le> level_value b"

definition less_Level :: "Level \<Rightarrow> Level \<Rightarrow> bool" where
  "less_Level a b \<longleftrightarrow> level_value a < level_value b"

instance
proof
  fix x y :: Level
  show "x \<le> y \<Longrightarrow> y \<le> x \<Longrightarrow> x = y" by (cases x; cases y) (simp_all add: less_eq_Level_def)
qed (auto simp: less_eq_Level_def less_Level_def)

end

datatype LogFormat = TextHandler | JSONHandler

record LogHandler =
  lh_format :: LogFormat
  lh_level :: Level

text \<open>\<^verbatim>\<open>strings.EqualFold(s, "text")\<close>: no rune beyond ASCII folds to a letter of \<^verbatim>\<open>text\<close>.\<close>

definition EqualFold_text :: "string \<Rightarrow> bool" where
  "EqualFold_text s \<longleftrightarrow> map (\<lambda>c. ascii_lower (byte c)) s = map byte ''text''"

definition newLogHandler :: "Config \<Rightarrow> Level \<Rightarrow> LogHandler" where
  "newLogHandler config level =
    \<lparr>lh_format = (if EqualFold_text (Cfg_Logger_Format config) then TextHandler else JSONHandler), lh_level = level\<rparr>"

definition setupLogger :: "'st server_lib \<Rightarrow> Config \<Rightarrow> LogHandler" where
  "setupLogger lib config = newLogHandler config (fst (parseLogLevel (strings_ToLower (lib_Lower lib)) (Cfg_Logger_Level config)))"

definition setupAuditLogger :: "Config \<Rightarrow> LogHandler" where
  "setupAuditLogger config = newLogHandler config LevelInfo"

text \<open>What a handler writes of the audit records it is given.\<close>

definition logged :: "LogHandler \<Rightarrow> audit_record list \<Rightarrow> audit_record list" where
  "logged lh rs = filter (\<lambda>r. lh_level lh \<le> AR_Level r) rs"

section \<open>Providers\<close>

definition clientConfig :: "OAuthClientConfig \<Rightarrow> ClientConfig" where
  "clientConfig g = \<lparr>CCf_ClientID = Oc_ClientID g, CCf_ClientSecret = Oc_ClientSecret g, CCf_RedirectURIs = Oc_RedirectURIs g\<rparr>"

definition createOAuthProviders :: "'st server_lib \<Rightarrow> Config \<Rightarrow> error + 'st OAuthProvider list" where
  "createOAuthProviders lib config =
    (case (if Oc_ClientID (Cfg_OAuth_Google config) \<noteq> ''''
           then case Google_New (clientConfig (Cfg_OAuth_Google config)) of
                  Inl err \<Rightarrow> Inl err
                | Inr p \<Rightarrow> Inr [googleTable (lib_oauth2 lib) p]
           else Inr []) of
       Inl err \<Rightarrow> Inl err
     | Inr providers \<Rightarrow>
         if Oc_ClientID (Cfg_OAuth_GitHub config) \<noteq> ''''
         then (case GitHub_New (lib_oauth2 lib) (clientConfig (Cfg_OAuth_GitHub config)) of
                 Inl err \<Rightarrow> Inl err
               | Inr p \<Rightarrow> Inr (providers @ [githubTable (lib_oauth2 lib) p]))
         else Inr providers)"

definition createWalletDispatcher :: "'st server_lib \<Rightarrow> Config \<Rightarrow> error + (string, WalletProvider) gomap option" where
  "createWalletDispatcher lib config =
    (if Cfg_Wallet_Domain config = '''' then Inr None
     else
       (case parseEVMChains (Cfg_Wallet_EVMChains config) of
          Inl err \<Rightarrow> Inl err
        | Inr cs \<Rightarrow>
            (case NewDispatcher (map (\<lambda>c. evmTable (lib_evm lib) (EVM_New (chain_Name c) (chain_ID c))) cs) of
               Inl p \<Rightarrow> Inl p
             | Inr d \<Rightarrow> Inr (Some d))))"

definition parseSameSite :: "(string \<Rightarrow> string) \<Rightarrow> string \<Rightarrow> SameSite" where
  "parseSameSite lo s =
    (let t = lo s in
     if t = ''strict'' then SameSiteStrictMode
     else if t = ''lax'' then SameSiteLaxMode
     else if t = ''none'' then SameSiteNoneMode
     else SameSiteStrictMode)"

section \<open>Assembly\<close>

text \<open>\<^verbatim>\<open>run\<close> up to the mux: the backend, the issuer, the options and the handler. An error is
  what \<^verbatim>\<open>run\<close> returns; a panic of a constructor ends the process.\<close>

definition openBackend :: "'st server_lib \<Rightarrow> Config \<Rightarrow> 'st world \<Rightarrow> (error + 'st Backend) \<times> 'st world" where
  "openBackend lib config w =
    (if Cfg_DB_URL config \<noteq> '''' then
       (case postgres_NewWithDSN lib (Cfg_DB_URL config) (Cfg_DB_TablePrefix config) w of
          (Inl err, w1) \<Rightarrow> (Inl (Errorf ''connect to postgres: %w'' [err]), w1)
        | (Inr pgStore, w1) \<Rightarrow> (Inr pgStore, w1))
     else (Inr ((memory_New lib)\<lparr>be_ping := None\<rparr>), w))"

definition patOptions :: "Config \<Rightarrow> 'st Backend \<Rightarrow> 'st ServiceOption list" where
  "patOptions config be =
    (if Cfg_PAT_Enabled config
     then [WithPAT (Some (be_patStore be))
             \<lparr>PC_MaxPerUser = Cfg_PAT_MaxPerUser config, PC_MaxTTL = Cfg_PAT_MaxTTL config,
              PC_TouchInterval = Cfg_PAT_TouchInterval config\<rparr>]
     else [])"

definition oauthOptions :: "'st server_lib \<Rightarrow> Config \<Rightarrow> 'st Backend \<Rightarrow> error + 'st ServiceOption list" where
  "oauthOptions lib config be =
    (case createOAuthProviders lib config of
       Inl err \<Rightarrow> Inl (Errorf ''create oauth providers: %w'' [err])
     | Inr [] \<Rightarrow> Inr []
     | Inr oauthProviders \<Rightarrow>
         (case WithOAuth oauthProviders (Some (be_oauthIdentityStore be)) (Some (be_challengeStore be)) (Some (be_credStore be))
                 \<lparr>OC_DisableAutoLinkEmail = \<not> Cfg_OAuth_AutoLinkEmail config, OC_StateTTL = 0\<rparr> of
            Inl p \<Rightarrow> Inl p
          | Inr opt \<Rightarrow> Inr [opt]))"

definition walletOptions :: "'st server_lib \<Rightarrow> Config \<Rightarrow> 'st Backend \<Rightarrow> error + 'st ServiceOption list" where
  "walletOptions lib config be =
    (case createWalletDispatcher lib config of
       Inl (Panic msg) \<Rightarrow> Inl (Panic msg)
     | Inl err \<Rightarrow> Inl (Errorf ''create wallet providers: %w'' [err])
     | Inr None \<Rightarrow> Inr []
     | Inr (Some d) \<Rightarrow>
         (case WithWallet (Some d) (Some (be_walletIdentityStore be)) (Some (be_challengeStore be))
                 \<lparr>WC_Domain = Cfg_Wallet_Domain config, WC_URI = Cfg_Wallet_URI config,
                  WC_Statement = Cfg_Wallet_Statement config, WC_ChallengeTTL = Cfg_Wallet_ChallengeTTL config\<rparr> of
            Inl p \<Rightarrow> Inl p
          | Inr opt \<Rightarrow> Inr [opt]))"

definition assembleService :: "'st server_lib \<Rightarrow> Config \<Rightarrow> 'st Backend \<Rightarrow> Issuer \<Rightarrow> error + 'st Service" where
  "assembleService lib config be issuer =
    (case oauthOptions lib config be of
       Inl err \<Rightarrow> Inl err
     | Inr oauthOpts \<Rightarrow>
         (case walletOptions lib config be of
            Inl err \<Rightarrow> Inl err
          | Inr walletOpts \<Rightarrow>
              NewService (be_tokenStore be) (be_userStore be) (issuerTable (lib_jose lib) issuer)
                [localTable \<lparr>lp_userStore = be_userStore be, lp_credentialStore = be_credStore be\<rparr>]
                ([WithRefreshReuseLeeway (Cfg_Token_RefreshReuseLeeway config)] @ patOptions config be @ oauthOpts @ walletOpts)))"

definition cookieConfigOf :: "(string \<Rightarrow> string) \<Rightarrow> Config \<Rightarrow> CookieConfig" where
  "cookieConfigOf lo config =
    \<lparr>CC_Enabled = Cfg_Cookie_Enabled config, CC_Domain = Cfg_Cookie_Domain config, CC_Path = Cfg_Cookie_Path config,
     CC_Secure = Cfg_Cookie_Secure config, CC_SameSite = parseSameSite lo (Cfg_Cookie_SameSite config)\<rparr>"

text \<open>What the endpoints of the mux close over.\<close>

record 'st Server =
  srv_service :: "'st Service"
  srv_handler :: "'st Handler"
  srv_cookieEnabled :: bool
  srv_dbPing :: "('st world \<Rightarrow> error option \<times> 'st world) option"
  srv_auditLogger :: LogHandler
  srv_Addr :: string

definition assemble :: "'st server_lib \<Rightarrow> Config \<Rightarrow> 'st Backend \<Rightarrow> Issuer \<Rightarrow> error + 'st Server" where
  "assemble lib config be issuer =
    (case assembleService lib config be issuer of
       Inl err \<Rightarrow> Inl err
     | Inr service \<Rightarrow>
         (case parseTrustedProxies (lib_netip lib) (Cfg_Server_TrustedProxies config) of
            Inl err \<Rightarrow> Inl err
          | Inr trustedProxies \<Rightarrow>
              Inr \<lparr>srv_service = service,
                srv_handler = NewHandler (lib_netip lib) (lib_uuid_Parse lib) service
                  [WithCookieConfig (cookieConfigOf (strings_ToLower (lib_Lower lib)) config), WithTrustedProxies trustedProxies],
                srv_cookieEnabled = Cfg_Cookie_Enabled config, srv_dbPing = be_ping be,
                srv_auditLogger = setupAuditLogger config,
                srv_Addr = CHR '':'' # strconv_Itoa (Cfg_Server_Port config)\<rparr>))"

definition runSetup :: "'st server_lib \<Rightarrow> Config \<Rightarrow> 'st world \<Rightarrow> (error + 'st Server) \<times> 'st world" where
  "runSetup lib config w =
    (case openBackend lib config w of
       (Inl err, w1) \<Rightarrow> (Inl err, w1)
     | (Inr be, w1) \<Rightarrow>
         (case createTokenIssuer lib config w1 of
            (Inl err, w2) \<Rightarrow> (Inl (Errorf ''create token issuer: %w'' [err]), w2)
          | (Inr issuer, w2) \<Rightarrow> (assemble lib config be issuer, w2)))"

text \<open>The in-memory store behind every port.\<close>

definition memBackend :: "Store Backend" where
  "memBackend = \<lparr>be_userStore = memUserStore, be_tokenStore = memTokenStore, be_credStore = memCredentialStore,
     be_patStore = memPATStore, be_oauthIdentityStore = memOAuthIdentityStore, be_challengeStore = memChallengeStore,
     be_walletIdentityStore = memWalletIdentityStore, be_ping = None\<rparr>"

section \<open>HTTP endpoints\<close>

record http_response =
  HR_Status :: int
  HR_Header :: Header
  HR_Body :: string

definition http_Error :: "Header \<Rightarrow> string \<Rightarrow> int \<Rightarrow> http_response" where
  "http_Error hdr msg code =
    \<lparr>HR_Status = code,
     HR_Header = header_Set ''X-Content-Type-Options'' ''nosniff''
       (header_Set ''Content-Type'' ''text/plain; charset=utf-8'' (filter (\<lambda>p. fst p \<noteq> ''Content-Length'') hdr)),
     HR_Body = msg @ [CHR 0x0A]\<rparr>"

definition json_header :: Header where "json_header = header_Set ''Content-Type'' ''application/json'' []"

text \<open>\<open>encode\<close> is the JSON encoder of a key set; it writes nothing when it fails.\<close>

definition jwks_endpoint :: "(JSONWebKey list \<Rightarrow> error + string) \<Rightarrow> 'st Server \<Rightarrow> http_response" where
  "jwks_endpoint encode srv =
    (let hdr = header_Set ''Cache-Control'' ''public, max-age=3600'' json_header
     in case encode (JWKS (svc_issuer (srv_service srv))) of
          Inl err \<Rightarrow> http_Error hdr ''internal error'' 500
        | Inr body \<Rightarrow> \<lparr>HR_Status = 200, HR_Header = hdr, HR_Body = body\<rparr>)"

definition healthz_endpoint :: http_response where
  "healthz_endpoint = \<lparr>HR_Status = 200, HR_Header = json_header, HR_Body = ''{\"status\":\"ok\"}''\<rparr>"

definition readyz_endpoint :: "'st Server \<Rightarrow> 'st world \<Rightarrow> http_response \<times> 'st world" where
  "readyz_endpoint srv w =
    (let (err, w1) = (case srv_dbPing srv of None \<Rightarrow> (None, w) | Some ping \<Rightarrow> ping w)
     in case err of
          Some e \<Rightarrow>
            (\<lparr>HR_Status = 503, HR_Header = json_header,
              HR_Body = ''{\"status\":\"not_ready\",\"reason\":\"database_unavailable\"}''\<rparr>, w1)
        | None \<Rightarrow> (\<lparr>HR_Status = 200, HR_Header = json_header, HR_Body = ''{\"status\":\"ready\"}''\<rparr>, w1))"

definition health_endpoint :: "string \<Rightarrow> 'st Server \<Rightarrow> 'st world \<Rightarrow> http_response \<times> 'st world" where
  "health_endpoint version srv w =
    (let (status, dbStatus, httpStatus, w1) =
           (case srv_dbPing srv of
              None \<Rightarrow> (''ok'', ''not_configured'', 200, w)
            | Some ping \<Rightarrow>
                (case ping w of
                   (Some err, w1) \<Rightarrow> (''degraded'', ''error'', 503, w1)
                 | (None, w1) \<Rightarrow> (''ok'', ''connected'', 200, w1)))
     in (\<lparr>HR_Status = httpStatus, HR_Header = json_header,
          HR_Body = ''{\"status\":\"'' @ status @ ''\",\"service\":\"psina\",\"version\":\"'' @ version @ ''\",\"db\":\"'' @
            dbStatus @ ''\"}''\<rparr>, w1))"

subsection \<open>Reading a cookie as \<^verbatim>\<open>net/http\<close> does\<close>

definition ascii_space :: "char \<Rightarrow> bool" where
  "ascii_space c \<longleftrightarrow> byte c \<in> {32, 9, 10, 13}"

definition textproto_TrimString :: "string \<Rightarrow> string" where
  "textproto_TrimString s = rev (dropWhile ascii_space (rev (dropWhile ascii_space s)))"

definition validCookieValueByte :: "char \<Rightarrow> bool" where
  "validCookieValueByte c \<longleftrightarrow> 32 \<le> byte c \<and> byte c < 127 \<and> c \<noteq> CHR 0x22 \<and> c \<noteq> CHR '';'' \<and> c \<noteq> CHR 0x5C"

definition parseCookieValue :: "string \<Rightarrow> string option" where
  "parseCookieValue raw =
    (let val = (if length raw > 1 \<and> hd raw = CHR 0x22 \<and> last raw = CHR 0x22 then butlast (tl raw) else raw)
     in if list_all validCookieValueByte val then Some val else None)"

definition isToken :: "string \<Rightarrow> bool" where
  "isToken s \<longleftrightarrow> s \<noteq> '''' \<and>
    list_all (\<lambda>c. 48 \<le> byte c \<and> byte c \<le> 57 \<or> 65 \<le> byte c \<and> byte c \<le> 90 \<or> 97 \<le> byte c \<and> byte c \<le> 122 \<or>
      c \<in> set ''!#$%&*+-.^_|~'' \<or> byte c \<in> {39, 96}) s"

text \<open>The cookies of one header line with the name \<open>filt\<close>. The loop over the rest of the line is a
  split at every semicolon; parts that are empty after trimming are skipped.\<close>

definition lineCookies :: "string \<Rightarrow> string \<Rightarrow> string list" where
  "lineCookies filt line =
    List.map_filter (\<lambda>part.
      let part = textproto_TrimString part;
          (name, val, found) = strings_Cut (CHR ''='') part;
          name = textproto_TrimString name
      in if part = '''' \<or> \<not> isToken name \<or> filt \<noteq> name then None else parseCookieValue val)
    (strings_Split (CHR '';'') (textproto_TrimString line))"

definition defaultCookieMaxNum :: int where "defaultCookieMaxNum = 3000"

definition r_Cookie :: "Header \<Rightarrow> string \<Rightarrow> string option" where
  "r_Cookie header name =
    (let lines = header_Values header ''Cookie''
     in if defaultCookieMaxNum < int (sum_list (map (\<lambda>line. Suc (count_list line (CHR '';''))) lines)) then None
        else case concat (map (lineCookies name) lines) of [] \<Rightarrow> None | v # _ \<Rightarrow> Some v)"

subsection \<open>ForwardAuth\<close>

definition verify_endpoint :: "'st Server \<Rightarrow> Header \<Rightarrow> 'st world \<Rightarrow> http_response \<times> 'st world" where
  "verify_endpoint srv header w =
    (let authHeader = header_Get header ''Authorization'';
         bearer = strings_TrimPrefix authHeader ''Bearer ''
     in if authHeader \<noteq> '''' \<and> bearer = authHeader then (http_Error [] ''invalid authorization format'' 401, w)
        else
          let accessToken = (if authHeader \<noteq> '''' then bearer else '''');
              accessToken =
                (if accessToken = '''' \<and> srv_cookieEnabled srv
                 then (case r_Cookie header AccessTokenCookie of Some v \<Rightarrow> v | None \<Rightarrow> accessToken)
                 else accessToken)
          in if accessToken = '''' then (http_Error [] ''missing authorization'' 401, w)
             else
               case Service_Verify (srv_service srv) accessToken w of
                 (Inl err, w1) \<Rightarrow>
                   (if errors_Is err ErrInvalidCredentials then http_Error [] ''invalid token'' 401
                    else http_Error [] ''internal error'' 500, w1)
               | (Inr claims, w1) \<Rightarrow>
                   let hdr = header_Set ''X-User-Id'' (Claims_UserID claims) [];
                       hdr = header_Set ''X-User-Email'' (Claims_Email claims) hdr;
                       hdr = (if Claims_Roles claims \<noteq> []
                              then header_Set ''X-User-Roles'' (strings_Join '','' (Claims_Roles claims)) hdr else hdr)
                   in (\<lparr>HR_Status = 200, HR_Header = hdr, HR_Body = ''''\<rparr>, w1))"

section \<open>Running until drained\<close>

text \<open>What \<^verbatim>\<open>serve\<close> waits for: \<^verbatim>\<open>Serve\<close> returning, or the signal. \<open>shutdown\<close> is
  the outcome of \<^verbatim>\<open>server.Shutdown\<close>.\<close>

datatype serve_event = Served error | CtxDone

definition errors_Join :: "error option list \<Rightarrow> error option" where
  "errors_Join es = (let xs = List.map_filter (\<lambda>e. e) es in if xs = [] then None else Some (Errorf '''' xs))"

definition serve :: "serve_event \<Rightarrow> error option \<Rightarrow> error option" where
  "serve ev shutdown =
    (let serveErr = (case ev of Served err \<Rightarrow> Some (Errorf ''serve: %w'' [err]) | CtxDone \<Rightarrow> None)
     in case shutdown of
          Some err \<Rightarrow> errors_Join [serveErr, Some (Errorf ''shutdown: %w'' [err])]
        | None \<Rightarrow> serveErr)"

end
