(* ===== verification/Server_Properties.thy ===== *)
theory Server_Properties
  imports Server Memory_Challenges
begin

text \<open>
  What start-up and the endpoints beside the RPCs promise: a validated configuration is assembled
  without a panic and into the service it describes, over the in-memory store into the service of
  \<open>Dev_Service\<close>; the ForwardAuth endpoint decides like the RPC.
\<close>

declare map_of_eq_Some_iff [simp del]
declare Some_eq_map_of_iff [simp del]

section \<open>Validation, check by check\<close>

lemma first_error_None: "first_error es = None \<longleftrightarrow> (\<forall>e\<in>set es. e = None)"
  by (induction es rule: first_error.induct) auto

lemma validateConfig_checks:
  assumes "validateConfig np lo c = None"
  shows "\<exists>ps. parseTrustedProxies np (Cfg_Server_TrustedProxies c) = Inr ps"
    "validateOAuthClient ''google'' (Cfg_OAuth_Google c) = None"
    "validateOAuthClient ''github'' (Cfg_OAuth_GitHub c) = None"
    "validateWallet c = None"
  using assms by (auto simp: validateConfig_def first_error_None split: sum.splits)

text \<open>The chains of an accepted list have distinct names, distinct positive ids.\<close>

lemma parseEVMChainsLoop_distinct:
  assumes "parseEVMChainsLoop entries seen seenID = Inr cs"
  shows "distinct (map chain_Name cs) \<and> distinct (map chain_ID cs) \<and> length cs = length entries \<and>
    (\<forall>c\<in>set cs. chain_Name c \<notin> seen \<and> chain_ID c \<notin> seenID \<and> chain_Name c \<noteq> [] \<and> 0 < chain_ID c)"
  using assms
proof (induction entries seen seenID arbitrary: cs rule: parseEVMChainsLoop.induct)
  case (2 entry entries seen seenID)
  obtain name raw ok where c: "strings_Cut (CHR ''='') entry = (name, raw, ok)" by (cases "strings_Cut (CHR ''='') entry")
  let ?n = "strings_TrimSpace name"
  obtain i where i: "strconv_Atoi (strings_TrimSpace raw) = Some i"
    using 2(2) c by (auto simp: Let_def split: option.splits)
  have g: "ok" "?n \<noteq> []" "0 < i" "?n \<notin> seen" "i \<notin> seenID"
    using 2(2) c i by (auto simp: Let_def split: if_splits)
  then obtain cs' where r: "parseEVMChainsLoop entries (insert ?n seen) (insert i seenID) = Inr cs'"
    and cs: "cs = \<lparr>chain_Name = ?n, chain_ID = i\<rparr> # cs'"
    using 2(2) c i by (auto simp: Let_def split: sum.splits)
  have "distinct (map chain_Name cs') \<and> distinct (map chain_ID cs') \<and> length cs' = length entries \<and>
    (\<forall>c\<in>set cs'. chain_Name c \<notin> insert ?n seen \<and> chain_ID c \<notin> insert i seenID \<and> chain_Name c \<noteq> [] \<and> 0 < chain_ID c)"
    by (rule 2(1) [OF c [symmetric] refl refl refl refl i]) (use g r in auto)
  then show ?case using g by (auto simp: cs)
qed simp

lemma validateWallet_parts:
  assumes "validateWallet c = None"
  obtains cs where "parseEVMChains (Cfg_Wallet_EVMChains c) = Inr cs" "distinct (map chain_Name cs)"
    "Cfg_Wallet_Domain c \<noteq> [] \<longrightarrow> Cfg_Wallet_URI c \<noteq> [] \<and>
      \<not> has_line_break (Cfg_Wallet_Domain c @ Cfg_Wallet_URI c @ Cfg_Wallet_Statement c)"
proof -
  obtain cs where p: "parseEVMChains (Cfg_Wallet_EVMChains c) = Inr cs"
    using assms by (auto simp: validateWallet_def split: sum.splits)
  then have "parseEVMChainsLoop (Cfg_Wallet_EVMChains c) {} {} = Inr cs" by (simp add: parseEVMChains_def split: if_splits)
  then have "distinct (map chain_Name cs)" using parseEVMChainsLoop_distinct by blast
  then show ?thesis using that [OF p] assms p by (simp add: validateWallet_def split: if_splits)
qed

section \<open>Providers\<close>

text \<open>Indexing distinct keys does not panic and keeps every provider under its key.\<close>

lemma index_providers_distinct:
  assumes "distinct (map key ps)" "\<forall>p\<in>set ps. map_of reg (key p) = None"
  shows "index_providers msg key ps reg = Inr (reg @ map (\<lambda>p. (key p, p)) ps)"
  using assms
proof (induction ps arbitrary: reg)
  case (Cons p ps)
  have "map_set (key p) p reg = reg @ [(key p, p)]" using Cons.prems(2) by (simp add: map_set_new)
  moreover have "\<forall>q\<in>set ps. map_of (reg @ [(key p, p)]) (key q) = None"
    using Cons.prems by (auto simp: map_add_def image_iff)
  ultimately show ?case using Cons by simp
qed simp

lemma index_providers_top:
  "distinct (map key ps) \<Longrightarrow> index_providers msg key ps [] = Inr (map (\<lambda>p. (key p, p)) ps)"
  by (simp add: index_providers_distinct)

text \<open>The providers with credentials, of a validated configuration.\<close>

definition google_on :: "Config \<Rightarrow> bool" where "google_on c \<longleftrightarrow> Oc_ClientID (Cfg_OAuth_Google c) \<noteq> ''''"
definition github_on :: "Config \<Rightarrow> bool" where "github_on c \<longleftrightarrow> Oc_ClientID (Cfg_OAuth_GitHub c) \<noteq> ''''"

definition oauth_table :: "'st server_lib \<Rightarrow> Config \<Rightarrow> (string, 'st OAuthProvider) gomap" where
  "oauth_table lib c =
    (if google_on c then [(ProviderTypeGoogle, googleTable (lib_oauth2 lib)
       \<lparr>goog_cfg = clientConfig (Cfg_OAuth_Google c), goog_endpoint = google_endpoint\<rparr>)] else []) @
    (if github_on c then [(ProviderTypeGitHub, githubTable (lib_oauth2 lib)
       \<lparr>gh_cfg = clientConfig (Cfg_OAuth_GitHub c), gh_endpoint = endpoint_GitHub (lib_oauth2 lib),
        gh_apiURL = github_apiURL\<rparr>)] else [])"

lemma createOAuthProviders_valid:
  assumes "validateOAuthClient ''google'' (Cfg_OAuth_Google c) = None" "validateOAuthClient ''github'' (Cfg_OAuth_GitHub c) = None"
  shows "createOAuthProviders lib c = Inr (map snd (oauth_table lib c))"
  using assms by (auto simp: createOAuthProviders_def validateOAuthClient_def oauth_table_def google_on_def github_on_def
      Google_New_def Google_newWithEndpoint_def GitHub_New_def GitHub_newWithEndpoint_def clientConfig_def split: if_splits)

lemma oauth_table_keys:
  "map (\<lambda>p. (ProviderName p, p)) (map snd (oauth_table lib c)) = oauth_table lib c"
  "distinct (map ProviderName (map snd (oauth_table lib c)))"
  by (simp_all add: oauth_table_def ProviderTypeGoogle_def ProviderTypeGitHub_def)

definition wallet_table :: "'st server_lib \<Rightarrow> evmChain list \<Rightarrow> (string, WalletProvider) gomap" where
  "wallet_table lib cs = map (\<lambda>c. (chain_Name c, evmTable (lib_evm lib) (EVM_New (chain_Name c) (chain_ID c)))) cs"

lemma createWalletDispatcher_valid:
  assumes "parseEVMChains (Cfg_Wallet_EVMChains c) = Inr cs" "distinct (map chain_Name cs)"
  shows "createWalletDispatcher lib c = Inr (if Cfg_Wallet_Domain c = [] then None else Some (wallet_table lib cs))"
  using assms by (simp add: createWalletDispatcher_def NewDispatcher_def index_providers_top wallet_table_def EVM_New_def comp_def)

section \<open>The assembled service\<close>

definition oauth_part :: "'st server_lib \<Rightarrow> Config \<Rightarrow> 'st Backend \<Rightarrow> 'st OAuthPart option" where
  "oauth_part lib c be =
    (if google_on c \<or> github_on c
     then Some \<lparr>op_providers = oauth_table lib c, op_identities = be_oauthIdentityStore be, op_challenges = be_challengeStore be,
       op_credentials = be_credStore be,
       op_config = \<lparr>OC_DisableAutoLinkEmail = \<not> Cfg_OAuth_AutoLinkEmail c, OC_StateTTL = DefaultOAuthStateTTL\<rparr>\<rparr>
     else None)"

definition wallet_part :: "'st server_lib \<Rightarrow> Config \<Rightarrow> evmChain list \<Rightarrow> 'st Backend \<Rightarrow> 'st WalletPart option" where
  "wallet_part lib c cs be =
    (if Cfg_Wallet_Domain c = '''' then None
     else Some \<lparr>wp_providers = wallet_table lib cs, wp_identities = be_walletIdentityStore be, wp_challenges = be_challengeStore be,
       wp_config = \<lparr>WC_Domain = Cfg_Wallet_Domain c, WC_URI = Cfg_Wallet_URI c, WC_Statement = Cfg_Wallet_Statement c,
         WC_ChallengeTTL = (if Cfg_Wallet_ChallengeTTL c = 0 then DefaultWalletChallengeTTL else Cfg_Wallet_ChallengeTTL c)\<rparr>\<rparr>)"

definition part_option :: "('a \<Rightarrow> 'st Service \<Rightarrow> 'st Service) \<Rightarrow> 'a option \<Rightarrow> 'st ServiceOption list" where
  "part_option upd part = (case part of None \<Rightarrow> [] | Some x \<Rightarrow> [upd x])"

lemma oauthOptions_valid:
  assumes "validateOAuthClient ''google'' (Cfg_OAuth_Google c) = None" "validateOAuthClient ''github'' (Cfg_OAuth_GitHub c) = None"
  shows "oauthOptions lib c be = Inr (part_option (\<lambda>x s. s\<lparr>svc_oauth := Some x\<rparr>) (oauth_part lib c be))"
proof (cases "google_on c \<or> github_on c")
  case True
  then obtain p ps where l: "map snd (oauth_table lib c) = p # ps" by (cases "google_on c") (auto simp: oauth_table_def)
  have t: "oauth_table lib c = map (\<lambda>p. (ProviderName p, p)) (p # ps)" using oauth_table_keys(1) [of lib c] l by simp
  show ?thesis
    using index_providers_top [OF oauth_table_keys(2) [of lib c], of "''auth: duplicate oauth provider''"] True
    unfolding oauthOptions_def createOAuthProviders_valid [OF assms] oauth_table_keys(1) l
    by (simp add: WithOAuth_def oauth_part_def part_option_def fun_eq_iff t)
next
  case False
  then have "oauth_table lib c = []" by (simp add: oauth_table_def)
  then show ?thesis using False by (simp add: oauthOptions_def createOAuthProviders_valid [OF assms] oauth_part_def part_option_def)
qed

lemma walletOptions_valid:
  assumes "parseEVMChains (Cfg_Wallet_EVMChains c) = Inr cs" "distinct (map chain_Name cs)"
    and "Cfg_Wallet_Domain c \<noteq> [] \<longrightarrow> Cfg_Wallet_URI c \<noteq> [] \<and>
      \<not> has_line_break (Cfg_Wallet_Domain c @ Cfg_Wallet_URI c @ Cfg_Wallet_Statement c)"
  shows "walletOptions lib c be = Inr (part_option (\<lambda>x s. s\<lparr>svc_wallet := Some x\<rparr>) (wallet_part lib c cs be))"
  using assms(3) by (cases "Cfg_Wallet_Domain c = []")
    (simp_all add: walletOptions_def createWalletDispatcher_valid [OF assms(1,2)] wallet_part_def part_option_def WithWallet_def Let_def)

text \<open>The service a configuration describes, over a backend and an issuer.\<close>

definition described :: "'st server_lib \<Rightarrow> Config \<Rightarrow> evmChain list \<Rightarrow> 'st Backend \<Rightarrow> Issuer \<Rightarrow> 'st Service" where
  "described lib c cs be issuer =
    (let loc = localTable \<lparr>lp_userStore = be_userStore be, lp_credentialStore = be_credStore be\<rparr> in
     \<lparr>svc_providers = [(ProviderTypeLocal, loc)], svc_localProvider = Some loc,
      svc_tokenStore = be_tokenStore be, svc_userStore = be_userStore be, svc_issuer = issuerTable (lib_jose lib) issuer,
      svc_patStore = (if Cfg_PAT_Enabled c then Some (be_patStore be) else None),
      svc_patConfig =
        (if Cfg_PAT_Enabled c
         then \<lparr>PC_MaxPerUser = (if Cfg_PAT_MaxPerUser c = 0 then DefaultPATMaxPerUser else Cfg_PAT_MaxPerUser c),
               PC_MaxTTL = Cfg_PAT_MaxTTL c,
               PC_TouchInterval = (if Cfg_PAT_TouchInterval c = 0 then DefaultPATTouchInterval else Cfg_PAT_TouchInterval c)\<rparr>
         else \<lparr>PC_MaxPerUser = 0, PC_MaxTTL = 0, PC_TouchInterval = 0\<rparr>),
      svc_oauth = oauth_part lib c be, svc_wallet = wallet_part lib c cs be,
      svc_refreshReuseLeeway = max (Cfg_Token_RefreshReuseLeeway c) 0, svc_now = time_Now\<rparr>)"

lemma fold_part_option: "fold (\<lambda>opt s. opt s) (part_option upd part) s = (case part of None \<Rightarrow> s | Some x \<Rightarrow> upd x s)"
  by (cases part) (simp_all add: part_option_def)

lemma assembleService_valid:
  assumes "validateConfig np lo c = None"
  obtains cs where "parseEVMChains (Cfg_Wallet_EVMChains c) = Inr cs"
    "assembleService lib c be issuer = Inr (described lib c cs be issuer)"
proof -
  note v = validateConfig_checks [OF assms]
  obtain cs where w: "parseEVMChains (Cfg_Wallet_EVMChains c) = Inr cs" "distinct (map chain_Name cs)"
    "Cfg_Wallet_Domain c \<noteq> [] \<longrightarrow> Cfg_Wallet_URI c \<noteq> [] \<and>
      \<not> has_line_break (Cfg_Wallet_Domain c @ Cfg_Wallet_URI c @ Cfg_Wallet_Statement c)"
    by (rule validateWallet_parts [OF v(4)])
  have "assembleService lib c be issuer = Inr (described lib c cs be issuer)"
    unfolding assembleService_def oauthOptions_valid [OF v(2,3)] walletOptions_valid [OF w]
    by (simp add: NewService_def fold_part_option patOptions_def WithPAT_def WithRefreshReuseLeeway_def described_def Let_def
        ProviderTypeLocal_def split: option.split)
  then show ?thesis using that w(1) by blast
qed

lemma assemble_parts:
  assumes "assemble lib c be issuer = Inr srv"
  shows "assembleService lib c be issuer = Inr (srv_service srv)" "h_service (srv_handler srv) = srv_service srv"
    "h_cookieConfig (srv_handler srv) = cookieConfigOf (strings_ToLower (lib_Lower lib)) c"
    "srv_cookieEnabled srv = Cfg_Cookie_Enabled c" "srv_dbPing srv = be_ping be" "srv_auditLogger srv = setupAuditLogger c"
    "parseTrustedProxies (lib_netip lib) (Cfg_Server_TrustedProxies c) = Inr (h_trustedProxies (srv_handler srv))"
  using assms by (auto simp: assemble_def NewHandler_def WithCookieConfig_def WithTrustedProxies_def split: sum.splits)

lemma assemble_valid:
  assumes "validateConfig (lib_netip lib) lo c = None"
  obtains srv where "assemble lib c be issuer = Inr srv"
proof -
  obtain cs where cs: "assembleService lib c be issuer = Inr (described lib c cs be issuer)" by (rule assembleService_valid [OF assms])
  obtain ps where "parseTrustedProxies (lib_netip lib) (Cfg_Server_TrustedProxies c) = Inr ps"
    using validateConfig_checks(1) [OF assms] by blast
  then show ?thesis using that unfolding assemble_def cs by simp
qed

text \<open>Over the in-memory store it is the service of \<open>Dev_Service\<close>.\<close>

lemma described_dev:
  "described lib c cs memBackend issuer =
     devService (lib_jose lib) issuer (Cfg_Token_RefreshReuseLeeway c)
       (if Cfg_PAT_Enabled c
        then Some \<lparr>PC_MaxPerUser = Cfg_PAT_MaxPerUser c, PC_MaxTTL = Cfg_PAT_MaxTTL c, PC_TouchInterval = Cfg_PAT_TouchInterval c\<rparr>
        else None)
       (oauth_part lib c memBackend) (wallet_part lib c cs memBackend)"
  by (simp add: described_def devService_def NewService_def devOptions_def WithRefreshReuseLeeway_def WithPAT_def
      memBackend_def memLocal_def ProviderTypeLocal_def Let_def split: option.split)

lemma dev_parts:
  "oauth_part lib c memBackend = None \<or> (\<exists>cfg. oauth_part lib c memBackend = Some (memOAuth (oauth_table lib c) cfg))"
  "wallet_part lib c cs memBackend = None \<or> (\<exists>cfg. wallet_part lib c cs memBackend = Some (memWallet (wallet_table lib cs) cfg))"
  by (auto simp: oauth_part_def wallet_part_def memOAuth_def memWallet_def memBackend_def)

text \<open>The audit logger writes every record psina audits, whatever the diagnostic level.\<close>

lemma audit_not_dropped: "\<forall>r\<in>set rs. LevelInfo \<le> AR_Level r \<Longrightarrow> logged (setupAuditLogger c) rs = rs"
  by (simp add: logged_def setupAuditLogger_def newLogHandler_def)

text \<open>
  C37. Start-up does what the validated configuration says. Assembling the server never panics and fails only
  because the database cannot be reached or the token issuer cannot be created; the service it builds has the
  stores of the backend, the configured leeway and token limits with their defaults, exactly the OAuth
  providers that have a client id and the wallet chains of the list, and the handler has the configured
  cookies and trusted proxies.
\<close>

theorem startup_configured:
  assumes "validateConfig (lib_netip lib) (strings_ToLower (lib_Lower lib)) c = None"
  shows "case runSetup lib c w of
      (Inl e, w') \<Rightarrow> (\<exists>err. e = Errorf ''connect to postgres: %w'' [err] \<or> e = Errorf ''create token issuer: %w'' [err])
    | (Inr srv, w') \<Rightarrow>
        (\<exists>cs be issuer w1. parseEVMChains (Cfg_Wallet_EVMChains c) = Inr cs \<and> openBackend lib c w = (Inr be, w1) \<and>
          createTokenIssuer lib c w1 = (Inr issuer, w') \<and> srv_service srv = described lib c cs be issuer \<and>
          h_service (srv_handler srv) = srv_service srv \<and>
          h_cookieConfig (srv_handler srv) = cookieConfigOf (strings_ToLower (lib_Lower lib)) c \<and>
          parseTrustedProxies (lib_netip lib) (Cfg_Server_TrustedProxies c) = Inr (h_trustedProxies (srv_handler srv)))"
proof -
  obtain r1 w1 where o: "openBackend lib c w = (r1, w1)" by fastforce
  show ?thesis
  proof (cases r1)
    case (Inl e)
    then have "\<exists>err. e = Errorf ''connect to postgres: %w'' [err]"
      using o by (auto simp: openBackend_def split: if_splits sum.splits prod.splits)
    then show ?thesis unfolding runSetup_def o Inl by (simp, blast)
  next
    case (Inr be)
    obtain r2 w2 where t: "createTokenIssuer lib c w1 = (r2, w2)" by fastforce
    show ?thesis
    proof (cases r2)
      case Inl
      then show ?thesis using o Inr t by (simp add: runSetup_def)
    next
      case issuer: (Inr issuer)
      obtain cs where cs: "parseEVMChains (Cfg_Wallet_EVMChains c) = Inr cs"
        "assembleService lib c be issuer = Inr (described lib c cs be issuer)" by (rule assembleService_valid [OF assms])
      obtain srv where s: "assemble lib c be issuer = Inr srv" by (rule assemble_valid [OF assms])
      have run: "runSetup lib c w = (Inr srv, w2)" using o Inr t issuer s by (simp add: runSetup_def)
      have d: "srv_service srv = described lib c cs be issuer" using assemble_parts(1) [OF s] cs(2) by simp
      show ?thesis unfolding run prod.case sum.case
        by (intro exI conjI) (rule cs(1) o [unfolded Inr] t [unfolded issuer] d assemble_parts(2,3,7) [OF s])+
    qed
  qed
qed

section \<open>ForwardAuth\<close>

definition identity_headers :: "Claims \<Rightarrow> Header" where
  "identity_headers claims =
    (let hdr = header_Set ''X-User-Email'' (Claims_Email claims) (header_Set ''X-User-Id'' (Claims_UserID claims) [])
     in if Claims_Roles claims \<noteq> [] then header_Set ''X-User-Roles'' (strings_Join '','' (Claims_Roles claims)) hdr else hdr)"

definition verify_token :: "'st Server \<Rightarrow> string \<Rightarrow> 'st world \<Rightarrow> http_response \<times> 'st world" where
  "verify_token srv accessToken w =
    (if accessToken = [] then (http_Error [] ''missing authorization'' 401, w)
     else case Service_Verify (srv_service srv) accessToken w of
       (Inl err, w1) \<Rightarrow>
         (if errors_Is err ErrInvalidCredentials then http_Error [] ''invalid token'' 401
          else http_Error [] ''internal error'' 500, w1)
     | (Inr claims, w1) \<Rightarrow> (\<lparr>HR_Status = 200, HR_Header = identity_headers claims, HR_Body = []\<rparr>, w1))"

definition rpc_verify_token :: "'st Handler \<Rightarrow> string \<Rightarrow> 'st world \<Rightarrow> (VerifyResponse, 'st) handled" where
  "rpc_verify_token h accessToken w =
    (if accessToken = [] then (Inl (NewError CodeUnauthenticated (errors_New ''missing authorization'')), [], w)
     else case Service_Verify (h_service h) accessToken w of
       (Inl err, w1) \<Rightarrow> (Inl (verifyErrorToConnect err), [], w1)
     | (Inr claims, w1) \<Rightarrow>
         (Inr (\<lparr>Resp_Msg = \<lparr>VerifyResponse_UserId = Claims_UserID claims, VerifyResponse_Email = Claims_Email claims,
            VerifyResponse_Roles = Claims_Roles claims\<rparr>, Resp_Header = [], Resp_Cookies = []\<rparr>
            \<lparr>Resp_Header := identity_headers claims\<rparr>), [], w1))"

lemma verify_token_agrees:
  assumes "h_service h = srv_service srv"
  shows "case (verify_token srv tok w, rpc_verify_token h tok w) of
      ((resp, w1), (r, recs, w2)) \<Rightarrow> w1 = w2 \<and> recs = [] \<and>
        (case r of
           Inr v \<Rightarrow> HR_Status resp = 200 \<and> HR_Header resp = Resp_Header v
         | Inl (ConnectError code _ _) \<Rightarrow>
             code \<in> {CodeUnauthenticated, CodeInternal} \<and> HR_Status resp = (if code = CodeUnauthenticated then 401 else 500)
         | Inl (Crashed _) \<Rightarrow> False)"
proof (cases "Service_Verify (srv_service srv) tok w")
  case (Pair r w1)
  then show ?thesis
    by (cases r) (simp_all add: verify_token_def rpc_verify_token_def assms http_Error_def verifyErrorToConnect_def internalError_def)
qed

lemma TrimPrefix_nil: "strings_TrimPrefix [] p = []"
  by (simp add: strings_TrimPrefix_def)

text \<open>
  C38. The gateway's view of a token is the RPC's. For a request that carries a bearer token, or whose access
  cookie the two readers of cookies see alike, the \<^verbatim>\<open>/verify\<close> endpoint answers 200 with the
  identity headers of the RPC exactly when the RPC succeeds, 401 when the RPC says unauthenticated, and 500
  for every other failure, so an outage is never told apart from a logout wrongly.
\<close>

theorem verify_endpoint_agrees:
  assumes "assemble lib c be issuer = Inr srv"
    and "strings_TrimPrefix (header_Get header ''Authorization'') ''Bearer '' \<noteq> '''' \<or> \<not> Cfg_Cookie_Enabled c \<or>
      (case r_Cookie header AccessTokenCookie of None \<Rightarrow> '''' | Some v \<Rightarrow> v) = getCookieFromHeader header AccessTokenCookie"
  shows "case (verify_endpoint srv header w, Handler_Verify (srv_handler srv) \<lparr>Req_Msg = (), Req_Header = header, Req_PeerAddr = peer\<rparr> w) of
      ((resp, w1), (r, recs, w2)) \<Rightarrow> w1 = w2 \<and> recs = [] \<and>
        (case r of
           Inr v \<Rightarrow> HR_Status resp = 200 \<and> HR_Header resp = Resp_Header v
         | Inl (ConnectError code _ _) \<Rightarrow>
             code \<in> {CodeUnauthenticated, CodeInternal} \<and> HR_Status resp = (if code = CodeUnauthenticated then 401 else 500)
         | Inl (Crashed _) \<Rightarrow> False)"
proof -
  let ?a = "header_Get header ''Authorization''" and ?rd = "r_Cookie header AccessTokenCookie"
  let ?b = "strings_TrimPrefix ?a ''Bearer ''" and ?h = "srv_handler srv"
  let ?t = "if ?a \<noteq> [] then ?b else []"
  note s = assemble_parts [OF assms(1)]
  have e: "CC_Enabled (h_cookieConfig ?h) = Cfg_Cookie_Enabled c" by (simp add: s(3) cookieConfigOf_def)
  have b: "?b = [] \<longleftrightarrow> ?t = []" by (simp add: TrimPrefix_nil)
  have tok: "(if ?t = [] \<and> srv_cookieEnabled srv then (case ?rd of Some v \<Rightarrow> v | None \<Rightarrow> ?t) else ?t) =
      tokenOrCookie ?h header ?t AccessTokenCookie"
  proof (cases "?t = [] \<and> Cfg_Cookie_Enabled c")
    case True
    then have "(case ?rd of None \<Rightarrow> [] | Some v \<Rightarrow> v) = getCookieFromHeader header AccessTokenCookie" using assms(2) b by blast
    then show ?thesis using True by (cases ?rd) (simp_all add: tokenOrCookie_def e s(4) Let_def)
  next
    case False
    then show ?thesis unfolding tokenOrCookie_def e s(4) by presburger
  qed
  show ?thesis
  proof (cases "?a \<noteq> [] \<and> ?b = ?a")
    case True
    then show ?thesis by (simp add: verify_endpoint_def Handler_Verify_def http_Error_def)
  next
    case False
    have v: "verify_endpoint srv header w = verify_token srv (tokenOrCookie ?h header ?t AccessTokenCookie) w"
      unfolding tok [symmetric] verify_endpoint_def verify_token_def identity_headers_def Let_def by (rule if_not_P [OF False])
    have h: "Handler_Verify ?h \<lparr>Req_Msg = (), Req_Header = header, Req_PeerAddr = peer\<rparr> w =
        rpc_verify_token ?h (tokenOrCookie ?h header ?t AccessTokenCookie) w"
      unfolding Handler_Verify_def rpc_verify_token_def identity_headers_def Let_def Request.select_convs NewResponse_def Response.select_convs
      by (rule if_not_P [OF False])
    show ?thesis unfolding v h by (rule verify_token_agrees [OF s(2)])
  qed
qed

text \<open>Without the hypothesis on cookies the two part ways: a cleared duplicate in front of the access cookie
  hides it from \<^verbatim>\<open>/verify\<close>, not from the RPC.\<close>

lemma shadowed_cookie:
  "r_Cookie [(''Cookie'', [''psina_access=; psina_access=tok''])] AccessTokenCookie = Some []"
  "getCookieFromHeader [(''Cookie'', [''psina_access=; psina_access=tok''])] AccessTokenCookie = ''tok''"
proof -
  have s: "strings_Split (CHR '';'') ''psina_access=; psina_access=tok'' = [''psina_access='', '' psina_access=tok'']"
    using Split_append [of "CHR '';''" "''psina_access=''" "'' psina_access=tok''"] Split_no_sep [of "CHR '';''" "'' psina_access=tok''"]
    by (simp del: strings_Split.simps)
  have t: "textproto_TrimString ''psina_access=; psina_access=tok'' = ''psina_access=; psina_access=tok''"
    "textproto_TrimString ''psina_access='' = ''psina_access=''" "textproto_TrimString '' psina_access=tok'' = ''psina_access=tok''"
    "textproto_TrimString ''psina_access'' = ''psina_access''" "textproto_TrimString [] = []"
    by (simp_all add: textproto_TrimString_def ascii_space_def)
  have u: "strings_TrimSpace ''psina_access='' = ''psina_access=''" "strings_TrimSpace '' psina_access=tok'' = ''psina_access=tok''"
    by (simp_all add: TrimSpace_ascii ascii_def sp_def unicode_IsSpace_def)
  have k: "strings_Cut (CHR ''='') ''psina_access='' = (''psina_access'', [], True)"
    "strings_Cut (CHR ''='') ''psina_access=tok'' = (''psina_access'', ''tok'', True)" by (simp_all add: strings_Cut_def)
  have i: "isToken ''psina_access''" by (simp add: isToken_def)
  have p: "parseCookieValue [] = Some []" by (simp add: parseCookieValue_def)
  have "lineCookies AccessTokenCookie ''psina_access=; psina_access=tok'' = [] # tl (lineCookies AccessTokenCookie ''psina_access=; psina_access=tok'')"
    unfolding lineCookies_def t s AccessTokenCookie_def by (simp only: map_filter_simps t k i p Let_def prod.case) simp
  then obtain vs where "lineCookies AccessTokenCookie ''psina_access=; psina_access=tok'' = [] # vs" by blast
  then show "r_Cookie [(''Cookie'', [''psina_access=; psina_access=tok''])] AccessTokenCookie = Some []"
    by (simp add: r_Cookie_def header_Values_def defaultCookieMaxNum_def)
  show "getCookieFromHeader [(''Cookie'', [''psina_access=; psina_access=tok''])] AccessTokenCookie = ''tok''"
    by (simp only: getCookieFromHeader_def header_Get_def header_Values_def map_of.simps fst_conv snd_conv fun_upd_same option.case
        list.case Let_def s findCookie.simps u k prod.case AccessTokenCookie_def) simp
qed

lemma verify_cookie_shadowed:
  assumes "assemble lib c be issuer = Inr srv" "Cfg_Cookie_Enabled c"
  defines "header \<equiv> [(''Cookie'', [''psina_access=; psina_access=tok''])]"
  shows "HR_Status (fst (verify_endpoint srv header w)) = 401"
    and "tokenOrCookie (srv_handler srv) header [] AccessTokenCookie = ''tok''"
proof -
  note s = assemble_parts [OF assms(1)]
  note r = shadowed_cookie [folded header_def]
  have a: "header_Get header ''Authorization'' = []" by (simp add: header_def header_Get_def header_Values_def)
  show "HR_Status (fst (verify_endpoint srv header w)) = 401"
    using assms(2) a by (simp add: verify_endpoint_def r s(4) http_Error_def)
  show "tokenOrCookie (srv_handler srv) header [] AccessTokenCookie = ''tok''"
    using assms(2) by (simp add: tokenOrCookie_def s(3) cookieConfigOf_def r)
qed

section \<open>A development server\<close>

definition demo_oauth2 :: oauth2_lib where
  "demo_oauth2 = \<lparr>conf_AuthCodeURL = (\<lambda>c s opts. O2_AuthURL c), conf_Exchange = (\<lambda>c s opts n. Inl (Foreign ''offline'')),
     id_ParseSigned = (\<lambda>s a. Inr s), id_UnsafeClaims = (\<lambda>s. Inl (Foreign ''claims'')), id_Validate = (\<lambda>c a t. None),
     http_NewRequest = (\<lambda>u. None), client_Do = (\<lambda>c t u h n. Inl (Foreign ''offline'')),
     decode_apiUser = (\<lambda>s. Inl (Foreign ''json'')), decode_apiEmails = (\<lambda>s. Inr []), endpoint_GitHub = (''a'', ''t'')\<rparr>"

definition demo_server_lib :: "Store server_lib" where
  "demo_server_lib = \<lparr>pem_Decode = (\<lambda>s. None), x509_ParsePKCS1PrivateKey = Inr, x509_ParseECPrivateKey = Inr,
     x509_ParsePKCS8PrivateKey = (\<lambda>s. Inr (RSAPrivateKey s)), os_ReadFile = (\<lambda>p. Inl (Foreign ''enoent'')),
     postgres_NewWithDSN = (\<lambda>u p w. (Inl (Foreign ''dial''), w)), memory_New = memBackend, lib_jose = demo_jose,
     lib_oauth2 = demo_oauth2, lib_evm = demo_lib, lib_netip = demo_netip, lib_uuid_Parse = Some, lib_Lower = (\<lambda>r. r)\<rparr>"

definition demo_config :: Config where
  "demo_config = \<lparr>Cfg_Dev = True, Cfg_Logger_Level = ''info'', Cfg_Logger_Format = ''json'', Cfg_Server_Port = 8080,
     Cfg_Server_TrustedProxies = [''10.0.0.0/8''], Cfg_DB_URL = '''', Cfg_DB_TablePrefix = '''', Cfg_JWT_PrivateKeyPath = '''',
     Cfg_JWT_PrivateKey = '''', Cfg_JWT_Algorithm = ''RS256'', Cfg_Token_RefreshReuseLeeway = 10, Cfg_Cookie_Enabled = True,
     Cfg_Cookie_Domain = ''app.io'', Cfg_Cookie_Secure = True, Cfg_Cookie_SameSite = ''lax'', Cfg_Cookie_Path = ''/'',
     Cfg_PAT_Enabled = True, Cfg_PAT_MaxPerUser = 0, Cfg_PAT_MaxTTL = 0, Cfg_PAT_TouchInterval = 0, Cfg_OAuth_AutoLinkEmail = True,
     Cfg_OAuth_Google = \<lparr>Oc_ClientID = ''id'', Oc_ClientSecret = ''s'', Oc_RedirectURIs = [''https://app.io/cb'']\<rparr>,
     Cfg_OAuth_GitHub = \<lparr>Oc_ClientID = '''', Oc_ClientSecret = '''', Oc_RedirectURIs = []\<rparr>,
     Cfg_Wallet_Domain = ''app.io'', Cfg_Wallet_URI = ''https://app.io'', Cfg_Wallet_Statement = '''',
     Cfg_Wallet_ChallengeTTL = 0, Cfg_Wallet_EVMChains = [''eth=1'', ''base = 8453'']\<rparr>"

lemma demo_lower:
  "strings_ToLower (\<lambda>r. r) ''info'' = ''info''" "strings_ToLower (\<lambda>r. r) ''json'' = ''json''" "strings_ToLower (\<lambda>r. r) ''lax'' = ''lax''"
  by (simp_all add: ToLower_ascii ascii_def lower1_def ascii_lower_def char_of_def bit_0)

lemma demo_chains:
  "parseEVMChains [''eth=1'', ''base = 8453''] = Inr [\<lparr>chain_Name = ''eth'', chain_ID = 1\<rparr>, \<lparr>chain_Name = ''base'', chain_ID = 8453\<rparr>]"
proof -
  have k: "strings_Cut (CHR ''='') ''eth=1'' = (''eth'', ''1'', True)"
    "strings_Cut (CHR ''='') ''base = 8453'' = (''base '', '' 8453'', True)" by (simp_all add: strings_Cut_def)
  have s: "strings_TrimSpace ''eth'' = ''eth''" "strings_TrimSpace ''1'' = ''1''" "strings_TrimSpace ''base '' = ''base''"
    "strings_TrimSpace '' 8453'' = ''8453''" by (simp_all add: TrimSpace_ascii ascii_def sp_def unicode_IsSpace_def)
  have a: "strconv_Atoi ''1'' = Some 1" "strconv_Atoi ''8453'' = Some 8453" by (simp_all add: strconv_Atoi_def decimal_value_def)
  show ?thesis by (simp add: parseEVMChains_def k s a)
qed

lemma demo_valid: "validateConfig (lib_netip demo_server_lib) (strings_ToLower (lib_Lower demo_server_lib)) demo_config = None"
proof -
  obtain q where p: "parseTrustedProxy demo_netip ''10.0.0.0/8'' = Inr q"
    by (simp add: parseTrustedProxy_def demo_netip_def Masked_def Let_def)
  have w: "validateWallet demo_config = None" by (simp add: validateWallet_def demo_config_def demo_chains has_line_break_def)
  show ?thesis unfolding validateConfig_def w
    by (simp add: demo_server_lib_def demo_config_def first_error_None validateDevFallbacks_def parseLogLevel_def demo_lower p
        validateOAuthClient_def Let_def split: sum.split)
qed

theorem startup_configured_witness:
  "\<exists>srv w'. runSetup demo_server_lib demo_config (demo_world Memory_New) = (Inr srv, w') \<and>
     svc_refreshReuseLeeway (srv_service srv) = 10 \<and> svc_patConfig (srv_service srv) = \<lparr>PC_MaxPerUser = 50, PC_MaxTTL = 0, PC_TouchInterval = minute\<rparr> \<and>
     map_option (map fst \<circ> op_providers) (svc_oauth (srv_service srv)) = Some [''google''] \<and>
     map_option (map fst \<circ> wp_providers) (svc_wallet (srv_service srv)) = Some [''eth'', ''base'']"
proof -
  let ?w = "demo_world Memory_New"
  have b: "openBackend demo_server_lib demo_config ?w = (Inr memBackend, ?w)"
    by (simp add: openBackend_def demo_config_def demo_server_lib_def memBackend_def)
  obtain i w1 where i: "createTokenIssuer demo_server_lib demo_config ?w = (Inr i, w1)"
    by (simp add: createTokenIssuer_def demo_config_def demo_server_lib_def NewWithAlgorithm_def draw_key_def NewWithRSAKey_def
        newIssuer_def demo_jose_def demo_world_def)
  obtain srv where s: "assemble demo_server_lib demo_config memBackend i = Inr srv" by (rule assemble_valid [OF demo_valid])
  have r: "runSetup demo_server_lib demo_config ?w = (Inr srv, w1)" by (simp add: runSetup_def b i s)
  obtain cs be issuer where d: "parseEVMChains (Cfg_Wallet_EVMChains demo_config) = Inr cs"
    "srv_service srv = described demo_server_lib demo_config cs be issuer"
    using startup_configured [OF demo_valid, of ?w] unfolding r prod.case sum.case by blast
  have cs: "map chain_Name cs = [''eth'', ''base'']" using d(1) demo_chains by (auto simp: demo_config_def)
  have "svc_refreshReuseLeeway (srv_service srv) = 10"
    "svc_patConfig (srv_service srv) = \<lparr>PC_MaxPerUser = 50, PC_MaxTTL = 0, PC_TouchInterval = minute\<rparr>"
    "map_option (map fst \<circ> op_providers) (svc_oauth (srv_service srv)) = Some [''google'']"
    "map_option (map fst \<circ> wp_providers) (svc_wallet (srv_service srv)) = Some [''eth'', ''base'']"
    unfolding d(2) cs [symmetric] by (simp_all add: described_def demo_config_def DefaultPATMaxPerUser_def DefaultPATTouchInterval_def
        oauth_part_def oauth_table_def google_on_def github_on_def ProviderTypeGoogle_def wallet_part_def wallet_table_def Let_def comp_def)
  then show ?thesis using r by blast
qed

text \<open>A bearer token the issuer did not sign: both answers are unauthenticated.\<close>

theorem verify_endpoint_agrees_witness:
  "\<exists>srv. assemble demo_server_lib demo_config memBackend demo_issuer = Inr srv \<and>
     (case (verify_endpoint srv [(''Authorization'', [''Bearer x''])] (demo_world Memory_New),
            Handler_Verify (srv_handler srv) \<lparr>Req_Msg = (), Req_Header = [(''Authorization'', [''Bearer x''])], Req_PeerAddr = ''''\<rparr>
              (demo_world Memory_New)) of
        ((resp, w1), (r, recs, w2)) \<Rightarrow> w1 = w2 \<and> recs = [] \<and>
          (case r of
             Inr v \<Rightarrow> HR_Status resp = 200 \<and> HR_Header resp = Resp_Header v
           | Inl (ConnectError code _ _) \<Rightarrow>
               code \<in> {CodeUnauthenticated, CodeInternal} \<and> HR_Status resp = (if code = CodeUnauthenticated then 401 else 500)
           | Inl (Crashed _) \<Rightarrow> False))"
proof -
  obtain srv where s: "assemble demo_server_lib demo_config memBackend demo_issuer = Inr srv" by (rule assemble_valid [OF demo_valid])
  have "strings_TrimPrefix (header_Get [(''Authorization'', [''Bearer x''])] ''Authorization'') ''Bearer '' \<noteq> []"
    by (simp add: header_Get_def header_Values_def strings_TrimPrefix_def strings_HasPrefix_def)
  note verify_endpoint_agrees [OF s disjI1 [OF this], of "demo_world Memory_New" "''''"]
  then show ?thesis by (intro exI [of _ srv] conjI s)
qed

end
