(* ===== verification/Lifecycle.thy ===== *)
theory Lifecycle
  imports Server_Properties
begin

text \<open>
  The life of the process: \<^verbatim>\<open>main\<close>, \<^verbatim>\<open>run\<close> and \<^verbatim>\<open>serve\<close> of
  \<^verbatim>\<open>cmd/psina/main.go\<close> as a state machine. The main goroutine moves by \<open>main_step\<close>; the goroutine
  of \<^verbatim>\<open>server.Serve\<close>, the request handlers, the signals, \<^verbatim>\<open>context.AfterFunc\<close> and the clock move
  by \<open>env_step\<close>, in any order. A handler may hold connections of the database pool. Closing the pool
  is a library call that may block; the parameter \<open>blocks\<close> says for how many connections still in use it does.
\<close>

section \<open>State\<close>

datatype pool = NoPool | PoolOpen | PoolClosing | PoolClosed

text \<open>The contexts \<^verbatim>\<open>run\<close> and \<^verbatim>\<open>serve\<close> build; \<open>NotifyContext\<close> is the one a signal ends.\<close>

datatype go_context = NotifyContext | WithoutCancel go_context | WithTimeout int go_context

datatype deferred = Stop | Cleanup

text \<open>Where the main goroutine is: in the \<^verbatim>\<open>select\<close>, in \<^verbatim>\<open>server.Shutdown\<close>, running the
  deferred calls of \<^verbatim>\<open>run\<close> with its result, or gone.\<close>

datatype main_pc =
    Selecting
  | Draining serve_event go_context
  | Unwinding "deferred list" "error option"
  | Exited int
  | Killed

record process =
  p_pc :: main_pc
  p_pool :: pool
  p_ctxDone :: bool
  p_registered :: bool
  p_serving :: bool
  p_served :: "error option"
  p_shutdown :: "int option"
  p_closed :: bool
  p_inflight :: nat
  p_conns :: nat
  p_clock :: int

text \<open>\<open>p_registered\<close>: signals are delivered to the context; \<open>p_serving\<close> and \<open>p_served\<close>: the goroutine of
  \<^verbatim>\<open>Serve\<close> and its channel; \<open>p_shutdown\<close>: when \<^verbatim>\<open>Shutdown\<close> was called; \<open>p_closed\<close>: no connection
  is left to bring a request; \<open>p_inflight\<close> and \<open>p_conns\<close>: handlers running, database connections they hold.\<close>

fun gone :: "main_pc \<Rightarrow> bool" where
  "gone (Exited n) = True"
| "gone Killed = True"
| "gone _ = False"

abbreviation running :: "process \<Rightarrow> bool" where
  "running p \<equiv> \<not> gone (p_pc p)"

fun ctx_Err :: "process \<Rightarrow> go_context \<Rightarrow> error option" where
  "ctx_Err p NotifyContext = (if p_ctxDone p then Some (Foreign ''context canceled'') else None)"
| "ctx_Err p (WithoutCancel c) = None"
| "ctx_Err p (WithTimeout deadline c) =
    (case ctx_Err p c of
       Some err \<Rightarrow> Some err
     | None \<Rightarrow> if deadline \<le> p_clock p then Some (Foreign ''context deadline exceeded'') else None)"

definition shutdownTimeout :: duration where
  "shutdownTimeout = 30 * second"

text \<open>The context \<^verbatim>\<open>serve\<close> drains under.\<close>

definition shutdownCtx :: "process \<Rightarrow> go_context" where
  "shutdownCtx p = WithTimeout (p_clock p + shutdownTimeout) (WithoutCancel NotifyContext)"

definition exit_status :: "error option \<Rightarrow> int" where
  "exit_status r = (case r of None \<Rightarrow> 0 | Some (Panic _) \<Rightarrow> 2 | Some _ \<Rightarrow> 1)"

section \<open>Start\<close>

text \<open>A process that has not begun to serve, with the result \<^verbatim>\<open>run\<close> returns and its deferred calls.\<close>

definition not_serving :: "int \<Rightarrow> pool \<Rightarrow> main_pc \<Rightarrow> process" where
  "not_serving t pl pc = \<lparr>p_pc = pc, p_pool = pl, p_ctxDone = False, p_registered = False, p_serving = False,
     p_served = None, p_shutdown = None, p_closed = True, p_inflight = 0, p_conns = 0, p_clock = t\<rparr>"

definition openedPool :: "Config \<Rightarrow> pool" where
  "openedPool config = (if Cfg_DB_URL config \<noteq> '''' then PoolOpen else NoPool)"

text \<open>\<^verbatim>\<open>run\<close> up to the \<^verbatim>\<open>select\<close> of \<^verbatim>\<open>serve\<close>; \<open>listenErr\<close> is the outcome of
  \<^verbatim>\<open>net.Listen\<close>.\<close>

definition run_start :: "'st server_lib \<Rightarrow> Config \<Rightarrow> error option \<Rightarrow> 'st world \<Rightarrow> int \<Rightarrow> process" where
  "run_start lib config listenErr w t =
    (case openBackend lib config w of
       (Inl err, w1) \<Rightarrow> not_serving t NoPool (Unwinding [] (Some err))
     | (Inr be, w1) \<Rightarrow>
         (case createTokenIssuer lib config w1 of
            (Inl err, w2) \<Rightarrow> not_serving t (openedPool config) (Unwinding [Cleanup] (Some (Errorf ''create token issuer: %w'' [err])))
          | (Inr issuer, w2) \<Rightarrow>
              (case assemble lib config be issuer of
                 Inl err \<Rightarrow> not_serving t (openedPool config) (Unwinding [Cleanup] (Some err))
               | Inr srv \<Rightarrow>
                   (case listenErr of
                      Some err \<Rightarrow>
                        (not_serving t (openedPool config) (Unwinding [Stop, Cleanup] (Some (Errorf ''listen: %w'' [err]))))
                          \<lparr>p_registered := True\<rparr>
                    | None \<Rightarrow>
                        (not_serving t (openedPool config) Selecting)
                          \<lparr>p_registered := True, p_serving := True, p_closed := False\<rparr>))))"

definition main_start ::
  "'st server_lib \<Rightarrow> config_lib \<Rightarrow> string list \<Rightarrow> error option \<Rightarrow> 'st world \<Rightarrow> int \<Rightarrow> process" where
  "main_start lib clib args listenErr w t =
    (if args \<noteq> [] \<and> (args ! 0 = ''--version'' \<or> args ! 0 = ''-v'') then not_serving t NoPool (Exited 0)
     else
       (case loadConfig clib (lib_netip lib) args of
          Inl err \<Rightarrow> not_serving t NoPool (Unwinding [] (Some (Errorf ''load config: %w'' [err])))
        | Inr config \<Rightarrow> run_start lib config listenErr w t))"

section \<open>Steps\<close>

text \<open>The main goroutine. \<^verbatim>\<open>Shutdown\<close> returns without an error once it finds no request in flight;
  when its context is done first it returns the context's error.\<close>

inductive main_step :: "(nat \<Rightarrow> bool) \<Rightarrow> process \<Rightarrow> process \<Rightarrow> bool" for blocks where
  select_served: "p_pc p = Selecting \<Longrightarrow> p_served p = Some err \<Longrightarrow>
    main_step blocks p (p\<lparr>p_served := None, p_shutdown := Some (p_clock p), p_pc := Draining (Served err) (shutdownCtx p)\<rparr>)"
| select_signal: "p_pc p = Selecting \<Longrightarrow> p_ctxDone p \<Longrightarrow>
    main_step blocks p (p\<lparr>p_shutdown := Some (p_clock p), p_pc := Draining CtxDone (shutdownCtx p)\<rparr>)"
| drained: "p_pc p = Draining ev c \<Longrightarrow> p_inflight p = 0 \<Longrightarrow>
    main_step blocks p (p\<lparr>p_closed := True, p_pc := Unwinding [Stop, Cleanup] (serve ev None)\<rparr>)"
| cut_short: "p_pc p = Draining ev c \<Longrightarrow> ctx_Err p c = Some err \<Longrightarrow>
    main_step blocks p (p\<lparr>p_pc := Unwinding [Stop, Cleanup] (serve ev (Some err))\<rparr>)"
| stop: "p_pc p = Unwinding (Stop # ds) r \<Longrightarrow>
    main_step blocks p (p\<lparr>p_ctxDone := True, p_registered := False, p_pc := Unwinding ds r\<rparr>)"
| cleanup_none: "p_pc p = Unwinding (Cleanup # ds) r \<Longrightarrow> p_pool p = NoPool \<Longrightarrow>
    main_step blocks p (p\<lparr>p_pc := Unwinding ds r\<rparr>)"
| cleanup_begin: "p_pc p = Unwinding (Cleanup # ds) r \<Longrightarrow> p_pool p = PoolOpen \<Longrightarrow>
    main_step blocks p (p\<lparr>p_pool := PoolClosing\<rparr>)"
| cleanup_end: "p_pc p = Unwinding (Cleanup # ds) r \<Longrightarrow> p_pool p = PoolClosing \<Longrightarrow> \<not> blocks (p_conns p) \<Longrightarrow>
    main_step blocks p (p\<lparr>p_pool := PoolClosed, p_pc := Unwinding ds r\<rparr>)"
| exit: "p_pc p = Unwinding [] r \<Longrightarrow> main_step blocks p (p\<lparr>p_pc := Exited (exit_status r)\<rparr>)"

text \<open>Everything else. A request may start on a connection that is still open, also while the server
  drains. A signal is taken by the context while it is registered and kills the process otherwise. The
  pool hands out connections only while it is open.\<close>

inductive env_step :: "process \<Rightarrow> process \<Rightarrow> bool" where
  pause: "0 \<le> d \<Longrightarrow> env_step p (p\<lparr>p_clock := p_clock p + d\<rparr>)"
| signal: "running p \<Longrightarrow> p_registered p \<Longrightarrow> env_step p (p\<lparr>p_ctxDone := True\<rparr>)"
| kill: "running p \<Longrightarrow> \<not> p_registered p \<Longrightarrow> env_step p (p\<lparr>p_pc := Killed\<rparr>)"
| unregister: "running p \<Longrightarrow> p_ctxDone p \<Longrightarrow> env_step p (p\<lparr>p_registered := False\<rparr>)"
| serve_fails: "running p \<Longrightarrow> p_serving p \<Longrightarrow> p_shutdown p = None \<Longrightarrow> env_step p (p\<lparr>p_serving := False, p_served := Some err\<rparr>)"
| serve_closed: "running p \<Longrightarrow> p_serving p \<Longrightarrow> p_shutdown p \<noteq> None \<Longrightarrow>
    env_step p (p\<lparr>p_serving := False, p_served := Some (Foreign ''http: Server closed'')\<rparr>)"
| request: "running p \<Longrightarrow> \<not> p_closed p \<Longrightarrow> env_step p (p\<lparr>p_inflight := p_inflight p + 1\<rparr>)"
| response: "running p \<Longrightarrow> p_conns p < p_inflight p \<Longrightarrow> env_step p (p\<lparr>p_inflight := p_inflight p - 1\<rparr>)"
| acquire: "running p \<Longrightarrow> p_conns p < p_inflight p \<Longrightarrow> p_pool p = PoolOpen \<Longrightarrow> env_step p (p\<lparr>p_conns := p_conns p + 1\<rparr>)"
| release: "running p \<Longrightarrow> 0 < p_conns p \<Longrightarrow> env_step p (p\<lparr>p_conns := p_conns p - 1\<rparr>)"

definition process_step :: "(nat \<Rightarrow> bool) \<Rightarrow> process \<Rightarrow> process \<Rightarrow> bool" where
  "process_step blocks p p' \<longleftrightarrow> main_step blocks p p' \<or> env_step p p'"

inductive lifetime :: "(nat \<Rightarrow> bool) \<Rightarrow> process \<Rightarrow> process \<Rightarrow> bool" for blocks p0 where
  start: "lifetime blocks p0 p0"
| step: "lifetime blocks p0 p \<Longrightarrow> process_step blocks p p' \<Longrightarrow> lifetime blocks p0 p'"

section \<open>Nothing is abandoned before the deadline\<close>

definition drain_expired :: "process \<Rightarrow> bool" where
  "drain_expired p \<longleftrightarrow> (\<exists>t0. p_shutdown p = Some t0 \<and> t0 + shutdownTimeout \<le> p_clock p)"

definition failed :: "error option \<Rightarrow> bool" where
  "failed r \<longleftrightarrow> exit_status r = 1"

text \<open>The invariant of the main goroutine: the pool stays open until the drain is over, and a drain that ends
  with requests in flight has run out its time and is reported.\<close>

fun pc_ok :: "process \<Rightarrow> main_pc \<Rightarrow> bool" where
  "pc_ok p Selecting = (p_pool p \<in> {NoPool, PoolOpen} \<and> p_shutdown p = None)"
| "pc_ok p (Draining ev c) = (p_pool p \<in> {NoPool, PoolOpen} \<and>
     (\<exists>t0. p_shutdown p = Some t0 \<and> c = WithTimeout (t0 + shutdownTimeout) (WithoutCancel NotifyContext)))"
| "pc_ok p (Unwinding ds r) = ((r = None \<or> failed r) \<and> (p_closed p \<or> drain_expired p \<and> failed r) \<and>
     (if Cleanup \<in> set ds then p_pool p \<noteq> PoolClosed else p_pool p \<in> {NoPool, PoolClosed}) \<and>
     (ds = [] \<or> ds = [Cleanup] \<or> ds = [Stop, Cleanup]))"
| "pc_ok p (Exited n) = (n \<in> {0, 1} \<and> (p_closed p \<or> drain_expired p \<and> n = 1) \<and> p_pool p \<in> {NoPool, PoolClosed})"
| "pc_ok p Killed = True"

definition life_ok :: "process \<Rightarrow> bool" where
  "life_ok p \<longleftrightarrow> p_conns p \<le> p_inflight p \<and> (p_closed p \<longrightarrow> p_inflight p = 0) \<and>
    (p_pool p \<in> {PoolClosing, PoolClosed} \<longrightarrow> p_closed p \<or> drain_expired p) \<and> pc_ok p (p_pc p)"

lemma exit_status_wrapped [simp]: "exit_status (Some (Errorf m es)) = 1" "exit_status None = 0"
  by (simp_all add: exit_status_def)

text \<open>A configuration that \<^verbatim>\<open>loadConfig\<close> accepts is assembled: the panics of the constructors are
  out of reach.\<close>

lemma loadConfig_valid: "loadConfig clib np args = Inr config \<Longrightarrow> \<exists>lo. validateConfig np lo config = None"
  by (auto simp: loadConfig_def Let_def split: sum.splits if_splits option.splits)

lemma run_start_ok:
  assumes "validateConfig (lib_netip lib) lo config = None"
  shows "life_ok (run_start lib config listenErr w t)"
proof -
  have "\<exists>srv. assemble lib config be issuer = Inr srv" for be issuer by (meson assemble_valid [OF assms])
  moreover have "openBackend lib config w = (Inl e, w1) \<Longrightarrow> exit_status (Some e) = 1" for e w1
    by (auto simp: openBackend_def split: if_splits prod.splits sum.splits)
  ultimately show ?thesis
    by (auto simp: run_start_def life_ok_def not_serving_def openedPool_def failed_def
        split: prod.splits sum.splits option.splits; metis sum.distinct(1) sum.inject)
qed

lemma main_start_ok: "life_ok (main_start lib clib args listenErr w t)"
proof (cases "loadConfig clib (lib_netip lib) args")
  case (Inr config)
  then have "life_ok (run_start lib config listenErr w t)" using loadConfig_valid run_start_ok by blast
  moreover have "life_ok (not_serving t NoPool (Exited 0))" by (simp add: life_ok_def not_serving_def)
  ultimately show ?thesis using Inr by (simp add: main_start_def)
qed (simp add: main_start_def life_ok_def not_serving_def failed_def)

lemma drain_expired_cong: "p_shutdown p' = p_shutdown p \<Longrightarrow> p_clock p \<le> p_clock p' \<Longrightarrow> drain_expired p \<Longrightarrow> drain_expired p'"
  by (auto simp: drain_expired_def)

lemma serve_failed: "serve ev None = None \<or> failed (serve ev None)" "failed (serve ev (Some e))"
  by (auto simp: serve_def failed_def errors_Join_def List.map_filter_simps split: serve_event.splits)

lemma not_failed [simp]: "\<not> failed None" by (simp add: failed_def)

lemma exit_failed: "r = None \<or> failed r \<Longrightarrow> exit_status r \<in> {0, 1}" "failed r \<Longrightarrow> exit_status r = 1"
  by (auto simp: failed_def)

lemma main_step_ok: "main_step blocks p p' \<Longrightarrow> life_ok p \<Longrightarrow> life_ok p'"
proof (induction rule: main_step.induct)
  case (cut_short p ev c err)
  then have "drain_expired p" by (auto simp: life_ok_def drain_expired_def split: if_splits)
  with cut_short show ?case by (auto simp: life_ok_def serve_failed drain_expired_def)
qed (auto simp: life_ok_def shutdownCtx_def drain_expired_def serve_failed exit_failed)

lemma env_frame:
  assumes "env_step p p'"
  shows "p_pool p' = p_pool p" "p_closed p' = p_closed p" "p_shutdown p' = p_shutdown p" "p_clock p \<le> p_clock p'"
    "p_pc p' = p_pc p \<or> p_pc p' = Killed" "p_ctxDone p \<Longrightarrow> p_ctxDone p'" "p_served p \<noteq> None \<Longrightarrow> p_served p' \<noteq> None"
    "p_pool p \<noteq> PoolOpen \<Longrightarrow> p_conns p' \<le> p_conns p"
  using assms by (auto elim!: env_step.cases)

lemma pc_ok_frame:
  assumes "p_pool p' = p_pool p" "p_closed p' = p_closed p" "p_shutdown p' = p_shutdown p" "p_clock p \<le> p_clock p'" "pc_ok p pc"
  shows "pc_ok p' pc"
  using assms drain_expired_cong [OF assms(3,4)] by (cases pc) auto

lemma pc_ok_env: "env_step p p' \<Longrightarrow> pc_ok p (p_pc p) \<Longrightarrow> pc_ok p' (p_pc p')"
  using pc_ok_frame [OF env_frame(1-4)] env_frame(5) by fastforce

lemma env_step_ok:
  assumes "env_step p p'" "life_ok p"
  shows "life_ok p'"
proof -
  have "p_conns p' \<le> p_inflight p' \<and> (p_closed p' \<longrightarrow> p_inflight p' = 0) \<and>
    (p_pool p' \<in> {PoolClosing, PoolClosed} \<longrightarrow> p_closed p' \<or> drain_expired p')"
    using assms by (induction rule: env_step.induct) (auto simp: life_ok_def drain_expired_def)
  then show ?thesis using pc_ok_env [OF assms(1)] assms(2) by (simp add: life_ok_def)
qed

lemma lifetime_ok: "lifetime blocks p0 p \<Longrightarrow> life_ok p0 \<Longrightarrow> life_ok p"
  by (induction rule: lifetime.induct) (auto simp: process_step_def main_step_ok env_step_ok)

text \<open>
  C12. The drain comes before the close. In every state the process can reach, from any arguments, configuration
  and outcome of the listener: while a request is in flight the pool is not closed under it unless the drain has
  had its 30 seconds; the process never exits with the pool open or by a panic; and status 0 means that no
  request was abandoned.
\<close>

theorem drain_before_close:
  assumes "lifetime blocks (main_start lib clib args listenErr w t) p"
  shows "(p_pool p \<in> {PoolClosing, PoolClosed} \<and> p_inflight p \<noteq> 0 \<longrightarrow>
      (\<exists>t0. p_shutdown p = Some t0 \<and> t0 + shutdownTimeout \<le> p_clock p)) \<and>
    (\<forall>n. p_pc p = Exited n \<longrightarrow> (n = 0 \<or> n = 1) \<and> p_pool p \<in> {NoPool, PoolClosed} \<and> (n = 0 \<longrightarrow> p_inflight p = 0))"
  using lifetime_ok [OF assms main_start_ok] by (auto simp: life_ok_def drain_expired_def)

section \<open>A signal ends the process\<close>

text \<open>Weak fairness: a component that can move from some point on does move.\<close>

definition fair_to :: "('s \<Rightarrow> 's \<Rightarrow> bool) \<Rightarrow> (nat \<Rightarrow> 's) \<Rightarrow> bool" where
  "fair_to move run \<longleftrightarrow> (\<forall>i. (\<forall>j\<ge>i. \<exists>s. move (run j) s) \<longrightarrow> (\<exists>j\<ge>i. move (run j) (run (Suc j))))"

text \<open>A machine with one tracked component whose steps strictly decrease a rank that nothing else increases.
  In an infinite run it stops moving; if it is scheduled fairly, it cannot stay enabled from then on.\<close>

locale ranked_machine =
  fixes main env :: "'s \<Rightarrow> 's \<Rightarrow> bool" and rank :: "'s \<Rightarrow> nat"
  assumes main_rank: "main s s' \<Longrightarrow> rank s' < rank s"
    and env_rank: "env s s' \<Longrightarrow> rank s' \<le> rank s"
begin

lemma settles:
  assumes "\<forall>i. main (run i) (run (Suc i)) \<or> env (run i) (run (Suc i))"
  shows "\<exists>n. \<forall>j\<ge>n. rank (run j) = rank (run n) \<and> \<not> main (run j) (run (Suc j))"
proof -
  have dec: "rank (run (Suc i)) \<le> rank (run i)" for i using assms main_rank env_rank by (meson less_imp_le)
  then have mono: "i \<le> j \<Longrightarrow> rank (run j) \<le> rank (run i)" for i j by (rule lift_Suc_antimono_le [of "\<lambda>i. rank (run i)"])
  obtain n where n: "\<And>j. rank (run n) \<le> rank (run j)"
    using ex_has_least_nat [of "\<lambda>_. True" 0 "rank \<circ> run"] by auto
  have same: "rank (run j) = rank (run n)" if "n \<le> j" for j using n mono [OF that] by (simp add: le_antisym)
  moreover have "\<not> main (run j) (run (Suc j))" if "n \<le> j" for j
    using same [OF that] same [of "Suc j"] that main_rank by fastforce
  ultimately show ?thesis by blast
qed

lemma fair_blocked:
  assumes "fair_to main run" "\<forall>j\<ge>n. \<not> main (run j) (run (Suc j))" "n \<le> i"
  shows "\<exists>j\<ge>i. \<forall>s. \<not> main (run j) s"
  using assms unfolding fair_to_def by (meson order_trans)

end

fun pc_rank :: "pool \<Rightarrow> main_pc \<Rightarrow> nat" where
  "pc_rank pl Selecting = 8"
| "pc_rank pl (Draining ev c) = 7"
| "pc_rank pl (Unwinding ds r) = Suc (2 * length ds + (if pl = PoolOpen then 1 else 0))"
| "pc_rank pl (Exited n) = 0"
| "pc_rank pl Killed = 0"

definition process_rank :: "process \<Rightarrow> nat" where
  "process_rank p = pc_rank (p_pool p) (p_pc p)"

interpretation life: ranked_machine "main_step blocks" env_step process_rank for blocks
proof
  show "main_step blocks s s' \<Longrightarrow> process_rank s' < process_rank s" for s s'
    by (auto simp: process_rank_def elim!: main_step.cases)
  show "env_step s s' \<Longrightarrow> process_rank s' \<le> process_rank s" for s s'
    using env_frame(1,5) [of s s'] by (auto simp: process_rank_def)
qed

text \<open>An endless execution; its clock passes every bound; a connection of the pool is not held for ever.\<close>

definition execution :: "(nat \<Rightarrow> bool) \<Rightarrow> process \<Rightarrow> (nat \<Rightarrow> process) \<Rightarrow> bool" where
  "execution blocks p0 run \<longleftrightarrow> run 0 = p0 \<and> (\<forall>i. process_step blocks (run i) (run (Suc i)))"

definition time_passes :: "(nat \<Rightarrow> process) \<Rightarrow> bool" where
  "time_passes run \<longleftrightarrow> (\<forall>t. \<exists>i. t \<le> p_clock (run i))"

definition connections_return :: "(nat \<Rightarrow> process) \<Rightarrow> bool" where
  "connections_return run \<longleftrightarrow> (\<forall>i. running (run i) \<and> 0 < p_conns (run i) \<longrightarrow>
     (\<exists>j\<ge>i. gone (p_pc (run j)) \<or> p_conns (run (Suc j)) < p_conns (run j)))"

text \<open>A shutdown is under way, or its cause is waiting to be seen.\<close>

definition ending :: "process \<Rightarrow> bool" where
  "ending p \<longleftrightarrow> p_pc p \<noteq> Selecting \<or> p_ctxDone p \<or> p_served p \<noteq> None"

lemma ending_step: "process_step blocks p p' \<Longrightarrow> ending p \<Longrightarrow> ending p'"
  unfolding process_step_def
proof (elim disjE)
  show "main_step blocks p p' \<Longrightarrow> ending p'" by (auto simp: ending_def elim!: main_step.cases)
  show "env_step p p' \<Longrightarrow> ending p \<Longrightarrow> ending p'" using env_frame(5,6,7) [of p p'] by (auto simp: ending_def)
qed

lemma clock_step: "process_step blocks p p' \<Longrightarrow> p_clock p \<le> p_clock p'"
  unfolding process_step_def by (auto simp: env_frame elim!: main_step.cases)

lemma execution_lifetime: "execution blocks p0 run \<Longrightarrow> lifetime blocks p0 (run i)"
  by (induction i) (auto simp: execution_def intro: lifetime.intros)

lemma execution_ending: "i \<le> j \<Longrightarrow> execution blocks p0 run \<Longrightarrow> ending (run i) \<Longrightarrow> ending (run j)"
  by (induction j rule: dec_induct) (auto simp: execution_def intro: ending_step)

lemma execution_clock: "execution blocks p0 run \<Longrightarrow> i \<le> j \<Longrightarrow> p_clock (run i) \<le> p_clock (run j)"
  by (rule lift_Suc_mono_le [of "\<lambda>i. p_clock (run i)"]) (auto simp: execution_def intro: clock_step)

text \<open>Where the main goroutine can be waiting.\<close>

lemma main_blocked:
  assumes "\<forall>s. \<not> main_step blocks p s" "life_ok p" "running p"
  shows "p_pc p = Selecting \<and> \<not> ending p \<or>
    (\<exists>ev c t0. p_pc p = Draining ev c \<and> p_shutdown p = Some t0 \<and> p_clock p < t0 + shutdownTimeout) \<or>
    p_pool p = PoolClosing \<and> blocks (p_conns p)"
proof (cases "p_pc p")
  case Selecting
  then show ?thesis using assms(1) select_served [OF Selecting] select_signal [OF Selecting]
    by (cases "p_served p") (auto simp: ending_def)
next
  case (Draining ev c)
  then show ?thesis using assms cut_short [OF Draining] by (fastforce simp: life_ok_def not_le [symmetric])
next
  case (Unwinding ds r)
  then show ?thesis
    using assms stop [of p] cleanup_none [of p] cleanup_begin [of p] cleanup_end [of p _ _ blocks] exit [of p]
    by (cases ds; cases "p_pool p") (auto simp: life_ok_def)
qed (use assms(3) in simp_all)

text \<open>Once the main goroutine has stopped moving for good, everything it waits for is settled.\<close>

lemma settled_frame:
  assumes "execution blocks p0 run" "\<forall>j\<ge>n. \<not> main_step blocks (run j) (run (Suc j))" "\<forall>j. running (run j)" "n \<le> j"
  shows "p_pc (run j) = p_pc (run n) \<and> p_pool (run j) = p_pool (run n) \<and> p_shutdown (run j) = p_shutdown (run n)"
  using assms(4)
proof (induction j rule: dec_induct)
  case (step j)
  then have "env_step (run j) (run (Suc j))" using assms(1,2) by (auto simp: execution_def process_step_def)
  then show ?case using step.IH env_frame(1,3,5) [of "run j" "run (Suc j)"] assms(3) by (metis gone.simps(2))
qed simp

lemma conns_vanish:
  assumes "execution blocks p0 run" "\<forall>j\<ge>n. \<not> main_step blocks (run j) (run (Suc j))" "\<forall>j. running (run j)"
    "p_pool (run n) = PoolClosing" "connections_return run"
  shows "\<exists>m\<ge>n. \<forall>j\<ge>m. p_conns (run j) = 0"
proof -
  have env: "env_step (run j) (run (Suc j))" if "n \<le> j" for j
    using assms(1,2) that by (auto simp: execution_def process_step_def)
  have dec: "p_conns (run (Suc j)) \<le> p_conns (run j)" if "n \<le> j" for j
    using env_frame(8) [OF env [OF that]] settled_frame [OF assms(1-3) that] assms(4) by simp
  have mono: "i \<le> j \<Longrightarrow> n \<le> i \<Longrightarrow> p_conns (run j) \<le> p_conns (run i)" for i j
    by (induction j rule: dec_induct) (auto intro: order_trans dec)
  obtain m where m: "n \<le> m" "\<And>j. n \<le> j \<Longrightarrow> p_conns (run m) \<le> p_conns (run j)"
    using ex_has_least_nat [of "\<lambda>j. n \<le> j" n "\<lambda>j. p_conns (run j)"] by auto
  have "p_conns (run m) = 0"
  proof (rule ccontr)
    assume "p_conns (run m) \<noteq> 0"
    then obtain j where "m \<le> j" "p_conns (run (Suc j)) < p_conns (run j)"
      using assms(3,5) unfolding connections_return_def by blast
    then show False using m(1) m(2) [of "Suc j"] mono [of m j] by fastforce
  qed
  then show ?thesis using m(1) mono [of m] by (metis le_zero_eq)
qed

text \<open>
  C13. A signal ends the process. In every endless execution of the process, from any arguments and
  configuration, in which a signal has been delivered or \<^verbatim>\<open>Serve\<close> has failed, the process exits:
  provided the clock advances, the main goroutine is scheduled, handlers give their database connections
  back, and the pool's close does not block once none is in use. No handler has to finish for the drain to end.
\<close>

theorem signal_ends_process:
  assumes "execution blocks (main_start lib clib args listenErr w t) run"
    and "fair_to (main_step blocks) run" "time_passes run" "connections_return run" "\<not> blocks 0"
    and "p_ctxDone (run i) \<or> p_served (run i) \<noteq> None"
  shows "\<exists>j. gone (p_pc (run j))"
proof (rule ccontr)
  assume "\<not> (\<exists>j. gone (p_pc (run j)))"
  then have alive: "\<forall>j. running (run j)" by blast
  have ok: "life_ok (run j)" for j using lifetime_ok [OF execution_lifetime [OF assms(1)] main_start_ok] .
  obtain n where quiet: "\<forall>j\<ge>n. \<not> main_step blocks (run j) (run (Suc j))"
    using life.settles [of blocks run] assms(1) by (auto simp: execution_def process_step_def)
  note frame = settled_frame [OF assms(1) quiet alive]
  have blocked: "\<exists>j\<ge>k. \<forall>s. \<not> main_step blocks (run j) s" if "n \<le> k" for k
    using life.fair_blocked [OF assms(2) quiet that] .
  have late: "ending (run j)" if "i \<le> j" for j
    using execution_ending [OF that assms(1)] assms(6) by (auto simp: ending_def)
  obtain k where "n \<le> k" and k: "\<And>j. k \<le> j \<Longrightarrow> \<not> (p_pool (run n) = PoolClosing \<and> blocks (p_conns (run j)))"
    using conns_vanish [OF assms(1) quiet alive _ assms(4)] assms(5) by (metis order_refl)
  obtain b where b: "the (p_shutdown (run n)) + shutdownTimeout \<le> p_clock (run b)"
    using assms(3) unfolding time_passes_def by blast
  have "n \<le> max k (max i b)" using \<open>n \<le> k\<close> by simp
  from blocked [OF this] obtain j where j: "max k (max i b) \<le> j" "\<forall>s. \<not> main_step blocks (run j) s" by blast
  have "p_clock (run b) \<le> p_clock (run j)" using execution_clock [OF assms(1)] j(1) by simp
  then show False
    using main_blocked [OF j(2) ok] alive late [of j] k [of j] b frame [of j] j(1) \<open>n \<le> k\<close> by fastforce
qed

section \<open>Example executions\<close>

definition demo_clib :: config_lib where
  "demo_clib = \<lparr>pflag_Parse = (\<lambda>args. Inr []), file_ReadBytes = (\<lambda>p. Inl (Foreign ''enoent'')),
     yaml_Unmarshal = (\<lambda>b. Inr []), k_Load = (\<lambda>k m. Inr (k @ m)),
     k_Unmarshal = (\<lambda>k. Inr (demo_config\<lparr>Cfg_DB_URL := ''db'', Cfg_Server_TrustedProxies := [],
       Cfg_OAuth_Google := Cfg_OAuth_GitHub demo_config, Cfg_Wallet_Domain := [], Cfg_Wallet_URI := [], Cfg_Wallet_EVMChains := [''e=1'']\<rparr>)),
     environ = [], duration_String = (\<lambda>d. []), unicode_Lower = (\<lambda>r. r)\<rparr>"

definition demo_db_lib :: "Store server_lib" where
  "demo_db_lib = demo_server_lib\<lparr>postgres_NewWithDSN := (\<lambda>u p w. (Inr memBackend, w))\<rparr>"

definition demo_process :: process where
  "demo_process = main_start demo_db_lib demo_clib [] None (demo_world Memory_New) 0"

lemma demo_process: "demo_process =
  \<lparr>p_pc = Selecting, p_pool = PoolOpen, p_ctxDone = False, p_registered = True, p_serving = True,
   p_served = None, p_shutdown = None, p_closed = False, p_inflight = 0, p_conns = 0, p_clock = 0\<rparr>"
proof -
  let ?c = "demo_config\<lparr>Cfg_DB_URL := ''db'', Cfg_Server_TrustedProxies := [],
       Cfg_OAuth_Google := Cfg_OAuth_GitHub demo_config, Cfg_Wallet_Domain := [], Cfg_Wallet_URI := [], Cfg_Wallet_EVMChains := [''e=1'']\<rparr>"
  have "strings_TrimSpace ''e=1'' = ''e=1''" "strings_TrimSpace ''e'' = ''e''" "strings_TrimSpace ''1'' = ''1''"
    by (simp_all add: TrimSpace_ascii ascii_def sp_def unicode_IsSpace_def)
  note trim = this
  have "strings_Cut (CHR ''='') ''e=1'' = (''e'', ''1'', True)" "strconv_Atoi ''1'' = Some 1"
    by (simp_all add: strings_Cut_def strconv_Atoi_def decimal_value_def)
  then have "validateWallet ?c = None" by (simp add: validateWallet_def parseEVMChains_def trim)
  then have v: "validateConfig (lib_netip demo_db_lib) (conf_ToLower demo_clib) ?c = None"
    unfolding validateConfig_def
    by (simp add: demo_clib_def demo_config_def first_error_None validateDevFallbacks_def parseLogLevel_def demo_lower
        validateOAuthClient_def Let_def)
  have "splitLists ?c = ?c" by (simp add: splitLists_def splitList_def demo_config_def Split_no_sep trim)
  then have l: "loadConfig demo_clib (lib_netip demo_db_lib) [] = Inr ?c"
    using v by (simp add: loadConfig_def demo_clib_def Let_def)
  have o: "openBackend demo_db_lib ?c w = (Inr memBackend, w)" for w by (simp add: openBackend_def demo_db_lib_def)
  obtain i w1 where i: "createTokenIssuer demo_db_lib ?c (demo_world Memory_New) = (Inr i, w1)"
    by (simp add: createTokenIssuer_def demo_config_def demo_db_lib_def demo_server_lib_def NewWithAlgorithm_def draw_key_def
        NewWithRSAKey_def newIssuer_def demo_jose_def demo_world_def)
  obtain srv where "assemble demo_db_lib ?c memBackend i = Inr srv" by (rule assemble_valid [OF v])
  then show ?thesis by (simp add: demo_process_def main_start_def l run_start_def o i not_serving_def openedPool_def)
qed

text \<open>A request outlives the drain: the pool is closed after 30 seconds, with the request in flight.\<close>

lemma demo_abandoned:
  "\<exists>p. lifetime (\<lambda>n. 0 < n) demo_process p \<and> p_pool p = PoolClosed \<and> p_inflight p = 1"
proof -
  let ?b = "\<lambda>n::nat. 0 < n"
  let ?p1 = "demo_process\<lparr>p_inflight := 1\<rparr>"
  let ?p2 = "?p1\<lparr>p_ctxDone := True\<rparr>"
  let ?p3 = "?p2\<lparr>p_shutdown := Some 0, p_pc := Draining CtxDone (shutdownCtx ?p2)\<rparr>"
  let ?p4 = "?p3\<lparr>p_clock := shutdownTimeout\<rparr>"
  let ?p5 = "?p4\<lparr>p_pc := Unwinding [Stop, Cleanup] (serve CtxDone (Some (Foreign ''context deadline exceeded'')))\<rparr>"
  let ?p6 = "?p5\<lparr>p_registered := False, p_pc := Unwinding [Cleanup] (serve CtxDone (Some (Foreign ''context deadline exceeded'')))\<rparr>"
  let ?p7 = "?p6\<lparr>p_pool := PoolClosing\<rparr>"
  let ?p8 = "?p7\<lparr>p_pool := PoolClosed, p_pc := Unwinding [] (serve CtxDone (Some (Foreign ''context deadline exceeded'')))\<rparr>"
  have "env_step demo_process ?p1" using request [of demo_process] by (simp add: demo_process)
  moreover have "env_step ?p1 ?p2" using signal [of ?p1] by (simp add: demo_process)
  moreover have "main_step ?b ?p2 ?p3" using select_signal [of ?p2 ?b] by (simp add: demo_process)
  moreover have "env_step ?p3 ?p4" using pause [of shutdownTimeout ?p3] by (simp add: demo_process shutdownTimeout_def)
  moreover have "main_step ?b ?p4 ?p5"
    using cut_short [of ?p4 CtxDone "shutdownCtx ?p2"] by (simp add: demo_process shutdownCtx_def)
  moreover have "main_step ?b ?p5 ?p6" using stop [of ?p5] by (simp add: demo_process)
  moreover have "main_step ?b ?p6 ?p7" using cleanup_begin [of ?p6] by (simp add: demo_process)
  moreover have "main_step ?b ?p7 ?p8" using cleanup_end [of ?p7 _ _ ?b] by (simp add: demo_process)
  ultimately have "lifetime ?b demo_process ?p8" by (meson lifetime.intros process_step_def)
  then show ?thesis by (intro exI [of _ ?p8]) (simp add: demo_process)
qed

theorem drain_before_close_witness:
  "\<exists>p. lifetime (\<lambda>n. 0 < n) demo_process p \<and> p_pool p = PoolClosed \<and> p_inflight p = 1 \<and>
    (\<exists>t0. p_shutdown p = Some t0 \<and> t0 + shutdownTimeout \<le> p_clock p)"
  using demo_abandoned drain_before_close unfolding demo_process_def by fastforce

text \<open>A signal, a drain with nothing in flight, and an exit; then only time passes.\<close>

definition demo_states :: "process list" where
  "demo_states =
    (let p0 = demo_process; p1 = p0\<lparr>p_ctxDone := True\<rparr>;
         p2 = p1\<lparr>p_shutdown := Some 0, p_pc := Draining CtxDone (shutdownCtx p1)\<rparr>;
         p3 = p2\<lparr>p_closed := True, p_pc := Unwinding [Stop, Cleanup] None\<rparr>;
         p4 = p3\<lparr>p_registered := False, p_pc := Unwinding [Cleanup] None\<rparr>; p5 = p4\<lparr>p_pool := PoolClosing\<rparr>;
         p6 = p5\<lparr>p_pool := PoolClosed, p_pc := Unwinding [] None\<rparr>; p7 = p6\<lparr>p_pc := Exited 0\<rparr>
     in [p0, p1, p2, p3, p4, p5, p6, p7])"

definition demo_run :: "nat \<Rightarrow> process" where
  "demo_run i = (if i < 7 then demo_states ! i else (demo_states ! 7)\<lparr>p_clock := int i - 7\<rparr>)"

lemma demo_exited: "7 \<le> i \<Longrightarrow> p_pc (demo_run i) = Exited 0 \<and> p_clock (demo_run i) = int i - 7"
  by (simp add: demo_run_def demo_states_def Let_def)

lemma demo_execution: "execution (\<lambda>n. 0 < n) demo_process demo_run"
proof -
  let ?b = "\<lambda>n::nat. 0 < n"
  let ?s = "\<lambda>i. demo_states ! i"
  have "env_step (?s 0) (?s 1)" using signal [of demo_process] by (simp add: demo_states_def Let_def demo_process)
  moreover have "main_step ?b (?s 1) (?s 2)" using select_signal [of "?s 1" ?b] by (simp add: demo_states_def Let_def demo_process)
  moreover have "main_step ?b (?s 2) (?s 3)"
    using drained [of "?s 2" CtxDone _ ?b] by (simp add: demo_states_def Let_def demo_process serve_def)
  moreover have "main_step ?b (?s 3) (?s 4)" using stop [of "?s 3"] by (simp add: demo_states_def Let_def demo_process)
  moreover have "main_step ?b (?s 4) (?s 5)" using cleanup_begin [of "?s 4"] by (simp add: demo_states_def Let_def demo_process)
  moreover have "main_step ?b (?s 5) (?s 6)" using cleanup_end [of "?s 5" _ _ ?b] by (simp add: demo_states_def Let_def demo_process)
  moreover have "main_step ?b (?s 6) (?s 7)" using exit [of "?s 6" None ?b] by (simp add: demo_states_def Let_def demo_process)
  ultimately have start: "process_step ?b (?s i) (?s (Suc i))" if "i < 7" for i
    using that by (auto simp: process_step_def less_Suc_eq numeral_eq_Suc)
  have step: "process_step ?b (demo_run i) (demo_run (Suc i))" for i
  proof (cases "i < 7")
    case True
    have "(?s 7)\<lparr>p_clock := 0\<rparr> = ?s 7" by (simp add: demo_states_def Let_def demo_process)
    then show ?thesis using start [OF True] True by (cases "i = 6") (auto simp: demo_run_def)
  next
    case False
    then show ?thesis using pause [of 1 "demo_run i"] by (simp add: process_step_def demo_run_def)
  qed
  have "demo_run 0 = demo_process" by (simp add: demo_run_def demo_states_def Let_def)
  with step show ?thesis by (simp add: execution_def)
qed

theorem signal_ends_process_witness:
  "p_ctxDone (demo_run 1) \<and> execution (\<lambda>n. 0 < n) demo_process demo_run \<and> (\<exists>j. gone (p_pc (demo_run j)))"
proof -
  have "p_ctxDone (demo_run 1)" by (simp add: demo_run_def demo_states_def Let_def)
  moreover have "fair_to (main_step (\<lambda>n. 0 < n)) demo_run"
    unfolding fair_to_def
  proof (intro allI impI)
    fix i assume "\<forall>j\<ge>i. \<exists>s. main_step (\<lambda>n. 0 < n) (demo_run j) s"
    then obtain s where "main_step (\<lambda>n. 0 < n) (demo_run (max i 7)) s" by force
    then show "\<exists>j\<ge>i. main_step (\<lambda>n. 0 < n) (demo_run j) (demo_run (Suc j))"
      using demo_exited [of "max i 7"] by (auto elim!: main_step.cases)
  qed
  moreover have "time_passes demo_run"
    unfolding time_passes_def
  proof
    show "\<exists>i. t \<le> p_clock (demo_run i)" for t using demo_exited [of "nat t + 7"] by (intro exI [of _ "nat t + 7"]) simp
  qed
  moreover have "connections_return demo_run"
  proof -
    have "p_conns (demo_states ! i) = 0" if "i < 8" for i
      using that by (auto simp: demo_states_def Let_def demo_process less_Suc_eq numeral_eq_Suc)
    then have "p_conns (demo_run i) = 0" for i by (simp add: demo_run_def)
    then show ?thesis by (simp add: connections_return_def)
  qed
  ultimately show ?thesis
    using signal_ends_process [OF demo_execution [unfolded demo_process_def], of 1] demo_execution by simp
qed

end
