(* ===== verification/Postgres.thy ===== *)
theory Postgres
  imports Memory_Store
begin

text \<open>
  \<^verbatim>\<open>store/postgres/postgres.go\<close> over the schema of \<^verbatim>\<open>migrations/\<close>. The database is
  the record \<open>PG\<close> of its tables, each a list of rows in insertion order; a statement of the source is
  a function on it with the constraints of the schema: primary keys, unique indexes, foreign keys with
  \<^verbatim>\<open>ON DELETE CASCADE\<close>. What is not in the repository is the record \<open>pg_driver\<close>: which
  statements fail (for want of a connection, say) and with what SQLSTATE, the server's clock, and which
  texts the server takes as values of a \<^verbatim>\<open>uuid\<close>, \<^verbatim>\<open>varchar(n)\<close> or \<^verbatim>\<open>text\<close>
  column and how it stores them. A \<^verbatim>\<open>timestamptz\<close> keeps whole microseconds.

  A failed statement changes nothing and a transaction that fails, or fails to commit, is undone. A method
  is one step: the row locks its transactions take make it atomic towards the methods it conflicts with
  (\<open>Postgres_Locks\<close> checks that claim for the one pair of methods where it is not immediate). Reads
  that only return rows do not advance the statement count.
\<close>

section \<open>The database\<close>

record UserRow =
  ur_id :: string
  ur_email :: "string option"
  ur_roles :: "string list"
  ur_created_at :: time
  ur_updated_at :: time

record CredentialRow =
  cr_user_id :: string
  cr_password_hash :: string
  cr_created_at :: time
  cr_updated_at :: time

record PG =
  pg_users :: "UserRow list"
  pg_credentials :: "CredentialRow list"
  pg_refresh :: "RefreshToken list"
  pg_pats :: "PersonalAccessToken list"
  pg_oauth :: "OAuthIdentity list"
  pg_wallet :: "WalletIdentity list"
  pg_challenges :: "Challenge list"
  pg_stmt :: nat

definition PG_empty :: PG where
  "PG_empty = \<lparr>pg_users = [], pg_credentials = [], pg_refresh = [], pg_pats = [], pg_oauth = [], pg_wallet = [],
     pg_challenges = [], pg_stmt = 0\<rparr>"

text \<open>\<open>pg_rows_fail\<close> is a failure while the rows of a result are read.\<close>

record pg_driver =
  pg_fail :: "nat \<Rightarrow> string option"
  pg_rows_fail :: "nat \<Rightarrow> string option"
  pg_clock :: "nat \<Rightarrow> time"
  pg_uuid :: "string \<Rightarrow> string option"
  pg_text :: "nat option \<Rightarrow> string \<Rightarrow> string option"

definition pqUniqueViolation :: string where "pqUniqueViolation = ''23505''"
definition pqForeignKeyViolation :: string where "pqForeignKeyViolation = ''23503''"

text \<open>The code of a value the server does not take.\<close>

definition pqInvalidText :: string where "pqInvalidText = ''22P02''"

definition pg_time :: "time \<Rightarrow> time" where "pg_time t = t div 1000 * 1000"

section \<open>Statements and transactions\<close>

definition pg_tick :: "PG \<Rightarrow> PG" where "pg_tick s = s\<lparr>pg_stmt := Suc (pg_stmt s)\<rparr>"

text \<open>\<open>args\<close> are the parameters as stored, \<open>None\<close> when the server rejects one.\<close>

definition pg_exec :: "pg_driver \<Rightarrow> 'p option \<Rightarrow> ('p \<Rightarrow> PG \<Rightarrow> string + 'a \<times> PG) \<Rightarrow> PG \<Rightarrow> (string + 'a) \<times> PG" where
  "pg_exec d args body s =
    (case pg_fail d (pg_stmt s) of
       Some code \<Rightarrow> (Inl code, pg_tick s)
     | None \<Rightarrow>
         (case args of
            None \<Rightarrow> (Inl pqInvalidText, pg_tick s)
          | Some a \<Rightarrow>
              (case body a s of
                 Inl code \<Rightarrow> (Inl code, pg_tick s)
               | Inr (r, s1) \<Rightarrow> (Inr r, pg_tick s1))))"

definition pg_query :: "pg_driver \<Rightarrow> 'p option \<Rightarrow> ('p \<Rightarrow> PG \<Rightarrow> 'a) \<Rightarrow> PG \<Rightarrow> string + 'a" where
  "pg_query d args f s =
    (case pg_fail d (pg_stmt s) of
       Some code \<Rightarrow> Inl code
     | None \<Rightarrow> (case args of None \<Rightarrow> Inl pqInvalidText | Some a \<Rightarrow> Inr (f a s)))"

definition pg_rollback :: "PG \<Rightarrow> PG \<Rightarrow> PG" where
  "pg_rollback s0 s1 = s0\<lparr>pg_stmt := pg_stmt s1\<rparr>"

text \<open>\<^verbatim>\<open>Begin\<close>, the body, \<^verbatim>\<open>Commit\<close>; \<open>wb\<close> and \<open>wc\<close> wrap the errors of the
  first and the last. \<^verbatim>\<open>pgx.BeginFunc\<close> wraps neither.\<close>

definition pg_tx :: "(error \<Rightarrow> error) \<Rightarrow> (error \<Rightarrow> error) \<Rightarrow> pg_driver \<Rightarrow> (PG \<Rightarrow> (error + 'a) \<times> PG) \<Rightarrow> PG \<Rightarrow>
    (error + 'a) \<times> PG" where
  "pg_tx wb wc d body s =
    (case pg_fail d (pg_stmt s) of
       Some code \<Rightarrow> (Inl (wb (Foreign code)), pg_tick s)
     | None \<Rightarrow>
         (case body (pg_tick s) of
            (Inl err, s1) \<Rightarrow> (Inl err, pg_rollback s s1)
          | (Inr r, s1) \<Rightarrow>
              (case pg_fail d (pg_stmt s1) of
                 Some code \<Rightarrow> (Inl (wc (Foreign code)), pg_rollback s (pg_tick s1))
               | None \<Rightarrow> (Inr r, pg_tick s1))))"

abbreviation pgx_BeginFunc :: "pg_driver \<Rightarrow> (PG \<Rightarrow> (error + 'a) \<times> PG) \<Rightarrow> PG \<Rightarrow> (error + 'a) \<times> PG" where
  "pgx_BeginFunc \<equiv> pg_tx (\<lambda>e. e) (\<lambda>e. e)"

definition has_user_row :: "PG \<Rightarrow> string \<Rightarrow> bool" where
  "has_user_row s uid \<longleftrightarrow> uid \<in> set (map ur_id (pg_users s))"

definition isDuplicateKeyError :: "string \<Rightarrow> bool" where
  "isDuplicateKeyError code \<longleftrightarrow> code = pqUniqueViolation"

definition insertError :: "string \<Rightarrow> string \<Rightarrow> error" where
  "insertError what code =
    (if code = pqForeignKeyViolation then Errorf ''%w: %s'' [Sentinel Store_ErrUserNotFound]
     else Errorf (what @ '': %w'') [Foreign code])"

section \<open>Connecting\<close>

text \<open>The table names of a store.\<close>

record PgStore =
  pgs_tablePrefix :: string
  tableUsers :: string
  tableLocalCredentials :: string
  tableRefreshTokens :: string
  tablePATs :: string
  tableOAuthIdentities :: string
  tableWalletIdentities :: string
  tableChallenges :: string

definition WithTablePrefix :: "string \<Rightarrow> PgStore \<Rightarrow> PgStore" where
  "WithTablePrefix pre = (\<lambda>s. s\<lparr>pgs_tablePrefix := pre\<rparr>)"

definition initTableNames :: "PgStore \<Rightarrow> PgStore" where
  "initTableNames s = s\<lparr>
     tableUsers := pgs_tablePrefix s @ ''users'',
     tableLocalCredentials := pgs_tablePrefix s @ ''local_credentials'',
     tableRefreshTokens := pgs_tablePrefix s @ ''refresh_tokens'',
     tablePATs := pgs_tablePrefix s @ ''personal_access_tokens'',
     tableOAuthIdentities := pgs_tablePrefix s @ ''oauth_identities'',
     tableWalletIdentities := pgs_tablePrefix s @ ''wallet_identities'',
     tableChallenges := pgs_tablePrefix s @ ''auth_challenges''\<rparr>"

definition Postgres_New :: "(PgStore \<Rightarrow> PgStore) list \<Rightarrow> PgStore" where
  "Postgres_New opts =
    initTableNames (fold (\<lambda>opt s. opt s) opts
      \<lparr>pgs_tablePrefix = '''', tableUsers = '''', tableLocalCredentials = '''', tableRefreshTokens = '''', tablePATs = '''',
       tableOAuthIdentities = '''', tableWalletIdentities = '''', tableChallenges = ''''\<rparr>)"

definition DefaultQueryTimeout :: string where "DefaultQueryTimeout = ''5000''"

text \<open>The pool library: a parsed DSN is its runtime parameters; a pool is opaque.\<close>

record pgxpool_lib =
  pgxpool_ParseConfig :: "string \<Rightarrow> error + (string, string) gomap"
  pgxpool_NewWithConfig :: "(string, string) gomap \<Rightarrow> error + string"
  pool_Ping :: "string \<Rightarrow> error option"

definition Postgres_NewWithDSN :: "pgxpool_lib \<Rightarrow> string \<Rightarrow> (PgStore \<Rightarrow> PgStore) list \<Rightarrow> error + PgStore" where
  "Postgres_NewWithDSN lib dsn opts =
    (case pgxpool_ParseConfig lib dsn of
       Inl err \<Rightarrow> Inl (Errorf ''parse dsn: %w'' [err])
     | Inr params \<Rightarrow>
         let params = (if map_of params ''statement_timeout'' = None
                       then map_set ''statement_timeout'' DefaultQueryTimeout params else params)
         in case pgxpool_NewWithConfig lib params of
              Inl err \<Rightarrow> Inl (Errorf ''create pool: %w'' [err])
            | Inr pool \<Rightarrow>
                (case pool_Ping lib pool of
                   Some err \<Rightarrow> Inl (Errorf ''ping: %w'' [err])
                 | None \<Rightarrow> Inr (Postgres_New opts)))"

section \<open>UserStore\<close>

definition pg_texts :: "pg_driver \<Rightarrow> string list \<Rightarrow> string list option" where
  "pg_texts d xs = those (map (pg_text d None) xs)"

definition userRow :: "pg_driver \<Rightarrow> User \<Rightarrow> UserRow option" where
  "userRow d user =
    (case (pg_uuid d (User_ID user),
           if User_Email user = '''' then Some None else map_option Some (pg_text d (Some 255) (User_Email user)),
           pg_texts d (User_Roles user)) of
       (Some i, Some email, Some roles) \<Rightarrow>
         Some \<lparr>ur_id = i, ur_email = email, ur_roles = roles, ur_created_at = pg_time (User_CreatedAt user),
               ur_updated_at = pg_time (User_UpdatedAt user)\<rparr>
     | _ \<Rightarrow> None)"

definition scanUser :: "UserRow \<Rightarrow> User" where
  "scanUser r = \<lparr>User_ID = ur_id r, User_Email = (case ur_email r of None \<Rightarrow> '''' | Some e \<Rightarrow> e), User_Roles = ur_roles r,
     User_CreatedAt = ur_created_at r, User_UpdatedAt = ur_updated_at r\<rparr>"

definition sql_insert_user :: "UserRow \<Rightarrow> PG \<Rightarrow> string + unit \<times> PG" where
  "sql_insert_user r s =
    (if ur_id r \<in> set (map ur_id (pg_users s)) \<or> ur_email r \<noteq> None \<and> ur_email r \<in> set (map ur_email (pg_users s))
     then Inl pqUniqueViolation else Inr ((), s\<lparr>pg_users := pg_users s @ [r]\<rparr>))"

definition Postgres_Create :: "pg_driver \<Rightarrow> User \<Rightarrow> time \<Rightarrow> PG \<Rightarrow> (error + User) \<times> PG" where
  "Postgres_Create d user now s =
    (let user1 = (if time_IsZero (User_CreatedAt user) then user\<lparr>User_CreatedAt := now\<rparr> else user);
         user2 = (if time_IsZero (User_UpdatedAt user1) then user1\<lparr>User_UpdatedAt := now\<rparr> else user1)
     in case pg_exec d (userRow d user2) sql_insert_user s of
          (Inl code, s1) \<Rightarrow>
            (Inl (if isDuplicateKeyError code then Errorf ''%w: %s'' [Sentinel Store_ErrUserExists]
                  else Errorf ''insert user: %w'' [Foreign code]), s1)
        | (Inr _, s1) \<Rightarrow> (Inr user2, s1))"

definition Postgres_GetByID :: "pg_driver \<Rightarrow> string \<Rightarrow> PG \<Rightarrow> error + User" where
  "Postgres_GetByID d uid s =
    (case pg_query d (pg_uuid d uid) (\<lambda>i s. find (\<lambda>r. ur_id r = i) (pg_users s)) s of
       Inl code \<Rightarrow> Inl (Errorf ''query user: %w'' [Foreign code])
     | Inr None \<Rightarrow> Inl (Errorf ''%w: %s'' [Sentinel Store_ErrUserNotFound])
     | Inr (Some r) \<Rightarrow> Inr (scanUser r))"

definition Postgres_GetByEmail :: "pg_driver \<Rightarrow> string \<Rightarrow> PG \<Rightarrow> error + User" where
  "Postgres_GetByEmail d email s =
    (if email = '''' then Inl (Errorf ''%w: empty email'' [Sentinel Store_ErrUserNotFound])
     else
       (case pg_query d (pg_text d None email) (\<lambda>e s. find (\<lambda>r. ur_email r = Some e) (pg_users s)) s of
          Inl code \<Rightarrow> Inl (Errorf ''query user: %w'' [Foreign code])
        | Inr None \<Rightarrow> Inl (Errorf ''%w: %s'' [Sentinel Store_ErrUserNotFound])
        | Inr (Some r) \<Rightarrow> Inr (scanUser r)))"

text \<open>\<^verbatim>\<open>DELETE\<close> of a user with the cascades of the schema.\<close>

definition sql_delete_user :: "string \<Rightarrow> PG \<Rightarrow> string + bool \<times> PG" where
  "sql_delete_user uid s =
    Inr (has_user_row s uid,
      s\<lparr>pg_users := filter (\<lambda>r. ur_id r \<noteq> uid) (pg_users s),
        pg_credentials := filter (\<lambda>c. cr_user_id c \<noteq> uid) (pg_credentials s),
        pg_refresh := filter (\<lambda>t. RT_UserID t \<noteq> uid) (pg_refresh s),
        pg_pats := filter (\<lambda>p. PAT_UserID p \<noteq> uid) (pg_pats s),
        pg_oauth := filter (\<lambda>i. OI_UserID i \<noteq> uid) (pg_oauth s),
        pg_wallet := filter (\<lambda>i. WI_UserID i \<noteq> uid) (pg_wallet s)\<rparr>)"

definition Postgres_Delete :: "pg_driver \<Rightarrow> string \<Rightarrow> PG \<Rightarrow> (error + unit) \<times> PG" where
  "Postgres_Delete d uid s =
    (case pg_exec d (pg_uuid d uid) sql_delete_user s of
       (Inl code, s1) \<Rightarrow> (Inl (Errorf ''delete user: %w'' [Foreign code]), s1)
     | (Inr affected, s1) \<Rightarrow>
         (if affected then Inr () else Inl (Errorf ''%w: %s'' [Sentinel Store_ErrUserNotFound]), s1))"

section \<open>TokenStore\<close>

text \<open>The columns of the insert; \<^verbatim>\<open>rotated_at\<close> and \<^verbatim>\<open>ended_at\<close> are left \<^verbatim>\<open>NULL\<close>.\<close>

definition refreshRow :: "pg_driver \<Rightarrow> RefreshToken \<Rightarrow> RefreshToken option" where
  "refreshRow d t =
    (case (pg_text d (Some 255) (RT_Hash t), pg_uuid d (RT_UserID t), pg_text d (Some 255) (RT_Parent t)) of
       (Some h, Some u, Some p) \<Rightarrow>
         Some \<lparr>RT_Hash = h, RT_UserID = u, RT_Parent = p, RT_ExpiresAt = pg_time (RT_ExpiresAt t),
               RT_CreatedAt = pg_time (RT_CreatedAt t), RT_Revoked = RT_Revoked t, RT_RotatedAt = None, RT_EndedAt = None\<rparr>
     | _ \<Rightarrow> None)"

definition sql_insert_refresh :: "RefreshToken \<Rightarrow> PG \<Rightarrow> string + unit \<times> PG" where
  "sql_insert_refresh t s =
    (if RT_Hash t \<in> set (map RT_Hash (pg_refresh s)) then Inl pqUniqueViolation
     else if \<not> has_user_row s (RT_UserID t) then Inl pqForeignKeyViolation
     else Inr ((), s\<lparr>pg_refresh := pg_refresh s @ [t]\<rparr>))"

definition pg_insertRefresh :: "pg_driver \<Rightarrow> RefreshToken \<Rightarrow> PG \<Rightarrow> (error + unit) \<times> PG" where
  "pg_insertRefresh d t s =
    (case pg_exec d (refreshRow d t) sql_insert_refresh s of
       (Inl code, s1) \<Rightarrow> (Inl (insertError ''insert refresh token'' code), s1)
     | (Inr _, s1) \<Rightarrow> (Inr (), s1))"

definition Postgres_SaveRefreshToken :: "pg_driver \<Rightarrow> RefreshToken \<Rightarrow> time \<Rightarrow> PG \<Rightarrow> (error + unit) \<times> PG" where
  "Postgres_SaveRefreshToken d token now s =
    (let token = (if time_IsZero (RT_CreatedAt token) then token\<lparr>RT_CreatedAt := now\<rparr> else token)
     in if RT_Parent token = '''' then pg_insertRefresh d token s
        else pgx_BeginFunc d (\<lambda>s.
          case pg_exec d (pg_text d None (RT_Parent token)) (\<lambda>h s. Inr (find (\<lambda>t. RT_Hash t = h) (pg_refresh s), s)) s of
            (Inl code, s1) \<Rightarrow> (Inl (Errorf ''lock refresh family root: %w'' [Foreign code]), s1)
          | (Inr None, s1) \<Rightarrow> (Inl (Errorf ''%w: family root missing'' [Sentinel Store_ErrTokenRevoked]), s1)
          | (Inr (Some root), s1) \<Rightarrow>
              if RT_EndedAt root \<noteq> None then (Inl (Errorf ''%w: session ended'' [Sentinel Store_ErrTokenRevoked]), s1)
              else pg_insertRefresh d token s1) s)"

definition Postgres_GetRefreshToken :: "pg_driver \<Rightarrow> string \<Rightarrow> PG \<Rightarrow> error + RefreshToken" where
  "Postgres_GetRefreshToken d hash s =
    (case pg_query d (pg_text d None hash) (\<lambda>h s. find (\<lambda>t. RT_Hash t = h) (pg_refresh s)) s of
       Inl code \<Rightarrow> Inl (Errorf ''query refresh token: %w'' [Foreign code])
     | Inr None \<Rightarrow> Inl (Sentinel Store_ErrTokenNotFound)
     | Inr (Some token) \<Rightarrow> Inr token)"

text \<open>The conditional \<^verbatim>\<open>UPDATE ... RETURNING\<close> at the time \<open>now\<close>.\<close>

definition rotatable :: "string \<Rightarrow> time \<Rightarrow> RefreshToken \<Rightarrow> bool" where
  "rotatable h now t \<longleftrightarrow> RT_Hash t = h \<and> \<not> RT_Revoked t \<and> now < RT_ExpiresAt t"

definition sql_rotate :: "time \<Rightarrow> string \<Rightarrow> PG \<Rightarrow> string + RefreshToken option \<times> PG" where
  "sql_rotate now h s =
    (let upd = (\<lambda>t. t\<lparr>RT_Revoked := True, RT_RotatedAt := Some now\<rparr>)
     in Inr (map_option upd (find (rotatable h now) (pg_refresh s)),
          s\<lparr>pg_refresh := map (\<lambda>t. if rotatable h now t then upd t else t) (pg_refresh s)\<rparr>))"

definition Postgres_RotateRefreshToken ::
    "pg_driver \<Rightarrow> string \<Rightarrow> time \<Rightarrow> PG \<Rightarrow> (RefreshToken option \<times> error option) \<times> PG" where
  "Postgres_RotateRefreshToken d hash now s =
    (case pg_exec d (pg_text d None hash) (sql_rotate (pg_time now)) s of
       (Inl code, s1) \<Rightarrow> ((None, Some (Errorf ''rotate refresh token: %w'' [Foreign code])), s1)
     | (Inr (Some token), s1) \<Rightarrow> ((Some token, None), s1)
     | (Inr None, s1) \<Rightarrow>
         (case Postgres_GetRefreshToken d hash s1 of
            Inl err \<Rightarrow> ((None, Some err), s1)
          | Inr token \<Rightarrow>
              ((Some token, Some (Sentinel (if RT_Revoked token then Store_ErrTokenRevoked else Store_ErrTokenExpired))), s1)))"

definition sql_family :: "string \<Rightarrow> PG \<Rightarrow> RefreshFamily" where
  "sql_family root s =
    (let rows = filter (inFamily root) (pg_refresh s); rotated = List.map_filter RT_RotatedAt rows
     in \<lparr>SessionEnded = list_ex (\<lambda>t. RT_EndedAt t \<noteq> None) rows,
         LastRotatedAt = (if rotated = [] then None else Some (Max (set rotated)))\<rparr>)"

definition Postgres_GetRefreshFamily :: "pg_driver \<Rightarrow> string \<Rightarrow> PG \<Rightarrow> error + RefreshFamily" where
  "Postgres_GetRefreshFamily d root s =
    (case pg_query d (pg_text d None root) sql_family s of
       Inl code \<Rightarrow> Inl (Errorf ''query refresh family: %w'' [Foreign code])
     | Inr family \<Rightarrow> Inr family)"

text \<open>\<^verbatim>\<open>ended_at = COALESCE(ended_at, now())\<close>.\<close>

definition sql_revoke :: "time \<Rightarrow> string \<Rightarrow> PG \<Rightarrow> string + unit \<times> PG" where
  "sql_revoke now h s =
    Inr ((), s\<lparr>pg_refresh := map (\<lambda>t. if inFamily h t then endToken now t else t) (pg_refresh s)\<rparr>)"

definition Postgres_RevokeTokens :: "pg_driver \<Rightarrow> string \<Rightarrow> time \<Rightarrow> PG \<Rightarrow> (error + unit) \<times> PG" where
  "Postgres_RevokeTokens d hash now s =
    (let started = pg_time (pg_clock d (pg_stmt s))
     in pgx_BeginFunc d (\<lambda>s.
          case pg_exec d (pg_text d None hash) (\<lambda>h s. Inr ((), s)) s of
            (Inl code, s1) \<Rightarrow> (Inl (Errorf ''lock refresh family root: %w'' [Foreign code]), s1)
          | (Inr _, s1) \<Rightarrow>
              (case pg_exec d (pg_text d None hash) (sql_revoke started) s1 of
                 (Inl code, s2) \<Rightarrow> (Inl (Errorf ''revoke tokens: %w'' [Foreign code]), s2)
               | (Inr _, s2) \<Rightarrow> (Inr (), s2))) s)"

section \<open>PATStore\<close>

definition patRow :: "pg_driver \<Rightarrow> PersonalAccessToken \<Rightarrow> PersonalAccessToken option" where
  "patRow d p =
    (case (pg_uuid d (PAT_ID p), pg_text d (Some 255) (PAT_Hash p), pg_uuid d (PAT_UserID p), pg_text d None (PAT_Name p),
           pg_texts d (PAT_Scopes p)) of
       (Some i, Some h, Some u, Some n, Some sc) \<Rightarrow>
         Some \<lparr>PAT_ID = i, PAT_Hash = h, PAT_UserID = u, PAT_Name = n, PAT_Scopes = sc,
               PAT_ExpiresAt = map_option pg_time (PAT_ExpiresAt p), PAT_LastUsedAt = map_option pg_time (PAT_LastUsedAt p),
               PAT_CreatedAt = pg_time (PAT_CreatedAt p)\<rparr>
     | _ \<Rightarrow> None)"

definition stampPAT :: "time \<Rightarrow> PersonalAccessToken \<Rightarrow> PersonalAccessToken" where
  "stampPAT now pat = (if time_IsZero (PAT_CreatedAt pat) then pat\<lparr>PAT_CreatedAt := now\<rparr> else pat)"

definition sql_insert_pat :: "PersonalAccessToken \<Rightarrow> PG \<Rightarrow> string + unit \<times> PG" where
  "sql_insert_pat p s =
    (if PAT_ID p \<in> set (map PAT_ID (pg_pats s)) \<or> PAT_Hash p \<in> set (map PAT_Hash (pg_pats s)) then Inl pqUniqueViolation
     else if \<not> has_user_row s (PAT_UserID p) then Inl pqForeignKeyViolation
     else Inr ((), s\<lparr>pg_pats := pg_pats s @ [p]\<rparr>))"

definition patSaveError :: "string \<Rightarrow> error" where
  "patSaveError code =
    (if isDuplicateKeyError code then Errorf ''%w: %s'' [Sentinel Store_ErrPATExists] else insertError ''insert pat'' code)"

definition Postgres_SavePAT :: "pg_driver \<Rightarrow> PersonalAccessToken \<Rightarrow> time \<Rightarrow> PG \<Rightarrow> (error + PersonalAccessToken) \<times> PG" where
  "Postgres_SavePAT d pat now s =
    (let pat = stampPAT now pat
     in case pg_exec d (patRow d pat) sql_insert_pat s of
          (Inl code, s1) \<Rightarrow> (Inl (patSaveError code), s1)
        | (Inr _, s1) \<Rightarrow> (Inr pat, s1))"

definition Postgres_lockUser :: "pg_driver \<Rightarrow> string \<Rightarrow> PG \<Rightarrow> error option \<times> PG" where
  "Postgres_lockUser d userID s =
    (case pg_exec d (pg_uuid d userID) (\<lambda>u s. Inr (has_user_row s u, s)) s of
       (Inl code, s1) \<Rightarrow> (Some (Errorf ''lock user: %w'' [Foreign code]), s1)
     | (Inr found, s1) \<Rightarrow> (if found then None else Some (Errorf ''%w: %s'' [Sentinel Store_ErrUserNotFound]), s1))"

definition sql_prune_pats :: "time \<Rightarrow> string \<Rightarrow> PG \<Rightarrow> string + unit \<times> PG" where
  "sql_prune_pats at u s = Inr ((), s\<lparr>pg_pats := filter (\<lambda>p. \<not> (PAT_UserID p = u \<and> patExpired at p)) (pg_pats s)\<rparr>)"

text \<open>The conditional insert; the result says whether a row was inserted.\<close>

definition sql_insert_pat_limited :: "int \<Rightarrow> PersonalAccessToken \<Rightarrow> PG \<Rightarrow> string + bool \<times> PG" where
  "sql_insert_pat_limited limit p s =
    (if int (length (filter (\<lambda>q. PAT_UserID q = PAT_UserID p) (pg_pats s))) < limit
     then (case sql_insert_pat p s of Inl code \<Rightarrow> Inl code | Inr (_, s1) \<Rightarrow> Inr (True, s1))
     else Inr (False, s))"

definition Postgres_SavePATLimited ::
    "pg_driver \<Rightarrow> PersonalAccessToken \<Rightarrow> int \<Rightarrow> time \<Rightarrow> time \<Rightarrow> PG \<Rightarrow> (error + PersonalAccessToken) \<times> PG" where
  "Postgres_SavePATLimited d pat limit at now s =
    (let pat = stampPAT now pat
     in case pg_tx (\<lambda>e. Errorf ''begin: %w'' [e]) (\<lambda>e. Errorf ''commit: %w'' [e]) d (\<lambda>s.
          case Postgres_lockUser d (PAT_UserID pat) s of
            (Some err, s1) \<Rightarrow> (Inl err, s1)
          | (None, s1) \<Rightarrow>
              (case pg_exec d (pg_uuid d (PAT_UserID pat)) (sql_prune_pats (pg_time at)) s1 of
                 (Inl code, s2) \<Rightarrow> (Inl (Errorf ''prune expired pats: %w'' [Foreign code]), s2)
               | (Inr _, s2) \<Rightarrow>
                   (case pg_exec d (patRow d pat) (sql_insert_pat_limited limit) s2 of
                      (Inl code, s3) \<Rightarrow> (Inl (patSaveError code), s3)
                    | (Inr inserted, s3) \<Rightarrow> (Inr inserted, s3)))) s of
          (Inl err, s1) \<Rightarrow> (Inl err, s1)
        | (Inr inserted, s1) \<Rightarrow> (if inserted then Inr pat else Inl (Sentinel Store_ErrPATLimitReached), s1))"

definition Postgres_GetPAT :: "pg_driver \<Rightarrow> string \<Rightarrow> PG \<Rightarrow> error + PersonalAccessToken" where
  "Postgres_GetPAT d hash s =
    (case pg_query d (pg_text d None hash) (\<lambda>h s. find (\<lambda>p. PAT_Hash p = h) (pg_pats s)) s of
       Inl code \<Rightarrow> Inl (Errorf ''query pat: %w'' [Foreign code])
     | Inr None \<Rightarrow> Inl (Sentinel Store_ErrTokenNotFound)
     | Inr (Some pat) \<Rightarrow> Inr pat)"

text \<open>A query of the rows of a user, newest first, and the loop that reads them. Rows of one time come in
  no particular order; the model keeps insertion order.\<close>

definition pg_list :: "pg_driver \<Rightarrow> string \<Rightarrow> string \<Rightarrow> (PG \<Rightarrow> 'r list) \<Rightarrow> ('r \<Rightarrow> string) \<Rightarrow> ('r \<Rightarrow> time) \<Rightarrow> PG \<Rightarrow> error + 'r list" where
  "pg_list d what userID rows owner created s =
    (case pg_query d (pg_uuid d userID) (\<lambda>u s. newestFirst created (filter (\<lambda>r. owner r = u) (rows s))) s of
       Inl code \<Rightarrow> Inl (Errorf (''query '' @ what @ '': %w'') [Foreign code])
     | Inr out \<Rightarrow>
         (case pg_rows_fail d (pg_stmt s) of
            Some code \<Rightarrow> Inl (Errorf (''iterate '' @ what @ '': %w'') [Foreign code])
          | None \<Rightarrow> Inr out))"

definition Postgres_ListPATs :: "pg_driver \<Rightarrow> string \<Rightarrow> PG \<Rightarrow> error + PersonalAccessToken list" where
  "Postgres_ListPATs d userID s = pg_list d ''pats'' userID pg_pats PAT_UserID PAT_CreatedAt s"

definition sql_delete_pat :: "string \<times> string \<Rightarrow> PG \<Rightarrow> string + bool \<times> PG" where
  "sql_delete_pat iu s =
    Inr (list_ex (\<lambda>p. PAT_ID p = fst iu \<and> PAT_UserID p = snd iu) (pg_pats s),
      s\<lparr>pg_pats := filter (\<lambda>p. \<not> (PAT_ID p = fst iu \<and> PAT_UserID p = snd iu)) (pg_pats s)\<rparr>)"

definition pair_args :: "'a option \<Rightarrow> 'b option \<Rightarrow> ('a \<times> 'b) option" where
  "pair_args a b = (case (a, b) of (Some x, Some y) \<Rightarrow> Some (x, y) | _ \<Rightarrow> None)"

definition Postgres_DeletePAT :: "pg_driver \<Rightarrow> string \<Rightarrow> string \<Rightarrow> PG \<Rightarrow> (error + unit) \<times> PG" where
  "Postgres_DeletePAT d userID patID s =
    (case pg_exec d (pair_args (pg_uuid d patID) (pg_uuid d userID)) sql_delete_pat s of
       (Inl code, s1) \<Rightarrow> (Inl (Errorf ''delete pat: %w'' [Foreign code]), s1)
     | (Inr affected, s1) \<Rightarrow> (if affected then Inr () else Inl (Sentinel Store_ErrTokenNotFound), s1))"

definition sql_touch_pat :: "time \<Rightarrow> string \<Rightarrow> PG \<Rightarrow> string + unit \<times> PG" where
  "sql_touch_pat t h s =
    Inr ((), s\<lparr>pg_pats := map (\<lambda>p. if PAT_Hash p = h then p\<lparr>PAT_LastUsedAt := Some t\<rparr> else p) (pg_pats s)\<rparr>)"

definition Postgres_TouchPAT :: "pg_driver \<Rightarrow> string \<Rightarrow> time \<Rightarrow> PG \<Rightarrow> (error + unit) \<times> PG" where
  "Postgres_TouchPAT d hash t s =
    (case pg_exec d (pg_text d None hash) (sql_touch_pat (pg_time t)) s of
       (Inl code, s1) \<Rightarrow> (Inl (Errorf ''touch pat: %w'' [Foreign code]), s1)
     | (Inr _, s1) \<Rightarrow> (Inr (), s1))"

section \<open>OAuthIdentityStore and WalletIdentityStore\<close>

definition oauthRow :: "pg_driver \<Rightarrow> OAuthIdentity \<Rightarrow> OAuthIdentity option" where
  "oauthRow d i =
    (case (pg_uuid d (OI_ID i), pg_uuid d (OI_UserID i), pg_text d (Some 50) (OI_Provider i), pg_text d (Some 255) (OI_ExternalID i),
           pg_text d (Some 255) (OI_Email i)) of
       (Some k, Some u, Some p, Some x, Some e) \<Rightarrow>
         Some \<lparr>OI_ID = k, OI_UserID = u, OI_Provider = p, OI_ExternalID = x, OI_Email = e, OI_CreatedAt = pg_time (OI_CreatedAt i)\<rparr>
     | _ \<Rightarrow> None)"

definition sql_insert_oauth :: "OAuthIdentity \<Rightarrow> PG \<Rightarrow> string + unit \<times> PG" where
  "sql_insert_oauth i s =
    (if OI_ID i \<in> set (map OI_ID (pg_oauth s)) \<or>
        (OI_Provider i, OI_ExternalID i) \<in> set (map (\<lambda>j. (OI_Provider j, OI_ExternalID j)) (pg_oauth s))
     then Inl pqUniqueViolation
     else if \<not> has_user_row s (OI_UserID i) then Inl pqForeignKeyViolation
     else Inr ((), s\<lparr>pg_oauth := pg_oauth s @ [i]\<rparr>))"

definition Postgres_SaveOAuthIdentity :: "pg_driver \<Rightarrow> OAuthIdentity \<Rightarrow> time \<Rightarrow> PG \<Rightarrow> (error + unit) \<times> PG" where
  "Postgres_SaveOAuthIdentity d identity now s =
    (let identity = (if time_IsZero (OI_CreatedAt identity) then identity\<lparr>OI_CreatedAt := now\<rparr> else identity)
     in case pg_exec d (oauthRow d identity) sql_insert_oauth s of
          (Inl code, s1) \<Rightarrow>
            (Inl (if isDuplicateKeyError code then Errorf ''%w: %s/%s'' [Sentinel Store_ErrOAuthIdentityExists]
                  else insertError ''insert oauth identity'' code), s1)
        | (Inr _, s1) \<Rightarrow> (Inr (), s1))"

definition Postgres_GetOAuthIdentity :: "pg_driver \<Rightarrow> string \<Rightarrow> string \<Rightarrow> PG \<Rightarrow> error + OAuthIdentity" where
  "Postgres_GetOAuthIdentity d provider externalID s =
    (case pg_query d (pair_args (pg_text d None provider) (pg_text d None externalID))
            (\<lambda>k s. find (\<lambda>i. (OI_Provider i, OI_ExternalID i) = k) (pg_oauth s)) s of
       Inl code \<Rightarrow> Inl (Errorf ''query oauth identity: %w'' [Foreign code])
     | Inr None \<Rightarrow> Inl (Errorf ''%w: %s/%s'' [Sentinel Store_ErrOAuthIdentityNotFound])
     | Inr (Some identity) \<Rightarrow> Inr identity)"

definition Postgres_ListOAuthIdentities :: "pg_driver \<Rightarrow> string \<Rightarrow> PG \<Rightarrow> error + OAuthIdentity list" where
  "Postgres_ListOAuthIdentities d userID s = pg_list d ''oauth identities'' userID pg_oauth OI_UserID OI_CreatedAt s"

definition walletRow :: "pg_driver \<Rightarrow> WalletIdentity \<Rightarrow> WalletIdentity option" where
  "walletRow d i =
    (case (pg_uuid d (WI_ID i), pg_uuid d (WI_UserID i), pg_text d (Some 50) (WI_Chain i), pg_text d (Some 255) (WI_Address i)) of
       (Some k, Some u, Some c, Some a) \<Rightarrow>
         Some \<lparr>WI_ID = k, WI_UserID = u, WI_Chain = c, WI_Address = a, WI_CreatedAt = pg_time (WI_CreatedAt i)\<rparr>
     | _ \<Rightarrow> None)"

definition sql_insert_wallet :: "WalletIdentity \<Rightarrow> PG \<Rightarrow> string + unit \<times> PG" where
  "sql_insert_wallet i s =
    (if WI_ID i \<in> set (map WI_ID (pg_wallet s)) \<or>
        (WI_Chain i, WI_Address i) \<in> set (map (\<lambda>j. (WI_Chain j, WI_Address j)) (pg_wallet s))
     then Inl pqUniqueViolation
     else if \<not> has_user_row s (WI_UserID i) then Inl pqForeignKeyViolation
     else Inr ((), s\<lparr>pg_wallet := pg_wallet s @ [i]\<rparr>))"

definition Postgres_SaveWalletIdentity :: "pg_driver \<Rightarrow> WalletIdentity \<Rightarrow> time \<Rightarrow> PG \<Rightarrow> (error + unit) \<times> PG" where
  "Postgres_SaveWalletIdentity d identity now s =
    (let identity = (if time_IsZero (WI_CreatedAt identity) then identity\<lparr>WI_CreatedAt := now\<rparr> else identity)
     in case pg_exec d (walletRow d identity) sql_insert_wallet s of
          (Inl code, s1) \<Rightarrow>
            (Inl (if isDuplicateKeyError code then Errorf ''%w: %s/%s'' [Sentinel Store_ErrWalletIdentityExists]
                  else insertError ''insert wallet identity'' code), s1)
        | (Inr _, s1) \<Rightarrow> (Inr (), s1))"

definition Postgres_GetWalletIdentity :: "pg_driver \<Rightarrow> string \<Rightarrow> string \<Rightarrow> PG \<Rightarrow> error + WalletIdentity" where
  "Postgres_GetWalletIdentity d chain address s =
    (case pg_query d (pair_args (pg_text d None chain) (pg_text d None address))
            (\<lambda>k s. find (\<lambda>i. (WI_Chain i, WI_Address i) = k) (pg_wallet s)) s of
       Inl code \<Rightarrow> Inl (Errorf ''query wallet identity: %w'' [Foreign code])
     | Inr None \<Rightarrow> Inl (Errorf ''%w: %s/%s'' [Sentinel Store_ErrWalletIdentityNotFound])
     | Inr (Some identity) \<Rightarrow> Inr identity)"

definition Postgres_ListWalletIdentities :: "pg_driver \<Rightarrow> string \<Rightarrow> PG \<Rightarrow> error + WalletIdentity list" where
  "Postgres_ListWalletIdentities d userID s = pg_list d ''wallet identities'' userID pg_wallet WI_UserID WI_CreatedAt s"

section \<open>ChallengeStore\<close>

definition challengeRow :: "pg_driver \<Rightarrow> Challenge \<Rightarrow> Challenge option" where
  "challengeRow d c =
    (case (pg_text d (Some 255) (Ch_Nonce c), pg_text d None (Ch_Message c), pg_text d (Some 50) (Ch_Chain c),
           pg_text d (Some 255) (Ch_Address c), pg_text d None (Ch_CodeVerifier c), pg_text d None (Ch_OAuthNonce c),
           pg_text d (Some 64) (Ch_BindingHash c)) of
       (Some n, Some m, Some ch, Some a, Some v, Some o', Some b) \<Rightarrow>
         Some \<lparr>Ch_Nonce = n, Ch_Message = m, Ch_Chain = ch, Ch_Address = a, Ch_CodeVerifier = v, Ch_OAuthNonce = o',
               Ch_BindingHash = b, Ch_ExpiresAt = pg_time (Ch_ExpiresAt c), Ch_CreatedAt = pg_time (Ch_CreatedAt c)\<rparr>
     | _ \<Rightarrow> None)"

definition sql_sweep :: "time \<Rightarrow> unit \<Rightarrow> PG \<Rightarrow> string + unit \<times> PG" where
  "sql_sweep now _ s = Inr ((), s\<lparr>pg_challenges := filter (\<lambda>c. \<not> Ch_ExpiresAt c < now) (pg_challenges s)\<rparr>)"

definition sql_insert_challenge :: "Challenge \<Rightarrow> PG \<Rightarrow> string + unit \<times> PG" where
  "sql_insert_challenge c s =
    (if Ch_Nonce c \<in> set (map Ch_Nonce (pg_challenges s)) then Inl pqUniqueViolation
     else Inr ((), s\<lparr>pg_challenges := pg_challenges s @ [c]\<rparr>))"

definition Postgres_SaveChallenge :: "pg_driver \<Rightarrow> Challenge \<Rightarrow> time \<Rightarrow> PG \<Rightarrow> (error + unit) \<times> PG" where
  "Postgres_SaveChallenge d challenge now s =
    (let challenge = (if time_IsZero (Ch_CreatedAt challenge) then challenge\<lparr>Ch_CreatedAt := now\<rparr> else challenge)
     in case pg_exec d (Some ()) (sql_sweep (pg_time (pg_clock d (pg_stmt s)))) s of
          (Inl code, s1) \<Rightarrow> (Inl (Errorf ''sweep expired challenges: %w'' [Foreign code]), s1)
        | (Inr _, s1) \<Rightarrow>
            (case pg_exec d (challengeRow d challenge) sql_insert_challenge s1 of
               (Inl code, s2) \<Rightarrow> (Inl (Errorf ''insert challenge: %w'' [Foreign code]), s2)
             | (Inr _, s2) \<Rightarrow> (Inr (), s2)))"

definition Postgres_GetChallenge :: "pg_driver \<Rightarrow> string \<Rightarrow> time \<Rightarrow> PG \<Rightarrow> (error + Challenge) \<times> PG" where
  "Postgres_GetChallenge d nonce now s =
    (case pg_query d (pg_text d None nonce) (\<lambda>n s. find (\<lambda>c. Ch_Nonce c = n) (pg_challenges s)) s of
       Inl code \<Rightarrow> (Inl (Errorf ''query challenge: %w'' [Foreign code]), s)
     | Inr None \<Rightarrow> (Inl (Sentinel Store_ErrChallengeNotFound), s)
     | Inr (Some challenge) \<Rightarrow>
         (if Ch_ExpiresAt challenge < now then Inl (Sentinel Store_ErrChallengeExpired) else Inr challenge, s))"

definition sql_delete_challenge :: "string \<Rightarrow> PG \<Rightarrow> string + bool \<times> PG" where
  "sql_delete_challenge n s =
    Inr (n \<in> set (map Ch_Nonce (pg_challenges s)), s\<lparr>pg_challenges := filter (\<lambda>c. Ch_Nonce c \<noteq> n) (pg_challenges s)\<rparr>)"

definition Postgres_DeleteChallenge :: "pg_driver \<Rightarrow> string \<Rightarrow> PG \<Rightarrow> (error + unit) \<times> PG" where
  "Postgres_DeleteChallenge d nonce s =
    (case pg_exec d (pg_text d None nonce) sql_delete_challenge s of
       (Inl code, s1) \<Rightarrow> (Inl (Errorf ''delete challenge: %w'' [Foreign code]), s1)
     | (Inr affected, s1) \<Rightarrow> (if affected then Inr () else Inl (Sentinel Store_ErrChallengeNotFound), s1))"

section \<open>CredentialStore\<close>

definition sql_upsert_credential :: "time \<Rightarrow> string \<times> string \<Rightarrow> PG \<Rightarrow> string + unit \<times> PG" where
  "sql_upsert_credential now uh s =
    (if fst uh \<in> set (map cr_user_id (pg_credentials s))
     then Inr ((), s\<lparr>pg_credentials := map (\<lambda>c. if cr_user_id c = fst uh
            then c\<lparr>cr_password_hash := snd uh, cr_updated_at := now\<rparr> else c) (pg_credentials s)\<rparr>)
     else if \<not> has_user_row s (fst uh) then Inl pqForeignKeyViolation
     else Inr ((), s\<lparr>pg_credentials := pg_credentials s @
            [\<lparr>cr_user_id = fst uh, cr_password_hash = snd uh, cr_created_at = now, cr_updated_at = now\<rparr>]\<rparr>))"

definition Postgres_SavePasswordHash :: "pg_driver \<Rightarrow> string \<Rightarrow> string \<Rightarrow> PG \<Rightarrow> (error + unit) \<times> PG" where
  "Postgres_SavePasswordHash d userID hash s =
    (case pg_exec d (pair_args (pg_uuid d userID) (pg_text d None hash))
            (sql_upsert_credential (pg_time (pg_clock d (pg_stmt s)))) s of
       (Inl code, s1) \<Rightarrow> (Inl (insertError ''save password hash'' code), s1)
     | (Inr _, s1) \<Rightarrow> (Inr (), s1))"

definition Postgres_GetPasswordHash :: "pg_driver \<Rightarrow> string \<Rightarrow> PG \<Rightarrow> error + string" where
  "Postgres_GetPasswordHash d userID s =
    (case pg_query d (pg_uuid d userID) (\<lambda>u s. find (\<lambda>c. cr_user_id c = u) (pg_credentials s)) s of
       Inl code \<Rightarrow> Inl (Errorf ''query password hash: %w'' [Foreign code])
     | Inr None \<Rightarrow> Inl (Errorf ''%w: %s'' [Sentinel Store_ErrCredentialNotFound])
     | Inr (Some c) \<Rightarrow> Inr (cr_password_hash c))"

section \<open>The method tables\<close>

definition pgUserStore :: "pg_driver \<Rightarrow> PG UserStore" where
  "pgUserStore d = \<lparr>Create = Postgres_Create d, GetByID = Postgres_GetByID d, GetByEmail = Postgres_GetByEmail d,
     Delete = Postgres_Delete d\<rparr>"

definition pgTokenStore :: "pg_driver \<Rightarrow> PG TokenStore" where
  "pgTokenStore d = \<lparr>SaveRefreshToken = Postgres_SaveRefreshToken d, GetRefreshToken = Postgres_GetRefreshToken d,
     RevokeTokens = Postgres_RevokeTokens d, RotateRefreshToken = Postgres_RotateRefreshToken d,
     GetRefreshFamily = Postgres_GetRefreshFamily d\<rparr>"

definition pgPATStore :: "pg_driver \<Rightarrow> PG PATStore" where
  "pgPATStore d = \<lparr>SavePAT = Postgres_SavePAT d, SavePATLimited = Postgres_SavePATLimited d, GetPAT = Postgres_GetPAT d,
     ListPATs = Postgres_ListPATs d, DeletePAT = Postgres_DeletePAT d, TouchPAT = Postgres_TouchPAT d\<rparr>"

definition pgOAuthIdentityStore :: "pg_driver \<Rightarrow> PG OAuthIdentityStore" where
  "pgOAuthIdentityStore d = \<lparr>SaveOAuthIdentity = Postgres_SaveOAuthIdentity d, GetOAuthIdentity = Postgres_GetOAuthIdentity d,
     ListOAuthIdentities = Postgres_ListOAuthIdentities d\<rparr>"

definition pgWalletIdentityStore :: "pg_driver \<Rightarrow> PG WalletIdentityStore" where
  "pgWalletIdentityStore d = \<lparr>SaveWalletIdentity = Postgres_SaveWalletIdentity d, GetWalletIdentity = Postgres_GetWalletIdentity d,
     ListWalletIdentities = Postgres_ListWalletIdentities d\<rparr>"

definition pgChallengeStore :: "pg_driver \<Rightarrow> PG ChallengeStore" where
  "pgChallengeStore d = \<lparr>SaveChallenge = Postgres_SaveChallenge d, GetChallenge = Postgres_GetChallenge d,
     DeleteChallenge = Postgres_DeleteChallenge d\<rparr>"

definition pgCredentialStore :: "pg_driver \<Rightarrow> PG CredentialStore" where
  "pgCredentialStore d = \<lparr>SavePasswordHash = Postgres_SavePasswordHash d, GetPasswordHash = Postgres_GetPasswordHash d\<rparr>"

lemmas pg_tables =
  pgUserStore_def pgTokenStore_def pgPATStore_def pgOAuthIdentityStore_def pgWalletIdentityStore_def
  pgChallengeStore_def pgCredentialStore_def

end
