(* ===== verification/Postgres_Refinement.thy ===== *)
theory Postgres_Refinement
  imports Postgres Memory_Session
begin

text \<open>
  The Postgres store refines the in-memory store. \<open>pg_abs\<close> reads the tables as the maps of the
  in-memory store; a method that runs without a driver failure, on values the columns keep as they are, has
  the effect and the kind of outcome of the in-memory method, so a run on either gives the same store.
  \<open>fits\<close> spells out the conditions, which are also where the two stores differ: microsecond times,
  the server's clock, and keys that must be fresh where the in-memory store overwrites.
\<close>

declare map_of_eq_Some_iff [simp del]
declare Some_eq_map_of_iff [simp del]

section \<open>Tables as maps\<close>

definition keyed :: "('r \<Rightarrow> 'k) \<Rightarrow> 'r list \<Rightarrow> ('k, 'r) gomap" where
  "keyed f rows = map (\<lambda>r. (f r, r)) rows"

lemma keyed_simps [simp]:
  "keyed f [] = []" "keyed f (r # rows) = (f r, r) # keyed f rows" "keyed f (xs @ ys) = keyed f xs @ keyed f ys"
  by (simp_all add: keyed_def)

lemma map_of_keyed: "map_of (keyed f rows) k = find (\<lambda>r. f r = k) rows"
  by (induction rows) auto

lemma find_None_key: "find (\<lambda>r. f r = k) rows = None \<longleftrightarrow> k \<notin> set (map f rows)"
  by (induction rows) auto

lemma keyed_insert: "f r \<notin> set (map f rows) \<Longrightarrow> map_set (f r) r (keyed f rows) = keyed f (rows @ [r])"
  by (induction rows) auto

lemma keyed_delete_func: "maps_DeleteFunc q (keyed f rows) = keyed f (filter (\<lambda>r. \<not> q r) rows)"
  by (induction rows) (auto simp: maps_DeleteFunc_def)

lemma keyed_del: "map_del k (keyed f rows) = keyed f (filter (\<lambda>r. f r \<noteq> k) rows)"
  by (induction rows) auto

lemma keyed_each: "(\<And>r. f (g r) = f r) \<Longrightarrow> map_each g (keyed f rows) = keyed f (map g rows)"
  by (induction rows) (auto simp: map_each_def)

lemma keyed_values [simp]: "map_values (keyed f rows) = rows"
  by (induction rows) (auto simp: map_values_def)

lemma keyed_update:
  assumes "distinct (map f rows)" "k \<in> set (map f rows)" "f v = k"
  shows "map_set k v (keyed f rows) = keyed f (map (\<lambda>r. if f r = k then v else r) rows)"
  using assms
proof (induction rows)
  case (Cons r rows)
  show ?case
  proof (cases "f r = k")
    case True
    then have "map (\<lambda>r. if f r = k then v else r) rows = rows" using Cons.prems(1) by (intro map_idI) (auto simp: image_iff)
    then show ?thesis using True Cons.prems(3) by simp
  qed (use Cons in auto)
qed simp

lemma keyed_find_map:
  assumes "distinct (map f rows)" "find (\<lambda>r. f r = k) rows = Some r0" "f (g r0) = k"
  shows "map_set k (g r0) (keyed f rows) = keyed f (map (\<lambda>r. if f r = k then g r else r) rows)"
proof -
  have r0: "r0 \<in> set rows" "f r0 = k" using assms(2) by (auto simp: find_Some_iff)
  then have m: "map (\<lambda>r. if f r = k then g r else r) rows = map (\<lambda>r. if f r = k then g r0 else r) rows"
    using assms(1) by (auto simp: inj_on_def distinct_map)
  have "k \<in> set (map f rows)" using r0 by auto
  then show ?thesis unfolding m using keyed_update [OF assms(1) _ assms(3)] by blast
qed

section \<open>The abstraction and the schema's constraints\<close>

definition email_rows :: "UserRow list \<Rightarrow> (string, User) gomap" where
  "email_rows rows = List.map_filter (\<lambda>r. map_option (\<lambda>e. (e, scanUser r)) (ur_email r)) rows"

definition pg_abs :: "PG \<Rightarrow> Store" where
  "pg_abs p = \<lparr>
     mem_users = map (\<lambda>r. (ur_id r, scanUser r)) (pg_users p), mem_usersByEmail = email_rows (pg_users p),
     mem_refreshTokens = keyed RT_Hash (pg_refresh p), mem_pats = keyed PAT_Hash (pg_pats p),
     mem_passwordHashes = map (\<lambda>c. (cr_user_id c, cr_password_hash c)) (pg_credentials p),
     mem_oauthIdentities = keyed (\<lambda>i. (OI_Provider i, OI_ExternalID i)) (pg_oauth p),
     mem_walletIdentities = keyed (\<lambda>i. (WI_Chain i, WI_Address i)) (pg_wallet p),
     mem_challenges = keyed Ch_Nonce (pg_challenges p)\<rparr>"

text \<open>The foreign keys.\<close>

definition pg_owned :: "PG \<Rightarrow> bool" where
  "pg_owned p \<longleftrightarrow>
     (\<forall>c\<in>set (pg_credentials p). has_user_row p (cr_user_id c)) \<and> (\<forall>t\<in>set (pg_refresh p). has_user_row p (RT_UserID t)) \<and>
     (\<forall>t\<in>set (pg_pats p). has_user_row p (PAT_UserID t)) \<and> (\<forall>i\<in>set (pg_oauth p). has_user_row p (OI_UserID i)) \<and>
     (\<forall>i\<in>set (pg_wallet p). has_user_row p (WI_UserID i))"

definition pg_inv :: "PG \<Rightarrow> bool" where
  "pg_inv p \<longleftrightarrow>
     distinct (map ur_id (pg_users p)) \<and> distinct (map fst (email_rows (pg_users p))) \<and>
     Some '''' \<notin> set (map ur_email (pg_users p)) \<and>
     distinct (map cr_user_id (pg_credentials p)) \<and> pg_owned p \<and>
     distinct (map RT_Hash (pg_refresh p)) \<and> distinct (map PAT_ID (pg_pats p)) \<and> distinct (map PAT_Hash (pg_pats p)) \<and>
     distinct (map (\<lambda>i. (OI_Provider i, OI_ExternalID i)) (pg_oauth p)) \<and>
     distinct (map (\<lambda>i. (WI_Chain i, WI_Address i)) (pg_wallet p)) \<and> distinct (map Ch_Nonce (pg_challenges p))"

lemma pg_abs_empty: "pg_abs PG_empty = Memory_New" and pg_inv_empty: "pg_inv PG_empty"
  by (simp_all add: pg_abs_def PG_empty_def Memory_New_def email_rows_def pg_inv_def pg_owned_def List.map_filter_def)

section \<open>When a method fits\<close>

text \<open>No statement fails.\<close>

definition pg_quiet :: "pg_driver \<Rightarrow> bool" where
  "pg_quiet d \<longleftrightarrow> (\<forall>n. pg_fail d n = None \<and> pg_rows_fail d n = None)"

abbreviation uuid_ok :: "pg_driver \<Rightarrow> string \<Rightarrow> bool" where "uuid_ok d x \<equiv> pg_uuid d x = Some x"
abbreviation text_ok :: "pg_driver \<Rightarrow> nat option \<Rightarrow> string \<Rightarrow> bool" where "text_ok d n x \<equiv> pg_text d n x = Some x"
abbreviation time_ok :: "time \<Rightarrow> bool" where "time_ok t \<equiv> pg_time t = t"

definition stampUser :: "time \<Rightarrow> User \<Rightarrow> User" where
  "stampUser now user =
    (let user1 = (if time_IsZero (User_CreatedAt user) then user\<lparr>User_CreatedAt := now\<rparr> else user)
     in if time_IsZero (User_UpdatedAt user1) then user1\<lparr>User_UpdatedAt := now\<rparr> else user1)"

lemma pg_exec_quiet:
  "pg_quiet d \<Longrightarrow> pg_exec d (Some a) body s =
     (case body a s of Inl code \<Rightarrow> (Inl code, pg_tick s) | Inr (r, s1) \<Rightarrow> (Inr r, pg_tick s1))"
  by (simp add: pg_exec_def pg_quiet_def)

lemma pg_query_quiet: "pg_quiet d \<Longrightarrow> pg_query d (Some a) f s = Inr (f a s)"
  by (simp add: pg_query_def pg_quiet_def)

lemma pg_tx_quiet:
  "pg_quiet d \<Longrightarrow> pg_tx wb wc d body s =
     (case body (pg_tick s) of (Inl err, s1) \<Rightarrow> (Inl err, pg_rollback s s1) | (Inr r, s1) \<Rightarrow> (Inr r, pg_tick s1))"
  by (simp add: pg_tx_def pg_quiet_def split: prod.split sum.split)

lemmas pg_quiet_simps = pg_exec_quiet pg_query_quiet pg_tx_quiet

lemma pg_abs_tick [simp]: "pg_abs (pg_tick s) = pg_abs s" "pg_abs (pg_rollback s s1) = pg_abs s"
  by (simp_all add: pg_abs_def pg_tick_def pg_rollback_def)

lemma pg_inv_tick [simp]: "pg_inv (pg_tick s) = pg_inv s" "pg_inv (pg_rollback s s1) = pg_inv s"
  by (simp_all add: pg_inv_def pg_owned_def pg_tick_def pg_rollback_def has_user_row_def)

lemma pg_tick_simps [simp]:
  "pg_users (pg_tick s) = pg_users s" "pg_credentials (pg_tick s) = pg_credentials s" "pg_refresh (pg_tick s) = pg_refresh s"
  "pg_pats (pg_tick s) = pg_pats s" "pg_oauth (pg_tick s) = pg_oauth s" "pg_wallet (pg_tick s) = pg_wallet s"
  "pg_challenges (pg_tick s) = pg_challenges s" "pg_stmt (pg_tick s) = Suc (pg_stmt s)"
  "has_user_row (pg_tick s) u = has_user_row s u"
  by (simp_all add: pg_tick_def has_user_row_def)

lemma those_Some: "\<forall>x\<in>set xs. f x = Some x \<Longrightarrow> those (map f xs) = Some xs"
  by (induction xs) auto

text \<open>What two outcomes have in common: both succeed, or both fail with errors that match the same sentinels.\<close>

definition same_kind :: "error \<Rightarrow> error \<Rightarrow> bool" where
  "same_kind e e' \<longleftrightarrow> (\<forall>x. errors_Is e x = errors_Is e' x)"

definition err_of :: "error + 'a \<Rightarrow> error option" where
  "err_of r = (case r of Inl e \<Rightarrow> Some e | Inr _ \<Rightarrow> None)"

abbreviation same_outcome :: "error option \<Rightarrow> error option \<Rightarrow> bool" where
  "same_outcome \<equiv> rel_option same_kind"

lemma same_kind_refl [simp]: "same_kind e e" "same_outcome x x"
  by (simp_all add: same_kind_def option.rel_refl)

lemma same_kind_wrap [simp]: "same_kind (Errorf f [e]) e" "same_kind e (Errorf f [e])"
  by (simp_all add: same_kind_def)

lemma err_of_simps [simp]: "err_of (Inl e) = Some e" "err_of (Inr x) = None"
  by (simp_all add: err_of_def)

text \<open>The users a database has, as the in-memory store sees them.\<close>

lemma abs_user: "map_of (mem_users (pg_abs p)) u = map_option scanUser (find (\<lambda>r. ur_id r = u) (pg_users p))"
proof -
  have "map_of (map (\<lambda>r. (ur_id r, scanUser r)) rows) u = map_option scanUser (find (\<lambda>r. ur_id r = u) rows)" for rows
    by (induction rows) auto
  then show ?thesis by (simp add: pg_abs_def)
qed

lemma abs_requireUser:
  "Memory_requireUser u (pg_abs p) = (if has_user_row p u then None else Some (Errorf ''%w: %s'' [Sentinel Store_ErrUserNotFound]))"
  using find_None_key [of ur_id u "pg_users p"]
  by (auto simp: Memory_requireUser_def abs_user has_user_row_def split: option.splits)

lemma abs_email: "map_of (email_rows rows) e = map_option scanUser (find (\<lambda>r. ur_email r = Some e) rows)"
  by (induction rows) (auto simp: email_rows_def List.map_filter_def split: option.splits)

section \<open>One method at a time\<close>

text \<open>The outcome and the effect of a method on either store.\<close>

definition simulates :: "(error + 'a) \<times> PG \<Rightarrow> (error + 'a) \<times> Store \<Rightarrow> bool" where
  "simulates a b \<longleftrightarrow> pg_abs (snd a) = snd b \<and> pg_inv (snd a) \<and> rel_sum same_kind (=) (fst a) (fst b)"

lemma simulates_err: "pg_inv p \<Longrightarrow> same_kind e e' \<Longrightarrow> pg_abs p' = pg_abs p \<Longrightarrow> pg_inv p' = pg_inv p \<Longrightarrow>
    simulates (Inl e, p') (Inl e', pg_abs p)"
  by (simp add: simulates_def)

lemma simulates_ok: "pg_inv p' \<Longrightarrow> pg_abs p' = s' \<Longrightarrow> simulates (Inr x, p') (Inr x, s')"
  by (simp add: simulates_def)

subsection \<open>Users\<close>

definition fits_user :: "pg_driver \<Rightarrow> User \<Rightarrow> bool" where
  "fits_user d u \<longleftrightarrow> uuid_ok d (User_ID u) \<and> (User_Email u \<noteq> '''' \<longrightarrow> text_ok d (Some 255) (User_Email u)) \<and>
     (\<forall>r\<in>set (User_Roles u). text_ok d None r) \<and> time_ok (User_CreatedAt u) \<and> time_ok (User_UpdatedAt u)"

definition row_of :: "User \<Rightarrow> UserRow" where
  "row_of u = \<lparr>ur_id = User_ID u, ur_email = (if User_Email u = '''' then None else Some (User_Email u)), ur_roles = User_Roles u,
     ur_created_at = User_CreatedAt u, ur_updated_at = User_UpdatedAt u\<rparr>"

lemma userRow_fits: "fits_user d u \<Longrightarrow> userRow d u = Some (row_of u)"
  by (simp add: userRow_def fits_user_def row_of_def pg_texts_def those_Some)

lemma scan_row_of [simp]: "scanUser (row_of u) = u"
  by (simp add: scanUser_def row_of_def)

lemma email_rows_append:
  "email_rows (rows @ [r]) = email_rows rows @ (case ur_email r of None \<Rightarrow> [] | Some e \<Rightarrow> [(e, scanUser r)])"
  by (simp add: email_rows_def List.map_filter_def split: option.split)

lemma email_in: "e \<in> set (map fst (email_rows rows)) \<longleftrightarrow> Some e \<in> set (map ur_email rows)"
  by (induction rows) (auto simp: email_rows_def List.map_filter_def split: option.splits)

lemma email_rows_filter_distinct:
  "distinct (map fst (email_rows rows)) \<Longrightarrow> distinct (map fst (email_rows (filter q rows)))"
proof (induction rows)
  case (Cons r rows)
  show ?case
  proof (cases "ur_email r")
    case None
    then show ?thesis using Cons by (simp add: email_rows_def List.map_filter_def)
  next
    case (Some e)
    have c: "email_rows (r # xs) = (e, scanUser r) # email_rows xs" for xs using Some by (simp add: email_rows_def List.map_filter_def)
    have "e \<notin> set (map fst (email_rows rows))" using Cons.prems unfolding c by simp
    then have "e \<notin> set (map fst (email_rows (filter q rows)))" unfolding email_in by auto
    then show ?thesis using Cons unfolding filter.simps c by (simp add: c)
  qed
qed simp

lemma stampUser_ids [simp]:
  "User_ID (stampUser now u) = User_ID u" "User_Email (stampUser now u) = User_Email u" "User_Roles (stampUser now u) = User_Roles u"
  by (simp_all add: stampUser_def Let_def)

lemma Memory_Create_stamp:
  "Memory_Create u now s =
    (if map_of (mem_users s) (User_ID u) \<noteq> None \<or> map_of (mem_usersByEmail s) (User_Email u) \<noteq> None \<and> User_Email u \<noteq> ''''
     then (Inl (Errorf ''%w: %s'' [Sentinel Store_ErrUserExists]), s)
     else let s1 = s\<lparr>mem_users := map_set (User_ID u) (stampUser now u) (mem_users s)\<rparr>
          in (Inr (stampUser now u),
              if User_Email u \<noteq> '''' then s1\<lparr>mem_usersByEmail := map_set (User_Email u) (stampUser now u) (mem_usersByEmail s1)\<rparr> else s1))"
  by (simp add: Memory_Create_def stampUser_def Let_def)

lemma sim_Create:
  assumes "pg_inv p" "pg_quiet d" "fits_user d (stampUser now u)"
  shows "simulates (Postgres_Create d u now p) (Memory_Create u now (pg_abs p))"
proof -
  let ?u = "stampUser now u" and ?r = "row_of (stampUser now u)"
  let ?dup = "ur_id ?r \<in> set (map ur_id (pg_users p)) \<or> ur_email ?r \<noteq> None \<and> ur_email ?r \<in> set (map ur_email (pg_users p))"
  have pg: "Postgres_Create d u now p =
      (if ?dup then (Inl (Errorf ''%w: %s'' [Sentinel Store_ErrUserExists]), pg_tick p)
       else (Inr ?u, pg_tick (p\<lparr>pg_users := pg_users p @ [?r]\<rparr>)))"
    by (simp add: Postgres_Create_def stampUser_def [symmetric, unfolded Let_def] Let_def userRow_fits [OF assms(3)]
        pg_exec_quiet [OF assms(2)] sql_insert_user_def isDuplicateKeyError_def)
  have i: "map_of (mem_users (pg_abs p)) (User_ID u) = None \<longleftrightarrow> ur_id ?r \<notin> set (map ur_id (pg_users p))"
    unfolding abs_user by (simp add: find_None_key row_of_def)
  have e: "map_of (mem_usersByEmail (pg_abs p)) (User_Email u) = None \<longleftrightarrow> Some (User_Email u) \<notin> set (map ur_email (pg_users p))"
    using find_None_key [of ur_email "Some (User_Email u)" "pg_users p"] by (simp add: pg_abs_def abs_email)
  have dup: "?dup \<longleftrightarrow> map_of (mem_users (pg_abs p)) (User_ID u) \<noteq> None \<or>
      map_of (mem_usersByEmail (pg_abs p)) (User_Email u) \<noteq> None \<and> User_Email u \<noteq> []"
    using i e by (auto simp: row_of_def)
  show ?thesis
  proof (cases ?dup)
    case True
    then show ?thesis unfolding pg Memory_Create_stamp dup [symmetric] if_P [OF True] by (intro simulates_err) (use assms(1) in auto)
  next
    case False
    let ?p = "p\<lparr>pg_users := pg_users p @ [?r]\<rparr>"
    have n: "map_of (mem_users (pg_abs p)) (User_ID u) = None" "User_Email u \<noteq> [] \<Longrightarrow> map_of (mem_usersByEmail (pg_abs p)) (User_Email u) = None"
      using False unfolding dup by auto
    have inv: "pg_inv ?p"
    proof -
      have "distinct (map fst (email_rows (pg_users p @ [?r])))"
        using assms(1) False email_in [of _ "pg_users p"] by (auto simp: pg_inv_def email_rows_append row_of_def)
      then show ?thesis using assms(1) False by (auto simp: pg_inv_def pg_owned_def has_user_row_def row_of_def)
    qed
    have "pg_abs ?p = (let s1 = (pg_abs p)\<lparr>mem_users := map_set (User_ID u) ?u (mem_users (pg_abs p))\<rparr> in
        if User_Email u \<noteq> [] then s1\<lparr>mem_usersByEmail := map_set (User_Email u) ?u (mem_usersByEmail s1)\<rparr> else s1)"
      using map_set_new [OF n(1)] map_set_new [OF n(2)] by (simp add: pg_abs_def email_rows_append row_of_def scanUser_def Let_def)
    then show ?thesis unfolding pg Memory_Create_stamp dup [symmetric] if_not_P [OF False]
      using inv by (simp add: simulates_def Let_def)
  qed
qed

lemma email_rows_del: "map_del k (email_rows rows) = email_rows (filter (\<lambda>r. ur_email r \<noteq> Some k) rows)"
  by (induction rows) (auto simp: email_rows_def List.map_filter_def)

lemma email_rows_skip: "(\<And>r. r \<in> set rows \<Longrightarrow> \<not> q r \<Longrightarrow> ur_email r = None) \<Longrightarrow> email_rows (filter q rows) = email_rows rows"
  by (induction rows) (auto simp: email_rows_def List.map_filter_def)

lemma email_unique:
  "distinct (map fst (email_rows rows)) \<Longrightarrow> r \<in> set rows \<Longrightarrow> r' \<in> set rows \<Longrightarrow> ur_email r = Some e \<Longrightarrow> ur_email r' = Some e \<Longrightarrow> r = r'"
proof (induction rows)
  case (Cons x rows)
  have 1: "ur_email y \<noteq> Some e" if "ur_email x = Some e" "y \<in> set rows" for y
    using Cons.prems(1) email_in [of e rows] that by (auto simp: email_rows_def List.map_filter_def image_iff)
  have 2: "distinct (map fst (email_rows rows))"
    using Cons.prems(1) by (auto simp: email_rows_def List.map_filter_def split: option.splits if_splits)
  show ?case using Cons.prems(2-5) 1 Cons.IH [OF 2] unfolding list.set(2) insert_iff by metis
qed simp

lemma email_rows_delete:
  assumes "pg_inv p" "r0 \<in> set (pg_users p)"
  shows "email_rows (filter (\<lambda>r. ur_id r \<noteq> ur_id r0) (pg_users p)) = map_del (User_Email (scanUser r0)) (email_rows (pg_users p))"
proof (cases "ur_email r0")
  case None
  have "r = r0" if "r \<in> set (pg_users p)" "ur_id r = ur_id r0" for r
    using assms that by (auto simp: pg_inv_def distinct_map inj_on_def)
  then have "email_rows (filter (\<lambda>r. ur_id r \<noteq> ur_id r0) (pg_users p)) = email_rows (pg_users p)"
    using None by (intro email_rows_skip) auto
  moreover have "filter (\<lambda>r. ur_email r \<noteq> Some []) (pg_users p) = pg_users p"
    using assms(1) by (intro filter_True) (auto simp: pg_inv_def image_iff)
  ultimately show ?thesis using None by (simp add: email_rows_del scanUser_def)
next
  case (Some e)
  have "ur_id r = ur_id r0 \<longleftrightarrow> ur_email r = Some e" if "r \<in> set (pg_users p)" for r
    using assms that Some email_unique [of "pg_users p" r r0 e] by (auto simp: pg_inv_def distinct_map inj_on_def)
  then have "filter (\<lambda>r. ur_id r \<noteq> ur_id r0) (pg_users p) = filter (\<lambda>r. ur_email r \<noteq> Some e) (pg_users p)"
    by (intro filter_cong) auto
  then show ?thesis using Some by (simp add: email_rows_del scanUser_def)
qed

lemma keyed_pair_filter: "map (\<lambda>r. (f r, g r)) (filter (\<lambda>r. f r \<noteq> k) rows) = map_del k (map (\<lambda>r. (f r, g r)) rows)"
  by (induction rows) auto

lemma distinct_map_filter: "distinct (map f xs) \<Longrightarrow> distinct (map f (filter q xs))"
  by (simp add: distinct_map inj_on_def)

lemma pg_inv_delete:
  assumes "pg_inv p"
  shows "pg_inv (snd (projr (sql_delete_user u p)))"
proof -
  have "distinct (map fst (email_rows (filter (\<lambda>r. ur_id r \<noteq> u) (pg_users p))))"
    using assms by (intro email_rows_filter_distinct) (simp add: pg_inv_def)
  then show ?thesis
    using assms by (auto simp: sql_delete_user_def pg_inv_def pg_owned_def has_user_row_def intro!: distinct_map_filter)
qed

lemma sim_Delete:
  assumes "pg_inv p" "pg_quiet d" "uuid_ok d u"
  shows "simulates (Postgres_Delete d u p) (Memory_Delete u (pg_abs p))"
proof -
  let ?p = "snd (projr (sql_delete_user u p))"
  have pg: "Postgres_Delete d u p =
      (if has_user_row p u then Inr () else Inl (Errorf ''%w: %s'' [Sentinel Store_ErrUserNotFound]), pg_tick ?p)"
    by (simp add: Postgres_Delete_def assms(3) pg_exec_quiet [OF assms(2)] sql_delete_user_def)
  show ?thesis
  proof (cases "find (\<lambda>r. ur_id r = u) (pg_users p)")
    case None
    then have n: "\<not> has_user_row p u" using find_None_key [of ur_id u "pg_users p"] by (simp add: has_user_row_def)
    then have "r \<in> set (pg_users p) \<Longrightarrow> ur_id r \<noteq> u" "t \<in> set (pg_refresh p) \<Longrightarrow> RT_UserID t \<noteq> u" "x \<in> set (pg_pats p) \<Longrightarrow> PAT_UserID x \<noteq> u"
      "c \<in> set (pg_credentials p) \<Longrightarrow> cr_user_id c \<noteq> u" "i \<in> set (pg_oauth p) \<Longrightarrow> OI_UserID i \<noteq> u"
      "y \<in> set (pg_wallet p) \<Longrightarrow> WI_UserID y \<noteq> u" for r t x c i y
      using assms(1) by (auto simp: has_user_row_def pg_inv_def pg_owned_def)
    then have "?p = p" by (simp add: sql_delete_user_def cong: filter_cong)
    then show ?thesis unfolding pg using n None assms(1) by (simp add: Memory_Delete_def abs_user simulates_def)
  next
    case (Some r0)
    then have r0: "r0 \<in> set (pg_users p)" "ur_id r0 = u" by (auto simp: find_Some_iff)
    then have y: "has_user_row p u" by (auto simp: has_user_row_def)
    have "pg_abs ?p = snd (Memory_Delete u (pg_abs p))"
      using Some email_rows_delete [OF assms(1) r0(1)] r0(2)
      by (simp add: Memory_Delete_def abs_user) (simp add: pg_abs_def sql_delete_user_def keyed_delete_func keyed_pair_filter)
    then show ?thesis unfolding pg using y Some pg_inv_delete [OF assms(1)] by (simp add: simulates_def Memory_Delete_def abs_user)
  qed
qed

subsection \<open>Refresh tokens\<close>

definition fits_refresh :: "pg_driver \<Rightarrow> RefreshToken \<Rightarrow> PG \<Rightarrow> bool" where
  "fits_refresh d t p \<longleftrightarrow> text_ok d (Some 255) (RT_Hash t) \<and> uuid_ok d (RT_UserID t) \<and> text_ok d (Some 255) (RT_Parent t) \<and>
     text_ok d None (RT_Parent t) \<and> time_ok (RT_ExpiresAt t) \<and> time_ok (RT_CreatedAt t) \<and> RT_RotatedAt t = None \<and>
     RT_EndedAt t = None \<and> RT_Hash t \<notin> set (map RT_Hash (pg_refresh p))"

definition stampRefresh :: "time \<Rightarrow> RefreshToken \<Rightarrow> RefreshToken" where
  "stampRefresh now t = (if time_IsZero (RT_CreatedAt t) then t\<lparr>RT_CreatedAt := now\<rparr> else t)"

lemma refreshRow_fits: "fits_refresh d t p \<Longrightarrow> refreshRow d t = Some t"
  by (simp add: refreshRow_def fits_refresh_def)

lemma abs_refresh: "map_of (mem_refreshTokens (pg_abs p)) h = find (\<lambda>t. RT_Hash t = h) (pg_refresh p)"
  by (simp add: pg_abs_def map_of_keyed)

lemma insertRefresh_fits:
  assumes "fits_refresh d t p" "pg_quiet d"
  shows "pg_insertRefresh d t p =
    (if has_user_row p (RT_UserID t) then (Inr (), pg_tick (p\<lparr>pg_refresh := pg_refresh p @ [t]\<rparr>))
     else (Inl (Errorf ''%w: %s'' [Sentinel Store_ErrUserNotFound]), pg_tick p))"
  using assms(1)
  by (simp add: pg_insertRefresh_def refreshRow_fits [OF assms(1)] pg_exec_quiet [OF assms(2)] sql_insert_refresh_def
      fits_refresh_def insertError_def)

lemma pg_inv_insert_refresh:
  assumes "pg_inv p" "RT_Hash t \<notin> set (map RT_Hash (pg_refresh p))" "has_user_row p (RT_UserID t)"
  shows "pg_inv (p\<lparr>pg_refresh := pg_refresh p @ [t]\<rparr>)"
  using assms by (auto simp: pg_inv_def pg_owned_def has_user_row_def)

lemma abs_insert_refresh:
  assumes "RT_Hash t \<notin> set (map RT_Hash (pg_refresh p))"
  shows "pg_abs (p\<lparr>pg_refresh := pg_refresh p @ [t]\<rparr>) =
    (pg_abs p)\<lparr>mem_refreshTokens := map_set (RT_Hash t) t (mem_refreshTokens (pg_abs p))\<rparr>"
  using keyed_insert [of RT_Hash, OF assms] by (simp add: pg_abs_def)

lemma fits_refresh_tick [simp]: "fits_refresh d t (pg_tick p) = fits_refresh d t p"
  by (simp add: fits_refresh_def)

lemma sim_SaveRefreshToken:
  assumes "pg_inv p" "pg_quiet d" "fits_refresh d (stampRefresh now t) p"
  shows "simulates (Postgres_SaveRefreshToken d t now p) (Memory_SaveRefreshToken t now (pg_abs p))"
proof -
  let ?t = "stampRefresh now t"
  have new: "RT_Hash ?t \<notin> set (map RT_Hash (pg_refresh p))" and par: "text_ok d None (RT_Parent ?t)"
    using assms(3) by (simp_all add: fits_refresh_def)
  have mem: "Memory_SaveRefreshToken t now (pg_abs p) =
      (if RT_Parent ?t \<noteq> [] \<and> find (\<lambda>r. RT_Hash r = RT_Parent ?t) (pg_refresh p) = None
       then (Inl (Errorf ''%w: family root missing'' [Sentinel Store_ErrTokenRevoked]), pg_abs p)
       else if RT_Parent ?t \<noteq> [] \<and> RT_EndedAt (the (find (\<lambda>r. RT_Hash r = RT_Parent ?t) (pg_refresh p))) \<noteq> None
       then (Inl (Errorf ''%w: session ended'' [Sentinel Store_ErrTokenRevoked]), pg_abs p)
       else if has_user_row p (RT_UserID ?t)
       then (Inr (), (pg_abs p)\<lparr>mem_refreshTokens := map_set (RT_Hash ?t) ?t (mem_refreshTokens (pg_abs p))\<rparr>)
       else (Inl (Errorf ''%w: %s'' [Sentinel Store_ErrUserNotFound]), pg_abs p))"
    unfolding Memory_SaveRefreshToken_def stampRefresh_def [symmetric] Let_def abs_refresh abs_requireUser
    by (auto split: option.split)
  have ins: "simulates (pg_insertRefresh d ?t p') (if has_user_row p (RT_UserID ?t)
       then (Inr (), (pg_abs p)\<lparr>mem_refreshTokens := map_set (RT_Hash ?t) ?t (mem_refreshTokens (pg_abs p))\<rparr>)
       else (Inl (Errorf ''%w: %s'' [Sentinel Store_ErrUserNotFound]), pg_abs p))" if "p' = p \<or> p' = pg_tick (pg_tick p)" for p'
  proof -
    have "fits_refresh d ?t p'" "pg_abs p' = pg_abs p" "pg_inv p'" "has_user_row p' u = has_user_row p u" "pg_refresh p' = pg_refresh p" for u
      using that assms(1,3) by auto
    then show ?thesis using insertRefresh_fits [OF _ assms(2)] pg_inv_insert_refresh [of p' ?t] abs_insert_refresh [of ?t p'] new
      by (simp add: simulates_def)
  qed
  show ?thesis
  proof (cases "RT_Parent ?t = []")
    case True
    then have "Postgres_SaveRefreshToken d t now p = pg_insertRefresh d ?t p"
      by (simp add: Postgres_SaveRefreshToken_def stampRefresh_def [symmetric])
    then show ?thesis unfolding mem using ins [of p] True by simp
  next
    case False
    then show ?thesis
      unfolding mem Postgres_SaveRefreshToken_def stampRefresh_def [symmetric] Let_def pg_tx_quiet [OF assms(2)] par pg_exec_quiet [OF assms(2)]
      using assms(1) ins [of "pg_tick (pg_tick p)"]
      by (auto simp: simulates_def insertRefresh_fits [OF _ assms(2)] split: option.split sum.split prod.split)
  qed
qed

lemma find_rotatable:
  assumes "distinct (map RT_Hash rows)"
  shows "find (rotatable h now) rows =
    (case find (\<lambda>t. RT_Hash t = h) rows of None \<Rightarrow> None | Some t \<Rightarrow> if \<not> RT_Revoked t \<and> now < RT_ExpiresAt t then Some t else None)"
  using assms
proof (induction rows)
  case (Cons r rows)
  have "RT_Hash x \<noteq> RT_Hash r" if "x \<in> set rows" for x using Cons.prems that by (metis distinct.simps(2) list.simps(9) image_eqI list.set_map)
  then have "find (rotatable h now) rows = None" if "RT_Hash r = h" using that by (auto simp: find_None_iff rotatable_def)
  moreover have "rotatable h now r \<longleftrightarrow> RT_Hash r = h \<and> \<not> RT_Revoked r \<and> now < RT_ExpiresAt r" by (simp add: rotatable_def)
  ultimately show ?case using Cons by simp
qed simp

lemma pg_inv_refresh_map:
  assumes "pg_inv p" "\<And>t. RT_Hash (g t) = RT_Hash t" "\<And>t. RT_UserID (g t) = RT_UserID t"
  shows "pg_inv (p\<lparr>pg_refresh := map g (pg_refresh p)\<rparr>)"
  using assms by (auto simp: pg_inv_def pg_owned_def has_user_row_def o_def)

lemma sim_RotateRefreshToken:
  assumes "pg_inv p" "pg_quiet d" "text_ok d None h" "time_ok now"
  shows "fst (Postgres_RotateRefreshToken d h now p) = fst (Memory_RotateRefreshToken h now (pg_abs p)) \<and>
    pg_abs (snd (Postgres_RotateRefreshToken d h now p)) = snd (Memory_RotateRefreshToken h now (pg_abs p)) \<and>
    pg_inv (snd (Postgres_RotateRefreshToken d h now p))"
proof -
  let ?upd = "\<lambda>t. t\<lparr>RT_Revoked := True, RT_RotatedAt := Some now\<rparr>"
  let ?step = "\<lambda>t. if rotatable h now t then ?upd t else t"
  let ?p = "p\<lparr>pg_refresh := map ?step (pg_refresh p)\<rparr>"
  have dist: "distinct (map RT_Hash (pg_refresh p))" using assms(1) by (simp add: pg_inv_def)
  have inv: "pg_inv ?p" using assms(1) by (intro pg_inv_refresh_map) auto
  have pg: "Postgres_RotateRefreshToken d h now p =
      (case find (rotatable h now) (pg_refresh p) of
         Some t \<Rightarrow> ((Some (?upd t), None), pg_tick ?p)
       | None \<Rightarrow>
           (case find (\<lambda>t. RT_Hash t = h) (pg_refresh ?p) of
              None \<Rightarrow> ((None, Some (Sentinel Store_ErrTokenNotFound)), pg_tick ?p)
            | Some t \<Rightarrow> ((Some t, Some (Sentinel (if RT_Revoked t then Store_ErrTokenRevoked else Store_ErrTokenExpired))), pg_tick ?p)))"
    by (simp add: Postgres_RotateRefreshToken_def Postgres_GetRefreshToken_def assms(3,4) pg_exec_quiet [OF assms(2)]
        pg_query_quiet [OF assms(2)] sql_rotate_def split: option.split)
  have same: "?p = p" if "find (rotatable h now) (pg_refresh p) = None"
    using that by (simp add: find_None_iff map_idI)
  show ?thesis
  proof (cases "find (\<lambda>t. RT_Hash t = h) (pg_refresh p)")
    case None
    then have f: "find (rotatable h now) (pg_refresh p) = None" by (simp add: find_rotatable [OF dist])
    show ?thesis unfolding pg f option.case same [OF f] using None assms(1) by (simp add: Memory_RotateRefreshToken_def abs_refresh)
  next
    case (Some t)
    show ?thesis
    proof (cases "\<not> RT_Revoked t \<and> now < RT_ExpiresAt t")
      case True
      then have f: "find (rotatable h now) (pg_refresh p) = Some t" by (simp add: find_rotatable [OF dist] Some)
      have t: "RT_Hash (?upd t) = h" using Some by (auto simp: find_Some_iff)
      have uniq: "r = t" if "r \<in> set (pg_refresh p)" "RT_Hash r = h" for r
        using Some dist that by (auto simp: find_Some_iff distinct_map inj_on_def)
      have m: "map ?step (pg_refresh p) = map (\<lambda>r. if RT_Hash r = h then ?upd r else r) (pg_refresh p)"
        using uniq True by (auto simp: rotatable_def)
      have "pg_abs ?p = (pg_abs p)\<lparr>mem_refreshTokens := map_set h (?upd t) (mem_refreshTokens (pg_abs p))\<rparr>"
        unfolding m using keyed_find_map [OF dist Some, of ?upd, OF t] by (simp add: pg_abs_def)
      then show ?thesis unfolding pg f option.case using inv Some True
        by (simp add: Memory_RotateRefreshToken_def abs_refresh Let_def)
    next
      case False
      then have f: "find (rotatable h now) (pg_refresh p) = None" by (simp add: find_rotatable [OF dist] Some)
      show ?thesis unfolding pg f option.case same [OF f] using Some False assms(1)
        by (auto simp: Memory_RotateRefreshToken_def abs_refresh)
    qed
  qed
qed

lemma sim_RevokeTokens:
  assumes "pg_inv p" "pg_quiet d" "text_ok d None h" "pg_time (pg_clock d (pg_stmt p)) = now"
  shows "simulates (Postgres_RevokeTokens d h now p) (Memory_RevokeTokens h now (pg_abs p))"
proof -
  let ?g = "\<lambda>t. if inFamily h t then endToken now t else t"
  let ?p = "p\<lparr>pg_refresh := map ?g (pg_refresh p)\<rparr>"
  have inv: "pg_inv ?p" using assms(1) by (intro pg_inv_refresh_map) auto
  have abs: "pg_abs ?p = snd (Memory_RevokeTokens h now (pg_abs p))"
    using keyed_each [of RT_Hash ?g "pg_refresh p"] by (simp add: Memory_RevokeTokens_def pg_abs_def inFamily_def)
  have "Postgres_RevokeTokens d h now p = (Inr (), pg_tick (pg_tick (?p\<lparr>pg_stmt := Suc (Suc (pg_stmt p))\<rparr>)))"
    by (simp add: Postgres_RevokeTokens_def Let_def pg_tx_quiet [OF assms(2)] pg_exec_quiet [OF assms(2)] assms(3,4) sql_revoke_def pg_tick_def)
  moreover have "pg_abs (?p\<lparr>pg_stmt := n\<rparr>) = pg_abs ?p" "pg_inv (?p\<lparr>pg_stmt := n\<rparr>) = pg_inv ?p" for n
    by (simp_all add: pg_abs_def pg_inv_def pg_owned_def has_user_row_def)
  ultimately show ?thesis using inv abs by (simp add: simulates_def Memory_RevokeTokens_def)
qed

subsection \<open>Personal access tokens\<close>

definition fits_pat :: "pg_driver \<Rightarrow> PersonalAccessToken \<Rightarrow> PG \<Rightarrow> bool" where
  "fits_pat d t p \<longleftrightarrow> uuid_ok d (PAT_ID t) \<and> text_ok d (Some 255) (PAT_Hash t) \<and> uuid_ok d (PAT_UserID t) \<and> text_ok d None (PAT_Name t) \<and>
     (\<forall>x\<in>set (PAT_Scopes t). text_ok d None x) \<and> map_option pg_time (PAT_ExpiresAt t) = PAT_ExpiresAt t \<and>
     map_option pg_time (PAT_LastUsedAt t) = PAT_LastUsedAt t \<and> time_ok (PAT_CreatedAt t) \<and>
     PAT_ID t \<notin> set (map PAT_ID (pg_pats p)) \<and> (has_user_row p (PAT_UserID t) \<or> PAT_Hash t \<notin> set (map PAT_Hash (pg_pats p)))"

lemma patRow_fits: "fits_pat d t p \<Longrightarrow> patRow d t = Some t"
  by (simp add: patRow_def fits_pat_def pg_texts_def those_Some)

lemma abs_pats: "map_of (mem_pats (pg_abs p)) h = find (\<lambda>t. PAT_Hash t = h) (pg_pats p)"
  by (simp add: pg_abs_def map_of_keyed)

lemma stampPAT_simps [simp]: "PAT_Hash (stampPAT now t) = PAT_Hash t" "PAT_UserID (stampPAT now t) = PAT_UserID t" "PAT_ID (stampPAT now t) = PAT_ID t"
  by (simp_all add: stampPAT_def)

text \<open>The insert of one row, by either method.\<close>

lemma savePATLocked_abs:
  "Memory_savePATLocked t now (pg_abs p) =
    (if PAT_Hash t \<in> set (map PAT_Hash (pg_pats p)) then (Inl (Sentinel Store_ErrPATExists), pg_abs p)
     else (Inr (stampPAT now t), pg_abs (p\<lparr>pg_pats := pg_pats p @ [stampPAT now t]\<rparr>)))"
proof -
  have "PAT_Hash t \<notin> set (map PAT_Hash (pg_pats p)) \<Longrightarrow>
      pg_abs (p\<lparr>pg_pats := pg_pats p @ [stampPAT now t]\<rparr>) =
      (pg_abs p)\<lparr>mem_pats := map_set (PAT_Hash t) (stampPAT now t) (mem_pats (pg_abs p))\<rparr>"
    using keyed_insert [of PAT_Hash "stampPAT now t" "pg_pats p"] by (simp add: pg_abs_def)
  moreover have "(\<exists>y. map_of (mem_pats (pg_abs p)) (PAT_Hash t) = Some y) \<longleftrightarrow> PAT_Hash t \<in> set (map PAT_Hash (pg_pats p))"
    using find_None_key [of PAT_Hash "PAT_Hash t" "pg_pats p"] unfolding abs_pats by auto
  ultimately show ?thesis by (simp add: Memory_savePATLocked_def stampPAT_def [symmetric] Let_def)
qed

lemma sql_insert_pat_fits:
  assumes "fits_pat d t p"
  shows "sql_insert_pat t p =
    (if \<not> has_user_row p (PAT_UserID t) then Inl pqForeignKeyViolation
     else if PAT_Hash t \<in> set (map PAT_Hash (pg_pats p)) then Inl pqUniqueViolation
     else Inr ((), p\<lparr>pg_pats := pg_pats p @ [t]\<rparr>))"
  using assms by (auto simp: sql_insert_pat_def fits_pat_def)

lemma pg_inv_insert_pat:
  assumes "pg_inv p" "fits_pat d t p" "has_user_row p (PAT_UserID t)" "PAT_Hash t \<notin> set (map PAT_Hash (pg_pats p))"
  shows "pg_inv (p\<lparr>pg_pats := pg_pats p @ [t]\<rparr>)"
  using assms by (auto simp: pg_inv_def pg_owned_def has_user_row_def fits_pat_def)

lemma patSaveError_codes:
  "patSaveError pqForeignKeyViolation = Errorf ''%w: %s'' [Sentinel Store_ErrUserNotFound]"
  "patSaveError pqUniqueViolation = Errorf ''%w: %s'' [Sentinel Store_ErrPATExists]"
  by (simp_all add: patSaveError_def isDuplicateKeyError_def insertError_def pqForeignKeyViolation_def pqUniqueViolation_def)

lemma sim_SavePAT:
  assumes "pg_inv p" "pg_quiet d" "fits_pat d (stampPAT now t) p"
  shows "simulates (Postgres_SavePAT d t now p) (Memory_SavePAT t now (pg_abs p))"
proof -
  have "Postgres_SavePAT d t now p =
     (if \<not> has_user_row p (PAT_UserID t) then (Inl (Errorf ''%w: %s'' [Sentinel Store_ErrUserNotFound]), pg_tick p)
      else if PAT_Hash t \<in> set (map PAT_Hash (pg_pats p)) then (Inl (Errorf ''%w: %s'' [Sentinel Store_ErrPATExists]), pg_tick p)
      else (Inr (stampPAT now t), pg_tick (p\<lparr>pg_pats := pg_pats p @ [stampPAT now t]\<rparr>)))"
    by (simp add: Postgres_SavePAT_def Let_def patRow_fits [OF assms(3)] pg_exec_quiet [OF assms(2)] sql_insert_pat_fits [OF assms(3)] patSaveError_codes)
  then show ?thesis using assms(1) pg_inv_insert_pat [OF assms(1,3)]
    by (simp add: Memory_SavePAT_def abs_requireUser savePATLocked_abs simulates_def)
qed

definition prunePATs :: "time \<Rightarrow> string \<Rightarrow> PG \<Rightarrow> PG" where
  "prunePATs at u p = p\<lparr>pg_pats := filter (\<lambda>t. \<not> (PAT_UserID t = u \<and> patExpired at t)) (pg_pats p)\<rparr>"

lemma pg_inv_prune: "pg_inv p \<Longrightarrow> pg_inv (prunePATs at u p)"
  by (auto simp: prunePATs_def pg_inv_def pg_owned_def has_user_row_def distinct_map_filter)

lemma abs_prune: "pg_abs (prunePATs at u p) =
    (pg_abs p)\<lparr>mem_pats := maps_DeleteFunc (\<lambda>t. PAT_UserID t = u \<and> patExpired at t) (mem_pats (pg_abs p))\<rparr>"
  by (simp add: prunePATs_def pg_abs_def keyed_delete_func)

lemma fits_pat_prune: "fits_pat d t p \<Longrightarrow> fits_pat d t (prunePATs at u p)"
  by (auto simp: fits_pat_def prunePATs_def has_user_row_def)

lemma prune_tick: "prunePATs at u (pg_tick p) = pg_tick (prunePATs at u p)"
  by (simp add: prunePATs_def pg_tick_def)

lemma sim_SavePATLimited:
  assumes "pg_inv p" "pg_quiet d" "fits_pat d (stampPAT now t) p" "time_ok at" "PAT_Hash t \<notin> set (map PAT_Hash (pg_pats p))"
  shows "simulates (Postgres_SavePATLimited d t limit at now p) (Memory_SavePATLimited t limit at now (pg_abs p))"
proof -
  let ?t = "stampPAT now t" and ?q = "prunePATs at (PAT_UserID t) p"
  let ?live = "length (filter (\<lambda>q. PAT_UserID q = PAT_UserID t) (pg_pats ?q))"
  have u: "uuid_ok d (PAT_UserID t)" using assms(3) by (simp add: fits_pat_def)
  have user: "has_user_row ?q x = has_user_row p x" for x by (simp add: prunePATs_def has_user_row_def)
  have new: "PAT_Hash t \<notin> set (map PAT_Hash (pg_pats ?q))" using assms(5) by (auto simp: prunePATs_def)
  have live: "filter (\<lambda>q. PAT_UserID q = PAT_UserID t \<and> \<not> patExpired at q) (pg_pats p) = filter (\<lambda>q. PAT_UserID q = PAT_UserID t) (pg_pats ?q)"
    by (auto simp: prunePATs_def intro: filter_cong)
  have mem: "Memory_SavePATLimited t limit at now (pg_abs p) =
      (if \<not> has_user_row p (PAT_UserID t) then (Inl (Errorf ''%w: %s'' [Sentinel Store_ErrUserNotFound]), pg_abs p)
       else if limit \<le> int ?live then (Inl (Sentinel Store_ErrPATLimitReached), pg_abs ?q)
       else Memory_savePATLocked t now (pg_abs ?q))"
    by (simp add: Memory_SavePATLimited_def abs_requireUser Let_def abs_prune live [symmetric]) (simp add: pg_abs_def)
  have prune: "sql_prune_pats at (PAT_UserID t) s = Inr ((), prunePATs at (PAT_UserID t) s)" for s
    by (simp add: sql_prune_pats_def prunePATs_def)
  have ins: "sql_insert_pat_limited limit ?t (pg_tick (pg_tick (pg_tick ?q))) =
      (if limit \<le> int ?live then Inr (False, pg_tick (pg_tick (pg_tick ?q)))
       else Inr (True, pg_tick (pg_tick (pg_tick (?q\<lparr>pg_pats := pg_pats ?q @ [?t]\<rparr>)))))" if "has_user_row p (PAT_UserID t)"
    using sql_insert_pat_fits [of d ?t "pg_tick (pg_tick (pg_tick ?q))"] fits_pat_prune [OF assms(3), of at "PAT_UserID t"] that user new
    by (simp add: sql_insert_pat_limited_def fits_pat_def)
  have pg: "Postgres_SavePATLimited d t limit at now p =
      (if \<not> has_user_row p (PAT_UserID t) then (Inl (Errorf ''%w: %s'' [Sentinel Store_ErrUserNotFound]), pg_rollback p (pg_tick (pg_tick p)))
       else if limit \<le> int ?live then (Inl (Sentinel Store_ErrPATLimitReached), pg_tick (pg_tick (pg_tick (pg_tick (pg_tick ?q)))))
       else (Inr ?t, pg_tick (pg_tick (pg_tick (pg_tick (pg_tick (?q\<lparr>pg_pats := pg_pats ?q @ [?t]\<rparr>)))))))"
    unfolding Postgres_SavePATLimited_def Postgres_lockUser_def Let_def pg_tx_quiet [OF assms(2)] stampPAT_simps u pg_exec_quiet [OF assms(2)]
      patRow_fits [OF assms(3)] assms(4)
    by (simp add: prune prune_tick ins)
  have "pg_inv (?q\<lparr>pg_pats := pg_pats ?q @ [?t]\<rparr>)" if "has_user_row p (PAT_UserID t)"
    using pg_inv_insert_pat [OF pg_inv_prune [OF assms(1)] fits_pat_prune [OF assms(3)]] that user new by simp
  then show ?thesis using assms(1) new pg_inv_prune [OF assms(1), of at "PAT_UserID t"] unfolding mem pg savePATLocked_abs
    by (simp add: simulates_def)
qed

lemma filter_unique:
  assumes "distinct (map f rows)" "x \<in> set rows" "\<And>r. r \<in> set rows \<Longrightarrow> q r \<longleftrightarrow> r = x"
  shows "filter (\<lambda>r. \<not> q r) rows = filter (\<lambda>r. f r \<noteq> f x) rows"
  using assms by (intro filter_cong) (auto simp: distinct_map inj_on_def)

lemma find_keyed: "find (\<lambda>kv. q (snd kv)) (keyed f rows) = map_option (\<lambda>r. (f r, r)) (find q rows)"
  by (induction rows) auto

lemma sim_DeletePAT:
  assumes "pg_inv p" "pg_quiet d" "uuid_ok d u" "uuid_ok d i"
  shows "simulates (Postgres_DeletePAT d u i p) (Memory_DeletePAT u i (pg_abs p))"
proof -
  let ?q = "\<lambda>t. PAT_ID t = i \<and> PAT_UserID t = u"
  let ?p = "p\<lparr>pg_pats := filter (\<lambda>t. \<not> ?q t) (pg_pats p)\<rparr>"
  have pg: "Postgres_DeletePAT d u i p = (if list_ex ?q (pg_pats p) then Inr () else Inl (Sentinel Store_ErrTokenNotFound), pg_tick ?p)"
    by (simp add: Postgres_DeletePAT_def pair_args_def assms(3,4) pg_exec_quiet [OF assms(2)] sql_delete_pat_def)
  have mem: "Memory_DeletePAT u i (pg_abs p) = (case find ?q (pg_pats p) of
      Some t \<Rightarrow> (Inr (), (pg_abs p)\<lparr>mem_pats := map_del (PAT_Hash t) (mem_pats (pg_abs p))\<rparr>)
    | None \<Rightarrow> (Inl (Sentinel Store_ErrTokenNotFound), pg_abs p))"
    using find_keyed [of ?q PAT_Hash "pg_pats p"] by (simp add: Memory_DeletePAT_def pg_abs_def split: option.split)
  have inv: "pg_inv ?p" using assms(1) by (auto simp: pg_inv_def pg_owned_def has_user_row_def distinct_map_filter)
  show ?thesis
  proof (cases "find ?q (pg_pats p)")
    case None
    then have n: "\<not> list_ex ?q (pg_pats p)" and same: "?p = p" by (auto simp: find_None_iff list_ex_iff filter_id_conv)
    show ?thesis unfolding pg same mem None using n assms(1) by (simp add: simulates_def)
  next
    case (Some t)
    then have t: "t \<in> set (pg_pats p)" "?q t" by (auto simp: find_Some_iff)
    then have "list_ex ?q (pg_pats p)" by (auto simp: list_ex_iff)
    moreover have "filter (\<lambda>t. \<not> ?q t) (pg_pats p) = filter (\<lambda>r. PAT_Hash r \<noteq> PAT_Hash t) (pg_pats p)"
      using assms(1) t by (intro filter_unique) (auto simp: pg_inv_def distinct_map inj_on_def)
    then have "pg_abs ?p = (pg_abs p)\<lparr>mem_pats := map_del (PAT_Hash t) (mem_pats (pg_abs p))\<rparr>"
      by (simp add: pg_abs_def keyed_del)
    ultimately show ?thesis unfolding pg mem Some option.case using inv by (simp add: simulates_def)
  qed
qed

lemma sim_TouchPAT:
  assumes "pg_inv p" "pg_quiet d" "text_ok d None h" "time_ok t"
  shows "simulates (Postgres_TouchPAT d h t p) (Memory_TouchPAT h t (pg_abs p))"
proof -
  let ?upd = "\<lambda>r. r\<lparr>PAT_LastUsedAt := Some t\<rparr>"
  let ?g = "\<lambda>r. if PAT_Hash r = h then ?upd r else r"
  let ?p = "p\<lparr>pg_pats := map ?g (pg_pats p)\<rparr>"
  have dist: "distinct (map PAT_Hash (pg_pats p))" using assms(1) by (simp add: pg_inv_def)
  have pg: "Postgres_TouchPAT d h t p = (Inr (), pg_tick ?p)"
    by (simp add: Postgres_TouchPAT_def assms(3,4) pg_exec_quiet [OF assms(2)] sql_touch_pat_def)
  have m: "map f (map ?g (pg_pats p)) = map f (pg_pats p)" if "\<And>r. f (?upd r) = f r" for f :: "PersonalAccessToken \<Rightarrow> string"
    using that by simp
  have inv: "pg_inv ?p" using assms(1) m [of PAT_Hash] m [of PAT_ID] by (auto simp: pg_inv_def pg_owned_def has_user_row_def simp del: map_map)
  have "pg_abs ?p = snd (Memory_TouchPAT h t (pg_abs p))"
  proof (cases "find (\<lambda>r. PAT_Hash r = h) (pg_pats p)")
    case None
    then have "?p = p" by (auto simp: find_None_iff intro!: PG.equality map_idI)
    then show ?thesis using None by (simp add: Memory_TouchPAT_def abs_pats)
  next
    case (Some r)
    then have "PAT_Hash (?upd r) = h" by (auto simp: find_Some_iff)
    from keyed_find_map [OF dist Some, of ?upd, OF this] show ?thesis using Some
      by (simp add: Memory_TouchPAT_def abs_pats) (simp add: pg_abs_def)
  qed
  then show ?thesis unfolding pg using inv by (simp add: simulates_def Memory_TouchPAT_def split: option.split)
qed

subsection \<open>Identities\<close>

definition fits_oauth :: "pg_driver \<Rightarrow> OAuthIdentity \<Rightarrow> PG \<Rightarrow> bool" where
  "fits_oauth d i p \<longleftrightarrow> uuid_ok d (OI_ID i) \<and> uuid_ok d (OI_UserID i) \<and> text_ok d (Some 50) (OI_Provider i) \<and>
     text_ok d (Some 255) (OI_ExternalID i) \<and> text_ok d (Some 255) (OI_Email i) \<and> time_ok (OI_CreatedAt i) \<and>
     OI_ID i \<notin> set (map OI_ID (pg_oauth p)) \<and>
     (has_user_row p (OI_UserID i) \<or> (OI_Provider i, OI_ExternalID i) \<notin> set (map (\<lambda>j. (OI_Provider j, OI_ExternalID j)) (pg_oauth p)))"

definition fits_wallet :: "pg_driver \<Rightarrow> WalletIdentity \<Rightarrow> PG \<Rightarrow> bool" where
  "fits_wallet d i p \<longleftrightarrow> uuid_ok d (WI_ID i) \<and> uuid_ok d (WI_UserID i) \<and> text_ok d (Some 50) (WI_Chain i) \<and>
     text_ok d (Some 255) (WI_Address i) \<and> time_ok (WI_CreatedAt i) \<and> WI_ID i \<notin> set (map WI_ID (pg_wallet p)) \<and>
     (has_user_row p (WI_UserID i) \<or> (WI_Chain i, WI_Address i) \<notin> set (map (\<lambda>j. (WI_Chain j, WI_Address j)) (pg_wallet p)))"

abbreviation stampOAuth :: "time \<Rightarrow> OAuthIdentity \<Rightarrow> OAuthIdentity" where
  "stampOAuth now i \<equiv> if time_IsZero (OI_CreatedAt i) then i\<lparr>OI_CreatedAt := now\<rparr> else i"

abbreviation stampWallet :: "time \<Rightarrow> WalletIdentity \<Rightarrow> WalletIdentity" where
  "stampWallet now i \<equiv> if time_IsZero (WI_CreatedAt i) then i\<lparr>WI_CreatedAt := now\<rparr> else i"

lemma insertError_codes:
  "insertError w pqForeignKeyViolation = Errorf ''%w: %s'' [Sentinel Store_ErrUserNotFound]"
  "isDuplicateKeyError pqUniqueViolation" "\<not> isDuplicateKeyError pqForeignKeyViolation"
  by (simp_all add: isDuplicateKeyError_def insertError_def pqForeignKeyViolation_def pqUniqueViolation_def)

lemma sim_SaveOAuthIdentity:
  assumes "pg_inv p" "pg_quiet d" "fits_oauth d (stampOAuth now i) p"
  shows "simulates (Postgres_SaveOAuthIdentity d i now p) (Memory_SaveOAuthIdentity i now (pg_abs p))"
proof -
  let ?i = "stampOAuth now i" and ?key = "\<lambda>j. (OI_Provider j, OI_ExternalID j)"
  define i' where "i' = ?i"
  have fit: "fits_oauth d i' p" and k: "?key i' = ?key i" and u: "OI_UserID i' = OI_UserID i" using assms(3) by (simp_all add: i'_def)
  have row: "oauthRow d i' = Some i'" using fit by (simp add: oauthRow_def fits_oauth_def)
  have pg: "Postgres_SaveOAuthIdentity d i now p =
      (if \<not> has_user_row p (OI_UserID i') then (Inl (Errorf ''%w: %s'' [Sentinel Store_ErrUserNotFound]), pg_tick p)
       else if ?key i' \<in> set (map ?key (pg_oauth p)) then (Inl (Errorf ''%w: %s/%s'' [Sentinel Store_ErrOAuthIdentityExists]), pg_tick p)
       else (Inr (), pg_tick (p\<lparr>pg_oauth := pg_oauth p @ [i']\<rparr>)))"
    unfolding Postgres_SaveOAuthIdentity_def i'_def [symmetric] Let_def row pg_exec_quiet [OF assms(2)] sql_insert_oauth_def
    using fit by (auto simp: fits_oauth_def insertError_codes)
  have f: "(\<exists>y. map_of (mem_oauthIdentities (pg_abs p)) (?key i') = Some y) \<longleftrightarrow> ?key i' \<in> set (map ?key (pg_oauth p))"
    using find_None_key [of ?key "?key i'" "pg_oauth p"] by (auto simp: pg_abs_def map_of_keyed)
  have abs: "?key i' \<notin> set (map ?key (pg_oauth p)) \<Longrightarrow> pg_abs (p\<lparr>pg_oauth := pg_oauth p @ [i']\<rparr>) =
      (pg_abs p)\<lparr>mem_oauthIdentities := map_set (?key i') i' (mem_oauthIdentities (pg_abs p))\<rparr>"
    using keyed_insert [of ?key i' "pg_oauth p"] by (simp add: pg_abs_def)
  have inv: "has_user_row p (OI_UserID i') \<Longrightarrow> ?key i' \<notin> set (map ?key (pg_oauth p)) \<Longrightarrow> pg_inv (p\<lparr>pg_oauth := pg_oauth p @ [i']\<rparr>)"
    using assms(1) by (auto simp: pg_inv_def pg_owned_def has_user_row_def)
  show ?thesis unfolding pg Memory_SaveOAuthIdentity_def abs_requireUser i'_def [symmetric] Let_def u [symmetric] k [symmetric]
    using f abs inv assms(1) by (auto simp: simulates_def)
qed

lemma sim_SaveWalletIdentity:
  assumes "pg_inv p" "pg_quiet d" "fits_wallet d (stampWallet now i) p"
  shows "simulates (Postgres_SaveWalletIdentity d i now p) (Memory_SaveWalletIdentity i now (pg_abs p))"
proof -
  let ?i = "stampWallet now i" and ?key = "\<lambda>j. (WI_Chain j, WI_Address j)"
  define i' where "i' = ?i"
  have fit: "fits_wallet d i' p" and k: "?key i' = ?key i" and u: "WI_UserID i' = WI_UserID i" using assms(3) by (simp_all add: i'_def)
  have row: "walletRow d i' = Some i'" using fit by (simp add: walletRow_def fits_wallet_def)
  have pg: "Postgres_SaveWalletIdentity d i now p =
      (if \<not> has_user_row p (WI_UserID i') then (Inl (Errorf ''%w: %s'' [Sentinel Store_ErrUserNotFound]), pg_tick p)
       else if ?key i' \<in> set (map ?key (pg_wallet p)) then (Inl (Errorf ''%w: %s/%s'' [Sentinel Store_ErrWalletIdentityExists]), pg_tick p)
       else (Inr (), pg_tick (p\<lparr>pg_wallet := pg_wallet p @ [i']\<rparr>)))"
    unfolding Postgres_SaveWalletIdentity_def i'_def [symmetric] Let_def row pg_exec_quiet [OF assms(2)] sql_insert_wallet_def
    using fit by (auto simp: fits_wallet_def insertError_codes)
  have f: "(\<exists>y. map_of (mem_walletIdentities (pg_abs p)) (?key i') = Some y) \<longleftrightarrow> ?key i' \<in> set (map ?key (pg_wallet p))"
    using find_None_key [of ?key "?key i'" "pg_wallet p"] by (auto simp: pg_abs_def map_of_keyed)
  have abs: "?key i' \<notin> set (map ?key (pg_wallet p)) \<Longrightarrow> pg_abs (p\<lparr>pg_wallet := pg_wallet p @ [i']\<rparr>) =
      (pg_abs p)\<lparr>mem_walletIdentities := map_set (?key i') i' (mem_walletIdentities (pg_abs p))\<rparr>"
    using keyed_insert [of ?key i' "pg_wallet p"] by (simp add: pg_abs_def)
  have inv: "has_user_row p (WI_UserID i') \<Longrightarrow> ?key i' \<notin> set (map ?key (pg_wallet p)) \<Longrightarrow> pg_inv (p\<lparr>pg_wallet := pg_wallet p @ [i']\<rparr>)"
    using assms(1) by (auto simp: pg_inv_def pg_owned_def has_user_row_def)
  show ?thesis unfolding pg Memory_SaveWalletIdentity_def abs_requireUser i'_def [symmetric] Let_def u [symmetric] k [symmetric]
    using f abs inv assms(1) by (auto simp: simulates_def)
qed

subsection \<open>Challenges and credentials\<close>

definition fits_challenge :: "pg_driver \<Rightarrow> Challenge \<Rightarrow> time \<Rightarrow> PG \<Rightarrow> bool" where
  "fits_challenge d c now p \<longleftrightarrow> text_ok d (Some 255) (Ch_Nonce c) \<and> text_ok d None (Ch_Message c) \<and> text_ok d (Some 50) (Ch_Chain c) \<and>
     text_ok d (Some 255) (Ch_Address c) \<and> text_ok d None (Ch_CodeVerifier c) \<and> text_ok d None (Ch_OAuthNonce c) \<and>
     text_ok d (Some 64) (Ch_BindingHash c) \<and> time_ok (Ch_ExpiresAt c) \<and> time_ok (Ch_CreatedAt c) \<and>
     pg_time (pg_clock d (pg_stmt p)) = now \<and>
     Ch_Nonce c \<notin> set (map Ch_Nonce (filter (\<lambda>c. \<not> Ch_ExpiresAt c < now) (pg_challenges p)))"

abbreviation stampChallenge :: "time \<Rightarrow> Challenge \<Rightarrow> Challenge" where
  "stampChallenge now c \<equiv> if time_IsZero (Ch_CreatedAt c) then c\<lparr>Ch_CreatedAt := now\<rparr> else c"

lemma pg_inv_challenges:
  "pg_inv p \<Longrightarrow> distinct (map Ch_Nonce cs) \<Longrightarrow> pg_inv (p\<lparr>pg_challenges := cs\<rparr>)"
  by (simp add: pg_inv_def pg_owned_def has_user_row_def)

lemma sim_SaveChallenge:
  assumes "pg_inv p" "pg_quiet d" "fits_challenge d (stampChallenge now c) now p"
  shows "simulates (Postgres_SaveChallenge d c now p) (Memory_SaveChallenge c now (pg_abs p))"
proof -
  let ?live = "filter (\<lambda>c. \<not> Ch_ExpiresAt c < now) (pg_challenges p)"
  define c' where "c' = stampChallenge now c"
  have fit: "fits_challenge d c' now p" using assms(3) by (simp add: c'_def)
  then have row: "challengeRow d c' = Some c'" and clock: "pg_time (pg_clock d (pg_stmt p)) = now" and new: "Ch_Nonce c' \<notin> set (map Ch_Nonce ?live)"
    by (simp_all add: challengeRow_def fits_challenge_def)
  have pg: "Postgres_SaveChallenge d c now p = (Inr (), pg_tick (pg_tick (p\<lparr>pg_challenges := ?live @ [c']\<rparr>)))"
    unfolding Postgres_SaveChallenge_def c'_def [symmetric] Let_def pg_exec_quiet [OF assms(2)] row clock
    using new by (simp add: sql_sweep_def sql_insert_challenge_def pg_tick_def)
  have inv: "pg_inv (p\<lparr>pg_challenges := ?live @ [c']\<rparr>)"
    using assms(1) new by (intro pg_inv_challenges) (auto simp: pg_inv_def distinct_map_filter)
  have "pg_abs (p\<lparr>pg_challenges := ?live @ [c']\<rparr>) = snd (Memory_SaveChallenge c now (pg_abs p))"
    unfolding Memory_SaveChallenge_def c'_def [symmetric] Let_def
    using keyed_insert [of Ch_Nonce c' ?live, OF new] by (simp add: pg_abs_def keyed_delete_func)
  then show ?thesis unfolding pg using inv by (simp add: simulates_def Memory_SaveChallenge_def Let_def)
qed

text \<open>An expired challenge is deleted by the in-memory store and left to the next sweep by the Postgres store.\<close>

lemma sim_GetChallenge:
  assumes "pg_inv p" "pg_quiet d" "text_ok d None n" "\<And>c. c \<in> set (pg_challenges p) \<Longrightarrow> Ch_Nonce c = n \<Longrightarrow> \<not> Ch_ExpiresAt c < now"
  shows "simulates (Postgres_GetChallenge d n now p) (Memory_GetChallenge n now (pg_abs p))"
proof (cases "find (\<lambda>c. Ch_Nonce c = n) (pg_challenges p)")
  case (Some c)
  then have "\<not> Ch_ExpiresAt c < now" using assms(4) [of c] by (auto simp: find_Some_iff)
  then show ?thesis using Some assms(1)
    by (simp add: Postgres_GetChallenge_def assms(3) pg_query_quiet [OF assms(2)] Memory_GetChallenge_def simulates_def)
      (simp add: pg_abs_def map_of_keyed)
qed (use assms(1) in \<open>simp add: Postgres_GetChallenge_def assms(3) pg_query_quiet [OF assms(2)] Memory_GetChallenge_def simulates_def pg_abs_def map_of_keyed\<close>)

lemma sim_DeleteChallenge:
  assumes "pg_inv p" "pg_quiet d" "text_ok d None n"
  shows "simulates (Postgres_DeleteChallenge d n p) (Memory_DeleteChallenge n (pg_abs p))"
proof -
  let ?p = "p\<lparr>pg_challenges := filter (\<lambda>c. Ch_Nonce c \<noteq> n) (pg_challenges p)\<rparr>"
  have pg: "Postgres_DeleteChallenge d n p =
      (if n \<in> set (map Ch_Nonce (pg_challenges p)) then Inr () else Inl (Sentinel Store_ErrChallengeNotFound), pg_tick ?p)"
    by (simp add: Postgres_DeleteChallenge_def assms(3) pg_exec_quiet [OF assms(2)] sql_delete_challenge_def)
  have inv: "pg_inv ?p" using assms(1) by (intro pg_inv_challenges) (auto simp: pg_inv_def distinct_map_filter)
  have abs: "pg_abs ?p = (pg_abs p)\<lparr>mem_challenges := map_del n (mem_challenges (pg_abs p))\<rparr>"
    by (simp add: pg_abs_def keyed_del)
  have same: "?p = p" if "n \<notin> set (map Ch_Nonce (pg_challenges p))" using that by (auto intro!: PG.equality filter_True)
  have f: "map_of (mem_challenges (pg_abs p)) n = None \<longleftrightarrow> n \<notin> set (map Ch_Nonce (pg_challenges p))"
    by (simp add: pg_abs_def map_of_keyed find_None_key)
  show ?thesis unfolding pg Memory_DeleteChallenge_def f using inv abs same assms(1)
    by (cases "n \<in> set (map Ch_Nonce (pg_challenges p))") (simp_all add: simulates_def)
qed

lemma credential_update:
  "u \<in> set (map cr_user_id cs) \<Longrightarrow> distinct (map cr_user_id cs) \<Longrightarrow>
   map (\<lambda>c. (cr_user_id c, cr_password_hash c)) (map (\<lambda>c. if cr_user_id c = u then c\<lparr>cr_password_hash := h, cr_updated_at := t\<rparr> else c) cs) =
   map_set u h (map (\<lambda>c. (cr_user_id c, cr_password_hash c)) cs)"
proof (induction cs)
  case (Cons c cs)
  show ?case
  proof (cases "cr_user_id c = u")
    case True
    then have "x \<in> set cs \<Longrightarrow> cr_user_id x \<noteq> u" for x using Cons.prems(2) by (metis distinct.simps(2) list.simps(9) image_eqI list.set_map)
    then have "map (\<lambda>c. if cr_user_id c = u then c\<lparr>cr_password_hash := h, cr_updated_at := t\<rparr> else c) cs = cs" by (intro map_idI) auto
    then show ?thesis using True by simp
  qed (use Cons in auto)
qed simp

lemma sim_SavePasswordHash:
  assumes "pg_inv p" "pg_quiet d" "uuid_ok d u" "text_ok d None h"
  shows "simulates (Postgres_SavePasswordHash d u h p) (Memory_SavePasswordHash u h (pg_abs p))"
proof -
  define now where "now = pg_time (pg_clock d (pg_stmt p))"
  let ?upd = "\<lambda>c. if cr_user_id c = u then c\<lparr>cr_password_hash := h, cr_updated_at := now\<rparr> else c"
  let ?new = "\<lparr>cr_user_id = u, cr_password_hash = h, cr_created_at = now, cr_updated_at = now\<rparr>"
  let ?cs = "if u \<in> set (map cr_user_id (pg_credentials p)) then map ?upd (pg_credentials p) else pg_credentials p @ [?new]"
  have dist: "distinct (map cr_user_id (pg_credentials p))" using assms(1) by (simp add: pg_inv_def)
  have pg: "Postgres_SavePasswordHash d u h p =
      (if has_user_row p u then (Inr (), pg_tick (p\<lparr>pg_credentials := ?cs\<rparr>))
       else (Inl (Errorf ''%w: %s'' [Sentinel Store_ErrUserNotFound]), pg_tick p))"
    using assms(1) unfolding Postgres_SavePasswordHash_def now_def [symmetric] pair_args_def
    by (auto simp: assms(3,4) pg_exec_quiet [OF assms(2)] sql_upsert_credential_def insertError_codes pg_inv_def pg_owned_def)
  have m: "map cr_user_id (map ?upd (pg_credentials p)) = map cr_user_id (pg_credentials p)" by simp
  have inv: "pg_inv (p\<lparr>pg_credentials := ?cs\<rparr>)" if "has_user_row p u"
    using assms(1) that m by (auto simp: pg_inv_def pg_owned_def has_user_row_def simp del: map_map)
  have "map (\<lambda>c. (cr_user_id c, cr_password_hash c)) ?cs = map_set u h (mem_passwordHashes (pg_abs p))"
  proof (cases "u \<in> set (map cr_user_id (pg_credentials p))")
    case True
    then show ?thesis using credential_update [OF True dist, of now h] by (simp add: pg_abs_def)
  next
    case False
    then have "map_of (mem_passwordHashes (pg_abs p)) u = None" by (auto simp: pg_abs_def map_of_eq_None_iff image_iff)
    from map_set_new [OF this, of h] False show ?thesis by (simp add: pg_abs_def)
  qed
  then have "pg_abs (p\<lparr>pg_credentials := ?cs\<rparr>) = (pg_abs p)\<lparr>mem_passwordHashes := map_set u h (mem_passwordHashes (pg_abs p))\<rparr>"
    by (simp add: pg_abs_def)
  then show ?thesis unfolding pg Memory_SavePasswordHash_def abs_requireUser using inv assms(1) by (simp add: simulates_def)
qed

end
