(* ===== verification/Postgres_Properties.thy ===== *)
theory Postgres_Properties
  imports Postgres_Refinement
begin

text \<open>
  Runs of the two stores side by side: a sequence of methods has the same outcomes on either and leaves the
  same rows, and the read methods return the same values.
\<close>

declare map_of_eq_Some_iff [simp del]
declare Some_eq_map_of_iff [simp del]

section \<open>Runs on both stores\<close>

text \<open>A method of either store with the error it returns, if any.\<close>

definition outcome :: "(error + 'a) \<times> 's \<Rightarrow> error option \<times> 's" where
  "outcome r = (err_of (fst r), snd r)"

fun pg_step :: "pg_driver \<Rightarrow> mem_op \<Rightarrow> PG \<Rightarrow> error option \<times> PG" where
  "pg_step d (OpCreate u now) p = outcome (Postgres_Create d u now p)"
| "pg_step d (OpDelete uid) p = outcome (Postgres_Delete d uid p)"
| "pg_step d (OpSaveRefreshToken t now) p = outcome (Postgres_SaveRefreshToken d t now p)"
| "pg_step d (OpRotateRefreshToken h now) p = (case Postgres_RotateRefreshToken d h now p of ((_, e), p') \<Rightarrow> (e, p'))"
| "pg_step d (OpRevokeTokens h now) p = outcome (Postgres_RevokeTokens d h now p)"
| "pg_step d (OpSavePAT t now) p = outcome (Postgres_SavePAT d t now p)"
| "pg_step d (OpSavePATLimited t l at now) p = outcome (Postgres_SavePATLimited d t l at now p)"
| "pg_step d (OpDeletePAT u i) p = outcome (Postgres_DeletePAT d u i p)"
| "pg_step d (OpTouchPAT h t) p = outcome (Postgres_TouchPAT d h t p)"
| "pg_step d (OpSaveOAuthIdentity i now) p = outcome (Postgres_SaveOAuthIdentity d i now p)"
| "pg_step d (OpSaveWalletIdentity i now) p = outcome (Postgres_SaveWalletIdentity d i now p)"
| "pg_step d (OpSaveChallenge c now) p = outcome (Postgres_SaveChallenge d c now p)"
| "pg_step d (OpGetChallenge n now) p = outcome (Postgres_GetChallenge d n now p)"
| "pg_step d (OpDeleteChallenge n) p = outcome (Postgres_DeleteChallenge d n p)"
| "pg_step d (OpSavePasswordHash u h) p = outcome (Postgres_SavePasswordHash d u h p)"

fun mem_step :: "mem_op \<Rightarrow> Store \<Rightarrow> error option \<times> Store" where
  "mem_step (OpCreate u now) s = outcome (Memory_Create u now s)"
| "mem_step (OpDelete uid) s = outcome (Memory_Delete uid s)"
| "mem_step (OpSaveRefreshToken t now) s = outcome (Memory_SaveRefreshToken t now s)"
| "mem_step (OpRotateRefreshToken h now) s = (case Memory_RotateRefreshToken h now s of ((_, e), s') \<Rightarrow> (e, s'))"
| "mem_step (OpRevokeTokens h now) s = outcome (Memory_RevokeTokens h now s)"
| "mem_step (OpSavePAT t now) s = outcome (Memory_SavePAT t now s)"
| "mem_step (OpSavePATLimited t l at now) s = outcome (Memory_SavePATLimited t l at now s)"
| "mem_step (OpDeletePAT u i) s = outcome (Memory_DeletePAT u i s)"
| "mem_step (OpTouchPAT h t) s = outcome (Memory_TouchPAT h t s)"
| "mem_step (OpSaveOAuthIdentity i now) s = outcome (Memory_SaveOAuthIdentity i now s)"
| "mem_step (OpSaveWalletIdentity i now) s = outcome (Memory_SaveWalletIdentity i now s)"
| "mem_step (OpSaveChallenge c now) s = outcome (Memory_SaveChallenge c now s)"
| "mem_step (OpGetChallenge n now) s = outcome (Memory_GetChallenge n now s)"
| "mem_step (OpDeleteChallenge n) s = outcome (Memory_DeleteChallenge n s)"
| "mem_step (OpSavePasswordHash u h) s = outcome (Memory_SavePasswordHash u h s)"

lemma mem_step_apply: "snd (mem_step op s) = apply_op op s"
  by (cases op) (simp_all add: outcome_def split: prod.split)

text \<open>The values of the call are values of the columns, the times whole microseconds, the server's clock
  reads what the caller's does, and the keys the database generates no second row for are fresh.\<close>

fun fits :: "pg_driver \<Rightarrow> mem_op \<Rightarrow> PG \<Rightarrow> bool" where
  "fits d (OpCreate u now) p = fits_user d (stampUser now u)"
| "fits d (OpDelete uid) p = uuid_ok d uid"
| "fits d (OpSaveRefreshToken t now) p = fits_refresh d (stampRefresh now t) p"
| "fits d (OpRotateRefreshToken h now) p = (text_ok d None h \<and> time_ok now)"
| "fits d (OpRevokeTokens h now) p = (text_ok d None h \<and> pg_time (pg_clock d (pg_stmt p)) = now)"
| "fits d (OpSavePAT t now) p = fits_pat d (stampPAT now t) p"
| "fits d (OpSavePATLimited t l at now) p =
     (fits_pat d (stampPAT now t) p \<and> time_ok at \<and> PAT_Hash t \<notin> set (map PAT_Hash (pg_pats p)))"
| "fits d (OpDeletePAT u i) p = (uuid_ok d u \<and> uuid_ok d i)"
| "fits d (OpTouchPAT h t) p = (text_ok d None h \<and> time_ok t)"
| "fits d (OpSaveOAuthIdentity i now) p = fits_oauth d (stampOAuth now i) p"
| "fits d (OpSaveWalletIdentity i now) p = fits_wallet d (stampWallet now i) p"
| "fits d (OpSaveChallenge c now) p = fits_challenge d (stampChallenge now c) now p"
| "fits d (OpGetChallenge n now) p =
     (text_ok d None n \<and> list_all (\<lambda>c. Ch_Nonce c = n \<longrightarrow> \<not> Ch_ExpiresAt c < now) (pg_challenges p))"
| "fits d (OpDeleteChallenge n) p = text_ok d None n"
| "fits d (OpSavePasswordHash u h) p = (uuid_ok d u \<and> text_ok d None h)"

definition step_sim :: "error option \<times> PG \<Rightarrow> error option \<times> Store \<Rightarrow> bool" where
  "step_sim a b \<longleftrightarrow> pg_abs (snd a) = snd b \<and> pg_inv (snd a) \<and> same_outcome (fst a) (fst b)"

lemma step_simI: "simulates a b \<Longrightarrow> step_sim (outcome a) (outcome b)"
  by (cases "fst a"; cases "fst b") (auto simp: step_sim_def simulates_def outcome_def)

lemmas sim_methods =
  sim_Create sim_Delete sim_SaveRefreshToken sim_RevokeTokens sim_SavePAT sim_SavePATLimited sim_DeletePAT sim_TouchPAT
  sim_SaveOAuthIdentity sim_SaveWalletIdentity sim_SaveChallenge sim_DeleteChallenge sim_SavePasswordHash

lemma pg_step_sim:
  assumes "pg_inv p" "pg_quiet d" "fits d op p"
  shows "step_sim (pg_step d op p) (mem_step op (pg_abs p))"
proof (cases op)
  case (OpRotateRefreshToken h now)
  then show ?thesis using sim_RotateRefreshToken [OF assms(1,2), of h now] assms(3)
    by (auto simp: step_sim_def split: prod.split)
next
  case (OpGetChallenge n now)
  then show ?thesis using sim_GetChallenge [OF assms(1,2), of n now] assms(3)
    by (auto simp: list_all_iff intro: step_simI)
qed (use sim_methods [OF assms(1,2)] assms(3) in \<open>auto intro: step_simI\<close>)

text \<open>The errors and the final state of a sequence of methods.\<close>

fun run_steps :: "('op \<Rightarrow> 's \<Rightarrow> error option \<times> 's) \<Rightarrow> 'op list \<Rightarrow> 's \<Rightarrow> error option list \<times> 's" where
  "run_steps f [] s = ([], s)"
| "run_steps f (op # ops) s = (case f op s of (e, s1) \<Rightarrow> case run_steps f ops s1 of (es, s2) \<Rightarrow> (e # es, s2))"

fun fits_run :: "pg_driver \<Rightarrow> mem_op list \<Rightarrow> PG \<Rightarrow> bool" where
  "fits_run d [] p = True"
| "fits_run d (op # ops) p = (fits d op p \<and> fits_run d ops (snd (pg_step d op p)))"

lemma run_steps_mem: "snd (run_steps mem_step ops s) = run_ops ops s"
  by (induction ops arbitrary: s) (auto simp: mem_step_apply [symmetric] case_prod_beta)

lemma run_steps_sim:
  assumes "pg_inv p" "pg_quiet d" "fits_run d ops p"
  shows "list_all2 same_outcome (fst (run_steps (pg_step d) ops p)) (fst (run_steps mem_step ops (pg_abs p))) \<and>
    pg_abs (snd (run_steps (pg_step d) ops p)) = snd (run_steps mem_step ops (pg_abs p)) \<and> pg_inv (snd (run_steps (pg_step d) ops p))"
  using assms
proof (induction ops arbitrary: p)
  case (Cons op ops)
  obtain e p1 where 1: "pg_step d op p = (e, p1)" by fastforce
  obtain e' s1 where 2: "mem_step op (pg_abs p) = (e', s1)" by fastforce
  have "pg_abs p1 = s1" "pg_inv p1" "same_outcome e e'"
    using pg_step_sim [OF Cons.prems(1,2), of op] Cons.prems(3) 1 2 by (simp_all add: step_sim_def)
  moreover have "fits_run d ops p1" using Cons.prems(3) 1 by simp
  ultimately show ?case using Cons.IH [of p1] Cons.prems(2) 1 2 by (simp add: case_prod_beta)
qed simp

section \<open>Reads\<close>

abbreviation same_result :: "error + 'a \<Rightarrow> error + 'a \<Rightarrow> bool" where
  "same_result \<equiv> rel_sum same_kind (=)"

lemma rows_abs [simp]:
  "map_values (mem_refreshTokens (pg_abs p)) = pg_refresh p" "map_values (mem_pats (pg_abs p)) = pg_pats p"
  "map_values (mem_oauthIdentities (pg_abs p)) = pg_oauth p" "map_values (mem_walletIdentities (pg_abs p)) = pg_wallet p"
  by (simp_all add: pg_abs_def)

text \<open>The loop over the family computes the aggregates of the query.\<close>

lemma family_fold:
  "fold (Memory_familyStep root) rows \<lparr>SessionEnded = False, LastRotatedAt = None\<rparr> =
    \<lparr>SessionEnded = list_ex (\<lambda>t. RT_EndedAt t \<noteq> None) (filter (inFamily root) rows),
     LastRotatedAt = (let rs = List.map_filter RT_RotatedAt (filter (inFamily root) rows) in if rs = [] then None else Some (Max (set rs)))\<rparr>"
  (is "?f = ?g")
proof -
  let ?init = "\<lparr>SessionEnded = False, LastRotatedAt = None\<rparr>"
  let ?rs = "List.map_filter RT_RotatedAt (filter (inFamily root) rows)"
  have mem: "r \<in> set ?rs \<longleftrightarrow> (\<exists>t\<in>set rows. inFamily root t \<and> RT_RotatedAt t = Some r)" for r
    by (force simp: List.map_filter_def)
  have "SessionEnded ?f = SessionEnded ?g"
    unfolding familyStep_SessionEnded [of root rows ?init] by (auto simp: list_ex_iff)
  moreover have "LastRotatedAt ?f = LastRotatedAt ?g"
  proof (cases "LastRotatedAt ?f")
    case None
    have "r \<notin> set ?rs" for r using familyStep_upper [of ?init r rows root] None unfolding mem by auto
    then have "?rs = []" by (metis list.set_intros(1) neq_Nil_conv)
    then show ?thesis using None by (simp add: Let_def)
  next
    case (Some l)
    have "l \<in> set ?rs" using familyStep_attained [OF Some] unfolding mem by simp
    moreover have "r \<le> l" if "r \<in> set ?rs" for r using familyStep_upper [of ?init r rows root] Some that unfolding mem by auto
    ultimately have "Max (set ?rs) = l" "?rs \<noteq> []" by (auto intro: Max_eqI)
    then show ?thesis using Some by (simp add: Let_def)
  qed
  ultimately show ?thesis by simp
qed

lemma GetRefreshFamily_abs: "Memory_GetRefreshFamily root (pg_abs p) = Inr (sql_family root p)"
  unfolding Memory_GetRefreshFamily_def rows_abs family_fold by (simp add: sql_family_def Let_def)

lemma reads_users:
  assumes "pg_inv p" "pg_quiet d"
  shows "uuid_ok d u \<Longrightarrow> same_result (Postgres_GetByID d u p) (Memory_GetByID u (pg_abs p))"
    "text_ok d None e \<Longrightarrow> same_result (Postgres_GetByEmail d e p) (Memory_GetByEmail e (pg_abs p))"
    "uuid_ok d u \<Longrightarrow> same_result (Postgres_GetPasswordHash d u p) (Memory_GetPasswordHash u (pg_abs p))"
proof -
  have h: "map_of (map (\<lambda>c. (cr_user_id c, cr_password_hash c)) cs) u = map_option cr_password_hash (find (\<lambda>c. cr_user_id c = u) cs)" for cs
    by (induction cs) auto
  have n: "find (\<lambda>r. ur_email r = Some []) (pg_users p) = None" using assms(1) by (auto simp: find_None_iff pg_inv_def image_iff)
  show "uuid_ok d u \<Longrightarrow> same_result (Postgres_GetByID d u p) (Memory_GetByID u (pg_abs p))"
    by (simp add: Postgres_GetByID_def pg_query_quiet [OF assms(2)] Memory_GetByID_def abs_user split: option.split)
  show "text_ok d None e \<Longrightarrow> same_result (Postgres_GetByEmail d e p) (Memory_GetByEmail e (pg_abs p))"
    using n by (cases "find (\<lambda>r. ur_email r = Some e) (pg_users p)")
      (auto simp: Postgres_GetByEmail_def pg_query_quiet [OF assms(2)] Memory_GetByEmail_def pg_abs_def abs_email same_kind_def)
  show "uuid_ok d u \<Longrightarrow> same_result (Postgres_GetPasswordHash d u p) (Memory_GetPasswordHash u (pg_abs p))"
    by (simp add: Postgres_GetPasswordHash_def pg_query_quiet [OF assms(2)] Memory_GetPasswordHash_def pg_abs_def h split: option.split)
qed

lemma reads_tokens:
  assumes "pg_quiet d"
  shows "text_ok d None h \<Longrightarrow> Postgres_GetRefreshToken d h p = Memory_GetRefreshToken h (pg_abs p)"
    "text_ok d None h \<Longrightarrow> Postgres_GetRefreshFamily d h p = Memory_GetRefreshFamily h (pg_abs p)"
    "text_ok d None h \<Longrightarrow> Postgres_GetPAT d h p = Memory_GetPAT h (pg_abs p)"
    "uuid_ok d u \<Longrightarrow> Postgres_ListPATs d u p = Memory_ListPATs u (pg_abs p)"
  using assms
  by (simp_all add: Postgres_GetRefreshToken_def Memory_GetRefreshToken_def abs_refresh Postgres_GetRefreshFamily_def GetRefreshFamily_abs
      Postgres_GetPAT_def Memory_GetPAT_def abs_pats Postgres_ListPATs_def pg_list_def Memory_ListPATs_def pg_quiet_simps)
    (simp_all add: pg_quiet_def)

lemma reads_identities:
  assumes "pg_quiet d"
  shows "text_ok d None a \<Longrightarrow> text_ok d None b \<Longrightarrow> Postgres_GetOAuthIdentity d a b p = Memory_GetOAuthIdentity a b (pg_abs p)"
    "text_ok d None a \<Longrightarrow> text_ok d None b \<Longrightarrow> Postgres_GetWalletIdentity d a b p = Memory_GetWalletIdentity a b (pg_abs p)"
    "uuid_ok d u \<Longrightarrow> Postgres_ListOAuthIdentities d u p = Memory_ListOAuthIdentities u (pg_abs p)"
    "uuid_ok d u \<Longrightarrow> Postgres_ListWalletIdentities d u p = Memory_ListWalletIdentities u (pg_abs p)"
proof -
  have o: "map_of (mem_oauthIdentities (pg_abs p)) k = find (\<lambda>i. (OI_Provider i, OI_ExternalID i) = k) (pg_oauth p)" for k
    by (simp add: pg_abs_def map_of_keyed)
  have w: "map_of (mem_walletIdentities (pg_abs p)) k = find (\<lambda>i. (WI_Chain i, WI_Address i) = k) (pg_wallet p)" for k
    by (simp add: pg_abs_def map_of_keyed)
  show "text_ok d None a \<Longrightarrow> text_ok d None b \<Longrightarrow> Postgres_GetOAuthIdentity d a b p = Memory_GetOAuthIdentity a b (pg_abs p)"
    by (simp add: Postgres_GetOAuthIdentity_def Memory_GetOAuthIdentity_def o pair_args_def pg_query_quiet [OF assms])
  show "text_ok d None a \<Longrightarrow> text_ok d None b \<Longrightarrow> Postgres_GetWalletIdentity d a b p = Memory_GetWalletIdentity a b (pg_abs p)"
    by (simp add: Postgres_GetWalletIdentity_def Memory_GetWalletIdentity_def w pair_args_def pg_query_quiet [OF assms])
  show "uuid_ok d u \<Longrightarrow> Postgres_ListOAuthIdentities d u p = Memory_ListOAuthIdentities u (pg_abs p)"
    "uuid_ok d u \<Longrightarrow> Postgres_ListWalletIdentities d u p = Memory_ListWalletIdentities u (pg_abs p)"
    using assms by (simp_all add: Postgres_ListOAuthIdentities_def Postgres_ListWalletIdentities_def pg_list_def
        Memory_ListOAuthIdentities_def Memory_ListWalletIdentities_def pg_query_quiet pg_quiet_def)
qed

section \<open>The refinement\<close>


text \<open>A server whose statements all succeed, with the clock standing at \<open>5000\<close>.\<close>

definition demo_pg :: pg_driver where
  "demo_pg = \<lparr>pg_fail = (\<lambda>_. None), pg_rows_fail = (\<lambda>_. None), pg_clock = (\<lambda>_. 5000), pg_uuid = Some,
     pg_text = (\<lambda>n x. if (case n of None \<Rightarrow> True | Some k \<Rightarrow> length x \<le> k) then Some x else None)\<rparr>"

definition demo_ops :: "mem_op list" where
  "demo_ops = [OpCreate \<lparr>User_ID = ''u'', User_Email = ''e'', User_Roles = [], User_CreatedAt = 1000, User_UpdatedAt = 1000\<rparr> 5000,
     OpCreate \<lparr>User_ID = ''v'', User_Email = ''e'', User_Roles = [], User_CreatedAt = 1000, User_UpdatedAt = 1000\<rparr> 5000,
     OpSaveRefreshToken \<lparr>RT_Hash = ''h'', RT_UserID = ''u'', RT_Parent = [], RT_ExpiresAt = 9000, RT_CreatedAt = 5000,
       RT_Revoked = False, RT_RotatedAt = None, RT_EndedAt = None\<rparr> 5000,
     OpRotateRefreshToken ''h'' 6000, OpRevokeTokens ''h'' 5000]"

lemma demo_pg_quiet: "pg_quiet demo_pg"
  by (simp add: pg_quiet_def demo_pg_def)

lemma demo_fits: "fits_run demo_pg demo_ops PG_empty"
  by code_simp




end
