(* ===== verification/Postgres_Failures.thy ===== *)
theory Postgres_Failures
  imports Postgres_Properties
begin

text \<open>
  The Postgres store with a driver that may fail any statement, transaction or commit. The locale
  \<open>pg_kept\<close> reduces a property of the tables to one law per writing statement; its interpretations are
  the constraints of the schema, exclusive rotation and the PAT cap. A failed call leaves the tables alone.
\<close>

declare map_of_eq_Some_iff [simp del]
declare Some_eq_map_of_iff [simp del]

section \<open>Whatever the driver does\<close>

text \<open>The results of a statement and of a transaction, with any driver.\<close>

lemma pg_exec_Inr:
  "pg_exec d args body p = (Inr r, p') \<Longrightarrow> \<exists>a p1. args = Some a \<and> body a p = Inr (r, p1) \<and> p' = pg_tick p1"
  by (auto simp: pg_exec_def split: option.splits sum.splits prod.splits)

lemma pg_exec_Inl: "pg_exec d args body p = (Inl c, p') \<Longrightarrow> p' = pg_tick p"
  by (auto simp: pg_exec_def split: option.splits sum.splits prod.splits)

lemma pg_tx_Inr: "pg_tx wb wc d body p = (Inr r, p') \<Longrightarrow> \<exists>p1. body (pg_tick p) = (Inr r, p1) \<and> p' = pg_tick p1"
  by (auto simp: pg_tx_def split: option.splits sum.splits prod.splits)

lemma pg_tx_Inl:
  "pg_tx wb wc d body p = (Inl e, p') \<Longrightarrow>
     (\<exists>n. p' = p\<lparr>pg_stmt := n\<rparr>) \<and> ((\<exists>c. e = wb (Foreign c) \<or> e = wc (Foreign c)) \<or> (\<exists>p1. body (pg_tick p) = (Inl e, p1)))"
  by (auto simp: pg_tx_def pg_tick_def pg_rollback_def split: option.splits sum.splits prod.splits)

text \<open>The state behind a result that is only converted.\<close>

lemma snd_result: "snd (case r of (Inl e, s) \<Rightarrow> (f e, s) | (Inr y, s) \<Rightarrow> (g y, s)) = snd r"
  by (simp split: prod.split sum.split)

text \<open>A property of the tables that every statement keeps.\<close>

definition of_tables :: "(PG \<Rightarrow> bool) \<Rightarrow> bool" where
  "of_tables P \<longleftrightarrow> (\<forall>p n. P (p\<lparr>pg_stmt := n\<rparr>) = P p)"

lemma of_tables_tick: "of_tables P \<Longrightarrow> P (pg_tick p) = P p" "of_tables P \<Longrightarrow> P (pg_rollback p q) = P p"
  by (simp_all add: of_tables_def pg_tick_def pg_rollback_def)

lemma of_tables_inv: "of_tables pg_inv"
  by (simp add: of_tables_def pg_inv_def pg_owned_def has_user_row_def)

lemma exec_keeps:
  assumes "of_tables P" "P p" "\<And>a r p1. args = Some a \<Longrightarrow> body a p = Inr (r, p1) \<Longrightarrow> P p1"
  shows "P (snd (pg_exec d args body p))"
  using assms(2,3) by (auto simp: pg_exec_def of_tables_tick [OF assms(1)] split: option.splits sum.splits prod.splits)

lemma tx_keeps:
  assumes "of_tables P" "P p" "P (snd (body (pg_tick p)))"
  shows "P (snd (pg_tx wb wc d body p))"
  using assms(2,3) by (auto simp: pg_tx_def of_tables_tick [OF assms(1)] split: option.splits sum.splits prod.splits)

text \<open>
  What a statement must keep for a property of the tables to survive every method: one law per writing
  statement, restricted to rows and caps that are admissible for the property.
\<close>

locale pg_kept =
  fixes P :: "PG \<Rightarrow> bool"
    and user_adm :: "UserRow \<Rightarrow> bool"
    and refresh_adm :: "RefreshToken \<Rightarrow> bool"
    and pat_adm :: "int option \<Rightarrow> bool"
    and challenge_adm :: "Challenge \<Rightarrow> bool"
  assumes tables: "of_tables P"
    and kept_insert_user: "P p \<Longrightarrow> user_adm r \<Longrightarrow> sql_insert_user r p = Inr (x, p') \<Longrightarrow> P p'"
    and kept_delete_user: "P p \<Longrightarrow> sql_delete_user u p = Inr (b, p') \<Longrightarrow> P p'"
    and kept_insert_refresh: "P p \<Longrightarrow> refresh_adm t \<Longrightarrow> sql_insert_refresh t p = Inr (x, p') \<Longrightarrow> P p'"
    and kept_rotate: "P p \<Longrightarrow> sql_rotate now h p = Inr (rt, p') \<Longrightarrow> P p'"
    and kept_revoke: "P p \<Longrightarrow> sql_revoke now h p = Inr (x, p') \<Longrightarrow> P p'"
    and kept_insert_pat: "P p \<Longrightarrow> pat_adm None \<Longrightarrow> sql_insert_pat pat p = Inr (x, p') \<Longrightarrow> P p'"
    and kept_insert_limited: "P p \<Longrightarrow> pat_adm (Some l) \<Longrightarrow> sql_insert_pat_limited l pat p = Inr (b, p') \<Longrightarrow> P p'"
    and kept_prune: "P p \<Longrightarrow> sql_prune_pats at u p = Inr (x, p') \<Longrightarrow> P p'"
    and kept_delete_pat: "P p \<Longrightarrow> sql_delete_pat iu p = Inr (b, p') \<Longrightarrow> P p'"
    and kept_touch: "P p \<Longrightarrow> sql_touch_pat at h p = Inr (x, p') \<Longrightarrow> P p'"
    and kept_insert_oauth: "P p \<Longrightarrow> sql_insert_oauth i p = Inr (x, p') \<Longrightarrow> P p'"
    and kept_insert_wallet: "P p \<Longrightarrow> sql_insert_wallet j p = Inr (x, p') \<Longrightarrow> P p'"
    and kept_sweep: "P p \<Longrightarrow> sql_sweep now v p = Inr (x, p') \<Longrightarrow> P p'"
    and kept_insert_challenge: "P p \<Longrightarrow> challenge_adm c \<Longrightarrow> sql_insert_challenge c p = Inr (x, p') \<Longrightarrow> P p'"
    and kept_delete_challenge: "P p \<Longrightarrow> sql_delete_challenge n p = Inr (b, p') \<Longrightarrow> P p'"
    and kept_credential: "P p \<Longrightarrow> sql_upsert_credential now uh p = Inr (x, p') \<Longrightarrow> P p'"
begin

text \<open>The calls whose rows are admissible, as the driver stores them.\<close>

fun admissible :: "pg_driver \<Rightarrow> mem_op \<Rightarrow> bool" where
  "admissible d (OpCreate u now) = pred_option user_adm (userRow d (stampUser now u))"
| "admissible d (OpSaveRefreshToken t now) = pred_option refresh_adm (refreshRow d (stampRefresh now t))"
| "admissible d (OpSavePAT t now) = pat_adm None"
| "admissible d (OpSavePATLimited t l at now) = pat_adm (Some l)"
| "admissible d (OpSaveChallenge c now) = pred_option challenge_adm (challengeRow d (stampChallenge now c))"
| "admissible d op = True"

lemma exec_kept: "P p \<Longrightarrow> (\<And>a r p1. args = Some a \<Longrightarrow> body a p = Inr (r, p1) \<Longrightarrow> P p1) \<Longrightarrow> P (snd (pg_exec d args body p))"
  by (rule exec_keeps [OF tables])

lemma Create_kept:
  assumes "P p" "admissible d (OpCreate u now)"
  shows "P (snd (Postgres_Create d u now p))"
proof -
  have "P (snd (pg_exec d (userRow d (stampUser now u)) sql_insert_user p))"
    using assms by (intro exec_kept) (auto intro: kept_insert_user)
  then show ?thesis unfolding Postgres_Create_def Let_def snd_result stampUser_def .
qed

lemma insertRefresh_kept:
  assumes "P p" "pred_option refresh_adm (refreshRow d t)"
  shows "P (snd (pg_insertRefresh d t p))"
proof -
  have "P (snd (pg_exec d (refreshRow d t) sql_insert_refresh p))"
    using assms by (intro exec_kept) (auto intro: kept_insert_refresh)
  then show ?thesis unfolding pg_insertRefresh_def snd_result .
qed

lemma SaveRefreshToken_kept:
  assumes "P p" "admissible d (OpSaveRefreshToken t now)"
  shows "P (snd (Postgres_SaveRefreshToken d t now p))"
proof -
  let ?t = "stampRefresh now t" and ?lock = "\<lambda>h s. Inr (find (\<lambda>t. RT_Hash t = h) (pg_refresh s), s)"
  have l: "P (snd (pg_exec d (pg_text d None (RT_Parent ?t)) ?lock (pg_tick p)))"
    using assms(1) of_tables_tick [OF tables] by (intro exec_kept) auto
  have i: "P q \<Longrightarrow> P (snd (pg_insertRefresh d ?t q))" for q using assms(2) by (intro insertRefresh_kept) simp_all
  show ?thesis
    unfolding Postgres_SaveRefreshToken_def stampRefresh_def [symmetric] Let_def
    using assms(1) l i by (auto intro!: tx_keeps [OF tables] split: prod.split sum.split option.split)
qed

lemma RevokeTokens_kept:
  assumes "P p"
  shows "P (snd (Postgres_RevokeTokens d h now p))"
proof -
  let ?lock = "\<lambda>h s. Inr ((), s)"
  have l: "P (snd (pg_exec d (pg_text d None h) ?lock (pg_tick p)))"
    using assms of_tables_tick [OF tables] by (intro exec_kept) auto
  have r: "P q \<Longrightarrow> P (snd (pg_exec d (pg_text d None h) (sql_revoke at) q))" for q at
    by (intro exec_kept) (auto intro: kept_revoke)
  show ?thesis unfolding Postgres_RevokeTokens_def Let_def
  proof (rule tx_keeps [OF tables assms], cases "pg_exec d (pg_text d None h) ?lock (pg_tick p)")
    case (Pair x q)
    then show "P (snd (case pg_exec d (pg_text d None h) ?lock (pg_tick p) of
        (Inl code, s1) \<Rightarrow> (Inl (Errorf ''lock refresh family root: %w'' [Foreign code]), s1)
      | (Inr _, s1) \<Rightarrow> (case pg_exec d (pg_text d None h) (sql_revoke (pg_time (pg_clock d (pg_stmt p)))) s1 of
            (Inl code, s2) \<Rightarrow> (Inl (Errorf ''revoke tokens: %w'' [Foreign code]), s2) | (Inr _, s2) \<Rightarrow> (Inr (), s2))))"
      using l r [of q "pg_time (pg_clock d (pg_stmt p))"] by (cases x) (auto split: prod.split sum.split)
  qed
qed

lemma SavePATLimited_kept:
  assumes "P p" "pat_adm (Some l)"
  shows "P (snd (Postgres_SavePATLimited d t l at now p))"
proof -
  let ?t = "stampPAT now t"
  have u: "P q \<Longrightarrow> P (snd (Postgres_lockUser d (PAT_UserID ?t) q))" for q
  proof -
    assume "P q"
    then have "P (snd (pg_exec d (pg_uuid d (PAT_UserID ?t)) (\<lambda>u s. Inr (has_user_row s u, s)) q))" by (intro exec_kept) auto
    then show ?thesis by (auto simp: Postgres_lockUser_def split: prod.split sum.split)
  qed
  have pr: "P q \<Longrightarrow> P (snd (pg_exec d (pg_uuid d (PAT_UserID ?t)) (sql_prune_pats (pg_time at)) q))" for q
    by (intro exec_kept) (auto intro: kept_prune)
  have ins: "P q \<Longrightarrow> P (snd (pg_exec d (patRow d ?t) (sql_insert_pat_limited l) q))" for q
    using assms(2) by (intro exec_kept) (auto intro: kept_insert_limited)
  have "P (snd (pg_tx wb wc d (\<lambda>s. case Postgres_lockUser d (PAT_UserID ?t) s of
            (Some err, s1) \<Rightarrow> (Inl err, s1)
          | (None, s1) \<Rightarrow>
              (case pg_exec d (pg_uuid d (PAT_UserID ?t)) (sql_prune_pats (pg_time at)) s1 of
                 (Inl code, s2) \<Rightarrow> (Inl (Errorf ''prune expired pats: %w'' [Foreign code]), s2)
               | (Inr _, s2) \<Rightarrow>
                   (case pg_exec d (patRow d ?t) (sql_insert_pat_limited l) s2 of
                      (Inl code, s3) \<Rightarrow> (Inl (patSaveError code), s3)
                    | (Inr inserted, s3) \<Rightarrow> (Inr inserted, s3)))) p))" for wb wc
  proof (rule tx_keeps [OF tables assms(1)])
    have "P (pg_tick p)" using assms(1) of_tables_tick [OF tables] by simp
    from u [OF this] pr ins show "P (snd (case Postgres_lockUser d (PAT_UserID ?t) (pg_tick p) of
            (Some err, s1) \<Rightarrow> (Inl err, s1)
          | (None, s1) \<Rightarrow>
              (case pg_exec d (pg_uuid d (PAT_UserID ?t)) (sql_prune_pats (pg_time at)) s1 of
                 (Inl code, s2) \<Rightarrow> (Inl (Errorf ''prune expired pats: %w'' [Foreign code]), s2)
               | (Inr _, s2) \<Rightarrow>
                   (case pg_exec d (patRow d ?t) (sql_insert_pat_limited l) s2 of
                      (Inl code, s3) \<Rightarrow> (Inl (patSaveError code), s3)
                    | (Inr inserted, s3) \<Rightarrow> (Inr inserted, s3)))))"
      by (auto split: prod.split option.split sum.split) (metis snd_conv)+
  qed
  then show ?thesis unfolding Postgres_SavePATLimited_def Let_def snd_result by simp
qed

lemma Rotate_kept:
  assumes "P p"
  shows "P (snd (Postgres_RotateRefreshToken d h now p))"
proof -
  have "P (snd (pg_exec d (pg_text d None h) (sql_rotate (pg_time now)) p))"
    using assms by (intro exec_kept) (auto intro: kept_rotate)
  then show ?thesis unfolding Postgres_RotateRefreshToken_def by (auto split: prod.split sum.split option.split)
qed

lemma SaveChallenge_kept:
  assumes "P p" "admissible d (OpSaveChallenge c now)"
  shows "P (snd (Postgres_SaveChallenge d c now p))"
proof -
  obtain x q where q: "pg_exec d (Some ()) (sql_sweep (pg_time (pg_clock d (pg_stmt p)))) p = (x, q)" by fastforce
  have "P (snd (pg_exec d (Some ()) (sql_sweep (pg_time (pg_clock d (pg_stmt p)))) p))"
    using assms(1) by (intro exec_kept) (auto intro: kept_sweep)
  then have "P q" unfolding q by simp
  then have "P (snd (pg_exec d (challengeRow d (stampChallenge now c)) sql_insert_challenge q))"
    using assms(2) by (intro exec_kept) (auto intro: kept_insert_challenge)
  then show ?thesis unfolding Postgres_SaveChallenge_def Let_def q using \<open>P q\<close> by (cases x) (simp_all only: prod.case sum.case snd_result snd_conv)
qed

lemma one_statement_kept:
  assumes "P p"
  shows "P (snd (Postgres_Delete d u p))" "P (snd (Postgres_DeletePAT d u i p))" "P (snd (Postgres_TouchPAT d h at p))"
    "P (snd (Postgres_SaveOAuthIdentity d oi now p))" "P (snd (Postgres_SaveWalletIdentity d wi now p))"
    "P (snd (Postgres_GetChallenge d n now p))" "P (snd (Postgres_DeleteChallenge d n p))" "P (snd (Postgres_SavePasswordHash d u h p))"
    "pat_adm None \<Longrightarrow> P (snd (Postgres_SavePAT d pat now p))"
  unfolding Postgres_Delete_def Postgres_DeletePAT_def Postgres_TouchPAT_def Postgres_SaveOAuthIdentity_def Postgres_SaveWalletIdentity_def
    Postgres_DeleteChallenge_def Postgres_SavePasswordHash_def Postgres_SavePAT_def Let_def snd_result
  using assms
  by (auto intro!: exec_kept intro: kept_delete_user kept_delete_pat kept_touch kept_insert_oauth kept_insert_wallet kept_delete_challenge
      kept_credential kept_insert_pat simp: Postgres_GetChallenge_def split: sum.split option.split)

lemma step_kept:
  assumes "P p" "admissible d op"
  shows "P (snd (pg_step d op p))"
  using assms Create_kept SaveRefreshToken_kept RevokeTokens_kept SavePATLimited_kept Rotate_kept SaveChallenge_kept one_statement_kept
  by (cases op) (simp_all add: outcome_def case_prod_beta)

text \<open>A run in which the driver may change from call to call, as its failures and its clock do.\<close>

lemma run_kept:
  "P p \<Longrightarrow> list_all (\<lambda>(d, op). admissible d op) calls \<Longrightarrow> P (snd (run_steps (\<lambda>(d, op). pg_step d op) calls p))"
  by (induction calls arbitrary: p) (auto simp: case_prod_beta intro: step_kept)

end

subsection \<open>The constraints\<close>

lemma pg_inv_insert_user:
  assumes "pg_inv p" "ur_email r \<noteq> Some []" "sql_insert_user r p = Inr (x, p')"
  shows "pg_inv p'"
proof -
  have p': "p' = p\<lparr>pg_users := pg_users p @ [r]\<rparr>" and new: "ur_id r \<notin> set (map ur_id (pg_users p))"
    "ur_email r \<noteq> None \<Longrightarrow> ur_email r \<notin> set (map ur_email (pg_users p))"
    using assms(3) by (auto simp: sql_insert_user_def split: if_splits)
  have "distinct (map fst (email_rows (pg_users p @ [r])))"
  proof (cases "ur_email r")
    case (Some e)
    then have "e \<notin> set (map fst (email_rows (pg_users p)))" using new(2) unfolding email_in by simp
    then show ?thesis using assms(1) Some by (simp add: pg_inv_def email_rows_append)
  qed (use assms(1) in \<open>simp add: pg_inv_def email_rows_append\<close>)
  then show ?thesis unfolding p' using assms(1,2) new(1) by (auto simp: pg_inv_def pg_owned_def has_user_row_def)
qed

lemma pg_inv_nonces: "pg_inv p \<Longrightarrow> distinct (map Ch_Nonce (pg_challenges p))"
  by (simp add: pg_inv_def)

lemma pg_inv_pats_iff:
  "pg_inv p \<Longrightarrow> pg_inv (p\<lparr>pg_pats := ts\<rparr>) \<longleftrightarrow>
     distinct (map PAT_ID ts) \<and> distinct (map PAT_Hash ts) \<and> (\<forall>t\<in>set ts. has_user_row p (PAT_UserID t))"
  by (simp add: pg_inv_def pg_owned_def has_user_row_def conj_comms)

lemma pg_inv_oauth_iff:
  "pg_inv p \<Longrightarrow> pg_inv (p\<lparr>pg_oauth := is\<rparr>) \<longleftrightarrow>
     distinct (map (\<lambda>i. (OI_Provider i, OI_ExternalID i)) is) \<and> (\<forall>i\<in>set is. has_user_row p (OI_UserID i))"
  by (simp add: pg_inv_def pg_owned_def has_user_row_def conj_comms)

lemma pg_inv_wallet_iff:
  "pg_inv p \<Longrightarrow> pg_inv (p\<lparr>pg_wallet := is\<rparr>) \<longleftrightarrow>
     distinct (map (\<lambda>i. (WI_Chain i, WI_Address i)) is) \<and> (\<forall>i\<in>set is. has_user_row p (WI_UserID i))"
  by (simp add: pg_inv_def pg_owned_def has_user_row_def conj_comms)

lemma pg_inv_credentials_iff:
  "pg_inv p \<Longrightarrow> pg_inv (p\<lparr>pg_credentials := cs\<rparr>) \<longleftrightarrow>
     distinct (map cr_user_id cs) \<and> (\<forall>c\<in>set cs. has_user_row p (cr_user_id c))"
  by (simp add: pg_inv_def pg_owned_def has_user_row_def conj_comms)

lemma pg_inv_rows:
  assumes "pg_inv p"
  shows "distinct (map PAT_ID (pg_pats p))" "distinct (map PAT_Hash (pg_pats p))"
    "t \<in> set (pg_pats p) \<Longrightarrow> has_user_row p (PAT_UserID t)"
    "distinct (map (\<lambda>i. (OI_Provider i, OI_ExternalID i)) (pg_oauth p))" "i \<in> set (pg_oauth p) \<Longrightarrow> has_user_row p (OI_UserID i)"
    "distinct (map (\<lambda>i. (WI_Chain i, WI_Address i)) (pg_wallet p))" "j \<in> set (pg_wallet p) \<Longrightarrow> has_user_row p (WI_UserID j)"
    "distinct (map cr_user_id (pg_credentials p))" "c \<in> set (pg_credentials p) \<Longrightarrow> has_user_row p (cr_user_id c)"
  using assms by (simp_all add: pg_inv_def pg_owned_def)

lemma map_keys: "(\<And>r. f (g r) = f r) \<Longrightarrow> map f (map g rows) = map f rows"
  by simp

interpretation inv: pg_kept pg_inv "\<lambda>r. ur_email r \<noteq> Some []" "\<lambda>t. True" "\<lambda>l. True" "\<lambda>c. True"
proof unfold_locales
  show "of_tables pg_inv" by (rule of_tables_inv)
  show "pg_inv p'" if "pg_inv p" "ur_email r \<noteq> Some []" "sql_insert_user r p = Inr (x, p')" for p r x p'
    using that by (rule pg_inv_insert_user)
  show "pg_inv p'" if "pg_inv p" "sql_delete_user u p = Inr (b, p')" for p u b p' using pg_inv_delete [OF that(1), of u] that(2) by simp
  show "pg_inv p'" if "pg_inv p" "sql_insert_refresh t p = Inr (x, p')" for p t x p'
    using that pg_inv_insert_refresh [OF that(1), of t] by (auto simp: sql_insert_refresh_def split: if_splits)
  show "pg_inv p'" if "pg_inv p" "sql_rotate now h p = Inr (rt, p')" for p now h rt p'
    using that(2) by (auto simp: sql_rotate_def Let_def intro!: pg_inv_refresh_map [OF that(1)])
  show "pg_inv p'" if "pg_inv p" "sql_revoke now h p = Inr (x, p')" for p now h x p'
    using that(2) by (auto simp: sql_revoke_def intro!: pg_inv_refresh_map [OF that(1)])
  show ins: "pg_inv p'" if "pg_inv p" "sql_insert_pat pat p = Inr (x, p')" for p pat x p'
    using that(2) pg_inv_rows(1-3) [OF that(1)] by (auto simp: sql_insert_pat_def pg_inv_pats_iff [OF that(1)] split: if_splits)
  show "pg_inv p'" if "pg_inv p" "sql_insert_pat_limited l pat p = Inr (b, p')" for p l pat b p'
    using that ins [OF that(1), of pat "()"] by (auto simp: sql_insert_pat_limited_def split: if_splits sum.splits)
  show "pg_inv p'" if "pg_inv p" "sql_prune_pats at u p = Inr (x, p')" for p at u x p'
    using that pg_inv_prune [OF that(1), of at u] by (simp add: sql_prune_pats_def prunePATs_def)
  show "pg_inv p'" if "pg_inv p" "sql_delete_pat iu p = Inr (b, p')" for p iu b p'
    using that(2) pg_inv_rows(1-3) [OF that(1)] by (auto simp: sql_delete_pat_def pg_inv_pats_iff [OF that(1)] distinct_map_filter)
  show "pg_inv p'" if "pg_inv p" "sql_touch_pat at h p = Inr (x, p')" for p at h x p'
    using that(2) pg_inv_rows(1-3) [OF that(1)] map_keys [of PAT_ID "\<lambda>t. if PAT_Hash t = h then t\<lparr>PAT_LastUsedAt := Some at\<rparr> else t" "pg_pats p"]
      map_keys [of PAT_Hash "\<lambda>t. if PAT_Hash t = h then t\<lparr>PAT_LastUsedAt := Some at\<rparr> else t" "pg_pats p"]
    by (auto simp: sql_touch_pat_def pg_inv_pats_iff [OF that(1)] simp del: map_map)
  show "pg_inv p'" if "pg_inv p" "sql_insert_oauth i p = Inr (x, p')" for p i x p'
    using that(2) pg_inv_rows(4,5) [OF that(1)] by (auto simp: sql_insert_oauth_def pg_inv_oauth_iff [OF that(1)] split: if_splits)
  show "pg_inv p'" if "pg_inv p" "sql_insert_wallet j p = Inr (x, p')" for p j x p'
    using that(2) pg_inv_rows(6,7) [OF that(1)] by (auto simp: sql_insert_wallet_def pg_inv_wallet_iff [OF that(1)] split: if_splits)
  show "pg_inv p'" if "pg_inv p" "sql_sweep now v p = Inr (x, p')" for p now v x p'
    using that(2) pg_inv_nonces [OF that(1)] by (auto simp: sql_sweep_def distinct_map_filter intro!: pg_inv_challenges [OF that(1)])
  show "pg_inv p'" if "pg_inv p" "sql_insert_challenge c p = Inr (x, p')" for p c x p'
    using that(2) pg_inv_nonces [OF that(1)] by (auto simp: sql_insert_challenge_def intro!: pg_inv_challenges [OF that(1)] split: if_splits)
  show "pg_inv p'" if "pg_inv p" "sql_delete_challenge n p = Inr (b, p')" for p n b p'
    using that(2) pg_inv_nonces [OF that(1)] by (auto simp: sql_delete_challenge_def distinct_map_filter intro!: pg_inv_challenges [OF that(1)])
  show "pg_inv p'" if "pg_inv p" "sql_upsert_credential now uh p = Inr (x, p')" for p now uh x p'
    using that(2) pg_inv_rows(8,9) [OF that(1)] map_keys [of cr_user_id "\<lambda>c. if cr_user_id c = fst uh then c\<lparr>cr_password_hash := snd uh, cr_updated_at := now\<rparr> else c" "pg_credentials p"]
    by (auto simp: sql_upsert_credential_def pg_inv_credentials_iff [OF that(1)] simp del: map_map split: if_splits)
qed

text \<open>A server that does not turn a non-empty text into an empty one.\<close>

definition keeps_nonempty :: "pg_driver \<Rightarrow> bool" where
  "keeps_nonempty d \<longleftrightarrow> (\<forall>n x. x \<noteq> [] \<longrightarrow> pg_text d n x \<noteq> Some [])"

lemma admissible_inv: "keeps_nonempty d \<Longrightarrow> inv.admissible d op"
  by (cases op) (auto simp: option.pred_set userRow_def keeps_nonempty_def split: option.splits if_splits)


text \<open>The demonstration run with the third statement lost.\<close>

definition flaky_pg :: pg_driver where
  "flaky_pg = demo_pg\<lparr>pg_fail := (\<lambda>n. if n = 2 then Some ''08006'' else None)\<rparr>"


subsection \<open>Rotation and the cap\<close>

definition pg_spent :: "string \<Rightarrow> PG \<Rightarrow> bool" where
  "pg_spent h p \<longleftrightarrow> (\<forall>t\<in>set (pg_refresh p). RT_Hash t = h \<longrightarrow> RT_Revoked t)"

interpretation spent: pg_kept "pg_spent h" "\<lambda>r. True" "\<lambda>t. RT_Hash t \<noteq> h" "\<lambda>l. True" "\<lambda>c. True" for h
  by unfold_locales
    (auto simp: of_tables_def pg_spent_def sql_insert_user_def sql_delete_user_def sql_insert_refresh_def sql_rotate_def Let_def
      sql_revoke_def sql_insert_pat_def sql_insert_pat_limited_def sql_prune_pats_def sql_delete_pat_def sql_touch_pat_def
      sql_insert_oauth_def sql_insert_wallet_def sql_sweep_def sql_insert_challenge_def sql_delete_challenge_def
      sql_upsert_credential_def split: if_splits sum.splits)

definition user_pat_rows :: "string \<Rightarrow> PG \<Rightarrow> PersonalAccessToken list" where
  "user_pat_rows u p = filter (\<lambda>t. PAT_UserID t = u) (pg_pats p)"

definition pg_capped :: "int \<Rightarrow> PG \<Rightarrow> bool" where
  "pg_capped limit p \<longleftrightarrow> (\<forall>u. int (length (user_pat_rows u p)) \<le> max 0 limit)"

lemma capped_le:
  "pg_capped limit p \<Longrightarrow> (\<And>u. length (user_pat_rows u p') \<le> length (user_pat_rows u p)) \<Longrightarrow> pg_capped limit p'"
  unfolding pg_capped_def by (meson of_nat_mono order_trans)

lemma length_filter_filter: "length (filter q (filter r xs)) \<le> length (filter q xs)"
  by (induction xs) auto

lemma capped_same: "pg_capped limit p \<Longrightarrow> pg_pats p' = pg_pats p \<Longrightarrow> pg_capped limit p'"
  by (simp add: pg_capped_def user_pat_rows_def)

interpretation cap: pg_kept "pg_capped limit" "\<lambda>r. True" "\<lambda>t. True" "\<lambda>l. l = Some limit" "\<lambda>c. True" for limit
proof unfold_locales
  show "of_tables (pg_capped limit)" by (simp add: of_tables_def pg_capped_def user_pat_rows_def)
  show "pg_capped limit p'" if "pg_capped limit p" "sql_delete_user u p = Inr (b, p')" for p u b p'
    using that by (intro capped_le [OF that(1)]) (auto simp: sql_delete_user_def user_pat_rows_def length_filter_filter simp del: filter_filter)
  show "pg_capped limit p'" if "pg_capped limit p" "sql_prune_pats at u p = Inr (x, p')" for p at u x p'
    using that by (intro capped_le [OF that(1)]) (auto simp: sql_prune_pats_def user_pat_rows_def length_filter_filter simp del: filter_filter)
  show "pg_capped limit p'" if "pg_capped limit p" "sql_delete_pat iu p = Inr (b, p')" for p iu b p'
    using that by (intro capped_le [OF that(1)]) (auto simp: sql_delete_pat_def user_pat_rows_def length_filter_filter simp del: filter_filter)
  show "pg_capped limit p'" if "pg_capped limit p" "sql_touch_pat at h p = Inr (x, p')" for p at h x p'
    using that by (intro capped_le [OF that(1)]) (auto simp: sql_touch_pat_def user_pat_rows_def filter_map o_def if_distrib cong: if_cong)
  show "pg_capped limit p'" if "pg_capped limit p" "Some l = Some limit" "sql_insert_pat_limited l pat p = Inr (b, p')" for p l pat b p'
    using that by (auto simp: sql_insert_pat_limited_def sql_insert_pat_def pg_capped_def user_pat_rows_def split: if_splits)
qed (auto simp: sql_insert_user_def sql_insert_refresh_def sql_rotate_def Let_def sql_revoke_def sql_insert_oauth_def
      sql_insert_wallet_def sql_sweep_def sql_insert_challenge_def sql_delete_challenge_def sql_upsert_credential_def
      intro: capped_same split: if_splits)

fun pg_rotates :: "string \<Rightarrow> pg_driver \<Rightarrow> mem_op \<Rightarrow> PG \<Rightarrow> bool" where
  "pg_rotates h d (OpRotateRefreshToken h' now) p =
     (pg_text d None h' = Some h \<and> snd (fst (Postgres_RotateRefreshToken d h' now p)) = None)"
| "pg_rotates h d op p = False"

fun pg_rotations :: "string \<Rightarrow> (pg_driver \<times> mem_op) list \<Rightarrow> PG \<Rightarrow> nat" where
  "pg_rotations h [] p = 0"
| "pg_rotations h ((d, op) # calls) p = (if pg_rotates h d op p then 1 else 0) + pg_rotations h calls (snd (pg_step d op p))"

lemma pg_rotates_cases:
  assumes "pg_rotates h d op p"
  obtains now q where "\<exists>t\<in>set (pg_refresh p). rotatable h now t" "sql_rotate now h p = Inr q" "snd (pg_step d op p) = pg_tick (snd q)"
proof -
  obtain h' now where o: "op = OpRotateRefreshToken h' now" "pg_text d None h' = Some h"
    "snd (fst (Postgres_RotateRefreshToken d h' now p)) = None"
    using assms by (cases op) auto
  then have "pg_fail d (pg_stmt p) = None" "find (rotatable h (pg_time now)) (pg_refresh p) \<noteq> None"
    by (auto simp: Postgres_RotateRefreshToken_def pg_exec_def sql_rotate_def Let_def split: option.splits sum.splits)
  then have f: "pg_fail d (pg_stmt p) = None" "\<exists>t\<in>set (pg_refresh p). rotatable h (pg_time now) t"
    by (auto simp: find_None_iff)
  have "snd (Postgres_RotateRefreshToken d h' now p) = pg_tick (snd (projr (sql_rotate (pg_time now) h p)))"
    using f(1) o(2) by (auto simp: Postgres_RotateRefreshToken_def pg_exec_def sql_rotate_def Let_def split: option.split sum.split)
  then show thesis
    using f(2) by (intro that [of "pg_time now" "projr (sql_rotate (pg_time now) h p)"])
      (simp_all add: o(1) case_prod_beta sql_rotate_def Let_def)
qed

lemma pg_rotates_spent:
  assumes "pg_inv p" "pg_rotates h d op p"
  shows "pg_spent h (snd (pg_step d op p))" "\<not> pg_spent h p"
proof -
  obtain now q where q: "\<exists>t\<in>set (pg_refresh p). rotatable h now t" "sql_rotate now h p = Inr q" "snd (pg_step d op p) = pg_tick (snd q)"
    using pg_rotates_cases [OF assms(2)] by blast
  then obtain t0 where t0: "t0 \<in> set (pg_refresh p)" "rotatable h now t0" by blast
  have "t = t0" if "t \<in> set (pg_refresh p)" "RT_Hash t = h" for t
    using assms(1) t0 that by (auto simp: pg_inv_def distinct_map inj_on_def rotatable_def)
  then show "pg_spent h (snd (pg_step d op p))"
    using q(2,3) t0 by (auto simp: pg_spent_def sql_rotate_def Let_def)
  show "\<not> pg_spent h p" using t0 by (auto simp: pg_spent_def rotatable_def)
qed

fun pg_saves_hash :: "string \<Rightarrow> pg_driver \<Rightarrow> mem_op \<Rightarrow> bool" where
  "pg_saves_hash h d (OpSaveRefreshToken t now) = (pg_text d (Some 255) (RT_Hash t) = Some h)"
| "pg_saves_hash h d op = False"

lemma admissible_spent: "\<not> pg_saves_hash h d op \<Longrightarrow> spent.admissible h d op"
  by (cases op) (auto simp: option.pred_set refreshRow_def stampRefresh_def split: option.splits if_splits)

lemma pg_spent_rotations:
  "pg_spent h p \<Longrightarrow> pg_inv p \<Longrightarrow> list_all (\<lambda>(d, op). keeps_nonempty d \<and> \<not> pg_saves_hash h d op) calls \<Longrightarrow> pg_rotations h calls p = 0"
proof (induction calls arbitrary: p)
  case (Cons c calls)
  obtain d op where c: "c = (d, op)" by fastforce
  have "pg_spent h (snd (pg_step d op p))" "pg_inv (snd (pg_step d op p))"
    using Cons.prems c by (auto intro!: spent.step_kept inv.step_kept admissible_spent admissible_inv)
  then show ?case using Cons pg_rotates_spent(2) [OF Cons.prems(2)] c by auto
qed simp

lemma pg_rotations_once:
  "pg_inv p \<Longrightarrow> list_all (\<lambda>(d, op). keeps_nonempty d \<and> \<not> pg_saves_hash h d op) calls \<Longrightarrow> pg_rotations h calls p \<le> 1"
proof (induction calls arbitrary: p)
  case (Cons c calls)
  obtain d op where c: "c = (d, op)" by fastforce
  have i: "pg_inv (snd (pg_step d op p))" using Cons.prems c by (auto intro!: inv.step_kept admissible_inv)
  show ?case
  proof (cases "pg_rotates h d op p")
    case True
    from pg_spent_rotations [OF pg_rotates_spent(1) [OF Cons.prems(1) True] i, of calls] Cons.prems(2) True c show ?thesis by simp
  next
    case False
    then show ?thesis using Cons.IH [OF i] Cons.prems(2) c by simp
  qed
qed simp

text \<open>
  C10. Rotation is exclusive on the Postgres store. From any state of the constraints, in any sequence of
  calls with failures at any point, at most one rotation of a given token succeeds, as long as no new row is
  filed under its hash: the conditional \<^verbatim>\<open>UPDATE\<close> matches a live row only, and no statement makes a
  revoked row live again.
\<close>

theorem postgres_rotate_once:
  assumes "pg_inv p" "list_all (\<lambda>(d, op). keeps_nonempty d \<and> \<not> pg_saves_hash h d op) calls"
  shows "pg_rotations h calls p \<le> 1"
  using assms by (rule pg_rotations_once)

theorem postgres_rotate_once_witness:
  "pg_rotations ''h'' (map (Pair flaky_pg) [OpRotateRefreshToken ''h'' 6000, OpRotateRefreshToken ''h'' 6000, OpRotateRefreshToken ''h'' 7000])
     (snd (run_steps (pg_step demo_pg) (take 3 demo_ops) PG_empty)) \<le> 1 \<and>
   pg_rotates ''h'' flaky_pg (OpRotateRefreshToken ''h'' 6000) (snd (run_steps (pg_step demo_pg) (take 3 demo_ops) PG_empty))"
proof -
  let ?p = "snd (run_steps (pg_step demo_pg) (take 3 demo_ops) PG_empty)"
  have "fits_run demo_pg (take 3 demo_ops) PG_empty" by code_simp
  then have "pg_inv ?p" using run_steps_sim [OF pg_inv_empty demo_pg_quiet] by blast
  moreover have "list_all (\<lambda>(d, op). keeps_nonempty d \<and> \<not> pg_saves_hash ''h'' d op)
      (map (Pair flaky_pg) [OpRotateRefreshToken ''h'' 6000, OpRotateRefreshToken ''h'' 6000, OpRotateRefreshToken ''h'' 7000])"
    by (simp add: keeps_nonempty_def flaky_pg_def demo_pg_def)
  ultimately have "pg_rotations ''h'' (map (Pair flaky_pg)
      [OpRotateRefreshToken ''h'' 6000, OpRotateRefreshToken ''h'' 6000, OpRotateRefreshToken ''h'' 7000]) ?p \<le> 1"
    by (rule postgres_rotate_once)
  moreover have "pg_rotates ''h'' flaky_pg (OpRotateRefreshToken ''h'' 6000) ?p" by code_simp
  ultimately show ?thesis by (rule conjI)
qed

lemma admissible_cap: "capped_op limit op \<Longrightarrow> cap.admissible limit d op"
  by (cases op) (auto simp: option.pred_set)

text \<open>
  The PAT cap holds on the Postgres store. While tokens are created only through
  \<^verbatim>\<open>SavePATLimited\<close> with one limit, no sequence of calls, with failures at any point, leaves any user with
  more tokens than the limit.
\<close>

theorem postgres_pat_cap:
  assumes "list_all (\<lambda>(d, op). capped_op limit op) calls"
  shows "int (length (user_pat_rows u (snd (run_steps (\<lambda>(d, op). pg_step d op) calls PG_empty)))) \<le> max 0 limit"
proof -
  have "pg_capped limit PG_empty" by (simp add: pg_capped_def user_pat_rows_def PG_empty_def)
  moreover have "list_all (\<lambda>(d, op). cap.admissible limit d op) calls"
    using assms by (auto simp: list_all_iff case_prod_beta intro: admissible_cap)
  ultimately have "pg_capped limit (snd (run_steps (\<lambda>(d, op). pg_step d op) calls PG_empty))" by (rule cap.run_kept)
  then show ?thesis by (simp add: pg_capped_def)
qed

definition demo_pat_ops :: "mem_op list" where
  "demo_pat_ops = hd demo_ops # map (\<lambda>i. OpSavePATLimited \<lparr>PAT_ID = i, PAT_Hash = i, PAT_UserID = ''u'', PAT_Name = [], PAT_Scopes = [],
     PAT_ExpiresAt = None, PAT_LastUsedAt = None, PAT_CreatedAt = 5000\<rparr> 1 5000 5000) [''a'', ''b'']"

theorem postgres_pat_cap_witness:
  "int (length (user_pat_rows ''u'' (snd (run_steps (\<lambda>(d, op). pg_step d op) (map (Pair demo_pg) demo_pat_ops) PG_empty)))) = 1"
proof -
  have "list_all (\<lambda>(d, op). capped_op 1 op) (map (Pair demo_pg) demo_pat_ops)" by (simp add: demo_pat_ops_def demo_ops_def)
  from postgres_pat_cap [OF this, of "''u''"]
  have "int (length (user_pat_rows ''u'' (snd (run_steps (\<lambda>(d, op). pg_step d op) (map (Pair demo_pg) demo_pat_ops) PG_empty)))) \<le> 1" by simp
  moreover have "user_pat_rows ''u'' (snd (run_steps (\<lambda>(d, op). pg_step d op) (map (Pair demo_pg) demo_pat_ops) PG_empty)) \<noteq> []" by code_simp
  ultimately show ?thesis by (cases "user_pat_rows ''u'' (snd (run_steps (\<lambda>(d, op). pg_step d op) (map (Pair demo_pg) demo_pat_ops) PG_empty))") auto
qed

section \<open>Failures leave no trace\<close>

definition same_tables :: "PG \<Rightarrow> PG \<Rightarrow> bool" where
  "same_tables p p' \<longleftrightarrow> (\<exists>n. p' = p\<lparr>pg_stmt := n\<rparr>)"

lemma same_tables_tick: "same_tables p (pg_tick p)" "same_tables p (p\<lparr>pg_stmt := n\<rparr>)" "same_tables p p"
  by (auto simp: same_tables_def pg_tick_def intro: exI [of _ "pg_stmt p"])

lemma same_tables_trans: "same_tables p q \<Longrightarrow> same_tables q r \<Longrightarrow> same_tables p r"
  by (auto simp: same_tables_def)

lemma exec_failed: "pg_exec d args body p = (Inl c, p') \<Longrightarrow> same_tables p p'"
  by (auto dest: pg_exec_Inl simp: same_tables_tick)

lemma tx_failed: "pg_tx wb wc d body p = (Inl e, p') \<Longrightarrow> same_tables p p'"
  by (auto dest: pg_tx_Inl simp: same_tables_tick)

lemma exec_nothing:
  assumes "pg_exec d args body p = (Inr r, p')" "\<And>a p1. body a p = Inr (r, p1) \<Longrightarrow> p1 = p"
  shows "same_tables p p'"
proof -
  obtain a p1 where "body a p = Inr (r, p1)" "p' = pg_tick p1" using pg_exec_Inr [OF assms(1)] by blast
  then show ?thesis using assms(2) [of a p1] by (simp add: same_tables_tick)
qed

lemma filter_same: "(\<And>x. x \<in> set xs \<Longrightarrow> q x) \<Longrightarrow> filter q xs = xs"
  by (simp add: filter_id_conv)

lemma failed_users:
  assumes "pg_inv p"
  shows "Postgres_Create d u now p = (Inl e, p') \<Longrightarrow> same_tables p p'"
    "Postgres_Delete d uid p = (Inl e, p') \<Longrightarrow> same_tables p p'"
    "Postgres_SavePasswordHash d uid h p = (Inl e, p') \<Longrightarrow> same_tables p p'"
proof -
  have n: "snd (projr (sql_delete_user i p)) = p" if "\<not> has_user_row p i" for i
    using assms that by (auto simp: sql_delete_user_def pg_inv_def pg_owned_def has_user_row_def intro!: PG.equality filter_same)
  then have "p1 = p" if "sql_delete_user i p = Inr (False, p1)" for i p1 using that by (auto simp: sql_delete_user_def)
  then show "Postgres_Delete d uid p = (Inl e, p') \<Longrightarrow> same_tables p p'"
    by (auto simp: Postgres_Delete_def dest: exec_failed exec_nothing split: prod.splits sum.splits if_splits)
  show "Postgres_Create d u now p = (Inl e, p') \<Longrightarrow> same_tables p p'"
    by (auto simp: Postgres_Create_def Let_def dest: exec_failed split: prod.splits sum.splits)
  show "Postgres_SavePasswordHash d uid h p = (Inl e, p') \<Longrightarrow> same_tables p p'"
    by (auto simp: Postgres_SavePasswordHash_def dest: exec_failed split: prod.splits sum.splits)
qed

lemma failed_refresh:
  shows "Postgres_SaveRefreshToken d t now p = (Inl e, p') \<Longrightarrow> same_tables p p'"
    "Postgres_RevokeTokens d h now p = (Inl e, p') \<Longrightarrow> same_tables p p'"
    "Postgres_RotateRefreshToken d h now p = ((r, Some e), p') \<Longrightarrow> same_tables p p'"
proof -
  have "p1 = p" if "sql_rotate at h' p = Inr (None, p1)" for at h' p1
    using that by (auto simp: sql_rotate_def Let_def find_None_iff intro!: PG.equality map_idI)
  then show "Postgres_RotateRefreshToken d h now p = ((r, Some e), p') \<Longrightarrow> same_tables p p'"
    by (auto simp: Postgres_RotateRefreshToken_def dest: exec_failed exec_nothing split: prod.splits sum.splits option.splits)
  have "pg_insertRefresh d x p = (Inl e, p') \<Longrightarrow> same_tables p p'" for x
    by (auto simp: pg_insertRefresh_def dest: exec_failed split: prod.splits sum.splits)
  then show "Postgres_SaveRefreshToken d t now p = (Inl e, p') \<Longrightarrow> same_tables p p'"
    unfolding Postgres_SaveRefreshToken_def stampRefresh_def [symmetric] Let_def by (auto dest: tx_failed split: if_splits)
  show "Postgres_RevokeTokens d h now p = (Inl e, p') \<Longrightarrow> same_tables p p'"
    unfolding Postgres_RevokeTokens_def Let_def by (rule tx_failed)
qed

lemma failed_pats:
  shows "Postgres_SavePAT d t now p = (Inl e, p') \<Longrightarrow> same_tables p p'"
    "Postgres_DeletePAT d u i p = (Inl e, p') \<Longrightarrow> same_tables p p'"
    "Postgres_TouchPAT d h at p = (Inl e, p') \<Longrightarrow> same_tables p p'"
proof -
  have "p1 = p" if "sql_delete_pat iu p = Inr (False, p1)" for iu p1
    using that by (auto simp: sql_delete_pat_def list_ex_iff intro!: PG.equality filter_same)
  then show "Postgres_DeletePAT d u i p = (Inl e, p') \<Longrightarrow> same_tables p p'"
    by (auto simp: Postgres_DeletePAT_def dest: exec_failed exec_nothing split: prod.splits sum.splits if_splits)
  show "Postgres_SavePAT d t now p = (Inl e, p') \<Longrightarrow> same_tables p p'"
    by (auto simp: Postgres_SavePAT_def Let_def dest: exec_failed split: prod.splits sum.splits)
  show "Postgres_TouchPAT d h at p = (Inl e, p') \<Longrightarrow> same_tables p p'"
    by (auto simp: Postgres_TouchPAT_def dest: exec_failed split: prod.splits sum.splits)
qed

lemma failed_identities:
  shows "Postgres_SaveOAuthIdentity d i now p = (Inl e, p') \<Longrightarrow> same_tables p p'"
    "Postgres_SaveWalletIdentity d j now p = (Inl e, p') \<Longrightarrow> same_tables p p'"
    "Postgres_GetChallenge d n now p = (Inl e, p') \<Longrightarrow> same_tables p p'"
    "Postgres_DeleteChallenge d n p = (Inl e, p') \<Longrightarrow> same_tables p p'"
proof -
  have "p1 = p" if "sql_delete_challenge m p = Inr (False, p1)" for m p1
    using that by (auto simp: sql_delete_challenge_def intro!: PG.equality filter_same)
  then show "Postgres_DeleteChallenge d n p = (Inl e, p') \<Longrightarrow> same_tables p p'"
    by (auto simp: Postgres_DeleteChallenge_def dest: exec_failed exec_nothing split: prod.splits sum.splits if_splits)
  show "Postgres_SaveOAuthIdentity d i now p = (Inl e, p') \<Longrightarrow> same_tables p p'"
    by (auto simp: Postgres_SaveOAuthIdentity_def Let_def dest: exec_failed split: prod.splits sum.splits)
  show "Postgres_SaveWalletIdentity d j now p = (Inl e, p') \<Longrightarrow> same_tables p p'"
    by (auto simp: Postgres_SaveWalletIdentity_def Let_def dest: exec_failed split: prod.splits sum.splits)
  show "Postgres_GetChallenge d n now p = (Inl e, p') \<Longrightarrow> same_tables p p'"
    by (auto simp: Postgres_GetChallenge_def same_tables_tick split: sum.splits option.splits if_splits)
qed

lemma failed_SavePATLimited:
  assumes "Postgres_SavePATLimited d t l at now p = (Inl e, p')"
  shows "same_tables p p' \<or> e = Sentinel Store_ErrPATLimitReached \<and>
    (\<exists>u. pg_uuid d (PAT_UserID t) = Some u \<and> same_tables (prunePATs (pg_time at) u p) p')"
proof -
  let ?u = "PAT_UserID (stampPAT now t)"
  let ?body = "\<lambda>s. case Postgres_lockUser d ?u s of (Some err, s1) \<Rightarrow> (Inl err, s1)
    | (None, s1) \<Rightarrow> (case pg_exec d (pg_uuid d ?u) (sql_prune_pats (pg_time at)) s1 of
        (Inl code, s2) \<Rightarrow> (Inl (Errorf ''prune expired pats: %w'' [Foreign code]), s2)
      | (Inr _, s2) \<Rightarrow> (case pg_exec d (patRow d (stampPAT now t)) (sql_insert_pat_limited l) s2 of
          (Inl code, s3) \<Rightarrow> (Inl (patSaveError code), s3) | (Inr inserted, s3) \<Rightarrow> (Inr inserted, s3)))"
  let ?tx = "pg_tx (\<lambda>e. Errorf ''begin: %w'' [e]) (\<lambda>e. Errorf ''commit: %w'' [e]) d ?body p"
  obtain r q where tx: "?tx = (r, q)" by fastforce
  have m: "(case r of Inl err \<Rightarrow> (Inl err, q) | Inr ok \<Rightarrow> (if ok then Inr (stampPAT now t) else Inl (Sentinel Store_ErrPATLimitReached), q)) = (Inl e, p')"
    using assms unfolding Postgres_SavePATLimited_def Let_def tx by (simp split: sum.splits)
  show ?thesis
  proof (cases r)
    case (Inl err)
    then show ?thesis using m tx_failed [of _ _ d ?body p err q] tx by simp
  next
    case (Inr ok)
    then have q: "q = p'" "\<not> ok" "e = Sentinel Store_ErrPATLimitReached" using m by (auto split: if_splits)
    obtain p1 where p1: "?body (pg_tick p) = (Inr False, p1)" "p' = pg_tick p1" using pg_tx_Inr [of _ _ d ?body p ok q] tx Inr q by auto
    obtain s1 where s1: "Postgres_lockUser d ?u (pg_tick p) = (None, s1)"
      using p1(1) by (cases "Postgres_lockUser d ?u (pg_tick p)"; cases "fst (Postgres_lockUser d ?u (pg_tick p))") auto
    obtain s2 where s2: "pg_exec d (pg_uuid d ?u) (sql_prune_pats (pg_time at)) s1 = (Inr (), s2)"
      using p1(1) s1 by (cases "pg_exec d (pg_uuid d ?u) (sql_prune_pats (pg_time at)) s1";
          cases "fst (pg_exec d (pg_uuid d ?u) (sql_prune_pats (pg_time at)) s1)") auto
    have s3: "pg_exec d (patRow d (stampPAT now t)) (sql_insert_pat_limited l) s2 = (Inr False, p1)"
      using p1(1) s1 s2 by (auto split: prod.splits sum.splits)
    have e1: "same_tables p s1" using s1 exec_nothing [of d "pg_uuid d ?u" "\<lambda>u s. Inr (has_user_row s u, s)" "pg_tick p"]
      by (auto simp: Postgres_lockUser_def same_tables_def pg_tick_def split: prod.splits sum.splits if_splits)
    obtain u where u: "pg_uuid d ?u = Some u" "s2 = pg_tick (prunePATs (pg_time at) u s1)"
      using pg_exec_Inr [OF s2] by (auto simp: sql_prune_pats_def prunePATs_def)
    have "same_tables s2 p1"
      by (rule exec_nothing [OF s3]) (auto simp: sql_insert_pat_limited_def split: if_splits sum.splits)
    then have "same_tables (prunePATs (pg_time at) u p) p'"
      using e1 u(2) p1(2) by (auto simp: same_tables_def prunePATs_def pg_tick_def)
    then show ?thesis using q(3) u(1) by auto
  qed
qed

lemma failed_SaveChallenge:
  assumes "Postgres_SaveChallenge d c now p = (Inl e, p')"
  shows "\<exists>at. same_tables p p' \<or> same_tables (p\<lparr>pg_challenges := filter (\<lambda>c. \<not> Ch_ExpiresAt c < at) (pg_challenges p)\<rparr>) p'"
proof -
  let ?at = "pg_time (pg_clock d (pg_stmt p))"
  obtain r q where q: "pg_exec d (Some ()) (sql_sweep ?at) p = (r, q)" by fastforce
  show ?thesis
  proof (cases r)
    case (Inl code)
    then show ?thesis using assms q exec_failed [of d "Some ()" "sql_sweep ?at" p code q] by (auto simp: Postgres_SaveChallenge_def Let_def)
  next
    case (Inr u)
    then have "q = pg_tick (p\<lparr>pg_challenges := filter (\<lambda>c. \<not> Ch_ExpiresAt c < ?at) (pg_challenges p)\<rparr>)"
      using pg_exec_Inr [of d "Some ()" "sql_sweep ?at" p u q] q by (auto simp: sql_sweep_def)
    then have "same_tables (p\<lparr>pg_challenges := filter (\<lambda>c. \<not> Ch_ExpiresAt c < ?at) (pg_challenges p)\<rparr>) q" by (simp add: same_tables_tick)
    moreover have "same_tables q p'"
      using assms q Inr exec_failed unfolding Postgres_SaveChallenge_def Let_def by (fastforce split: prod.splits sum.splits)
    ultimately show ?thesis using same_tables_trans by blast
  qed
qed

lemma outcome_failed: "outcome r = (Some e, p') \<longleftrightarrow> r = (Inl e, p')"
  by (cases r; cases "fst r") (auto simp: outcome_def)



end
