(* ===== verification/Postgres_Session.thy ===== *)
theory Postgres_Session
  imports Postgres_Failures Dev_Session
begin

text \<open>
  The service on the Postgres store, as \<^verbatim>\<open>run\<close> in \<^verbatim>\<open>cmd/psina/main.go\<close> assembles it with a
  database. The store keeps the token-store contract whatever its driver does, so the session properties of
  the service hold on it with failures at any point.
\<close>

declare map_of_eq_Some_iff [simp del]
declare Some_eq_map_of_iff [simp del]

section \<open>The store keeps the token-store contract\<close>

definition pg_tokens :: "PG \<Rightarrow> string \<Rightarrow> RefreshToken option" where
  "pg_tokens p h = find (\<lambda>t. RT_Hash t = h) (pg_refresh p)"

text \<open>The server returns a text it has taken as it was given (a blank tail beyond the length of a
  \<^verbatim>\<open>varchar\<close> column, which it would cut, is no token hash).\<close>

definition keeps_text :: "pg_driver \<Rightarrow> bool" where
  "keeps_text d \<longleftrightarrow> (\<forall>n x y. pg_text d n x = Some y \<longrightarrow> y = x)"

definition pg_ok :: "pg_driver \<Rightarrow> PG \<Rightarrow> bool" where
  "pg_ok d p \<longleftrightarrow> keeps_text d \<and> distinct (map RT_Hash (pg_refresh p))"

text \<open>The row filed for a token.\<close>

definition pg_row :: "pg_driver \<Rightarrow> RefreshToken \<Rightarrow> RefreshToken" where
  "pg_row d t = (case refreshRow d t of None \<Rightarrow> t | Some r \<Rightarrow> r\<lparr>RT_Hash := RT_Hash t, RT_Parent := RT_Parent t\<rparr>)"

lemma keeps_textD: "keeps_text d \<Longrightarrow> pg_text d n x = Some y \<Longrightarrow> y = x"
  by (simp add: keeps_text_def)

lemma pg_ok_text: "pg_ok d p \<Longrightarrow> keeps_text d"
  by (simp add: pg_ok_def)

lemma pg_row_stored:
  assumes "keeps_text d" "refreshRow d t = Some r"
  shows "pg_row d t = r" "RT_Hash r = RT_Hash t" "RT_Parent r = RT_Parent t"
  using assms by (auto simp: pg_row_def refreshRow_def dest: keeps_textD [OF assms(1)] split: option.splits)

lemma pg_ok_same: "same_tables p p' \<Longrightarrow> pg_ok d p \<Longrightarrow> pg_ok d p' \<and> pg_tokens p' = pg_tokens p"
  by (auto simp: same_tables_def pg_ok_def pg_tokens_def fun_eq_iff)

lemma find_append_new:
  "f r \<notin> set (map f rows) \<Longrightarrow> find (\<lambda>x. f x = k) (rows @ [r]) = (if k = f r then Some r else find (\<lambda>x. f x = k) rows)"
  by (induction rows) auto

lemma insertRefresh_ok:
  assumes "pg_ok d p" "pg_insertRefresh d t p = (Inr u, p')"
  shows "pg_ok d p' \<and> pg_tokens p' = (pg_tokens p)(RT_Hash t \<mapsto> pg_row d t)"
proof -
  obtain r where r: "refreshRow d t = Some r" "RT_Hash r \<notin> set (map RT_Hash (pg_refresh p))"
    "p' = pg_tick (p\<lparr>pg_refresh := pg_refresh p @ [r]\<rparr>)"
    using assms(2) by (auto simp: pg_insertRefresh_def sql_insert_refresh_def dest!: pg_exec_Inr split: prod.splits sum.splits if_splits)
  note row = pg_row_stored [OF pg_ok_text [OF assms(1)] r(1)]
  show ?thesis using assms(1) r(2,3) row find_append_new [of RT_Hash, OF r(2)] by (auto simp: pg_ok_def pg_tokens_def fun_eq_iff)
qed

lemma SaveRefreshToken_ok:
  assumes "pg_ok d p" "Postgres_SaveRefreshToken d t now p = (Inr u, p')"
  shows "pg_ok d p' \<and> (RT_Parent t \<noteq> [] \<longrightarrow> (\<exists>root. pg_tokens p (RT_Parent t) = Some root \<and> RT_EndedAt root = None)) \<and>
    (\<exists>c. pg_tokens p' = (pg_tokens p)(RT_Hash t \<mapsto> pg_row d (t\<lparr>RT_CreatedAt := c\<rparr>)))"
proof -
  let ?t = "stampRefresh now t"
  have st: "RT_Hash ?t = RT_Hash t" "RT_Parent ?t = RT_Parent t" "\<exists>c. ?t = t\<lparr>RT_CreatedAt := c\<rparr>"
    by (auto simp: stampRefresh_def intro: exI [of _ "RT_CreatedAt t"])
  show ?thesis
  proof (cases "RT_Parent t = []")
    case True
    then have "pg_insertRefresh d ?t p = (Inr u, p')"
      using assms(2) st(2) unfolding Postgres_SaveRefreshToken_def stampRefresh_def [symmetric] Let_def by simp
    from insertRefresh_ok [OF assms(1) this] st True show ?thesis by auto
  next
    case False
    let ?lock = "\<lambda>h s. Inr (find (\<lambda>t. RT_Hash t = h) (pg_refresh s), s)"
    obtain p1 s1 root where l: "pg_exec d (pg_text d None (RT_Parent t)) ?lock (pg_tick p) = (Inr (Some root), s1)" "RT_EndedAt root = None"
      "pg_insertRefresh d ?t s1 = (Inr u, p1)" "p' = pg_tick p1"
      using assms(2) False st(2) unfolding Postgres_SaveRefreshToken_def stampRefresh_def [symmetric] Let_def
      by (auto dest!: pg_tx_Inr split: prod.splits sum.splits option.splits if_splits)
    obtain h where h: "pg_text d None (RT_Parent t) = Some h" "find (\<lambda>t. RT_Hash t = h) (pg_refresh p) = Some root" "s1 = pg_tick (pg_tick p)"
      using pg_exec_Inr [OF l(1)] by auto
    have "pg_tokens p (RT_Parent t) = Some root" using h keeps_textD [OF pg_ok_text [OF assms(1)] h(1)] by (simp add: pg_tokens_def)
    moreover have "pg_ok d s1" "pg_tokens s1 = pg_tokens p" using assms(1) h(3) by (simp_all add: pg_ok_def pg_tokens_def fun_eq_iff)
    ultimately show ?thesis using insertRefresh_ok [of d s1 ?t u p1] l st by (auto simp: pg_ok_def pg_tokens_def fun_eq_iff)
  qed
qed

lemma Rotate_ok:
  assumes "pg_ok d p" "Postgres_RotateRefreshToken d h now p = ((r, None), p')"
  shows "pg_ok d p' \<and> (\<exists>t. pg_tokens p h = Some t \<and> \<not> RT_Revoked t \<and> pg_time now < RT_ExpiresAt t \<and>
      r = Some (t\<lparr>RT_Revoked := True, RT_RotatedAt := Some (pg_time now)\<rparr>) \<and>
      pg_tokens p' = (pg_tokens p)(h \<mapsto> t\<lparr>RT_Revoked := True, RT_RotatedAt := Some (pg_time now)\<rparr>))"
proof -
  let ?upd = "\<lambda>t. t\<lparr>RT_Revoked := True, RT_RotatedAt := Some (pg_time now)\<rparr>"
  let ?g = "\<lambda>t. if rotatable h (pg_time now) t then ?upd t else t"
  have dist: "distinct (map RT_Hash (pg_refresh p))" using assms(1) by (simp add: pg_ok_def)
  obtain x where x: "pg_exec d (pg_text d None h) (sql_rotate (pg_time now)) p = (Inr (Some x), p')" "r = Some x"
    using assms(2) by (auto simp: Postgres_RotateRefreshToken_def split: prod.splits sum.splits option.splits)
  obtain h' p1 where h': "pg_text d None h = Some h'" "sql_rotate (pg_time now) h' p = Inr (Some x, p1)" "p' = pg_tick p1"
    using pg_exec_Inr [OF x(1)] by blast
  have "h' = h" using keeps_textD [OF pg_ok_text [OF assms(1)] h'(1)] .
  then obtain t where t: "find (rotatable h (pg_time now)) (pg_refresh p) = Some t" "x = ?upd t" "pg_refresh p1 = map ?g (pg_refresh p)"
    using h'(2) by (auto simp: sql_rotate_def Let_def)
  then have f: "find (\<lambda>t. RT_Hash t = h) (pg_refresh p) = Some t" "\<not> RT_Revoked t" "pg_time now < RT_ExpiresAt t" "RT_Hash t = h"
    by (auto simp: find_rotatable [OF dist] find_Some_iff split: option.splits if_splits)
  have m: "find (\<lambda>t. RT_Hash t = k) (map ?g rows) = map_option ?g (find (\<lambda>t. RT_Hash t = k) rows)" for k rows by (induction rows) auto
  have "pg_tokens p' k = ((pg_tokens p)(h \<mapsto> ?upd t)) k" for k
  proof (cases "k = h")
    case False
    then have "\<not> rotatable h (pg_time now) y" if "find (\<lambda>t. RT_Hash t = k) (pg_refresh p) = Some y" for y
      using that by (auto simp: find_Some_iff rotatable_def)
    then show ?thesis using False h'(3) t(3) m by (cases "find (\<lambda>t. RT_Hash t = k) (pg_refresh p)") (simp_all add: pg_tokens_def)
  qed (use h'(3) t(3) m f in \<open>simp add: pg_tokens_def rotatable_def\<close>)
  moreover have "map RT_Hash (map ?g (pg_refresh p)) = map RT_Hash (pg_refresh p)" by simp
  ultimately show ?thesis using assms(1) h'(3) t x f by (auto simp: pg_ok_def pg_tokens_def fun_eq_iff simp del: map_map)
qed

lemma GetRefreshToken_ok:
  assumes "pg_ok d p"
  shows "Postgres_GetRefreshToken d h p = Inr t \<Longrightarrow> pg_tokens p h = Some t"
    "Postgres_GetRefreshToken d h p = Inl e \<Longrightarrow> errors_Is e Store_ErrTokenNotFound \<Longrightarrow> pg_tokens p h = None"
    "Postgres_GetRefreshToken d h p = Inl e \<Longrightarrow> \<not> errors_Is e Store_ErrTokenRevoked \<and> \<not> errors_Is e Store_ErrTokenExpired"
  using assms by (auto simp: Postgres_GetRefreshToken_def pg_query_def pg_tokens_def pg_ok_def dest: keeps_textD split: option.splits sum.splits)

lemma Rotate_err:
  assumes "pg_ok d p" "Postgres_RotateRefreshToken d h now p = ((r, Some e), p')"
  shows "pg_ok d p' \<and> pg_tokens p' = pg_tokens p \<and>
    (errors_Is e Store_ErrTokenRevoked \<longrightarrow> (\<exists>t. pg_tokens p h = Some t \<and> r = Some t \<and> RT_Revoked t)) \<and>
    (errors_Is e Store_ErrTokenExpired \<longrightarrow> (\<exists>t. pg_tokens p h = Some t \<and> \<not> pg_time now < RT_ExpiresAt t)) \<and>
    (errors_Is e Store_ErrTokenNotFound \<longrightarrow> pg_tokens p h = None)"
proof -
  have same: "pg_ok d p'" "pg_tokens p' = pg_tokens p" using pg_ok_same [OF failed_refresh(3) [OF assms(2)] assms(1)] by auto
  obtain x q where x: "pg_exec d (pg_text d None h) (sql_rotate (pg_time now)) p = (x, q)" by fastforce
  show ?thesis
  proof (cases x)
    case (Inl c)
    then show ?thesis using assms(2) x same by (auto simp: Postgres_RotateRefreshToken_def)
  next
    case (Inr o')
    then have n: "o' = None" "q = p'" using assms(2) x by (auto simp: Postgres_RotateRefreshToken_def split: option.splits sum.splits)
    obtain h' where "pg_text d None h = Some h'" "find (rotatable h' (pg_time now)) (pg_refresh p) = None"
      using pg_exec_Inr [OF x [unfolded Inr n(1)]] by (auto simp: sql_rotate_def Let_def)
    then have nr: "find (rotatable h (pg_time now)) (pg_refresh p) = None" using keeps_textD [OF pg_ok_text [OF assms(1)]] by metis
    show ?thesis
    proof (cases "Postgres_GetRefreshToken d h p'")
      case (Inl err)
      then show ?thesis using assms(2) x Inr n same GetRefreshToken_ok(2,3) [OF same(1) Inl] by (auto simp: Postgres_RotateRefreshToken_def)
    next
      case token: (Inr t)
      have "pg_tokens p h = Some t" using GetRefreshToken_ok(1) [OF same(1) token] same by simp
      moreover have "RT_Revoked t \<or> \<not> pg_time now < RT_ExpiresAt t"
        using nr calculation assms(1) by (auto simp: find_rotatable pg_ok_def pg_tokens_def)
      moreover have "r = Some t" "e = Sentinel (if RT_Revoked t then Store_ErrTokenRevoked else Store_ErrTokenExpired)"
        using assms(2) x Inr n token by (auto simp: Postgres_RotateRefreshToken_def)
      ultimately show ?thesis using same by auto
    qed
  qed
qed

lemma Revoke_ok:
  assumes "pg_ok d p" "Postgres_RevokeTokens d h now p = (Inr u, p')"
  shows "pg_ok d p' \<and> (\<exists>at. pg_tokens p' = (\<lambda>k. map_option (\<lambda>t. if inFamily h t then endToken at t else t) (pg_tokens p k)))"
proof -
  let ?at = "pg_time (pg_clock d (pg_stmt p))"
  let ?g = "\<lambda>t. if inFamily h t then endToken ?at t else t"
  obtain s1 p1 where s: "pg_exec d (pg_text d None h) (\<lambda>h s. Inr ((), s)) (pg_tick p) = (Inr (), s1)"
    "pg_exec d (pg_text d None h) (sql_revoke ?at) s1 = (Inr (), p1)" "p' = pg_tick p1"
    using assms(2) unfolding Postgres_RevokeTokens_def Let_def by (auto dest!: pg_tx_Inr split: prod.splits sum.splits)
  obtain h' where h': "pg_text d None h = Some h'" "p1 = pg_tick (s1\<lparr>pg_refresh := map (\<lambda>t. if inFamily h' t then endToken ?at t else t) (pg_refresh s1)\<rparr>)"
    using pg_exec_Inr [OF s(2)] by (auto simp: sql_revoke_def)
  have "s1 = pg_tick (pg_tick p)" using pg_exec_Inr [OF s(1)] by auto
  then have r: "pg_refresh p' = map ?g (pg_refresh p)" using s(3) h' keeps_textD [OF pg_ok_text [OF assms(1)] h'(1)] by simp
  have "find (\<lambda>t. RT_Hash t = k) (map ?g rows) = map_option ?g (find (\<lambda>t. RT_Hash t = k) rows)" for k rows by (induction rows) auto
  then have "pg_tokens p' = (\<lambda>k. map_option ?g (pg_tokens p k))" by (simp add: pg_tokens_def fun_eq_iff r)
  moreover have "map RT_Hash (map ?g (pg_refresh p)) = map RT_Hash (pg_refresh p)" by simp
  then have "pg_ok d p'" using assms(1) unfolding pg_ok_def r by metis
  ultimately show ?thesis by blast
qed

lemma tokens_in: "distinct (map RT_Hash (pg_refresh p)) \<Longrightarrow> t \<in> set (pg_refresh p) \<longleftrightarrow> (\<exists>h. pg_tokens p h = Some t)"
proof
  assume d: "distinct (map RT_Hash (pg_refresh p))" and t: "t \<in> set (pg_refresh p)"
  have "find (\<lambda>x. RT_Hash x = RT_Hash t) rows = Some t" if "t \<in> set rows" "distinct (map RT_Hash rows)" for rows
    using that by (induction rows) (auto simp: image_iff)
  then show "\<exists>h. pg_tokens p h = Some t" using d t unfolding pg_tokens_def by blast
qed (auto simp: pg_tokens_def find_Some_iff)

text \<open>The aggregate query over the family.\<close>

lemma sql_family_spec:
  "(SessionEnded (sql_family root p) \<longleftrightarrow> (\<exists>t\<in>set (pg_refresh p). inFamily root t \<and> RT_EndedAt t \<noteq> None)) \<and>
   (\<forall>t\<in>set (pg_refresh p). \<forall>r. inFamily root t \<and> RT_RotatedAt t = Some r \<longrightarrow> (\<exists>l. LastRotatedAt (sql_family root p) = Some l \<and> r \<le> l)) \<and>
   (\<forall>l. LastRotatedAt (sql_family root p) = Some l \<longrightarrow> (\<exists>t\<in>set (pg_refresh p). inFamily root t \<and> RT_RotatedAt t = Some l))"
proof -
  let ?init = "\<lparr>SessionEnded = False, LastRotatedAt = None\<rparr>"
  have f: "sql_family root p = fold (Memory_familyStep root) (pg_refresh p) ?init"
    unfolding family_fold by (simp add: sql_family_def Let_def)
  show ?thesis unfolding f
    using familyStep_SessionEnded [of root "pg_refresh p" ?init] familyStep_upper [of ?init _ "pg_refresh p" root]
      familyStep_attained [of root "pg_refresh p" ?init] by (intro conjI ballI allI impI; simp; blast)
qed

interpretation pg_ts: token_store "pgTokenStore d" pg_tokens "pg_ok d" pg_time "pg_row d" for d
proof unfold_locales
  show "RT_Hash t = h" if "pg_tokens p h = Some t" for p h t using that by (auto simp: pg_tokens_def find_Some_iff)
  show "RT_Hash (pg_row d t) = RT_Hash t" "RT_Parent (pg_row d t) = RT_Parent t" for t by (simp_all add: pg_row_def split: option.split)
  show "(SessionEnded f \<longleftrightarrow> (\<exists>h t. pg_tokens s h = Some t \<and> inFamily root t \<and> RT_EndedAt t \<noteq> None)) \<and>
      (\<forall>h t r. pg_tokens s h = Some t \<and> inFamily root t \<and> RT_RotatedAt t = Some r \<longrightarrow> (\<exists>l. LastRotatedAt f = Some l \<and> r \<le> l)) \<and>
      (\<forall>l. LastRotatedAt f = Some l \<longrightarrow> (\<exists>h t. pg_tokens s h = Some t \<and> inFamily root t \<and> RT_RotatedAt t = Some l))"
    if s: "pg_ok d s" and f: "GetRefreshFamily (pgTokenStore d) root s = Inr f" for s root f
  proof -
    have v: "t \<in> set (pg_refresh s) \<longleftrightarrow> (\<exists>h. pg_tokens s h = Some t)" for t using s by (intro tokens_in) (simp add: pg_ok_def)
    obtain h where "pg_text d None root = Some h" "f = sql_family h s"
      using f by (auto simp: pg_tables Postgres_GetRefreshFamily_def pg_query_def split: option.splits sum.splits)
    then have "f = sql_family root s" using keeps_textD [OF pg_ok_text [OF s]] by metis
    with sql_family_spec [of root s] show ?thesis unfolding Bex_def Ball_def v by blast
  qed
next
  fix s h now r s'
  assume "pg_ok d s" "RotateRefreshToken (pgTokenStore d) h now s = ((r, None), s')"
  then show "pg_ok d s' \<and> (\<exists>t. pg_tokens s h = Some t \<and> \<not> RT_Revoked t \<and> pg_time now < RT_ExpiresAt t \<and>
        r = Some (t\<lparr>RT_Revoked := True, RT_RotatedAt := Some (pg_time now)\<rparr>) \<and>
        pg_tokens s' = (pg_tokens s)(h \<mapsto> t\<lparr>RT_Revoked := True, RT_RotatedAt := Some (pg_time now)\<rparr>))"
    by (intro Rotate_ok) (simp_all add: pgTokenStore_def)
next
  fix s h now r e s'
  assume "pg_ok d s" "RotateRefreshToken (pgTokenStore d) h now s = ((r, Some e), s')"
  then show "pg_ok d s' \<and> pg_tokens s' = pg_tokens s \<and>
      (errors_Is e Store_ErrTokenRevoked \<longrightarrow> (\<exists>t. pg_tokens s h = Some t \<and> r = Some t \<and> RT_Revoked t)) \<and>
      (errors_Is e Store_ErrTokenExpired \<longrightarrow> (\<exists>t. pg_tokens s h = Some t \<and> \<not> pg_time now < RT_ExpiresAt t)) \<and>
      (errors_Is e Store_ErrTokenNotFound \<longrightarrow> pg_tokens s h = None)"
    by (intro Rotate_err) (simp_all add: pgTokenStore_def)
next
  fix s t now u s'
  assume "pg_ok d s" "SaveRefreshToken (pgTokenStore d) t now s = (Inr u, s')"
  then show "pg_ok d s' \<and> (RT_Parent t \<noteq> [] \<longrightarrow> (\<exists>root. pg_tokens s (RT_Parent t) = Some root \<and> RT_EndedAt root = None)) \<and>
      (\<exists>c. pg_tokens s' = (pg_tokens s)(RT_Hash t \<mapsto> pg_row d (t\<lparr>RT_CreatedAt := c\<rparr>)))"
    by (intro SaveRefreshToken_ok) (simp_all add: pgTokenStore_def)
next
  fix s h now u s'
  assume "pg_ok d s" "RevokeTokens (pgTokenStore d) h now s = (Inr u, s')"
  then show "pg_ok d s' \<and> (\<exists>at. pg_tokens s' = (\<lambda>k. map_option (\<lambda>t. if inFamily h t then endToken at t else t) (pg_tokens s k)))"
    by (intro Revoke_ok) (simp_all add: pgTokenStore_def)
qed (auto simp: pgTokenStore_def dest: failed_refresh(1,2) pg_ok_same GetRefreshToken_ok(1,2))

section \<open>The service\<close>

definition pgLocal :: "pg_driver \<Rightarrow> PG LocalProvider" where
  "pgLocal d = \<lparr>lp_userStore = pgUserStore d, lp_credentialStore = pgCredentialStore d\<rparr>"

definition pgOptions :: "pg_driver \<Rightarrow> duration \<Rightarrow> PATConfig option \<Rightarrow> PG OAuthPart option \<Rightarrow>
    PG WalletPart option \<Rightarrow> PG ServiceOption list" where
  "pgOptions d leeway pat oauth wallet =
    [WithRefreshReuseLeeway leeway] @
    (case pat of None \<Rightarrow> [] | Some cfg \<Rightarrow> [WithPAT (Some (pgPATStore d)) cfg]) @
    (case oauth of None \<Rightarrow> [] | Some part \<Rightarrow> [\<lambda>s. s\<lparr>svc_oauth := Some part\<rparr>]) @
    (case wallet of None \<Rightarrow> [] | Some part \<Rightarrow> [\<lambda>s. s\<lparr>svc_wallet := Some part\<rparr>])"

definition pgService :: "pg_driver \<Rightarrow> jose \<Rightarrow> Issuer \<Rightarrow> duration \<Rightarrow> PATConfig option \<Rightarrow> PG OAuthPart option \<Rightarrow>
    PG WalletPart option \<Rightarrow> PG Service" where
  "pgService d j i leeway pat oauth wallet =
    (case NewService (pgTokenStore d) (pgUserStore d) (issuerTable j i) [localTable (pgLocal d)]
            (pgOptions d leeway pat oauth wallet) of
       Inr svc \<Rightarrow> svc
     | Inl e \<Rightarrow> undefined)"

lemma NewService_pg:
  "NewService (pgTokenStore d) (pgUserStore d) (issuerTable j i) [localTable (pgLocal d)]
     (pgOptions d leeway pat oauth wallet) = Inr (pgService d j i leeway pat oauth wallet)"
  by (simp add: pgService_def NewService_def)

lemma pgService_simps [simp]:
  "svc_tokenStore (pgService d j i l p oa wa) = pgTokenStore d"
  "svc_userStore (pgService d j i l p oa wa) = pgUserStore d"
  "svc_issuer (pgService d j i l p oa wa) = issuerTable j i"
  "svc_now (pgService d j i l p oa wa) = time_Now"
  "svc_refreshReuseLeeway (pgService d j i l p oa wa) = max l 0"
  by (simp_all add: pgService_def NewService_def pgOptions_def WithRefreshReuseLeeway_def
      WithPAT_def ProviderTypeLocal_def Let_def split: option.split)

interpretation pgs: session_service "pgTokenStore d" pg_tokens "pg_ok d" pg_time "pg_row d" "issuerTable j i"
  "pgService d j i l p oa wa" for d j i l p oa wa
  by unfold_locales (auto simp: time_Now_def)

section \<open>An ended session\<close>

definition over_rows :: "string \<Rightarrow> PG \<Rightarrow> bool" where
  "over_rows root p \<longleftrightarrow> distinct (map RT_Hash (pg_refresh p)) \<and>
     (\<forall>t\<in>set (pg_refresh p). inFamily root t \<longrightarrow> RT_Revoked t \<and> RT_EndedAt t \<noteq> None)"

lemma session_over_rows:
  "distinct (map RT_Hash (pg_refresh p)) \<Longrightarrow> session_over root (pg_tokens p) \<longleftrightarrow> over_rows root p"
proof -
  assume d: "distinct (map RT_Hash (pg_refresh p))"
  have "pg_tokens p h = Some t \<Longrightarrow> RT_Hash t = h" for h t by (auto simp: pg_tokens_def find_Some_iff)
  then show ?thesis unfolding session_over_def over_rows_def Ball_def tokens_in [OF d] using d by (auto simp: inFamily_def)
qed

lemma inFamily_update [simp]: "inFamily root (t\<lparr>RT_Revoked := b, RT_RotatedAt := r\<rparr>) = inFamily root t"
  by (simp add: inFamily_def)

interpretation over: pg_kept "over_rows root" "\<lambda>r. True" "\<lambda>t. \<not> inFamily root t" "\<lambda>l. True" "\<lambda>c. True" for root
proof unfold_locales
  have m: "map RT_Hash (map g rows) = map RT_Hash rows" if "\<And>t. RT_Hash (g t) = RT_Hash t" for g and rows :: "RefreshToken list"
    using that by simp
  show "over_rows root p'" if "over_rows root p" "sql_rotate now h p = Inr (rt, p')" for p now h rt p'
    using that m [of "\<lambda>t. if rotatable h now t then t\<lparr>RT_Revoked := True, RT_RotatedAt := Some now\<rparr> else t" "pg_refresh p"]
    by (auto simp: over_rows_def sql_rotate_def Let_def simp del: map_map)
  show "over_rows root p'" if "over_rows root p" "sql_revoke now h p = Inr (x, p')" for p now h x p'
    using that m [of "\<lambda>t. if inFamily h t then endToken now t else t" "pg_refresh p"]
    by (auto simp: over_rows_def sql_revoke_def simp del: map_map)
  show "over_rows root p'" if "over_rows root p" "sql_delete_user u p = Inr (b, p')" for p u b p'
    using that by (auto simp: over_rows_def sql_delete_user_def distinct_map_filter)
  show "over_rows root p'" if "over_rows root p" "\<not> inFamily root t" "sql_insert_refresh t p = Inr (x, p')" for p t x p'
    using that by (auto simp: over_rows_def sql_insert_refresh_def split: if_splits)
qed (auto simp: over_rows_def of_tables_def sql_insert_user_def sql_insert_pat_def sql_insert_pat_limited_def sql_prune_pats_def
      sql_delete_pat_def sql_touch_pat_def sql_insert_oauth_def sql_insert_wallet_def sql_sweep_def sql_insert_challenge_def
      sql_delete_challenge_def sql_upsert_credential_def split: if_splits sum.splits)

lemma admissible_over: "(\<And>t now. op \<noteq> OpSaveRefreshToken t now) \<Longrightarrow> over.admissible root d op"
  by (cases op) (auto simp: option.pred_set)

lemma over_step:
  assumes "over_rows root p" "root \<noteq> []" "keeps_text d" "\<not> pg_saves_hash root d op"
  shows "over_rows root (snd (pg_step d op p))"
proof (cases op)
  case (OpSaveRefreshToken t now)
  have ok: "pg_ok d p" "session_over root (pg_tokens p)" using assms(1,3) session_over_rows by (auto simp: pg_ok_def over_rows_def)
  obtain r p' where r: "Postgres_SaveRefreshToken d t now p = (r, p')" by fastforce
  show ?thesis
  proof (cases r)
    case (Inl e)
    then have "same_tables p p'" using failed_refresh(1) r by blast
    then show ?thesis using assms(1) r OpSaveRefreshToken by (auto simp: same_tables_def over_rows_def outcome_def)
  next
    case (Inr u)
    note s = SaveRefreshToken_ok [OF ok(1) r [unfolded Inr]]
    have "RT_Parent t \<noteq> root" using s assms(2) session_overD [OF ok(2)] by metis
    moreover have "RT_Hash t \<noteq> root"
    proof
      assume "RT_Hash t = root"
      moreover have "pg_text d (Some 255) (RT_Hash t) \<noteq> None"
        using r Inr by (auto simp: Postgres_SaveRefreshToken_def pg_insertRefresh_def refreshRow_def Let_def pg_exec_def
            dest!: pg_tx_Inr split: if_splits option.splits prod.splits sum.splits)
      ultimately show False using assms(3,4) OpSaveRefreshToken keeps_textD [OF assms(3)] by (cases "pg_text d (Some 255) (RT_Hash t)") auto
    qed
    ultimately have "\<not> inFamily root x" if "refreshRow d (stampRefresh now t) = Some x" for x
      using pg_row_stored(2,3) [OF assms(3) that] by (auto simp: inFamily_def stampRefresh_def)
    then have "over.admissible root d op" unfolding OpSaveRefreshToken by (simp add: option.pred_set)
    then show ?thesis using over.step_kept [OF assms(1)] by blast
  qed
qed (auto intro!: over.step_kept [OF assms(1)] admissible_over simp del: pg_step.simps)

lemma over_run:
  "over_rows root p \<Longrightarrow> root \<noteq> [] \<Longrightarrow> list_all (\<lambda>(d, op). keeps_text d \<and> \<not> pg_saves_hash root d op) calls \<Longrightarrow>
   over_rows root (snd (run_steps (\<lambda>(d, op). pg_step d op) calls p))"
  by (induction calls arbitrary: p) (auto simp: case_prod_beta intro: over_step)

text \<open>
  C4. A logout is final on the Postgres store. After a logout that reported success for a known refresh
  token, whatever the database is asked to do by other requests and other replicas, with statements and
  commits failing at any point, a refresh with any token of that family is refused and every token of the
  family stays revoked and ended. (The one exclusion is a new token under the hash of the family root.)
\<close>

theorem postgres_logout_final:
  assumes "pg_ok d (store w)" "pg_tokens (store w) (HashToken w tok) = Some t" "familyRoot t \<noteq> ''''"
    and "Service_Logout (pgService d j i l p oa wa) tok w = (None, w1)"
    and "list_all (\<lambda>(d, op). keeps_text d \<and> \<not> pg_saves_hash (familyRoot t) d op) calls"
    and "store w2 = snd (run_steps (\<lambda>(d, op). pg_step d op) calls (store w1))"
    and "keeps_text d'" "pg_tokens (store w2) (HashToken w2 tok') = Some t'" "familyRoot t' = familyRoot t"
  shows "\<exists>e w3. Service_Refresh (pgService d' j' i' l' p' oa' wa') tok' w2 = (Inl e, w3) \<and>
    session_over (familyRoot t) (pg_tokens (store w3))"
proof -
  have 1: "pg_ok d (store w1)" "session_over (familyRoot t) (pg_tokens (store w1))"
    using pgs.logout_ends [OF assms(1,2,4)] by auto
  then have "over_rows (familyRoot t) (store w1)" using session_over_rows [of "store w1"] by (simp add: pg_ok_def)
  from over_run [OF this assms(3,5)] have o: "over_rows (familyRoot t) (store w2)" using assms(6) by simp
  then have 2: "pg_ok d' (store w2)" "session_over (familyRoot t') (pg_tokens (store w2))"
    using assms(7,9) session_over_rows [of "store w2"] by (simp_all add: pg_ok_def over_rows_def)
  obtain r w3 where "Service_Refresh (pgService d' j' i' l' p' oa' wa') tok' w2 = (r, w3)" by fastforce
  with pgs.refresh_over [OF 2 assms(8) this] assms(9) show ?thesis by auto
qed

text \<open>
  What a successful refresh means on the Postgres store. The token presented was stored and either live
  and unexpired at the microsecond, or a duplicate within the reuse leeway. Afterwards it is spent and exactly
  one row has been added: the successor in the same family, owned by the same user, filed under the hash of
  the refresh token handed out.
\<close>

theorem postgres_refresh_success:
  assumes "pg_ok d (store w)" "Service_Refresh (pgService d j i l p oa wa) tok w = (Inr pair, w')"
  shows "\<exists>t u at c. pg_tokens (store w) (HashToken w tok) = Some t \<and> pg_uuid d (RT_UserID t) = Some u \<and>
    (if RT_Revoked t then is_duplicate (max l 0) (pg_tokens (store w)) t (wall w (tick w))
     else pg_time (wall w (tick w)) < RT_ExpiresAt t) \<and>
    pg_tokens (store w') = (pg_tokens (store w))(HashToken w tok \<mapsto>
      (if RT_Revoked t then t else t\<lparr>RT_Revoked := True, RT_RotatedAt := Some (pg_time (wall w (tick w)))\<rparr>),
      HashToken w (RefreshTokenText pair) \<mapsto>
        pg_row d (fresh_row (HashToken w (RefreshTokenText pair)) u (familyRoot t) at c))"
proof -
  have now: "svc_now (pgService d j i l p oa wa) w = (wall w (tick w), w\<lparr>tick := Suc (tick w)\<rparr>)"
    by (simp add: time_Now_def)
  have uid: "pg_uuid d u = Some (User_ID user)" if "Postgres_GetByID d u s = Inr user" for user u s
    using that by (auto simp: Postgres_GetByID_def pg_query_def scanUser_def find_Some_iff split: option.splits sum.splits)
  show ?thesis
  proof (rule pgs.refresh_ok [OF assms(1) now assms(2)])
    fix t and user :: User and at c
    assume "pg_tokens (store w) (HashToken w tok) = Some t" "pg_ok d (store w')"
      and "if RT_Revoked t then is_duplicate (svc_refreshReuseLeeway (pgService d j i l p oa wa))
             (pg_tokens (store w)) t (wall w (tick w)) else pg_time (wall w (tick w)) < RT_ExpiresAt t"
      and u: "\<exists>s. pg_ok d s \<and> GetByID (svc_userStore (pgService d j i l p oa wa)) (RT_UserID t) s = Inr user"
      and "pg_tokens (store w') = (pg_tokens (store w))(HashToken w tok \<mapsto>
        (if RT_Revoked t then t else t\<lparr>RT_Revoked := True, RT_RotatedAt := Some (pg_time (wall w (tick w)))\<rparr>),
        HashToken w (RefreshTokenText pair) \<mapsto>
        pg_row d (fresh_row (HashToken w (RefreshTokenText pair)) (User_ID user) (familyRoot t) at c))"
    moreover have "pg_uuid d (RT_UserID t) = Some (User_ID user)" using u uid by (auto simp: pgUserStore_def)
    ultimately show ?thesis by (intro exI [of _ t] exI [of _ "User_ID user"] exI [of _ at] exI [of _ c]) auto
  qed
qed

section \<open>Witnesses\<close>

text \<open>The demonstration server with columns of any length.\<close>

definition lax_pg :: pg_driver where
  "lax_pg = demo_pg\<lparr>pg_text := (\<lambda>n. Some)\<rparr>"

lemma lax_pg_quiet: "pg_quiet lax_pg"
  by (simp add: pg_quiet_def lax_pg_def demo_pg_def)

definition demo_rows :: PG where
  "demo_rows = PG_empty\<lparr>pg_users := [row_of demo_user], pg_refresh := [demo_token]\<rparr>"

abbreviation demo_pgService :: "PG Service" where
  "demo_pgService \<equiv> pgService lax_pg lax_jose demo_issuer (10 * second) None None None"

lemma demo_rows_facts:
  "pg_ok lax_pg demo_rows" "keeps_text lax_pg" "pg_tokens demo_rows (b64_encode True ''r'') = Some demo_token"
  by (auto simp: pg_ok_def keeps_text_def lax_pg_def demo_rows_def pg_tokens_def demo_token_def split: if_splits option.splits)

lemma lax_pg_simps:
  "pg_text lax_pg n x = Some x" "pg_uuid lax_pg x = Some x" "pg_clock lax_pg k = 5000"
  by (simp_all add: lax_pg_def demo_pg_def)

theorem postgres_logout_final_witness:
  "\<exists>w1 e w3. Service_Logout demo_pgService ''r'' (demo_world demo_rows) = (None, w1) \<and>
     Service_Refresh demo_pgService ''r'' w1 = (Inl e, w3)"
proof -
  let ?w = "demo_world demo_rows" and ?h = "b64_encode True ''r''"
  let ?p1 = "snd (Postgres_RevokeTokens lax_pg ?h hour demo_rows)"
  let ?w1 = "?w\<lparr>tick := 1, store := ?p1\<rparr>"
  have fam: "familyRoot demo_token = ?h" "RT_Hash demo_token = ?h" by (simp_all add: demo_token_def familyRoot_def)
  have g: "Postgres_GetRefreshToken lax_pg ?h demo_rows = Inr demo_token"
    by (simp add: Postgres_GetRefreshToken_def pg_query_quiet [OF lax_pg_quiet] lax_pg_simps demo_rows_def fam)
  have r: "fst (Postgres_RevokeTokens lax_pg ?h now demo_rows) = Inr ()" "pg_refresh ?p1 = [endToken 5000 demo_token]" for now
    by (simp_all add: Postgres_RevokeTokens_def Let_def pg_quiet_simps [OF lax_pg_quiet] lax_pg_simps sql_revoke_def demo_rows_def
        inFamily_def fam pg_time_def)
  have l: "Service_Logout demo_pgService ''r'' ?w = (None, ?w1)"
    using r(1) by (simp add: Service_Logout_def pgTokenStore_def g fam call_now_def time_Now_def call_def)
  have 1: "pg_ok lax_pg (store ?w)" "pg_tokens (store ?w) (HashToken ?w ''r'') = Some demo_token" "familyRoot demo_token \<noteq> ''''"
    using demo_rows_facts by simp_all
  have 2: "list_all (\<lambda>(d, op). keeps_text d \<and> \<not> pg_saves_hash (familyRoot demo_token) d op) []"
    "store ?w1 = snd (run_steps (\<lambda>(d, op). pg_step d op) [] (store ?w1))" by simp_all
  have 3: "pg_tokens (store ?w1) (HashToken ?w1 ''r'') = Some (endToken 5000 demo_token)" "familyRoot (endToken 5000 demo_token) = familyRoot demo_token"
    using r(2) by (simp_all add: pg_tokens_def fam familyRoot_def)
  from postgres_logout_final [OF 1 l 2 demo_rows_facts(2) 3] l show ?thesis by blast
qed

lemma demo_pg_Refresh:
  "\<exists>w'. Service_Refresh demo_pgService ''r'' (demo_world demo_rows) =
     (Inr \<lparr>AccessToken = ''jwt'', RefreshTokenText = b64_encode True (replicate 32 (char_of (111::nat))), ExpiresIn = 900\<rparr>, w')"
  by (simp add: Service_Refresh_def pgTokenStore_def pgUserStore_def Postgres_RotateRefreshToken_def pg_quiet_simps [OF lax_pg_quiet]
      lax_pg_simps sql_rotate_def rotatable_def demo_rows_def demo_token_def RefreshTokenTTL_def Let_def time_Now_def call_def
      Service_refreshAccepted_def Postgres_GetByID_def row_of_def scanUser_def demo_user_def Service_issueTokens_def issuer_defs
      Postgres_SaveRefreshToken_def pg_insertRefresh_def refreshRow_def sql_insert_refresh_def has_user_row_def familyRoot_def HashToken_def
      call_now_def time_IsZero_def pg_time_def AccessTokenTTL_def b64_encode.simps) code_simp

theorem postgres_refresh_success_witness:
  "\<exists>pair w' r. Service_Refresh demo_pgService ''r'' (demo_world demo_rows) = (Inr pair, w') \<and>
     pg_tokens (store w') (b64_encode True (RefreshTokenText pair)) = Some r \<and> RT_Parent r = b64_encode True ''r'' \<and> RT_UserID r = ''u1''"
proof -
  obtain pair w' where r: "Service_Refresh demo_pgService ''r'' (demo_world demo_rows) = (Inr pair, w')"
    using demo_pg_Refresh by blast
  have ok: "pg_ok lax_pg (store (demo_world demo_rows))" using demo_rows_facts by simp
  from postgres_refresh_success [OF ok r] obtain u at c where
    "pg_tokens (store w') (b64_encode True (RefreshTokenText pair)) = Some (pg_row lax_pg (fresh_row (b64_encode True (RefreshTokenText pair)) u (familyRoot demo_token) at c))"
    "pg_uuid lax_pg (RT_UserID demo_token) = Some u"
    using demo_rows_facts(3) by auto
  with r show ?thesis by (auto simp: pg_row_def refreshRow_def lax_pg_simps demo_token_def familyRoot_def split: option.split)
qed

end
