(* ===== verification/Postgres_Locks.thy ===== *)
theory Postgres_Locks
  imports Postgres_Session
begin

text \<open>
  The transactions of \<^verbatim>\<open>SaveRefreshToken\<close> and \<^verbatim>\<open>RevokeTokens\<close>, statement by statement, under
  \<^verbatim>\<open>READ COMMITTED\<close>. Elsewhere a method of the store is one step; here the two methods whose
  transactions run several statements on the same family interleave with each other, with logins and with
  rotations. A statement sees the rows committed when it starts, an uncommitted change is seen by its own
  transaction only, and a row lock makes a conflicting statement wait. Every transaction may roll back at
  any point.
\<close>

section \<open>Transactions in progress\<close>

datatype tx =
    SaveBegun RefreshToken
  | SaveLocked RefreshToken
  | SaveInserted RefreshToken
  | RevokeBegun string time
  | RevokeLocked string time
  | RevokeUpdated string time "string set"
  | TxEnded

record conc =
  db :: PG
  txs :: "nat \<Rightarrow> tx"

text \<open>The row a transaction holds \<^verbatim>\<open>FOR SHARE\<close>, and the rows it holds exclusively: the root locked
  \<^verbatim>\<open>FOR UPDATE\<close> and the rows of its \<^verbatim>\<open>UPDATE\<close>.\<close>

fun share_locked :: "tx \<Rightarrow> string set" where
  "share_locked (SaveLocked t) = {RT_Parent t}"
| "share_locked (SaveInserted t) = {RT_Parent t}"
| "share_locked x = {}"

fun row_locked :: "tx \<Rightarrow> string set" where
  "row_locked (RevokeLocked h at) = {h}"
| "row_locked (RevokeUpdated h at S) = insert h S"
| "row_locked x = {}"

definition shared :: "(nat \<Rightarrow> tx) \<Rightarrow> string \<Rightarrow> bool" where
  "shared ts h \<longleftrightarrow> (\<exists>i. h \<in> share_locked (ts i))"

definition locked_by_other :: "(nat \<Rightarrow> tx) \<Rightarrow> nat \<Rightarrow> string \<Rightarrow> bool" where
  "locked_by_other ts i h \<longleftrightarrow> (\<exists>j. j \<noteq> i \<and> h \<in> row_locked (ts j))"

definition has_row :: "PG \<Rightarrow> string \<Rightarrow> bool" where
  "has_row p h \<longleftrightarrow> pg_tokens p h \<noteq> None"

text \<open>The check of \<^verbatim>\<open>SaveRefreshToken\<close> on the root.\<close>

definition root_open :: "PG \<Rightarrow> string \<Rightarrow> bool" where
  "root_open p h \<longleftrightarrow> (\<exists>r. pg_tokens p h = Some r \<and> RT_EndedAt r = None)"

definition family_hashes :: "string \<Rightarrow> PG \<Rightarrow> string set" where
  "family_hashes h p = RT_Hash ` {t \<in> set (pg_refresh p). inFamily h t}"

text \<open>The hashes of rows inserted and not yet committed, which the primary key makes others wait for.\<close>

definition pending :: "(nat \<Rightarrow> tx) \<Rightarrow> string \<Rightarrow> bool" where
  "pending ts h \<longleftrightarrow> (\<exists>i t. ts i = SaveInserted t \<and> RT_Hash t = h)"

definition end_rows :: "time \<Rightarrow> string set \<Rightarrow> PG \<Rightarrow> PG" where
  "end_rows at S p = p\<lparr>pg_refresh := map (\<lambda>t. if RT_Hash t \<in> S then endToken at t else t) (pg_refresh p)\<rparr>"

section \<open>Steps\<close>

text \<open>What a step means for the committed rows.\<close>

datatype event = Silent | Saved RefreshToken | Refused RefreshToken | Revoked string time | Rotated string time

inductive step :: "conc \<Rightarrow> event \<Rightarrow> conc \<Rightarrow> bool" where
  save_begin: "ts i = TxEnded \<Longrightarrow> RT_Parent t \<noteq> [] \<Longrightarrow>
    step \<lparr>db = p, txs = ts\<rparr> Silent \<lparr>db = p, txs = ts(i := SaveBegun t)\<rparr>"
| save_lock: "ts i = SaveBegun t \<Longrightarrow> \<not> locked_by_other ts i (RT_Parent t) \<Longrightarrow> root_open p (RT_Parent t) \<Longrightarrow>
    step \<lparr>db = p, txs = ts\<rparr> Silent \<lparr>db = p, txs = ts(i := SaveLocked t)\<rparr>"
| save_refuse: "ts i = SaveBegun t \<Longrightarrow> \<not> locked_by_other ts i (RT_Parent t) \<Longrightarrow> \<not> root_open p (RT_Parent t) \<Longrightarrow>
    step \<lparr>db = p, txs = ts\<rparr> (Refused t) \<lparr>db = p, txs = ts(i := TxEnded)\<rparr>"
| save_insert: "ts i = SaveLocked t \<Longrightarrow> \<not> has_row p (RT_Hash t) \<Longrightarrow> \<not> pending ts (RT_Hash t) \<Longrightarrow> has_user_row p (RT_UserID t) \<Longrightarrow>
    step \<lparr>db = p, txs = ts\<rparr> Silent \<lparr>db = p, txs = ts(i := SaveInserted t)\<rparr>"
| save_commit: "ts i = SaveInserted t \<Longrightarrow>
    step \<lparr>db = p, txs = ts\<rparr> (Saved t) \<lparr>db = p\<lparr>pg_refresh := pg_refresh p @ [t]\<rparr>, txs = ts(i := TxEnded)\<rparr>"
| revoke_begin: "ts i = TxEnded \<Longrightarrow> h \<noteq> [] \<Longrightarrow> has_row p h \<Longrightarrow>
    step \<lparr>db = p, txs = ts\<rparr> Silent \<lparr>db = p, txs = ts(i := RevokeBegun h at)\<rparr>"
| revoke_lock: "ts i = RevokeBegun h at \<Longrightarrow> \<not> shared ts h \<Longrightarrow> \<not> locked_by_other ts i h \<Longrightarrow>
    step \<lparr>db = p, txs = ts\<rparr> Silent \<lparr>db = p, txs = ts(i := RevokeLocked h at)\<rparr>"
| revoke_update: "ts i = RevokeLocked h at \<Longrightarrow> (\<forall>k\<in>family_hashes h p. \<not> shared ts k \<and> \<not> locked_by_other ts i k) \<Longrightarrow>
    step \<lparr>db = p, txs = ts\<rparr> Silent \<lparr>db = p, txs = ts(i := RevokeUpdated h at (family_hashes h p))\<rparr>"
| revoke_commit: "ts i = RevokeUpdated h at S \<Longrightarrow>
    step \<lparr>db = p, txs = ts\<rparr> (Revoked h at) \<lparr>db = end_rows at S p, txs = ts(i := TxEnded)\<rparr>"
| rollback: "step \<lparr>db = p, txs = ts\<rparr> Silent \<lparr>db = p, txs = ts(i := TxEnded)\<rparr>"
| login: "RT_Parent t = [] \<Longrightarrow> RT_Hash t \<noteq> [] \<Longrightarrow> \<not> pending ts (RT_Hash t) \<Longrightarrow> sql_insert_refresh t p = Inr ((), p') \<Longrightarrow>
    step \<lparr>db = p, txs = ts\<rparr> (Saved t) \<lparr>db = p', txs = ts\<rparr>"
| rotate: "(\<forall>i. h \<notin> row_locked (ts i)) \<Longrightarrow> sql_rotate now h p = Inr (r, p') \<Longrightarrow>
    step \<lparr>db = p, txs = ts\<rparr> (Rotated h now) \<lparr>db = p', txs = ts\<rparr>"

text \<open>Executions, with the events in order.\<close>

inductive exec :: "conc \<Rightarrow> event list \<Rightarrow> conc \<Rightarrow> bool" where
  exec_none: "exec s [] s"
| exec_step: "exec s es s1 \<Longrightarrow> step s1 e s2 \<Longrightarrow> exec s (es @ [e]) s2"

inductive_cases stepE: "step s e s'"

text \<open>The same events as whole methods: what one call does to the rows when nothing else runs.\<close>

fun method_effect :: "event \<Rightarrow> PG \<Rightarrow> PG \<Rightarrow> bool" where
  "method_effect Silent p p' = (p' = p)"
| "method_effect (Saved t) p p' = ((RT_Parent t \<noteq> [] \<longrightarrow> root_open p (RT_Parent t)) \<and> sql_insert_refresh t p = Inr ((), p'))"
| "method_effect (Refused t) p p' = (\<not> root_open p (RT_Parent t) \<and> p' = p)"
| "method_effect (Revoked h at) p p' = (sql_revoke at h p = Inr ((), p'))"
| "method_effect (Rotated h now) p p' = (\<exists>r. sql_rotate now h p = Inr (r, p'))"

section \<open>What the locks keep\<close>

definition locks_ok :: "conc \<Rightarrow> bool" where
  "locks_ok s \<longleftrightarrow> distinct (map RT_Hash (pg_refresh (db s))) \<and>
     (\<forall>i h. h \<in> share_locked (txs s i) \<longrightarrow> root_open (db s) h) \<and>
     (\<forall>i j h. h \<in> share_locked (txs s i) \<longrightarrow> h \<notin> row_locked (txs s j)) \<and>
     (\<forall>i h. h \<in> row_locked (txs s i) \<longrightarrow> has_row (db s) h) \<and>
     (\<forall>i h at. txs s i = RevokeBegun h at \<or> txs s i = RevokeLocked h at \<longrightarrow> h \<noteq> [] \<and> has_row (db s) h) \<and>
     (\<forall>i h at S. txs s i = RevokeUpdated h at S \<longrightarrow> h \<noteq> [] \<and> S = family_hashes h (db s)) \<and>
     (\<forall>i t. txs s i = SaveInserted t \<longrightarrow> \<not> has_row (db s) (RT_Hash t) \<and> has_user_row (db s) (RT_UserID t)) \<and>
     (\<forall>i j t u. txs s i = SaveInserted t \<and> txs s j = SaveInserted u \<and> RT_Hash t = RT_Hash u \<longrightarrow> i = j)"

lemma locks_okD:
  assumes "locks_ok \<lparr>db = p, txs = ts\<rparr>"
  shows "distinct (map RT_Hash (pg_refresh p))"
    "h \<in> share_locked (ts i) \<Longrightarrow> root_open p h"
    "h \<in> share_locked (ts i) \<Longrightarrow> h \<notin> row_locked (ts j)"
    "h \<in> row_locked (ts i) \<Longrightarrow> has_row p h"
    "ts i = RevokeBegun h at \<Longrightarrow> h \<noteq> [] \<and> has_row p h"
    "ts i = RevokeLocked h at \<Longrightarrow> h \<noteq> [] \<and> has_row p h"
    "ts i = RevokeUpdated h at S \<Longrightarrow> h \<noteq> [] \<and> S = family_hashes h p"
    "ts i = SaveInserted t \<Longrightarrow> \<not> has_row p (RT_Hash t) \<and> has_user_row p (RT_UserID t)"
    "ts i = SaveInserted t \<Longrightarrow> ts j = SaveInserted u \<Longrightarrow> RT_Hash t = RT_Hash u \<Longrightarrow> i = j"
  using assms unfolding locks_ok_def conc.simps by (elim conjE; metis)+

lemma locks_ok_tx:
  assumes "locks_ok \<lparr>db = p, txs = ts\<rparr>"
    and "\<And>h. h \<in> share_locked x \<Longrightarrow> root_open p h \<and> \<not> locked_by_other ts i h"
    and "\<And>h. h \<in> row_locked x \<Longrightarrow> has_row p h \<and> (\<forall>j. j \<noteq> i \<longrightarrow> h \<notin> share_locked (ts j))"
    and "\<And>h. h \<in> share_locked x \<Longrightarrow> h \<notin> row_locked x"
    and "\<And>h at. x = RevokeBegun h at \<or> x = RevokeLocked h at \<Longrightarrow> h \<noteq> [] \<and> has_row p h"
    and "\<And>h at S. x = RevokeUpdated h at S \<Longrightarrow> h \<noteq> [] \<and> S = family_hashes h p"
    and "\<And>t. x = SaveInserted t \<Longrightarrow> \<not> has_row p (RT_Hash t) \<and> has_user_row p (RT_UserID t) \<and> \<not> pending (ts(i := TxEnded)) (RT_Hash t)"
  shows "locks_ok \<lparr>db = p, txs = ts(i := x)\<rparr>"
proof -
  note ok = locks_okD [OF assms(1)]
  have g: "k = j" if "(ts(i := x)) k = SaveInserted t" "(ts(i := x)) j = SaveInserted u" "RT_Hash t = RT_Hash u" for k j t u
  proof -
    have p: "l = i" if "ts l = SaveInserted v" "x = SaveInserted v'" "RT_Hash v' = RT_Hash v" for l v v'
    proof (rule ccontr)
      assume "l \<noteq> i"
      then have "(ts(i := TxEnded)) l = SaveInserted v" using that(1) by simp
      then have "pending (ts(i := TxEnded)) (RT_Hash v')" unfolding pending_def that(3) by blast
      then show False using assms(7) [OF that(2)] by simp
    qed
    show ?thesis using that p [of k t u] p [of j u t] ok(9) [of k t j u] by (simp split: if_splits)
  qed
  show ?thesis unfolding locks_ok_def conc.simps
  proof (intro conjI allI impI)
    show "h \<notin> row_locked ((ts(i := x)) j)" if "h \<in> share_locked ((ts(i := x)) k)" for k j h
      using that assms(2-4) [of h] ok(3) [of h k j] by (cases "k = i"; cases "j = i") (auto simp: locked_by_other_def)
    show "has_row p h" if "h \<in> row_locked ((ts(i := x)) k)" for k h using that assms(3) ok(4) [of h k] by (simp split: if_splits)
    show "h \<noteq> []" "has_row p h" if "(ts(i := x)) k = RevokeBegun h at \<or> (ts(i := x)) k = RevokeLocked h at" for k h at
      using that assms(5) [of h at] ok(5,6) [of k h at] by (auto split: if_splits)
    show "h \<noteq> []" "S = family_hashes h p" if "(ts(i := x)) k = RevokeUpdated h at S" for k h at S
      using that assms(6) [of h at S] ok(7) [of k h at S] by (auto split: if_splits)
    show "\<not> has_row p (RT_Hash t)" "has_user_row p (RT_UserID t)" if "(ts(i := x)) k = SaveInserted t" for k t
      using that assms(7) [of t] ok(8) [of k t] by (auto split: if_splits)
    show "k = j" if "(ts(i := x)) k = SaveInserted t \<and> (ts(i := x)) j = SaveInserted u \<and> RT_Hash t = RT_Hash u" for k j t u
      using that g by blast
  qed (use assms(2) ok(1,2) in \<open>auto split: if_splits\<close>)
qed

lemma locks_ok_db:
  assumes "locks_ok \<lparr>db = p, txs = ts\<rparr>" "distinct (map RT_Hash (pg_refresh p'))" "\<And>h. has_row p h \<Longrightarrow> has_row p' h"
    and "\<And>i h. h \<in> share_locked (ts i) \<Longrightarrow> root_open p' h"
    and "\<And>i h at S. ts i = RevokeUpdated h at S \<Longrightarrow> family_hashes h p' = family_hashes h p"
    and "\<And>i t. ts i = SaveInserted t \<Longrightarrow> \<not> has_row p' (RT_Hash t)"
    and "pg_users p' = pg_users p"
  shows "locks_ok \<lparr>db = p', txs = ts\<rparr>"
proof -
  have u: "has_user_row p' u = has_user_row p u" for u using assms(7) by (simp add: has_user_row_def)
  note ok = assms(1) [unfolded locks_ok_def conc.simps]
  show ?thesis unfolding locks_ok_def conc.simps
  proof (intro conjI)
    show "\<forall>i j h. h \<in> share_locked (ts i) \<longrightarrow> h \<notin> row_locked (ts j)" using ok by blast
    show "\<forall>i h. h \<in> row_locked (ts i) \<longrightarrow> has_row p' h" using ok assms(3) by auto
    show "\<forall>i h at. ts i = RevokeBegun h at \<or> ts i = RevokeLocked h at \<longrightarrow> h \<noteq> [] \<and> has_row p' h" using ok assms(3) by auto
    show "\<forall>i h at S. ts i = RevokeUpdated h at S \<longrightarrow> h \<noteq> [] \<and> S = family_hashes h p'" using ok assms(5) by simp
    show "\<forall>i t. ts i = SaveInserted t \<longrightarrow> \<not> has_row p' (RT_Hash t) \<and> has_user_row p' (RT_UserID t)" using ok assms(6) u by simp
    show "\<forall>i j t u. ts i = SaveInserted t \<and> ts j = SaveInserted u \<and> RT_Hash t = RT_Hash u \<longrightarrow> i = j" using ok by blast
  qed (use assms(2,4) in auto)
qed

lemma tokens_map:
  assumes "\<And>t. RT_Hash (g t) = RT_Hash t" "\<And>t. RT_Parent (g t) = RT_Parent t"
  shows "pg_tokens (p\<lparr>pg_refresh := map g (pg_refresh p)\<rparr>) h = map_option g (pg_tokens p h)"
    "has_row (p\<lparr>pg_refresh := map g (pg_refresh p)\<rparr>) h = has_row p h"
    "family_hashes h (p\<lparr>pg_refresh := map g (pg_refresh p)\<rparr>) = family_hashes h p"
    "map RT_Hash (map g (pg_refresh p)) = map RT_Hash (pg_refresh p)"
proof -
  have "find (\<lambda>t. RT_Hash t = h) (map g rows) = map_option g (find (\<lambda>t. RT_Hash t = h) rows)" for rows
    using assms(1) by (induction rows) auto
  then show 1: "pg_tokens (p\<lparr>pg_refresh := map g (pg_refresh p)\<rparr>) h = map_option g (pg_tokens p h)" by (simp add: pg_tokens_def)
  then show "has_row (p\<lparr>pg_refresh := map g (pg_refresh p)\<rparr>) h = has_row p h" by (simp add: has_row_def)
  show "family_hashes h (p\<lparr>pg_refresh := map g (pg_refresh p)\<rparr>) = family_hashes h p"
  proof -
    have i: "inFamily h (g t) = inFamily h t" for t using assms by (simp add: inFamily_def)
    have "{t \<in> set (map g (pg_refresh p)). inFamily h t} = g ` {t \<in> set (pg_refresh p). inFamily h t}" using i by auto
    then show ?thesis using assms(1) by (simp add: family_hashes_def image_image)
  qed
  show "map RT_Hash (map g (pg_refresh p)) = map RT_Hash (pg_refresh p)" using assms(1) by simp
qed

lemma tokens_append:
  assumes "\<not> has_row p (RT_Hash t)"
  shows "pg_tokens (p\<lparr>pg_refresh := pg_refresh p @ [t]\<rparr>) = (pg_tokens p)(RT_Hash t \<mapsto> t)"
    "RT_Hash t \<notin> set (map RT_Hash (pg_refresh p))"
proof -
  show n: "RT_Hash t \<notin> set (map RT_Hash (pg_refresh p))" using assms find_None_key [of RT_Hash "RT_Hash t" "pg_refresh p"] by (simp add: has_row_def pg_tokens_def)
  show "pg_tokens (p\<lparr>pg_refresh := pg_refresh p @ [t]\<rparr>) = (pg_tokens p)(RT_Hash t \<mapsto> t)"
    using find_append_new [of RT_Hash, OF n] by (auto simp: pg_tokens_def fun_eq_iff)
qed

lemma locks_ok_append:
  assumes "locks_ok \<lparr>db = p, txs = ts\<rparr>" "\<not> has_row p (RT_Hash t)" "\<not> pending ts (RT_Hash t)"
    and "\<And>i. RT_Parent t \<in> row_locked (ts i) \<Longrightarrow> RT_Parent t = []"
  shows "locks_ok \<lparr>db = p\<lparr>pg_refresh := pg_refresh p @ [t]\<rparr>, txs = ts\<rparr>"
proof (rule locks_ok_db [OF assms(1)])
  note tk = tokens_append [OF assms(2)]
  show "distinct (map RT_Hash (pg_refresh (p\<lparr>pg_refresh := pg_refresh p @ [t]\<rparr>)))" using assms(1) tk(2) by (simp add: locks_ok_def)
  show "has_row (p\<lparr>pg_refresh := pg_refresh p @ [t]\<rparr>) h" if "has_row p h" for h using that tk(1) by (simp add: has_row_def)
  show "root_open (p\<lparr>pg_refresh := pg_refresh p @ [t]\<rparr>) h" if "h \<in> share_locked (ts i)" for i h
  proof -
    have "root_open p h" using assms(1) that by (auto simp: locks_ok_def)
    then show ?thesis using assms(2) tk(1) by (auto simp: root_open_def has_row_def)
  qed
  show "family_hashes h (p\<lparr>pg_refresh := pg_refresh p @ [t]\<rparr>) = family_hashes h p" if "ts i = RevokeUpdated h at S" for i h at S
  proof -
    have "h \<in> row_locked (ts i)" using that by simp
    moreover have "h \<noteq> []" using assms(1) that by (auto simp: locks_ok_def)
    ultimately have "h \<in> row_locked (ts i)" "h \<noteq> []" "has_row p h" using assms(1) unfolding locks_ok_def conc.simps by blast+
    then have "\<not> inFamily h t" using assms(2) assms(4) [of i] by (auto simp: inFamily_def)
    then show ?thesis by (auto simp: family_hashes_def)
  qed
  show "\<not> has_row (p\<lparr>pg_refresh := pg_refresh p @ [t]\<rparr>) (RT_Hash u)" if "ts i = SaveInserted u" for i u
    using assms(1,3) that tk(1) by (auto simp: locks_ok_def has_row_def pending_def)
qed simp

lemma ended_tx:
  assumes "locks_ok \<lparr>db = p, txs = ts\<rparr>"
  shows "locks_ok \<lparr>db = p, txs = ts(i := TxEnded)\<rparr>"
  by (rule locks_ok_tx [OF assms]) simp_all

lemma not_shared: "\<not> shared ts h \<Longrightarrow> h \<notin> share_locked (ts j)"
  by (simp add: shared_def)

lemma family_has_row: "h \<in> family_hashes k p \<Longrightarrow> has_row p h"
  using find_None_key [of RT_Hash h "pg_refresh p"] by (auto simp: family_hashes_def has_row_def pg_tokens_def)

lemma insert_refresh_iff:
  "sql_insert_refresh t p = Inr (u, p') \<longleftrightarrow>
     \<not> has_row p (RT_Hash t) \<and> has_user_row p (RT_UserID t) \<and> p' = p\<lparr>pg_refresh := pg_refresh p @ [t]\<rparr>"
  using find_None_key [of RT_Hash "RT_Hash t" "pg_refresh p"] by (auto simp: sql_insert_refresh_def has_row_def pg_tokens_def)

text \<open>The rows an \<^verbatim>\<open>UPDATE\<close> has picked are still the family when it commits.\<close>

lemma end_rows_family:
  assumes "distinct (map RT_Hash (pg_refresh p))"
  shows "sql_revoke at h p = Inr ((), end_rows at (family_hashes h p) p)"
proof -
  have "inFamily h t \<longleftrightarrow> RT_Hash t \<in> family_hashes h p" if "t \<in> set (pg_refresh p)" for t
    using assms that by (auto simp: family_hashes_def distinct_map inj_on_def)
  then show ?thesis by (auto simp: sql_revoke_def end_rows_def)
qed

lemma commit_save:
  assumes "locks_ok \<lparr>db = p, txs = ts\<rparr>" "ts i = SaveInserted t"
  shows "locks_ok \<lparr>db = p\<lparr>pg_refresh := pg_refresh p @ [t]\<rparr>, txs = ts(i := TxEnded)\<rparr>"
proof (rule locks_ok_append [OF ended_tx [OF assms(1)]])
  show "\<not> has_row p (RT_Hash t)" using locks_okD(8) [OF assms] by simp
  show "\<not> pending (ts(i := TxEnded)) (RT_Hash t)" using locks_okD(9) [OF assms(1) _ assms(2)] by (auto simp: pending_def split: if_splits)
  show "RT_Parent t = []" if "RT_Parent t \<in> row_locked ((ts(i := TxEnded)) j)" for j
    using that locks_okD(3) [OF assms(1), of "RT_Parent t" i j] assms(2) by (cases "j = i") auto
qed

lemma commit_revoke:
  assumes "locks_ok \<lparr>db = p, txs = ts\<rparr>" "ts i = RevokeUpdated h at S"
  shows "locks_ok \<lparr>db = end_rows at S p, txs = ts(i := TxEnded)\<rparr>"
proof (rule locks_ok_db [OF ended_tx [OF assms(1)]])
  let ?g = "\<lambda>t. if RT_Hash t \<in> S then endToken at t else t"
  have m: "pg_tokens (end_rows at S p) k = map_option ?g (pg_tokens p k)" "has_row (end_rows at S p) k = has_row p k"
    "family_hashes k (end_rows at S p) = family_hashes k p" "map RT_Hash (pg_refresh (end_rows at S p)) = map RT_Hash (pg_refresh p)" for k
    using tokens_map [of ?g] by (simp_all add: end_rows_def)
  show "distinct (map RT_Hash (pg_refresh (end_rows at S p)))" unfolding m using locks_okD(1) [OF assms(1)] .
  show "has_row p k \<Longrightarrow> has_row (end_rows at S p) k" for k by (simp add: m)
  show "root_open (end_rows at S p) k" if "k \<in> share_locked ((ts(i := TxEnded)) j)" for j k
  proof -
    have k: "k \<in> share_locked (ts j)" using that by (auto split: if_splits)
    then have "k \<notin> S" "root_open p k" using locks_okD(2) [OF assms(1) k] locks_okD(3) [OF assms(1) k, of i] assms(2) by auto
    moreover have "pg_tokens p k = Some r \<Longrightarrow> RT_Hash r = k" for r by (auto simp: pg_tokens_def find_Some_iff)
    ultimately show ?thesis by (auto simp: root_open_def m)
  qed
  show "\<not> has_row (end_rows at S p) (RT_Hash t)" if "(ts(i := TxEnded)) j = SaveInserted t" for j t
    using that locks_okD(8) [OF assms(1)] by (auto simp: m split: if_splits)
  show "family_hashes k (end_rows at S p) = family_hashes k p" for k by (rule m)
qed (simp add: end_rows_def)

lemma step_locks_ok:
  assumes "step s e s'" "locks_ok s"
  shows "locks_ok s'"
  using assms
proof (induction rule: step.induct)
  case (save_begin ts i t p)
  then show ?case by (intro locks_ok_tx) simp_all
next
  case (save_lock ts i t p)
  then show ?case by (intro locks_ok_tx) simp_all
next
  case (save_refuse ts i t p)
  then show ?case by (intro ended_tx)
next
  case (save_insert ts i t p)
  have "\<not> locked_by_other ts i (RT_Parent t)"
    using locks_okD(3) [OF save_insert.prems, of "RT_Parent t" i] save_insert.hyps(1) by (auto simp: locked_by_other_def)
  moreover have "root_open p (RT_Parent t)" using locks_okD(2) [OF save_insert.prems, of "RT_Parent t" i] save_insert.hyps(1) by simp
  moreover have "\<not> pending (ts(i := TxEnded)) (RT_Hash t)" using save_insert.hyps(3) by (auto simp: pending_def)
  ultimately show ?case using save_insert by (intro locks_ok_tx) simp_all
next
  case (save_commit ts i t p)
  then show ?case by (intro commit_save)
next
  case (revoke_begin ts i h p at)
  then show ?case by (intro locks_ok_tx) auto
next
  case (revoke_lock ts i h at p)
  then show ?case using locks_okD(5) [OF revoke_lock.prems revoke_lock.hyps(1)] not_shared by (intro locks_ok_tx) auto
next
  case (revoke_update ts i h at p)
  have "h \<in> row_locked (ts i)" using revoke_update.hyps(1) by simp
  then have "h \<notin> share_locked (ts j)" for j using locks_okD(3) [OF revoke_update.prems] by blast
  then show ?case using locks_okD(6) [OF revoke_update.prems revoke_update.hyps(1)] revoke_update not_shared family_has_row
    by (intro locks_ok_tx) auto
next
  case (revoke_commit ts i h at S p)
  then show ?case by (intro commit_revoke)
next
  case (rollback p ts i)
  then show ?case by (intro ended_tx)
next
  case (login t ts p p')
  have "\<not> has_row p (RT_Hash t)" "p' = p\<lparr>pg_refresh := pg_refresh p @ [t]\<rparr>" using login.hyps(4) by (simp_all add: insert_refresh_iff)
  then show ?case using login by (auto intro: locks_ok_append)
next
  case (rotate h ts now p r p')
  let ?g = "\<lambda>t. if rotatable h now t then t\<lparr>RT_Revoked := True, RT_RotatedAt := Some now\<rparr> else t"
  have p': "p' = p\<lparr>pg_refresh := map ?g (pg_refresh p)\<rparr>" using rotate.hyps(2) by (auto simp: sql_rotate_def Let_def)
  have 1: "pg_tokens p' k = map_option ?g (pg_tokens p k)" "has_row p' k = has_row p k" "family_hashes k p' = family_hashes k p"
    "map RT_Hash (pg_refresh p') = map RT_Hash (pg_refresh p)" for k
    using tokens_map [of ?g] by (simp_all add: p')
  have "root_open p' k = root_open p k" for k by (cases "pg_tokens p k") (auto simp: root_open_def 1)
  then show ?case using locks_okD [OF rotate.prems] by (intro locks_ok_db [OF rotate.prems]) (simp_all add: 1, simp_all add: p')
qed

text \<open>Every step does to the committed rows what its method would do alone at that moment.\<close>

lemma step_effect:
  assumes "step s e s'" "locks_ok s"
  shows "method_effect e (db s) (db s')"
  using assms
proof (induction rule: step.induct)
  case (save_commit ts i t p)
  have "root_open p (RT_Parent t)" using locks_okD(2) [OF save_commit.prems, of "RT_Parent t" i] save_commit.hyps by simp
  then show ?case using locks_okD(8) [OF save_commit.prems save_commit.hyps] by (simp add: insert_refresh_iff)
next
  case (revoke_commit ts i h at S p)
  then show ?case using end_rows_family [OF locks_okD(1) [OF revoke_commit.prems]] locks_okD(7) [OF revoke_commit.prems revoke_commit.hyps] by simp
qed auto

lemma exec_locks_ok: "exec s es s' \<Longrightarrow> locks_ok s \<Longrightarrow> locks_ok s'"
  by (induction rule: exec.induct) (auto intro: step_locks_ok)

text \<open>The methods of an execution one after the other.\<close>

fun sequential :: "event list \<Rightarrow> PG \<Rightarrow> PG \<Rightarrow> bool" where
  "sequential [] p p' = (p' = p)"
| "sequential (e # es) p p' = (\<exists>p1. method_effect e p p1 \<and> sequential es p1 p')"

lemma sequential_append: "sequential (es @ [e]) p p' \<longleftrightarrow> (\<exists>p1. sequential es p p1 \<and> method_effect e p1 p')"
  by (induction es arbitrary: p) auto

lemma exec_sequential: "exec s es s' \<Longrightarrow> locks_ok s \<Longrightarrow> sequential es (db s) (db s')"
  by (induction rule: exec.induct) (auto simp: sequential_append intro: step_effect exec_locks_ok)

text \<open>A database at rest.\<close>

definition at_rest :: "PG \<Rightarrow> conc" where
  "at_rest p = \<lparr>db = p, txs = (\<lambda>i. TxEnded)\<rparr>"

lemma at_rest_ok: "distinct (map RT_Hash (pg_refresh p)) \<Longrightarrow> locks_ok (at_rest p)"
  by (simp add: locks_ok_def at_rest_def)

section \<open>The guarantees\<close>

text \<open>
  C5. Interleaved sessions are serialisable. Start from a database at rest and let any number of
  \<^verbatim>\<open>SaveRefreshToken\<close> and \<^verbatim>\<open>RevokeTokens\<close> transactions run statement by statement in any
  interleaving, with logins, rotations and rollbacks in between. The committed rows are those of the same
  calls made one after the other in the order of their commits, and each call has the outcome it would
  have there: a successor was saved only when its root was present and open at the commit, a refusal met a
  missing or ended root, and a revoke ended every row the family had when it committed.
\<close>

theorem sessions_serialisable:
  assumes "distinct (map RT_Hash (pg_refresh p))" "exec (at_rest p) es s"
  shows "sequential es p (db s)"
  using exec_sequential [OF assms(2) at_rest_ok [OF assms(1)]] by (simp add: at_rest_def)

lemma effect_over:
  assumes "over_rows root p" "root \<noteq> []" "method_effect e p p'" "\<And>t. e = Saved t \<Longrightarrow> RT_Hash t \<noteq> root"
  shows "over_rows root p'"
proof (cases e)
  case (Saved t)
  have "distinct (map RT_Hash (pg_refresh p))" using assms(1) by (simp add: over_rows_def)
  then have "\<not> root_open p root"
    using session_overD [OF iffD2 [OF session_over_rows assms(1)], of root] by (auto simp: root_open_def)
  then have "\<not> inFamily root t" using assms(2,3) assms(4) [OF Saved] Saved by (auto simp: inFamily_def)
  then show ?thesis using over.kept_insert_refresh [OF assms(1)] assms(3) Saved by auto
next
  case (Revoked h at)
  then show ?thesis using over.kept_revoke [OF assms(1)] assms(3) by auto
next
  case (Rotated h now)
  then show ?thesis using over.kept_rotate [OF assms(1)] assms(3) by auto
qed (use assms in auto)

lemma revoke_over: "distinct (map RT_Hash (pg_refresh p)) \<Longrightarrow> method_effect (Revoked h at) p p' \<Longrightarrow> over_rows h p'"
  using tokens_map(4) [of "\<lambda>t. if inFamily h t then endToken at t else t" p] by (auto simp: sql_revoke_def over_rows_def simp del: map_map)

lemma exec_over:
  "exec s es s' \<Longrightarrow> locks_ok s \<Longrightarrow> over_rows root (db s) \<Longrightarrow> root \<noteq> [] \<Longrightarrow> (\<And>t. Saved t \<in> set es \<Longrightarrow> RT_Hash t \<noteq> root) \<Longrightarrow>
   over_rows root (db s')"
proof (induction rule: exec.induct)
  case (exec_step s es s1 e s2)
  have "over_rows root (db s1)" by (rule exec_step.IH) (use exec_step.prems in auto)
  moreover have "method_effect e (db s1) (db s2)"
    by (rule step_effect [OF exec_step.hyps(2) exec_locks_ok [OF exec_step.hyps(1) exec_step.prems(1)]])
  ultimately show ?case using exec_step.prems(3,4) by (intro effect_over [of root "db s1" e "db s2"]) auto
qed

text \<open>
  C6. No successor outlives a logout. Once a \<^verbatim>\<open>RevokeTokens\<close> has committed for a family, every row of
  the family is revoked and ended in every later state of every interleaving, whatever successor was being
  saved meanwhile: it is either refused or among the rows that were ended. (No row is filed under the root's
  own hash again.)
\<close>

theorem revoke_leaves_no_successor:
  assumes "distinct (map RT_Hash (pg_refresh p))" "exec (at_rest p) es s1" "step s1 (Revoked root at) s2" "root \<noteq> ''''"
    and "exec s2 es' s" "list_all (\<lambda>e. \<forall>t. e = Saved t \<longrightarrow> RT_Hash t \<noteq> root) es'"
  shows "over_rows root (db s)"
proof -
  have ok: "locks_ok s1" "locks_ok s2" using exec_locks_ok [OF assms(2) at_rest_ok [OF assms(1)]] step_locks_ok [OF assms(3)] by auto
  have "distinct (map RT_Hash (pg_refresh (db s1)))" using ok(1) by (simp add: locks_ok_def)
  from revoke_over [OF this step_effect [OF assms(3) ok(1)]] have "over_rows root (db s2)" .
  from exec_over [OF assms(5) ok(2) this assms(4)] assms(6) show ?thesis by (auto simp: list_all_iff)
qed

section \<open>The events are the methods\<close>

text \<open>A call of the store that succeeds does what its event says, and a refusal with
  \<^verbatim>\<open>ErrTokenRevoked\<close> is the event of a missing or ended root.\<close>

lemma stampRefresh_keys: "RT_Parent (stampRefresh now t) = RT_Parent t" "RT_Hash (stampRefresh now t) = RT_Hash t"
  by (simp_all add: stampRefresh_def)

lemma Save_event:
  assumes "pg_ok d p" "Postgres_SaveRefreshToken d t now p = (Inr u, p')"
  shows "\<exists>r q. RT_Hash r = RT_Hash t \<and> RT_Parent r = RT_Parent t \<and> method_effect (Saved r) p q \<and> same_tables q p'"
proof -
  let ?t = "stampRefresh now t"
  have ins: "\<exists>r. RT_Hash r = RT_Hash t \<and> RT_Parent r = RT_Parent t \<and> \<not> has_row p (RT_Hash r) \<and> has_user_row p (RT_UserID r) \<and>
      same_tables (p\<lparr>pg_refresh := pg_refresh p @ [r]\<rparr>) q" if q: "pg_insertRefresh d ?t s = (Inr u, q)" "same_tables p s" for s q
  proof -
    obtain r where r: "refreshRow d ?t = Some r" "sql_insert_refresh r s = Inr ((), s\<lparr>pg_refresh := pg_refresh s @ [r]\<rparr>)"
      "q = pg_tick (s\<lparr>pg_refresh := pg_refresh s @ [r]\<rparr>)"
      using q(1) by (auto simp: pg_insertRefresh_def sql_insert_refresh_def dest!: pg_exec_Inr split: prod.splits sum.splits if_splits)
    have "RT_Hash r = RT_Hash t" "RT_Parent r = RT_Parent t"
      using pg_row_stored(2,3) [OF pg_ok_text [OF assms(1)] r(1)] by (simp_all add: stampRefresh_def)
    moreover obtain n where s: "s = p\<lparr>pg_stmt := n\<rparr>" using q(2) by (auto simp: same_tables_def)
    have "\<not> has_row p (RT_Hash r)" "has_user_row p (RT_UserID r)"
      using r(2) unfolding insert_refresh_iff s by (simp_all add: has_row_def pg_tokens_def has_user_row_def)
    ultimately show ?thesis using r(3) unfolding s by (auto simp: same_tables_def pg_tick_def)
  qed
  note open_root = SaveRefreshToken_ok [OF assms]
  have "\<exists>s q. pg_insertRefresh d ?t s = (Inr u, q) \<and> same_tables p s \<and> same_tables q p'"
  proof (cases "RT_Parent t = []")
    case True
    then have "pg_insertRefresh d ?t p = (Inr u, p')"
      using assms(2) unfolding Postgres_SaveRefreshToken_def stampRefresh_def [symmetric] Let_def by (simp add: stampRefresh_keys)
    then show ?thesis using same_tables_tick(3) by blast
  next
    case False
    then have "RT_Parent ?t \<noteq> []" by (simp add: stampRefresh_keys)
    then show ?thesis using assms(2) unfolding Postgres_SaveRefreshToken_def stampRefresh_def [symmetric] Let_def
      by (auto dest!: pg_tx_Inr pg_exec_Inr simp: same_tables_tick intro: same_tables_trans [OF same_tables_tick(1) same_tables_tick(1)]
          split: prod.splits sum.splits option.splits if_splits) (metis same_tables_tick(1) same_tables_trans)+
  qed
  then obtain s q where sq: "pg_insertRefresh d ?t s = (Inr u, q)" "same_tables p s" "same_tables q p'" by blast
  from ins [OF sq(1,2)] obtain r where r: "RT_Hash r = RT_Hash t" "RT_Parent r = RT_Parent t" "\<not> has_row p (RT_Hash r)" "has_user_row p (RT_UserID r)"
    "same_tables (p\<lparr>pg_refresh := pg_refresh p @ [r]\<rparr>) q" by blast
  have "method_effect (Saved r) p (p\<lparr>pg_refresh := pg_refresh p @ [r]\<rparr>)"
    using r open_root by (simp add: insert_refresh_iff root_open_def)
  then show ?thesis using r same_tables_trans [OF r(5) sq(3)] by blast
qed

lemma Revoke_event:
  assumes "pg_ok d p" "Postgres_RevokeTokens d h now p = (Inr u, p')"
  shows "\<exists>at q. method_effect (Revoked h at) p q \<and> same_tables q p'"
proof -
  let ?at = "pg_time (pg_clock d (pg_stmt p))"
  obtain s1 p1 where s: "pg_exec d (pg_text d None h) (\<lambda>h s. Inr ((), s)) (pg_tick p) = (Inr (), s1)"
    "pg_exec d (pg_text d None h) (sql_revoke ?at) s1 = (Inr (), p1)" "p' = pg_tick p1"
    using assms(2) unfolding Postgres_RevokeTokens_def Let_def by (auto dest!: pg_tx_Inr split: prod.splits sum.splits)
  have s1: "s1 = pg_tick (pg_tick p)" using pg_exec_Inr [OF s(1)] by auto
  obtain h' where "pg_text d None h = Some h'" "p1 = pg_tick (snd (projr (sql_revoke ?at h' s1)))"
    using pg_exec_Inr [OF s(2)] by (auto simp: sql_revoke_def)
  then have "p1 = pg_tick (snd (projr (sql_revoke ?at h s1)))" using keeps_textD [OF pg_ok_text [OF assms(1)]] by metis
  then have "same_tables (snd (projr (sql_revoke ?at h p))) p'" using s(3) s1 by (auto simp: sql_revoke_def same_tables_def pg_tick_def)
  then show ?thesis by (intro exI [of _ ?at] exI [of _ "snd (projr (sql_revoke ?at h p))"]) (simp add: sql_revoke_def)
qed

lemma Refuse_event:
  assumes "pg_ok d p" "Postgres_SaveRefreshToken d t now p = (Inl e, p')" "errors_Is e Store_ErrTokenRevoked"
  shows "method_effect (Refused t) p p"
proof -
  let ?t = "stampRefresh now t"
  have no: "pg_insertRefresh d ?t s \<noteq> (Inl e, q)" for s q
    using assms(3) by (auto simp: pg_insertRefresh_def insertError_def split: prod.splits sum.splits if_splits)
  then have par: "RT_Parent ?t \<noteq> []" using assms(2) unfolding Postgres_SaveRefreshToken_def stampRefresh_def [symmetric] Let_def by (auto split: if_splits)
  have "\<exists>x s1. pg_exec d (pg_text d None (RT_Parent ?t)) (\<lambda>h s. Inr (find (\<lambda>t. RT_Hash t = h) (pg_refresh s), s)) (pg_tick p) = (Inr x, s1) \<and>
      (x = None \<or> (\<exists>r. x = Some r \<and> RT_EndedAt r \<noteq> None))"
    using assms(2,3) par no unfolding Postgres_SaveRefreshToken_def stampRefresh_def [symmetric] Let_def
    by (auto dest!: pg_tx_Inl split: prod.splits sum.splits option.splits if_splits)
  then obtain x s1 where x: "pg_exec d (pg_text d None (RT_Parent ?t)) (\<lambda>h s. Inr (find (\<lambda>t. RT_Hash t = h) (pg_refresh s), s)) (pg_tick p) = (Inr x, s1)"
    "x = None \<or> (\<exists>r. x = Some r \<and> RT_EndedAt r \<noteq> None)" by blast
  obtain h where "pg_text d None (RT_Parent ?t) = Some h" "x = pg_tokens p h" using pg_exec_Inr [OF x(1)] by (auto simp: pg_tokens_def)
  then have "x = pg_tokens p (RT_Parent t)" using keeps_textD [OF pg_ok_text [OF assms(1)]] by (metis stampRefresh_keys(1))
  then show ?thesis using x(2) by (auto simp: root_open_def)
qed

section \<open>Witnesses\<close>

text \<open>A refresh and a logout of one session: the logout begins while the successor is being saved, waits for
  it, and ends it too.\<close>

definition demo_root :: RefreshToken where
  "demo_root = \<lparr>RT_Hash = ''h'', RT_UserID = ''u1'', RT_Parent = [], RT_ExpiresAt = 9000, RT_CreatedAt = 1000, RT_Revoked = False,
     RT_RotatedAt = None, RT_EndedAt = None\<rparr>"

definition demo_next :: RefreshToken where
  "demo_next = demo_root\<lparr>RT_Hash := ''k'', RT_Parent := ''h''\<rparr>"

definition demo_family :: PG where
  "demo_family = PG_empty\<lparr>pg_users := [row_of demo_user], pg_refresh := [demo_root]\<rparr>"

definition demo_saved :: PG where
  "demo_saved = demo_family\<lparr>pg_refresh := [demo_root, demo_next]\<rparr>"

lemmas demo_locks_defs =
  demo_root_def demo_next_def demo_family_def demo_saved_def at_rest_def root_open_def has_row_def pg_tokens_def locked_by_other_def
  shared_def pending_def has_user_row_def row_of_def demo_user_def family_hashes_def inFamily_def PG_empty_def

abbreviation T_save :: "nat \<Rightarrow> tx" where "T_save \<equiv> (\<lambda>i. TxEnded)(0 := SaveLocked demo_next)"
abbreviation T_both :: "nat \<Rightarrow> tx" where "T_both \<equiv> T_save(1 := RevokeBegun ''h'' 7)"

lemma demo_saving: "exec (at_rest demo_family) [Silent, Silent, Silent, Silent] \<lparr>db = demo_family, txs = T_both(0 := SaveInserted demo_next)\<rparr>"
proof -
  have 1: "step (at_rest demo_family) Silent \<lparr>db = demo_family, txs = (\<lambda>i. TxEnded)(0 := SaveBegun demo_next)\<rparr>"
    unfolding at_rest_def by (rule save_begin) (simp_all add: demo_locks_defs)
  have "step \<lparr>db = demo_family, txs = (\<lambda>i. TxEnded)(0 := SaveBegun demo_next)\<rparr> Silent
      \<lparr>db = demo_family, txs = ((\<lambda>i. TxEnded)(0 := SaveBegun demo_next))(0 := SaveLocked demo_next)\<rparr>"
    by (rule save_lock) (simp_all add: demo_locks_defs)
  then have 2: "step \<lparr>db = demo_family, txs = (\<lambda>i. TxEnded)(0 := SaveBegun demo_next)\<rparr> Silent \<lparr>db = demo_family, txs = T_save\<rparr>" by simp
  have 3: "step \<lparr>db = demo_family, txs = T_save\<rparr> Silent \<lparr>db = demo_family, txs = T_both\<rparr>"
    by (rule revoke_begin) (simp_all add: demo_locks_defs)
  have 4: "step \<lparr>db = demo_family, txs = T_both\<rparr> Silent \<lparr>db = demo_family, txs = T_both(0 := SaveInserted demo_next)\<rparr>"
    by (rule save_insert) (simp_all add: demo_locks_defs)
  show ?thesis using exec_step [OF exec_step [OF exec_step [OF exec_step [OF exec_none 1] 2] 3] 4] by simp
qed

abbreviation T_revoking :: "nat \<Rightarrow> tx" where
  "T_revoking \<equiv> (\<lambda>i. TxEnded)(1 := RevokeUpdated ''h'' 7 {''h'', ''k''})"

lemma demo_interleaved:
  "exec (at_rest demo_family) [Silent, Silent, Silent, Silent, Saved demo_next, Silent, Silent] \<lparr>db = demo_saved, txs = T_revoking\<rparr>"
proof -
  have "step \<lparr>db = demo_family, txs = T_both(0 := SaveInserted demo_next)\<rparr> (Saved demo_next)
      \<lparr>db = demo_family\<lparr>pg_refresh := pg_refresh demo_family @ [demo_next]\<rparr>, txs = (T_both(0 := SaveInserted demo_next))(0 := TxEnded)\<rparr>"
    by (rule save_commit) simp
  moreover have "(T_both(0 := SaveInserted demo_next))(0 := TxEnded) = (\<lambda>i. TxEnded)(1 := RevokeBegun ''h'' 7)" by (auto simp: fun_eq_iff)
  ultimately have 1: "step \<lparr>db = demo_family, txs = T_both(0 := SaveInserted demo_next)\<rparr> (Saved demo_next)
      \<lparr>db = demo_saved, txs = (\<lambda>i. TxEnded)(1 := RevokeBegun ''h'' 7)\<rparr>" by (simp add: demo_saved_def demo_family_def)
  have "step \<lparr>db = demo_saved, txs = (\<lambda>i. TxEnded)(1 := RevokeBegun ''h'' 7)\<rparr> Silent
      \<lparr>db = demo_saved, txs = ((\<lambda>i. TxEnded)(1 := RevokeBegun ''h'' 7))(1 := RevokeLocked ''h'' 7)\<rparr>"
    by (rule revoke_lock) (simp_all add: demo_locks_defs)
  then have 2: "step \<lparr>db = demo_saved, txs = (\<lambda>i. TxEnded)(1 := RevokeBegun ''h'' 7)\<rparr> Silent
      \<lparr>db = demo_saved, txs = (\<lambda>i. TxEnded)(1 := RevokeLocked ''h'' 7)\<rparr>" by simp
  have "family_hashes ''h'' demo_saved = set (map RT_Hash (filter (inFamily ''h'') (pg_refresh demo_saved)))" by (auto simp: family_hashes_def)
  then have f: "family_hashes ''h'' demo_saved = {''h'', ''k''}" by (simp add: demo_saved_def demo_next_def demo_root_def inFamily_def)
  have "step \<lparr>db = demo_saved, txs = (\<lambda>i. TxEnded)(1 := RevokeLocked ''h'' 7)\<rparr> Silent
      \<lparr>db = demo_saved, txs = ((\<lambda>i. TxEnded)(1 := RevokeLocked ''h'' 7))(1 := RevokeUpdated ''h'' 7 (family_hashes ''h'' demo_saved))\<rparr>"
    by (rule revoke_update) (simp_all add: f shared_def locked_by_other_def)
  then have 3: "step \<lparr>db = demo_saved, txs = (\<lambda>i. TxEnded)(1 := RevokeLocked ''h'' 7)\<rparr> Silent \<lparr>db = demo_saved, txs = T_revoking\<rparr>"
    by (simp add: f)
  show ?thesis using exec_step [OF exec_step [OF exec_step [OF demo_saving 1] 2] 3] by simp
qed

lemma demo_family_distinct: "distinct (map RT_Hash (pg_refresh demo_family))"
  by (simp add: demo_family_def)

theorem sessions_serialisable_witness:
  "sequential [Silent, Silent, Silent, Silent, Saved demo_next, Silent, Silent] demo_family demo_saved"
  using sessions_serialisable [OF demo_family_distinct demo_interleaved] by simp

theorem revoke_leaves_no_successor_witness:
  "over_rows ''h'' (end_rows 7 {''h'', ''k''} demo_saved) \<and> demo_next \<in> set (pg_refresh demo_saved)"
proof -
  have "step \<lparr>db = demo_saved, txs = T_revoking\<rparr> (Revoked ''h'' 7)
      \<lparr>db = end_rows 7 {''h'', ''k''} demo_saved, txs = T_revoking(1 := TxEnded)\<rparr>" by (rule revoke_commit) simp
  from revoke_leaves_no_successor [OF demo_family_distinct demo_interleaved this _ exec_none] show ?thesis by (simp add: demo_saved_def)
qed

end
