(* ===== verification/Postgres_Challenges.thy ===== *)
theory Postgres_Challenges
  imports Postgres_Session OAuth_Properties
begin

text \<open>
  One-time challenges on the Postgres store: the challenge contract holds for it whatever its driver does,
  so what the OAuth callback and the wallet sign-in get from the contract holds with a database behind
  several replicas and with failures at any point.
\<close>

declare map_of_eq_Some_iff [simp del]
declare Some_eq_map_of_iff [simp del]

section \<open>The store keeps the challenge contract\<close>

definition pg_chs :: "PG \<Rightarrow> string \<Rightarrow> Challenge option" where
  "pg_chs p n = find (\<lambda>c. Ch_Nonce c = n) (pg_challenges p)"

definition pg_challenge :: "pg_driver \<Rightarrow> Challenge \<Rightarrow> Challenge" where
  "pg_challenge d c = (case challengeRow d c of None \<Rightarrow> c | Some r \<Rightarrow> r)"

lemma challengeRow_text: "challengeRow d c = Some r \<Longrightarrow> pg_text d (Some 255) (Ch_Nonce c) = Some (Ch_Nonce r)"
  by (auto simp: challengeRow_def split: option.splits)

lemma challengeRow_nonce: "keeps_text d \<Longrightarrow> challengeRow d c = Some r \<Longrightarrow> Ch_Nonce r = Ch_Nonce c"
  using challengeRow_text keeps_textD by blast

lemma pg_chs_tick [simp]: "pg_chs (pg_tick p) = pg_chs p"
  by (simp add: pg_chs_def fun_eq_iff)

lemma pg_chs_delete: "pg_chs (p\<lparr>pg_challenges := filter (\<lambda>c. Ch_Nonce c \<noteq> n) (pg_challenges p)\<rparr>) = (pg_chs p)(n := None)"
proof
  have "find (\<lambda>c. Ch_Nonce c = m) (filter (\<lambda>c. Ch_Nonce c \<noteq> n) cs) = (if m = n then None else find (\<lambda>c. Ch_Nonce c = m) cs)" for m and cs :: "Challenge list"
    by (induction cs) auto
  then show "pg_chs (p\<lparr>pg_challenges := filter (\<lambda>c. Ch_Nonce c \<noteq> n) (pg_challenges p)\<rparr>) m = ((pg_chs p)(n := None)) m" for m
    by (simp add: pg_chs_def)
qed

lemma pg_chs_None: "pg_chs p n = None \<longleftrightarrow> n \<notin> set (map Ch_Nonce (pg_challenges p))"
  by (auto simp: pg_chs_def find_None_iff)

lemma pg_SaveChallenge_ok:
  assumes "keeps_text d" "Postgres_SaveChallenge d c now p = (Inr u, p')"
  shows "pg_chs p' (Ch_Nonce c) = Some (pg_challenge d (stampChallenge now c))"
proof -
  let ?c = "stampChallenge now c" and ?swept = "\<lambda>x q. pg_exec d (Some ()) (sql_sweep (pg_time (pg_clock d (pg_stmt p)))) p = (Inr x, q)"
  obtain x q y where q: "?swept x q" "pg_exec d (challengeRow d ?c) sql_insert_challenge q = (Inr y, p')"
    using assms(2) by (auto simp: Postgres_SaveChallenge_def Let_def split: prod.splits sum.splits)
  obtain r q1 where r: "challengeRow d ?c = Some r" "sql_insert_challenge r q = Inr (y, q1)" "p' = pg_tick q1"
    using pg_exec_Inr [OF q(2)] by auto
  then have "pg_chs p' (Ch_Nonce r) = Some r"
    by (auto simp: sql_insert_challenge_def pg_chs_def find_append_new split: if_splits)
  moreover have "Ch_Nonce r = Ch_Nonce c" using challengeRow_nonce [OF assms(1) r(1)] by auto
  ultimately show ?thesis using r(1) by (simp add: pg_challenge_def)
qed

lemma pg_GetChallenge_ok:
  assumes "keeps_text d" "Postgres_GetChallenge d n now p = (Inr c, p')"
  shows "p' = p \<and> pg_chs p n = Some c"
proof -
  obtain m where "pg_text d None n = Some m" "pg_chs p m = Some c" "p' = p"
    using assms(2) by (auto simp: Postgres_GetChallenge_def pg_query_def pg_chs_def split: option.splits sum.splits if_splits)
  then show ?thesis using keeps_textD [OF assms(1)] by blast
qed

lemma pg_GetChallenge_err: "Postgres_GetChallenge d n now p = (Inl e, p') \<Longrightarrow> p' = p"
  by (auto simp: Postgres_GetChallenge_def split: option.splits sum.splits if_splits)

lemma pg_DeleteChallenge_ok:
  assumes "keeps_text d" "Postgres_DeleteChallenge d n p = (Inr u, p')"
  shows "pg_chs p n \<noteq> None \<and> pg_chs p' = (pg_chs p)(n := None)"
proof -
  have x: "pg_exec d (pg_text d None n) sql_delete_challenge p = (Inr True, p')"
    using assms(2) by (auto simp: Postgres_DeleteChallenge_def split: prod.splits sum.splits if_splits)
  then obtain m q where m: "pg_text d None n = Some m" "sql_delete_challenge m p = Inr (True, q)" "p' = pg_tick q"
    using pg_exec_Inr [OF x] by auto
  have "m = n" using keeps_textD [OF assms(1) m(1)] .
  then have q: "n \<in> set (map Ch_Nonce (pg_challenges p))"
    "q = p\<lparr>pg_challenges := filter (\<lambda>c. Ch_Nonce c \<noteq> n) (pg_challenges p)\<rparr>"
    using m(2) unfolding sql_delete_challenge_def by blast+
  show ?thesis using q(1) pg_chs_None unfolding m(3) q(2) pg_chs_tick pg_chs_delete by blast
qed

lemma pg_DeleteChallenge_err:
  assumes "Postgres_DeleteChallenge d n p = (Inl e, p')"
  shows "pg_chs p' = pg_chs p"
proof (cases "pg_exec d (pg_text d None n) sql_delete_challenge p")
  case (Pair r q)
  show ?thesis
  proof (cases r)
    case (Inl c)
    then show ?thesis using assms Pair pg_exec_Inl [OF Pair [unfolded Inl]] by (auto simp: Postgres_DeleteChallenge_def)
  next
    case (Inr b)
    then obtain m q' where m: "sql_delete_challenge m p = Inr (b, q')" "q = pg_tick q'" using pg_exec_Inr [OF Pair [unfolded Inr]] by auto
    have "\<not> b" "p' = q" using assms Pair Inr by (auto simp: Postgres_DeleteChallenge_def split: if_splits)
    then have "filter (\<lambda>c. Ch_Nonce c \<noteq> m) (pg_challenges p) = pg_challenges p" "pg_challenges q' = filter (\<lambda>c. Ch_Nonce c \<noteq> m) (pg_challenges p)"
      using m(1) by (auto simp: sql_delete_challenge_def filter_id_conv)
    then show ?thesis using m(2) \<open>p' = q\<close> by (simp add: pg_chs_def fun_eq_iff)
  qed
qed

lemma pgChallengeStore_simps [simp]:
  "GetChallenge (pgChallengeStore d) = Postgres_GetChallenge d" "DeleteChallenge (pgChallengeStore d) = Postgres_DeleteChallenge d"
  "SaveChallenge (pgChallengeStore d) = Postgres_SaveChallenge d"
  by (simp_all add: pgChallengeStore_def)

lemma stampChallenge_time: "\<exists>k. stampChallenge now c = c\<lparr>Ch_CreatedAt := k\<rparr>"
  by (cases c) auto

interpretation pg_cs: challenge_store "pgChallengeStore d" pg_chs "\<lambda>p. keeps_text d" "pg_challenge d" for d
proof unfold_locales
  show "keeps_text d \<and> (\<exists>k. pg_chs s' (Ch_Nonce c) = Some (pg_challenge d (c\<lparr>Ch_CreatedAt := k\<rparr>)))"
    if "keeps_text d" "SaveChallenge (pgChallengeStore d) c now s = (Inr u, s')" for s c now u s'
    using pg_SaveChallenge_ok [OF that(1), of c now s u s'] that stampChallenge_time [where now = now and c = c]
    unfolding pgChallengeStore_simps by metis
qed (auto dest: pg_GetChallenge_ok pg_GetChallenge_err pg_DeleteChallenge_ok pg_DeleteChallenge_err)

interpretation pg_ch: challenge_service "pgChallengeStore d" pg_chs "\<lambda>p. keeps_text d" "pg_challenge d" "pgService d j i l p oa wa"
  for d j i l p oa wa
  by unfold_locales (auto simp: time_Now_def)

section \<open>A challenge is used once\<close>

fun pg_saves_nonce :: "string \<Rightarrow> pg_driver \<Rightarrow> mem_op \<Rightarrow> bool" where
  "pg_saves_nonce n d (OpSaveChallenge c now) = (pg_text d (Some 255) (Ch_Nonce c) = Some n)"
| "pg_saves_nonce n d op = False"

definition nonce_gone :: "string \<Rightarrow> PG \<Rightarrow> bool" where
  "nonce_gone n p \<longleftrightarrow> n \<notin> set (map Ch_Nonce (pg_challenges p))"

interpretation used: pg_kept "nonce_gone n" "\<lambda>r. True" "\<lambda>t. True" "\<lambda>l. True" "\<lambda>c. Ch_Nonce c \<noteq> n" for n
  by unfold_locales
    (auto simp: of_tables_def nonce_gone_def sql_insert_user_def sql_delete_user_def sql_insert_refresh_def sql_rotate_def Let_def
      sql_revoke_def sql_insert_pat_def sql_insert_pat_limited_def sql_prune_pats_def sql_delete_pat_def sql_touch_pat_def
      sql_insert_oauth_def sql_insert_wallet_def sql_sweep_def sql_insert_challenge_def sql_delete_challenge_def
      sql_upsert_credential_def split: if_splits sum.splits)

lemma admissible_used: "\<not> pg_saves_nonce n d op \<Longrightarrow> used.admissible n d op"
  by (cases op) (auto simp: option.pred_set dest: challengeRow_text)

lemma gone_run:
  assumes "pg_chs p n = None" "list_all (\<lambda>(d, op). \<not> pg_saves_nonce n d op) calls"
  shows "pg_chs (snd (run_steps (\<lambda>(d, op). pg_step d op) calls p)) n = None"
proof -
  have "list_all (\<lambda>(d, op). used.admissible n d op) calls"
    using assms(2) by (rule list.pred_mono_strong) (auto intro: admissible_used)
  then show ?thesis using used.run_kept [of n p calls] assms(1) unfolding pg_chs_None nonce_gone_def by blast
qed

text \<open>Consuming a nonce, by either sign-in.\<close>

inductive pg_consumes :: "pg_driver \<Rightarrow> PG Service \<Rightarrow> string \<Rightarrow> PG world \<Rightarrow> PG world \<Rightarrow> bool" for d svc where
  callback: "op_challenges part = pgChallengeStore d \<Longrightarrow>
    Service_consumeOAuthState svc part req w = (Inr ch, w') \<Longrightarrow> pg_consumes d svc (OCR_State req) w w'"
| signin: "wp_challenges wpart = pgChallengeStore d \<Longrightarrow>
    Service_consumeWalletChallenge svc wpart p wreq addr w = (None, w') \<Longrightarrow> pg_consumes d svc (WAR_Nonce wreq) w w'"

lemma pg_consumes_gone:
  "pg_consumes d (pgService d j i l p oa wa) n w w' \<Longrightarrow> keeps_text d \<Longrightarrow> pg_chs (store w) n \<noteq> None \<and> pg_chs (store w') n = None"
  by (induction rule: pg_consumes.induct) (auto dest: pg_ch.oauth_consume_ok(2,3) pg_ch.wallet_consume_ok)

text \<open>
  C14. A challenge is used once on the Postgres store. Once a callback or a wallet sign-in has consumed a nonce,
  whatever the database is asked to do by other requests and other replicas, with statements and commits
  failing at any point, no later request of either kind consumes it, and an OAuth callback or a wallet sign-in
  that presents it is refused. (The one exclusion is a new challenge under the same random nonce.)
\<close>

theorem postgres_challenge_single_use:
  assumes "keeps_text d" "pg_consumes d (pgService d j i l p oa wa) n w w1"
    and "list_all (\<lambda>(d, op). \<not> pg_saves_nonce n d op) calls"
    and "store w2 = snd (run_steps (\<lambda>(d, op). pg_step d op) calls (store w1))"
    and "keeps_text d'" "op_challenges part = pgChallengeStore d'" "wp_challenges wpart = pgChallengeStore d'"
    and "svc = pgService d' j' i' l' p' (Some part) (Some wpart)"
  shows "\<not> pg_consumes d' svc n w2 w3 \<and>
    (OCR_State req = n \<longrightarrow> (\<exists>e. fst (Service_OAuthCallback svc req w2) = Inl e)) \<and>
    (WAR_Nonce wreq = n \<longrightarrow> (\<exists>e. fst (Service_AuthenticateWallet svc wreq w2) = Inl e))"
proof -
  have gone: "pg_chs (store w2) n = None"
    using gone_run [OF _ assms(3)] pg_consumes_gone [OF assms(2,1)] assms(4) by simp
  then have none: "\<not> pg_consumes d' svc n w2 w'" for w' using pg_consumes_gone assms(5,8) by blast
  have parts: "svc_oauth svc = Some part" "svc_wallet svc = Some wpart"
    using assms(8) by (simp_all add: pgService_def NewService_def pgOptions_def WithRefreshReuseLeeway_def WithPAT_def Let_def split: option.split)
  have o: "\<exists>e. fst (Service_OAuthCallback svc req w2) = Inl e" if "OCR_State req = n"
  proof (cases "Service_consumeOAuthState svc part req w2")
    case (Pair r w')
    have "\<exists>e. r = Inl e" using none callback [OF assms(6), of svc req w2 _ w'] Pair that by (cases r) auto
    then show ?thesis using Pair parts by (auto simp: Service_OAuthCallback_def Service_oauthProvider_def split: option.split)
  qed
  have "\<exists>e. fst (Service_AuthenticateWallet svc wreq w2) = Inl e" if "WAR_Nonce wreq = n"
  proof (cases "Service_walletProvider svc (WAR_Chain wreq) (WAR_Address wreq)")
    case (Inr y)
    obtain q addr where y: "y = (wpart, q, addr)"
      using Inr parts by (auto simp: Service_walletProvider_def split: option.splits sum.splits)
    obtain r w' where c: "Service_consumeWalletChallenge svc wpart q wreq addr w2 = (r, w')" by fastforce
    then have "r \<noteq> None" using none signin [OF assms(7), of svc q wreq addr w2 w'] that by auto
    then show ?thesis using Inr y c by (auto simp: Service_AuthenticateWallet_def)
  qed (simp add: Service_AuthenticateWallet_def)
  with none o show ?thesis by blast
qed

section \<open>Example\<close>

definition pgOAuth :: "pg_driver \<Rightarrow> (string, PG OAuthProvider) gomap \<Rightarrow> OAuthConfig \<Rightarrow> PG OAuthPart" where
  "pgOAuth d providers cfg = \<lparr>op_providers = providers, op_identities = pgOAuthIdentityStore d,
     op_challenges = pgChallengeStore d, op_credentials = pgCredentialStore d, op_config = cfg\<rparr>"

definition pgWallet :: "pg_driver \<Rightarrow> (string, WalletProvider) gomap \<Rightarrow> WalletConfig \<Rightarrow> PG WalletPart" where
  "pgWallet d providers cfg = \<lparr>wp_providers = providers, wp_identities = pgWalletIdentityStore d,
     wp_challenges = pgChallengeStore d, wp_config = cfg\<rparr>"

definition demo_challenges :: PG where
  "demo_challenges = PG_empty\<lparr>pg_challenges := [demo_state]\<rparr>"

theorem postgres_challenge_single_use_witness:
  "\<exists>svc w1 e. pg_consumes lax_pg svc ''st'' (demo_world demo_challenges) w1 \<and>
     fst (Service_OAuthCallback svc demo_callback w1) = Inl e"
proof -
  let ?cfg = "\<lparr>WC_Domain = [], WC_URI = [], WC_Statement = [], WC_ChallengeTTL = 0\<rparr>"
  let ?part = "pgOAuth lax_pg [] \<lparr>OC_DisableAutoLinkEmail = False, OC_StateTTL = 0\<rparr>" and ?wpart = "pgWallet lax_pg [] ?cfg"
  let ?svc = "pgService lax_pg lax_jose demo_issuer 0 None (Some ?part) (Some ?wpart)"
  have parts: "op_challenges ?part = pgChallengeStore lax_pg" "wp_challenges ?wpart = pgChallengeStore lax_pg"
    by (simp_all add: pgOAuth_def pgWallet_def)
  have "\<exists>w1. Service_consumeOAuthState ?svc ?part demo_callback (demo_world demo_challenges) = (Inr demo_state, w1)"
    by (simp add: Service_consumeOAuthState_def demo_callback_def demo_challenges_def demo_state_def call_now_def call_def parts
        time_Now_def Postgres_GetChallenge_def Postgres_DeleteChallenge_def sql_delete_challenge_def pg_quiet_simps [OF lax_pg_quiet]
        lax_pg_simps hashBinding_def Let_def)
  then obtain w1 where "Service_consumeOAuthState ?svc ?part demo_callback (demo_world demo_challenges) = (Inr demo_state, w1)" by blast
  from callback [OF parts(1) this] have c: "pg_consumes lax_pg ?svc ''st'' (demo_world demo_challenges) w1"
    by (simp add: demo_callback_def)
  from postgres_challenge_single_use [OF demo_rows_facts(2) c _ _ demo_rows_facts(2) parts refl, of "[]" w1 lax_jose demo_issuer 0 None w1 demo_callback]
  have "\<exists>e. fst (Service_OAuthCallback ?svc demo_callback w1) = Inl e" by (simp add: demo_callback_def)
  with c show ?thesis by blast
qed

end
