(* ===== verification/Storetest.thy ===== *)
theory Storetest
  imports Server "HOL-Library.Monad_Syntax"
begin

text \<open>
  \<^verbatim>\<open>store/storetest\<close>: the behavioural contracts every store backend is tested against, as executable
  definitions over the method tables of a backend. A test is a function of the world that fails with
  \<open>None\<close>; \<^verbatim>\<open>assert\<close> and \<^verbatim>\<open>require\<close> are one thing here, for a test passes only if all hold.
  Every \<^verbatim>\<open>t.Run\<close> is a definition and starts on an empty store. Goroutines of a test call one method each;
  a method is one step, so some order of the calls is what they do.
\<close>

section \<open>Assertions\<close>

type_synonym 'st test = "'st world \<Rightarrow> 'st world option"

definition expect :: "bool \<Rightarrow> unit option" where
  "expect b = (if b then Some () else None)"

definition NoError :: "(error + 'a) \<times> 'w \<Rightarrow> ('a \<times> 'w) option" where
  "NoError r = (case r of (Inr x, w) \<Rightarrow> Some (x, w) | (Inl _, w) \<Rightarrow> None)"

definition ErrorIs :: "sentinel \<Rightarrow> (error + 'a) \<times> 'w \<Rightarrow> 'w option" where
  "ErrorIs s r = (case r of (Inl e, w) \<Rightarrow> if errors_Is e s then Some w else None | (Inr _, w) \<Rightarrow> None)"

definition reads :: "('st \<Rightarrow> error + 'a) \<Rightarrow> 'st world \<Rightarrow> (error + 'a) \<times> 'st world" where
  "reads f w = (f (store w), w)"

text \<open>\<^verbatim>\<open>t.Truncate(unit)\<close> and \<^verbatim>\<open>time.Now().UTC().Truncate(unit)\<close>.\<close>

definition time_Truncate :: "time \<Rightarrow> duration \<Rightarrow> time" where
  "time_Truncate t unit = t - t mod unit"

definition truncated_Now :: "duration \<Rightarrow> 'st world \<Rightarrow> time \<times> 'st world" where
  "truncated_Now unit w = (let (t, w) = time_Now w in (time_Truncate t unit, w))"

text \<open>The subtests of a contract in order, each on an empty store.\<close>

fun t_Run :: "'st \<Rightarrow> 'st test list \<Rightarrow> 'st test" where
  "t_Run fresh [] w = Some w"
| "t_Run fresh (test # tests) w = do { w \<leftarrow> test (w\<lparr>store := fresh\<rparr>); t_Run fresh tests w }"

section \<open>Zero values\<close>

definition zero_User :: User where
  "zero_User = \<lparr>User_ID = '''', User_Email = '''', User_Roles = [], User_CreatedAt = 0, User_UpdatedAt = 0\<rparr>"

definition zero_RefreshToken :: RefreshToken where
  "zero_RefreshToken = \<lparr>RT_Hash = '''', RT_UserID = '''', RT_Parent = '''', RT_ExpiresAt = 0, RT_CreatedAt = 0,
     RT_Revoked = False, RT_RotatedAt = None, RT_EndedAt = None\<rparr>"

definition zero_PAT :: PersonalAccessToken where
  "zero_PAT = \<lparr>PAT_ID = '''', PAT_Hash = '''', PAT_UserID = '''', PAT_Name = '''', PAT_Scopes = [], PAT_ExpiresAt = None,
     PAT_LastUsedAt = None, PAT_CreatedAt = 0\<rparr>"

definition zero_OAuthIdentity :: OAuthIdentity where
  "zero_OAuthIdentity = \<lparr>OI_ID = '''', OI_UserID = '''', OI_Provider = '''', OI_ExternalID = '''', OI_Email = '''', OI_CreatedAt = 0\<rparr>"

definition zero_WalletIdentity :: WalletIdentity where
  "zero_WalletIdentity = \<lparr>WI_ID = '''', WI_UserID = '''', WI_Chain = '''', WI_Address = '''', WI_CreatedAt = 0\<rparr>"

definition zero_Challenge :: Challenge where
  "zero_Challenge = \<lparr>Ch_Nonce = '''', Ch_Message = '''', Ch_Chain = '''', Ch_Address = '''', Ch_CodeVerifier = '''',
     Ch_OAuthNonce = '''', Ch_BindingHash = '''', Ch_ExpiresAt = 0, Ch_CreatedAt = 0\<rparr>"

lemmas zero_defs = zero_User_def zero_RefreshToken_def zero_PAT_def zero_OAuthIdentity_def zero_WalletIdentity_def zero_Challenge_def

definition createUser :: "'st UserStore \<Rightarrow> 'st world \<Rightarrow> (string \<times> 'st world) option" where
  "createUser us w = do {
     let (uid, w) = draw_NewString w;
     (_, w) \<leftarrow> NoError (call_now (Create us (zero_User\<lparr>User_ID := uid\<rparr>)) w);
     Some (uid, w) }"

section \<open>Refresh tokens\<close>

text \<open>\<^verbatim>\<open>newStore\<close> also creates a user the tokens may reference.\<close>

definition refresh_save :: "'st TokenStore \<Rightarrow> time \<Rightarrow> RefreshToken \<Rightarrow> 'st test" where
  "refresh_save ts now rt w = do {
     let rt = (if time_IsZero (RT_ExpiresAt rt) then rt\<lparr>RT_ExpiresAt := now + hour\<rparr> else rt);
     (_, w) \<leftarrow> NoError (call_now (SaveRefreshToken ts rt) w);
     Some w }"

definition Refresh_rotates_once :: "'st TokenStore \<Rightarrow> ('st world \<Rightarrow> (string \<times> 'st world) option) \<Rightarrow> time \<Rightarrow> 'st test" where
  "Refresh_rotates_once ts newStore now w = do {
     (userID, w) \<leftarrow> newStore w;
     w \<leftarrow> refresh_save ts now (zero_RefreshToken\<lparr>RT_Hash := ''r1'', RT_UserID := userID\<rparr>) w;
     let ((rt, err), w) = call (RotateRefreshToken ts ''r1'' now) w;
     expect (err = None \<and> pred_option RT_Revoked rt \<and> map_option RT_RotatedAt rt = Some (Some now));
     let ((rt, err), w) = call (RotateRefreshToken ts ''r1'' (now + second)) w;
     expect (pred_option (\<lambda>e. errors_Is e Store_ErrTokenRevoked) err \<and> err \<noteq> None \<and> map_option RT_RotatedAt rt = Some (Some now));
     Some w }"

definition Refresh_not_found :: "'st TokenStore \<Rightarrow> ('st world \<Rightarrow> (string \<times> 'st world) option) \<Rightarrow> time \<Rightarrow> 'st test" where
  "Refresh_not_found ts newStore now w = do {
     (_, w) \<leftarrow> newStore w;
     let ((_, err), w) = call (RotateRefreshToken ts ''missing'' now) w;
     expect (err \<noteq> None \<and> pred_option (\<lambda>e. errors_Is e Store_ErrTokenNotFound) err);
     Some w }"

definition Refresh_expired :: "'st TokenStore \<Rightarrow> ('st world \<Rightarrow> (string \<times> 'st world) option) \<Rightarrow> time \<Rightarrow> 'st test" where
  "Refresh_expired ts newStore now w = do {
     (userID, w) \<leftarrow> newStore w;
     w \<leftarrow> refresh_save ts now (zero_RefreshToken\<lparr>RT_Hash := ''old'', RT_UserID := userID, RT_ExpiresAt := now\<rparr>) w;
     let ((rt, err), w) = call (RotateRefreshToken ts ''old'' now) w;
     expect (err \<noteq> None \<and> pred_option (\<lambda>e. errors_Is e Store_ErrTokenExpired) err);
     expect (map_option (\<lambda>t. (RT_Revoked t, RT_RotatedAt t)) rt = Some (False, None));
     Some w }"

definition Refresh_revoked_by_logout :: "'st TokenStore \<Rightarrow> ('st world \<Rightarrow> (string \<times> 'st world) option) \<Rightarrow> time \<Rightarrow> 'st test" where
  "Refresh_revoked_by_logout ts newStore now w = do {
     (userID, w) \<leftarrow> newStore w;
     w \<leftarrow> refresh_save ts now (zero_RefreshToken\<lparr>RT_Hash := ''r1'', RT_UserID := userID\<rparr>) w;
     (_, w) \<leftarrow> NoError (call_now (RevokeTokens ts ''r1'') w);
     let ((rt, err), w) = call (RotateRefreshToken ts ''r1'' now) w;
     expect (err \<noteq> None \<and> pred_option (\<lambda>e. errors_Is e Store_ErrTokenRevoked) err);
     expect (map_option RT_RotatedAt rt = Some None \<and> pred_option (\<lambda>t. RT_EndedAt t \<noteq> None) rt);
     Some w }"

definition Refresh_ended_refuses :: "'st TokenStore \<Rightarrow> ('st world \<Rightarrow> (string \<times> 'st world) option) \<Rightarrow> time \<Rightarrow> 'st test" where
  "Refresh_ended_refuses ts newStore now w = do {
     (userID, w) \<leftarrow> newStore w;
     w \<leftarrow> refresh_save ts now (zero_RefreshToken\<lparr>RT_Hash := ''root'', RT_UserID := userID\<rparr>) w;
     let ((_, err), w) = call (RotateRefreshToken ts ''root'' now) w;
     expect (err = None);
     (_, w) \<leftarrow> NoError (call_now (RevokeTokens ts ''root'') w);
     (family, w) \<leftarrow> NoError (reads (GetRefreshFamily ts ''root'') w);
     expect (SessionEnded family \<and> LastRotatedAt family \<noteq> None);
     w \<leftarrow> ErrorIs Store_ErrTokenRevoked (call_now (SaveRefreshToken ts (zero_RefreshToken\<lparr>RT_Hash := ''late'', RT_UserID := userID,
       RT_Parent := ''root'', RT_ExpiresAt := now + hour\<rparr>)) w);
     ErrorIs Store_ErrTokenNotFound (reads (GetRefreshToken ts ''late'') w) }"

text \<open>\<open>rotations n\<close> is the outcomes of \<open>n\<close> goroutines that rotate one token.\<close>

fun rotations :: "'st TokenStore \<Rightarrow> time \<Rightarrow> nat \<Rightarrow> 'st world \<Rightarrow> error option list \<times> 'st world" where
  "rotations ts now 0 w = ([], w)"
| "rotations ts now (Suc n) w =
    (let ((_, err), w) = call (RotateRefreshToken ts ''r1'' now) w; (errs, w) = rotations ts now n w in (err # errs, w))"

definition Refresh_one_winner :: "'st TokenStore \<Rightarrow> ('st world \<Rightarrow> (string \<times> 'st world) option) \<Rightarrow> time \<Rightarrow> 'st test" where
  "Refresh_one_winner ts newStore now w = do {
     (userID, w) \<leftarrow> newStore w;
     w \<leftarrow> refresh_save ts now (zero_RefreshToken\<lparr>RT_Hash := ''r1'', RT_UserID := userID\<rparr>) w;
     let (errs, w) = rotations ts now 10 w;
     expect (list_all (pred_option (\<lambda>e. errors_Is e Store_ErrTokenRevoked)) errs);
     expect (length (filter (\<lambda>err. err = None) errs) = 1);
     Some w }"

definition Refresh_family_summary :: "'st TokenStore \<Rightarrow> ('st world \<Rightarrow> (string \<times> 'st world) option) \<Rightarrow> time \<Rightarrow> 'st test" where
  "Refresh_family_summary ts newStore now w = do {
     (userID, w) \<leftarrow> newStore w;
     w \<leftarrow> refresh_save ts now (zero_RefreshToken\<lparr>RT_Hash := ''root'', RT_UserID := userID\<rparr>) w;
     w \<leftarrow> refresh_save ts now (zero_RefreshToken\<lparr>RT_Hash := ''c1'', RT_UserID := userID, RT_Parent := ''root''\<rparr>) w;
     w \<leftarrow> refresh_save ts now (zero_RefreshToken\<lparr>RT_Hash := ''other'', RT_UserID := userID\<rparr>) w;
     (family, w) \<leftarrow> NoError (reads (GetRefreshFamily ts ''root'') w);
     expect (\<not> SessionEnded family \<and> LastRotatedAt family = None);
     let ((_, err), w) = call (RotateRefreshToken ts ''root'' now) w;
     expect (err = None);
     let later = now + second;
     let ((_, err), w) = call (RotateRefreshToken ts ''c1'' later) w;
     expect (err = None);
     let ((_, err), w) = call (RotateRefreshToken ts ''other'' (later + second)) w;
     expect (err = None);
     (family, w) \<leftarrow> NoError (reads (GetRefreshFamily ts ''root'') w);
     expect (\<not> SessionEnded family \<and> LastRotatedAt family = Some later);
     w \<leftarrow> refresh_save ts now (zero_RefreshToken\<lparr>RT_Hash := ''c2'', RT_UserID := userID, RT_Parent := ''root''\<rparr>) w;
     (_, w) \<leftarrow> NoError (call_now (RevokeTokens ts ''c2'') w);
     (family, w) \<leftarrow> NoError (reads (GetRefreshFamily ts ''root'') w);
     expect (SessionEnded family);
     Some w }"

definition Refresh_no_root :: "'st TokenStore \<Rightarrow> ('st world \<Rightarrow> (string \<times> 'st world) option) \<Rightarrow> time \<Rightarrow> 'st test" where
  "Refresh_no_root ts newStore now w = do {
     (userID, w) \<leftarrow> newStore w;
     w \<leftarrow> ErrorIs Store_ErrTokenRevoked (call_now (SaveRefreshToken ts (zero_RefreshToken\<lparr>RT_Hash := ''orphan'', RT_UserID := userID,
       RT_Parent := ''gone'', RT_ExpiresAt := now + hour\<rparr>)) w);
     ErrorIs Store_ErrTokenNotFound (reads (GetRefreshToken ts ''orphan'') w) }"

definition Refresh_unknown_family :: "'st TokenStore \<Rightarrow> ('st world \<Rightarrow> (string \<times> 'st world) option) \<Rightarrow> time \<Rightarrow> 'st test" where
  "Refresh_unknown_family ts newStore now w = do {
     (_, w) \<leftarrow> newStore w;
     (family, w) \<leftarrow> NoError (reads (GetRefreshFamily ts ''missing'') w);
     expect (\<not> SessionEnded family \<and> LastRotatedAt family = None);
     Some w }"

definition RefreshRotation :: "'st TokenStore \<Rightarrow> 'st \<Rightarrow> ('st world \<Rightarrow> (string \<times> 'st world) option) \<Rightarrow> 'st test" where
  "RefreshRotation ts fresh newStore w =
    (let (now, w) = truncated_Now 1000 w
     in t_Run fresh (map (\<lambda>test. test ts newStore now)
          [Refresh_rotates_once, Refresh_not_found, Refresh_expired, Refresh_revoked_by_logout, Refresh_ended_refuses,
           Refresh_one_winner, Refresh_family_summary, Refresh_no_root, Refresh_unknown_family]) w)"

section \<open>Users\<close>

definition newUser :: "string \<Rightarrow> 'st world \<Rightarrow> User \<times> 'st world" where
  "newUser email w = (let (uid, w) = draw_NewString w in (zero_User\<lparr>User_ID := uid, User_Email := email\<rparr>, w))"

definition Users_round_trip :: "'st UserStore \<Rightarrow> 'st test" where
  "Users_round_trip us w = do {
     let (want, w) = newUser ''user@example.com'' w;
     let want = want\<lparr>User_Roles := [''admin'', ''support'']\<rparr>;
     (_, w) \<leftarrow> NoError (call_now (Create us want) w);
     (byID, w) \<leftarrow> NoError (reads (GetByID us (User_ID want)) w);
     (byEmail, w) \<leftarrow> NoError (reads (GetByEmail us ''user@example.com'') w);
     expect (list_all (\<lambda>got. User_ID got = User_ID want \<and> User_Email got = ''user@example.com'' \<and>
       User_Roles got = [''admin'', ''support''] \<and> \<not> time_IsZero (User_CreatedAt got)) [byID, byEmail]);
     Some w }"

definition Users_without_roles :: "'st UserStore \<Rightarrow> 'st test" where
  "Users_without_roles us w = do {
     let (user, w) = newUser ''user@example.com'' w;
     (_, w) \<leftarrow> NoError (call_now (Create us user) w);
     (got, w) \<leftarrow> NoError (reads (GetByID us (User_ID user)) w);
     expect (User_Roles got = []);
     Some w }"

definition Users_not_found :: "'st UserStore \<Rightarrow> 'st test" where
  "Users_not_found us w = do {
     let (uid, w) = draw_NewString w;
     w \<leftarrow> ErrorIs Store_ErrUserNotFound (reads (GetByID us uid) w);
     w \<leftarrow> ErrorIs Store_ErrUserNotFound (reads (GetByEmail us ''nobody@example.com'') w);
     let (uid, w) = draw_NewString w;
     ErrorIs Store_ErrUserNotFound (call (Delete us uid) w) }"

definition Users_delete :: "'st UserStore \<Rightarrow> 'st test" where
  "Users_delete us w = do {
     let (user, w) = newUser ''user@example.com'' w;
     (_, w) \<leftarrow> NoError (call_now (Create us user) w);
     (_, w) \<leftarrow> NoError (call (Delete us (User_ID user)) w);
     w \<leftarrow> ErrorIs Store_ErrUserNotFound (reads (GetByID us (User_ID user)) w);
     w \<leftarrow> ErrorIs Store_ErrUserNotFound (reads (GetByEmail us ''user@example.com'') w);
     let (user, w) = newUser ''user@example.com'' w;
     (_, w) \<leftarrow> NoError (call_now (Create us user) w);
     Some w }"

definition Users_duplicate_id :: "'st UserStore \<Rightarrow> 'st test" where
  "Users_duplicate_id us w = do {
     let (user, w) = newUser ''first@example.com'' w;
     (_, w) \<leftarrow> NoError (call_now (Create us user) w);
     ErrorIs Store_ErrUserExists
       (call_now (Create us (zero_User\<lparr>User_ID := User_ID user, User_Email := ''second@example.com''\<rparr>)) w) }"

text \<open>A value the caller changes is a value of its own; the store answers with what it holds.\<close>

definition Users_mutations :: "'st UserStore \<Rightarrow> 'st test" where
  "Users_mutations us w = do {
     let (user, w) = newUser ''user@example.com'' w;
     let user = user\<lparr>User_Roles := [''admin'']\<rparr>;
     (_, w) \<leftarrow> NoError (call_now (Create us user) w);
     let user = user\<lparr>User_Email := ''changed@example.com'', User_Roles := [''changed'']\<rparr>;
     (got, w) \<leftarrow> NoError (reads (GetByID us (User_ID user)) w);
     expect (User_Email got = ''user@example.com'' \<and> User_Roles got = [''admin'']);
     let got = got\<lparr>User_Email := ''changed@example.com'', User_Roles := [''changed'']\<rparr>;
     (byEmail, w) \<leftarrow> NoError (reads (GetByEmail us ''user@example.com'') w);
     let byEmail = byEmail\<lparr>User_Roles := [''changed'']\<rparr>;
     (got, w) \<leftarrow> NoError (reads (GetByID us (User_ID user)) w);
     expect (User_Email got = ''user@example.com'' \<and> User_Roles got = [''admin'']);
     Some w }"

definition Users_duplicate_email :: "'st UserStore \<Rightarrow> 'st test" where
  "Users_duplicate_email us w = do {
     let (user, w) = newUser ''dup@example.com'' w;
     (_, w) \<leftarrow> NoError (call_now (Create us user) w);
     let (user, w) = newUser ''dup@example.com'' w;
     ErrorIs Store_ErrUserExists (call_now (Create us user) w) }"

definition Users_no_email :: "'st UserStore \<Rightarrow> 'st test" where
  "Users_no_email us w = do {
     let (user1, w) = newUser '''' w;
     let (user2, w) = newUser '''' w;
     (_, w) \<leftarrow> NoError (call_now (Create us user1) w);
     (_, w) \<leftarrow> NoError (call_now (Create us user2) w);
     (got, w) \<leftarrow> NoError (reads (GetByID us (User_ID user2)) w);
     expect (User_Email got = '''');
     Some w }"

definition Users_empty_email :: "'st UserStore \<Rightarrow> 'st test" where
  "Users_empty_email us w = do {
     let (user, w) = newUser '''' w;
     (_, w) \<leftarrow> NoError (call_now (Create us user) w);
     ErrorIs Store_ErrUserNotFound (reads (GetByEmail us '''') w) }"

definition Users :: "'st UserStore \<Rightarrow> 'st \<Rightarrow> 'st test" where
  "Users us fresh = t_Run fresh (map (\<lambda>test. test us)
     [Users_round_trip, Users_without_roles, Users_not_found, Users_delete, Users_duplicate_id, Users_mutations,
      Users_duplicate_email, Users_no_email, Users_empty_email])"

section \<open>Credentials\<close>

definition Credentials_replace :: "'st UserStore \<Rightarrow> 'st CredentialStore \<Rightarrow> 'st test" where
  "Credentials_replace us cs w = do {
     (userID, w) \<leftarrow> createUser us w;
     (_, w) \<leftarrow> NoError (call (SavePasswordHash cs userID ''first'') w);
     (got, w) \<leftarrow> NoError (reads (GetPasswordHash cs userID) w);
     expect (got = ''first'');
     (_, w) \<leftarrow> NoError (call (SavePasswordHash cs userID ''second'') w);
     (got, w) \<leftarrow> NoError (reads (GetPasswordHash cs userID) w);
     expect (got = ''second'');
     Some w }"

definition Credentials_not_found :: "'st UserStore \<Rightarrow> 'st CredentialStore \<Rightarrow> 'st test" where
  "Credentials_not_found us cs w = do {
     (userID, w) \<leftarrow> createUser us w;
     w \<leftarrow> ErrorIs Store_ErrCredentialNotFound (reads (GetPasswordHash cs userID) w);
     let (uid, w) = draw_NewString w;
     ErrorIs Store_ErrCredentialNotFound (reads (GetPasswordHash cs uid) w) }"

definition Credentials :: "'st UserStore \<Rightarrow> 'st CredentialStore \<Rightarrow> 'st \<Rightarrow> 'st test" where
  "Credentials us cs fresh = t_Run fresh [Credentials_replace us cs, Credentials_not_found us cs]"

section \<open>Challenges\<close>

definition Challenges_roundTrip :: "'st ChallengeStore \<Rightarrow> Challenge \<Rightarrow> 'st test" where
  "Challenges_roundTrip cs want w = do {
     let (now, w) = time_Now w;
     let want = want\<lparr>Ch_ExpiresAt := now + minute\<rparr>;
     (_, w) \<leftarrow> NoError (call_now (SaveChallenge cs want) w);
     (got, w) \<leftarrow> NoError (call_now (GetChallenge cs (Ch_Nonce want)) w);
     expect (Ch_Message got = Ch_Message want \<and> Ch_Chain got = Ch_Chain want \<and> Ch_Address got = Ch_Address want \<and>
       Ch_CodeVerifier got = Ch_CodeVerifier want \<and> Ch_OAuthNonce got = Ch_OAuthNonce want \<and>
       Ch_BindingHash got = Ch_BindingHash want \<and> \<not> time_IsZero (Ch_CreatedAt got));
     Some w }"

definition Challenges_wallet :: "'st ChallengeStore \<Rightarrow> 'st test" where
  "Challenges_wallet cs = Challenges_roundTrip cs
     (zero_Challenge\<lparr>Ch_Nonce := ''wallet-nonce'', Ch_Message := ''sign me'', Ch_Chain := ''ethereum'', Ch_Address := ''0xAbC''\<rparr>)"

definition Challenges_oauth :: "'st ChallengeStore \<Rightarrow> 'st test" where
  "Challenges_oauth cs = Challenges_roundTrip cs
     (zero_Challenge\<lparr>Ch_Nonce := ''oauth-state'', Ch_CodeVerifier := ''verifier-123'', Ch_OAuthNonce := ''oidc-nonce-456'',
        Ch_BindingHash := ''9f86d081884c7d659a2feaa0c55ad015a3bf4f1b2b0b822cd15d6c15b0f00a08''\<rparr>)"

definition Challenges_single_use :: "'st ChallengeStore \<Rightarrow> 'st test" where
  "Challenges_single_use cs w = do {
     let (now, w) = time_Now w;
     (_, w) \<leftarrow> NoError (call_now (SaveChallenge cs (zero_Challenge\<lparr>Ch_Nonce := ''single-use'', Ch_ExpiresAt := now + minute\<rparr>)) w);
     (_, w) \<leftarrow> NoError (call (DeleteChallenge cs ''single-use'') w);
     w \<leftarrow> ErrorIs Store_ErrChallengeNotFound (call_now (GetChallenge cs ''single-use'') w);
     ErrorIs Store_ErrChallengeNotFound (call (DeleteChallenge cs ''single-use'') w) }"

definition Challenges_expired :: "'st ChallengeStore \<Rightarrow> 'st test" where
  "Challenges_expired cs w = do {
     let (now, w) = time_Now w;
     (_, w) \<leftarrow> NoError (call_now (SaveChallenge cs (zero_Challenge\<lparr>Ch_Nonce := ''expired'', Ch_ExpiresAt := now - second\<rparr>)) w);
     ErrorIs Store_ErrChallengeExpired (call_now (GetChallenge cs ''expired'') w) }"

definition Challenges :: "'st ChallengeStore \<Rightarrow> 'st \<Rightarrow> 'st test" where
  "Challenges cs fresh = t_Run fresh (map (\<lambda>test. test cs) [Challenges_wallet, Challenges_oauth, Challenges_single_use, Challenges_expired])"

section \<open>Personal access tokens\<close>

definition newPAT :: "string \<Rightarrow> string \<Rightarrow> 'st world \<Rightarrow> PersonalAccessToken \<times> 'st world" where
  "newPAT userID hash w =
    (let (uid, w) = draw_NewString w in (zero_PAT\<lparr>PAT_ID := uid, PAT_Hash := hash, PAT_UserID := userID, PAT_Name := ''ci''\<rparr>, w))"

definition PATs_round_trip :: "'st UserStore \<Rightarrow> 'st PATStore \<Rightarrow> time \<Rightarrow> 'st test" where
  "PATs_round_trip us ps now w = do {
     (userID, w) \<leftarrow> createUser us w;
     let expires = now + hour;
     let (want, w) = newPAT userID ''h1'' w;
     let want = want\<lparr>PAT_Scopes := [''eye:read'', ''eye:write''], PAT_ExpiresAt := Some expires, PAT_CreatedAt := now\<rparr>;
     (_, w) \<leftarrow> NoError (call_now (SavePAT ps want) w);
     (got, w) \<leftarrow> NoError (reads (GetPAT ps ''h1'') w);
     expect (PAT_ID got = PAT_ID want \<and> PAT_UserID got = userID \<and> PAT_Name got = ''ci'' \<and>
       PAT_Scopes got = [''eye:read'', ''eye:write''] \<and> PAT_ExpiresAt got = Some expires \<and> PAT_LastUsedAt got = None \<and>
       PAT_CreatedAt got = now);
     Some w }"

definition PATs_plain :: "'st UserStore \<Rightarrow> 'st PATStore \<Rightarrow> time \<Rightarrow> 'st test" where
  "PATs_plain us ps now w = do {
     (userID, w) \<leftarrow> createUser us w;
     let (pat, w) = newPAT userID ''h1'' w;
     (_, w) \<leftarrow> NoError (call_now (SavePAT ps pat) w);
     (got, w) \<leftarrow> NoError (reads (GetPAT ps ''h1'') w);
     expect (PAT_Scopes got = [] \<and> PAT_ExpiresAt got = None \<and> \<not> time_IsZero (PAT_CreatedAt got));
     Some w }"

definition PATs_touch :: "'st UserStore \<Rightarrow> 'st PATStore \<Rightarrow> time \<Rightarrow> 'st test" where
  "PATs_touch us ps now w = do {
     (userID, w) \<leftarrow> createUser us w;
     let (pat, w) = newPAT userID ''h1'' w;
     (_, w) \<leftarrow> NoError (call_now (SavePAT ps pat) w);
     (_, w) \<leftarrow> NoError (call (TouchPAT ps ''h1'' now) w);
     (got, w) \<leftarrow> NoError (reads (GetPAT ps ''h1'') w);
     expect (PAT_LastUsedAt got = Some now);
     Some w }"

definition PATs_duplicate_hash :: "'st UserStore \<Rightarrow> 'st PATStore \<Rightarrow> time \<Rightarrow> 'st test" where
  "PATs_duplicate_hash us ps now w = do {
     (owner, w) \<leftarrow> createUser us w;
     (other, w) \<leftarrow> createUser us w;
     let (original, w) = newPAT owner ''h1'' w;
     (_, w) \<leftarrow> NoError (call_now (SavePAT ps original) w);
     let (pat, w) = newPAT other ''h1'' w;
     w \<leftarrow> ErrorIs Store_ErrPATExists (call_now (SavePAT ps pat) w);
     (got, w) \<leftarrow> NoError (reads (GetPAT ps ''h1'') w);
     expect (PAT_ID got = PAT_ID original);
     (list, w) \<leftarrow> NoError (reads (ListPATs ps other) w);
     expect (list = []);
     Some w }"

definition PATs_not_found :: "'st UserStore \<Rightarrow> 'st PATStore \<Rightarrow> time \<Rightarrow> 'st test" where
  "PATs_not_found us ps now w = do {
     w \<leftarrow> ErrorIs Store_ErrTokenNotFound (reads (GetPAT ps ''missing'') w);
     (userID, w) \<leftarrow> createUser us w;
     let (uid, w) = draw_NewString w;
     ErrorIs Store_ErrTokenNotFound (call (DeletePAT ps userID uid) w) }"

text \<open>The loop of the next test: one token per name, each a minute younger than the one before.\<close>

fun savePATs :: "'st PATStore \<Rightarrow> string \<Rightarrow> time \<Rightarrow> string list \<Rightarrow> 'st test" where
  "savePATs ps userID at [] w = Some w"
| "savePATs ps userID at (name # names) w = do {
     let (pat, w) = newPAT userID name w;
     (_, w) \<leftarrow> NoError (call_now (SavePAT ps (pat\<lparr>PAT_Name := name, PAT_CreatedAt := at\<rparr>)) w);
     savePATs ps userID (at + minute) names w }"

definition PATs_list :: "'st UserStore \<Rightarrow> 'st PATStore \<Rightarrow> time \<Rightarrow> 'st test" where
  "PATs_list us ps now w = do {
     (userID, w) \<leftarrow> createUser us w;
     (other, w) \<leftarrow> createUser us w;
     w \<leftarrow> savePATs ps userID (now - 3 * minute) [''first'', ''second'', ''third''] w;
     let (pat, w) = newPAT other ''other'' w;
     (_, w) \<leftarrow> NoError (call_now (SavePAT ps pat) w);
     (list, w) \<leftarrow> NoError (reads (ListPATs ps userID) w);
     expect (map PAT_Name list = [''third'', ''second'', ''first'']);
     (list, w) \<leftarrow> NoError (reads (ListPATs ps other) w);
     expect (map PAT_Name list = [''ci'']);
     let (uid, w) = draw_NewString w;
     (list, w) \<leftarrow> NoError (reads (ListPATs ps uid) w);
     expect (list = []);
     Some w }"

definition PATs_delete :: "'st UserStore \<Rightarrow> 'st PATStore \<Rightarrow> time \<Rightarrow> 'st test" where
  "PATs_delete us ps now w = do {
     (owner, w) \<leftarrow> createUser us w;
     (other, w) \<leftarrow> createUser us w;
     let (pat, w) = newPAT owner ''h1'' w;
     (_, w) \<leftarrow> NoError (call_now (SavePAT ps pat) w);
     w \<leftarrow> ErrorIs Store_ErrTokenNotFound (call (DeletePAT ps other (PAT_ID pat)) w);
     (_, w) \<leftarrow> NoError (reads (GetPAT ps ''h1'') w);
     (_, w) \<leftarrow> NoError (call (DeletePAT ps owner (PAT_ID pat)) w);
     ErrorIs Store_ErrTokenNotFound (reads (GetPAT ps ''h1'') w) }"

definition limited_save :: "'st PATStore \<Rightarrow> int \<Rightarrow> time \<Rightarrow> string \<Rightarrow> string \<Rightarrow> time option \<Rightarrow> 'st world \<Rightarrow>
    (error + PersonalAccessToken) \<times> 'st world" where
  "limited_save ps limit now userID hash expires w =
    (let (pat, w) = newPAT userID hash w in call_now (SavePATLimited ps (pat\<lparr>PAT_ExpiresAt := expires\<rparr>) limit now) w)"

definition PATs_limit_unexpired :: "'st UserStore \<Rightarrow> 'st PATStore \<Rightarrow> time \<Rightarrow> 'st test" where
  "PATs_limit_unexpired us ps now w = do {
     (userID, w) \<leftarrow> createUser us w;
     (other, w) \<leftarrow> createUser us w;
     let past = now - hour;
     let future = now + hour;
     let (uid, w) = draw_NewString w;
     (_, w) \<leftarrow> NoError (call_now (SavePAT ps (zero_PAT\<lparr>PAT_ID := uid, PAT_Hash := ''expired'', PAT_UserID := userID,
       PAT_ExpiresAt := Some past\<rparr>)) w);
     (_, w) \<leftarrow> NoError (limited_save ps 2 now userID ''forever'' None w);
     (_, w) \<leftarrow> NoError (limited_save ps 2 now userID ''later'' (Some future) w);
     w \<leftarrow> ErrorIs Store_ErrPATLimitReached (limited_save ps 2 now userID ''third'' None w);
     w \<leftarrow> ErrorIs Store_ErrTokenNotFound (reads (GetPAT ps ''expired'') w);
     (list, w) \<leftarrow> NoError (reads (ListPATs ps userID) w);
     expect (length list = 2);
     w \<leftarrow> ErrorIs Store_ErrTokenNotFound (reads (GetPAT ps ''third'') w);
     (_, w) \<leftarrow> NoError (limited_save ps 2 now other ''o1'' None w);
     Some w }"

text \<open>\<open>order\<close> is the order in which Go visits the map of the two tokens.\<close>

fun saveExpiring :: "'st PATStore \<Rightarrow> string \<Rightarrow> (string \<times> time) list \<Rightarrow> 'st test" where
  "saveExpiring ps userID [] w = Some w"
| "saveExpiring ps userID ((hash, expires) # rest) w = do {
     let (uid, w) = draw_NewString w;
     (_, w) \<leftarrow> NoError (call_now (SavePAT ps (zero_PAT\<lparr>PAT_ID := uid, PAT_Hash := hash, PAT_UserID := userID,
       PAT_ExpiresAt := Some expires\<rparr>)) w);
     saveExpiring ps userID rest w }"

definition PATs_limit_strict ::
  "((string \<times> time) list \<Rightarrow> (string \<times> time) list) \<Rightarrow> 'st UserStore \<Rightarrow> 'st PATStore \<Rightarrow> time \<Rightarrow> 'st test" where
  "PATs_limit_strict order us ps now w = do {
     (userID, w) \<leftarrow> createUser us w;
     w \<leftarrow> saveExpiring ps userID (order [(''at'', now), (''before'', now - 1000)]) w;
     w \<leftarrow> ErrorIs Store_ErrPATLimitReached (limited_save ps 1 now userID ''new'' None w);
     (_, w) \<leftarrow> NoError (reads (GetPAT ps ''at'') w);
     ErrorIs Store_ErrTokenNotFound (reads (GetPAT ps ''before'') w) }"

definition PATs_limit_rules :: "'st UserStore \<Rightarrow> 'st PATStore \<Rightarrow> time \<Rightarrow> 'st test" where
  "PATs_limit_rules us ps now w = do {
     (userID, w) \<leftarrow> createUser us w;
     (_, w) \<leftarrow> NoError (limited_save ps 5 now userID ''h1'' None w);
     w \<leftarrow> ErrorIs Store_ErrPATExists (limited_save ps 5 now userID ''h1'' None w);
     let (uid, w) = draw_NewString w;
     ErrorIs Store_ErrUserNotFound (limited_save ps 5 now uid ''h2'' None w) }"

definition PATs ::
  "((string \<times> time) list \<Rightarrow> (string \<times> time) list) \<Rightarrow> 'st UserStore \<Rightarrow> 'st PATStore \<Rightarrow> 'st \<Rightarrow> 'st test" where
  "PATs order us ps fresh w =
    (let (now, w) = truncated_Now second w
     in t_Run fresh (map (\<lambda>test. test us ps now)
          [PATs_round_trip, PATs_plain, PATs_touch, PATs_duplicate_hash, PATs_not_found, PATs_list, PATs_delete,
           PATs_limit_unexpired, PATs_limit_strict order, PATs_limit_rules]) w)"

section \<open>Identities\<close>

text \<open>\<^verbatim>\<open>time.Date(2026, 1, 2, 3, 4, 5, 0, time.UTC)\<close>.\<close>

definition supplied :: time where "supplied = time_Unix 1767323045"

definition newOAuthIdentity :: "string \<Rightarrow> string \<Rightarrow> string \<Rightarrow> 'st world \<Rightarrow> OAuthIdentity \<times> 'st world" where
  "newOAuthIdentity userID provider externalID w =
    (let (uid, w) = draw_NewString w
     in (zero_OAuthIdentity\<lparr>OI_ID := uid, OI_UserID := userID, OI_Provider := provider, OI_ExternalID := externalID\<rparr>, w))"

definition OAuth_round_trip :: "'st UserStore \<Rightarrow> 'st OAuthIdentityStore \<Rightarrow> 'st test" where
  "OAuth_round_trip us os w = do {
     (userID, w) \<leftarrow> createUser us w;
     let (want, w) = newOAuthIdentity userID ProviderTypeGoogle ''sub-42'' w;
     let want = want\<lparr>OI_Email := ''user@gmail.com'', OI_CreatedAt := supplied\<rparr>;
     (_, w) \<leftarrow> NoError (call_now (SaveOAuthIdentity os want) w);
     (got, w) \<leftarrow> NoError (reads (GetOAuthIdentity os ProviderTypeGoogle ''sub-42'') w);
     expect (OI_ID got = OI_ID want \<and> OI_UserID got = userID \<and> OI_Provider got = ProviderTypeGoogle \<and>
       OI_ExternalID got = ''sub-42'' \<and> OI_Email got = ''user@gmail.com'' \<and> OI_CreatedAt got = supplied);
     Some w }"

definition OAuth_created :: "'st UserStore \<Rightarrow> 'st OAuthIdentityStore \<Rightarrow> 'st test" where
  "OAuth_created us os w = do {
     (userID, w) \<leftarrow> createUser us w;
     let (identity, w) = newOAuthIdentity userID ProviderTypeGoogle ''sub-42'' w;
     (_, w) \<leftarrow> NoError (call_now (SaveOAuthIdentity os identity) w);
     (got, w) \<leftarrow> NoError (reads (GetOAuthIdentity os ProviderTypeGoogle ''sub-42'') w);
     expect (\<not> time_IsZero (OI_CreatedAt got));
     Some w }"

definition OAuth_taken :: "'st UserStore \<Rightarrow> 'st OAuthIdentityStore \<Rightarrow> 'st test" where
  "OAuth_taken us os w = do {
     (owner, w) \<leftarrow> createUser us w;
     (other, w) \<leftarrow> createUser us w;
     let (identity, w) = newOAuthIdentity owner ProviderTypeGoogle ''sub-42'' w;
     (_, w) \<leftarrow> NoError (call_now (SaveOAuthIdentity os identity) w);
     let (identity, w) = newOAuthIdentity other ProviderTypeGoogle ''sub-42'' w;
     w \<leftarrow> ErrorIs Store_ErrOAuthIdentityExists (call_now (SaveOAuthIdentity os identity) w);
     (got, w) \<leftarrow> NoError (reads (GetOAuthIdentity os ProviderTypeGoogle ''sub-42'') w);
     expect (OI_UserID got = owner);
     Some w }"

definition OAuth_per_provider :: "'st UserStore \<Rightarrow> 'st OAuthIdentityStore \<Rightarrow> 'st test" where
  "OAuth_per_provider us os w = do {
     (userID, w) \<leftarrow> createUser us w;
     let (identity, w) = newOAuthIdentity userID ProviderTypeGoogle ''42'' w;
     (_, w) \<leftarrow> NoError (call_now (SaveOAuthIdentity os identity) w);
     w \<leftarrow> ErrorIs Store_ErrOAuthIdentityNotFound (reads (GetOAuthIdentity os ProviderTypeGitHub ''42'') w);
     ErrorIs Store_ErrOAuthIdentityNotFound (reads (GetOAuthIdentity os ProviderTypeGoogle ''unknown'') w) }"

fun saveOAuthIdentities :: "'st OAuthIdentityStore \<Rightarrow> string \<Rightarrow> time \<Rightarrow> string list \<Rightarrow> 'st test" where
  "saveOAuthIdentities os userID at [] w = Some w"
| "saveOAuthIdentities os userID at (externalID # rest) w = do {
     let (identity, w) = newOAuthIdentity userID ProviderTypeGitHub externalID w;
     (_, w) \<leftarrow> NoError (call_now (SaveOAuthIdentity os (identity\<lparr>OI_CreatedAt := at\<rparr>)) w);
     saveOAuthIdentities os userID (at + minute) rest w }"

definition OAuth_list_from :: "'st OAuthIdentityStore \<Rightarrow> string \<Rightarrow> string \<Rightarrow> time \<Rightarrow> 'st test" where
  "OAuth_list_from os userID other base w = do {
     w \<leftarrow> saveOAuthIdentities os userID base [''first'', ''second'', ''third''] w;
     let (identity, w) = newOAuthIdentity other ProviderTypeGoogle ''other'' w;
     (_, w) \<leftarrow> NoError (call_now (SaveOAuthIdentity os identity) w);
     (list, w) \<leftarrow> NoError (reads (ListOAuthIdentities os userID) w);
     expect (map OI_ExternalID list = [''third'', ''second'', ''first'']);
     (list, w) \<leftarrow> NoError (reads (ListOAuthIdentities os other) w);
     expect (map OI_ExternalID list = [''other'']);
     let (uid, w) = draw_NewString w;
     (list, w) \<leftarrow> NoError (reads (ListOAuthIdentities os uid) w);
     expect (list = []);
     Some w }"

definition OAuth_list :: "'st UserStore \<Rightarrow> 'st OAuthIdentityStore \<Rightarrow> 'st test" where
  "OAuth_list us os w = do {
     (userID, w) \<leftarrow> createUser us w;
     (other, w) \<leftarrow> createUser us w;
     let (now, w) = time_Now w;
     let base = time_Truncate (now - hour) second;
     OAuth_list_from os userID other base w }"

definition OAuthIdentities :: "'st UserStore \<Rightarrow> 'st OAuthIdentityStore \<Rightarrow> 'st \<Rightarrow> 'st test" where
  "OAuthIdentities us os fresh = t_Run fresh (map (\<lambda>test. test us os)
     [OAuth_round_trip, OAuth_created, OAuth_taken, OAuth_per_provider, OAuth_list])"

definition ethAddress :: string where "ethAddress = ''0x5aAeb6053F3E94C9b9A09f33669435E7Ef1BeAed''"

definition newWalletIdentity :: "string \<Rightarrow> string \<Rightarrow> string \<Rightarrow> 'st world \<Rightarrow> WalletIdentity \<times> 'st world" where
  "newWalletIdentity userID chain addr w =
    (let (uid, w) = draw_NewString w
     in (zero_WalletIdentity\<lparr>WI_ID := uid, WI_UserID := userID, WI_Chain := chain, WI_Address := addr\<rparr>, w))"

definition Wallet_round_trip :: "'st UserStore \<Rightarrow> 'st WalletIdentityStore \<Rightarrow> 'st test" where
  "Wallet_round_trip us ws w = do {
     (userID, w) \<leftarrow> createUser us w;
     let (want, w) = newWalletIdentity userID ''ethereum'' ethAddress w;
     let want = want\<lparr>WI_CreatedAt := supplied\<rparr>;
     (_, w) \<leftarrow> NoError (call_now (SaveWalletIdentity ws want) w);
     (got, w) \<leftarrow> NoError (reads (GetWalletIdentity ws ''ethereum'' ethAddress) w);
     expect (WI_ID got = WI_ID want \<and> WI_UserID got = userID \<and> WI_Chain got = ''ethereum'' \<and> WI_Address got = ethAddress \<and>
       WI_CreatedAt got = supplied);
     Some w }"

definition Wallet_created :: "'st UserStore \<Rightarrow> 'st WalletIdentityStore \<Rightarrow> 'st test" where
  "Wallet_created us ws w = do {
     (userID, w) \<leftarrow> createUser us w;
     let (identity, w) = newWalletIdentity userID ''ethereum'' ethAddress w;
     (_, w) \<leftarrow> NoError (call_now (SaveWalletIdentity ws identity) w);
     (got, w) \<leftarrow> NoError (reads (GetWalletIdentity ws ''ethereum'' ethAddress) w);
     expect (\<not> time_IsZero (WI_CreatedAt got));
     Some w }"

definition Wallet_taken :: "'st UserStore \<Rightarrow> 'st WalletIdentityStore \<Rightarrow> 'st test" where
  "Wallet_taken us ws w = do {
     (owner, w) \<leftarrow> createUser us w;
     (other, w) \<leftarrow> createUser us w;
     let (identity, w) = newWalletIdentity owner ''ethereum'' ethAddress w;
     (_, w) \<leftarrow> NoError (call_now (SaveWalletIdentity ws identity) w);
     let (identity, w) = newWalletIdentity other ''ethereum'' ethAddress w;
     w \<leftarrow> ErrorIs Store_ErrWalletIdentityExists (call_now (SaveWalletIdentity ws identity) w);
     (got, w) \<leftarrow> NoError (reads (GetWalletIdentity ws ''ethereum'' ethAddress) w);
     expect (WI_UserID got = owner);
     Some w }"

definition Wallet_exact :: "'st UserStore \<Rightarrow> 'st WalletIdentityStore \<Rightarrow> 'st test" where
  "Wallet_exact us ws w = do {
     (userID, w) \<leftarrow> createUser us w;
     let (identity, w) = newWalletIdentity userID ''ethereum'' ethAddress w;
     (_, w) \<leftarrow> NoError (call_now (SaveWalletIdentity ws identity) w);
     w \<leftarrow> ErrorIs Store_ErrWalletIdentityNotFound
       (reads (GetWalletIdentity ws ''ethereum'' ''0x0000000000000000000000000000000000000000'') w);
     w \<leftarrow> ErrorIs Store_ErrWalletIdentityNotFound (reads (GetWalletIdentity ws ''solana'' ethAddress) w);
     ErrorIs Store_ErrWalletIdentityNotFound
       (reads (GetWalletIdentity ws ''ethereum'' ''0x5aaeb6053f3e94c9b9a09f33669435e7ef1beaed'') w) }"

fun saveWalletIdentities :: "'st WalletIdentityStore \<Rightarrow> string \<Rightarrow> time \<Rightarrow> string list \<Rightarrow> 'st test" where
  "saveWalletIdentities ws userID at [] w = Some w"
| "saveWalletIdentities ws userID at (chain # rest) w = do {
     let (identity, w) = newWalletIdentity userID chain ethAddress w;
     (_, w) \<leftarrow> NoError (call_now (SaveWalletIdentity ws (identity\<lparr>WI_CreatedAt := at\<rparr>)) w);
     saveWalletIdentities ws userID (at + minute) rest w }"

definition Wallet_list_from :: "'st WalletIdentityStore \<Rightarrow> string \<Rightarrow> string \<Rightarrow> time \<Rightarrow> 'st test" where
  "Wallet_list_from ws userID other base w = do {
     w \<leftarrow> saveWalletIdentities ws userID base [''ethereum'', ''polygon'', ''base''] w;
     let (identity, w) = newWalletIdentity other ''ethereum'' ''0x0000000000000000000000000000000000000001'' w;
     (_, w) \<leftarrow> NoError (call_now (SaveWalletIdentity ws identity) w);
     (list, w) \<leftarrow> NoError (reads (ListWalletIdentities ws userID) w);
     expect (map WI_Chain list = [''base'', ''polygon'', ''ethereum'']);
     (list, w) \<leftarrow> NoError (reads (ListWalletIdentities ws other) w);
     expect (map WI_Chain list = [''ethereum'']);
     Some w }"

definition Wallet_list :: "'st UserStore \<Rightarrow> 'st WalletIdentityStore \<Rightarrow> 'st test" where
  "Wallet_list us ws w = do {
     (userID, w) \<leftarrow> createUser us w;
     (other, w) \<leftarrow> createUser us w;
     let (now, w) = time_Now w;
     let base = time_Truncate (now - hour) second;
     Wallet_list_from ws userID other base w }"

definition Wallet_freed :: "'st UserStore \<Rightarrow> 'st WalletIdentityStore \<Rightarrow> 'st test" where
  "Wallet_freed us ws w = do {
     (userID, w) \<leftarrow> createUser us w;
     let (identity, w) = newWalletIdentity userID ''ethereum'' ethAddress w;
     (_, w) \<leftarrow> NoError (call_now (SaveWalletIdentity ws identity) w);
     (_, w) \<leftarrow> NoError (call (Delete us userID) w);
     w \<leftarrow> ErrorIs Store_ErrWalletIdentityNotFound (reads (GetWalletIdentity ws ''ethereum'' ethAddress) w);
     (userID, w) \<leftarrow> createUser us w;
     let (identity, w) = newWalletIdentity userID ''ethereum'' ethAddress w;
     (_, w) \<leftarrow> NoError (call_now (SaveWalletIdentity ws identity) w);
     Some w }"

definition WalletIdentities :: "'st UserStore \<Rightarrow> 'st WalletIdentityStore \<Rightarrow> 'st \<Rightarrow> 'st test" where
  "WalletIdentities us ws fresh = t_Run fresh (map (\<lambda>test. test us ws)
     [Wallet_round_trip, Wallet_created, Wallet_taken, Wallet_exact, Wallet_list, Wallet_freed])"

section \<open>Ownership\<close>

definition seed :: "'st Backend \<Rightarrow> time \<Rightarrow> string \<Rightarrow> 'st world \<Rightarrow> (string \<times> 'st world) option" where
  "seed s now userID w = do {
     let patHash = ''pat-'' @ userID;
     let (uid, w) = draw_NewString w;
     (_, w) \<leftarrow> NoError (call_now (SaveWalletIdentity (be_walletIdentityStore s) (zero_WalletIdentity\<lparr>WI_ID := uid, WI_UserID := userID,
       WI_Chain := ''ethereum'', WI_Address := ''addr-'' @ userID\<rparr>)) w);
     (_, w) \<leftarrow> NoError (call (SavePasswordHash (be_credStore s) userID ''hash'') w);
     (_, w) \<leftarrow> NoError (call_now (SaveRefreshToken (be_tokenStore s) (zero_RefreshToken\<lparr>RT_Hash := ''rt-'' @ userID,
       RT_UserID := userID, RT_ExpiresAt := now + hour\<rparr>)) w);
     let (uid, w) = draw_NewString w;
     (_, w) \<leftarrow> NoError (call_now (SavePAT (be_patStore s) (zero_PAT\<lparr>PAT_ID := uid, PAT_Hash := patHash, PAT_UserID := userID,
       PAT_Name := ''ci''\<rparr>)) w);
     let (uid, w) = draw_NewString w;
     (_, w) \<leftarrow> NoError (call_now (SaveOAuthIdentity (be_oauthIdentityStore s) (zero_OAuthIdentity\<lparr>OI_ID := uid, OI_UserID := userID,
       OI_Provider := ProviderTypeGoogle, OI_ExternalID := ''sub-'' @ userID\<rparr>)) w);
     Some (patHash, w) }"

definition Ownership_delete :: "'st Backend \<Rightarrow> time \<Rightarrow> 'st test" where
  "Ownership_delete s now w = do {
     (userID, w) \<leftarrow> createUser (be_userStore s) w;
     (other, w) \<leftarrow> createUser (be_userStore s) w;
     (patHash, w) \<leftarrow> seed s now userID w;
     (otherPATHash, w) \<leftarrow> seed s now other w;
     (_, w) \<leftarrow> NoError (call (Delete (be_userStore s) userID) w);
     w \<leftarrow> ErrorIs Store_ErrCredentialNotFound (reads (GetPasswordHash (be_credStore s) userID) w);
     w \<leftarrow> ErrorIs Store_ErrTokenNotFound (reads (GetRefreshToken (be_tokenStore s) (''rt-'' @ userID)) w);
     w \<leftarrow> ErrorIs Store_ErrTokenNotFound (reads (GetPAT (be_patStore s) patHash) w);
     (pats, w) \<leftarrow> NoError (reads (ListPATs (be_patStore s) userID) w);
     expect (pats = []);
     w \<leftarrow> ErrorIs Store_ErrOAuthIdentityNotFound
       (reads (GetOAuthIdentity (be_oauthIdentityStore s) ProviderTypeGoogle (''sub-'' @ userID)) w);
     (identities, w) \<leftarrow> NoError (reads (ListOAuthIdentities (be_oauthIdentityStore s) userID) w);
     expect (identities = []);
     w \<leftarrow> ErrorIs Store_ErrWalletIdentityNotFound
       (reads (GetWalletIdentity (be_walletIdentityStore s) ''ethereum'' (''addr-'' @ userID)) w);
     (_, w) \<leftarrow> NoError (reads (GetPasswordHash (be_credStore s) other) w);
     (_, w) \<leftarrow> NoError (reads (GetRefreshToken (be_tokenStore s) (''rt-'' @ other)) w);
     (_, w) \<leftarrow> NoError (reads (GetPAT (be_patStore s) otherPATHash) w);
     (identities, w) \<leftarrow> NoError (reads (ListOAuthIdentities (be_oauthIdentityStore s) other) w);
     expect (length identities = 1);
     (_, w) \<leftarrow> NoError (reads (GetWalletIdentity (be_walletIdentityStore s) ''ethereum'' (''addr-'' @ other)) w);
     Some w }"

definition Ownership_freed :: "'st Backend \<Rightarrow> time \<Rightarrow> 'st test" where
  "Ownership_freed s now w = do {
     (userID, w) \<leftarrow> createUser (be_userStore s) w;
     (_, w) \<leftarrow> seed s now userID w;
     (_, w) \<leftarrow> NoError (call (Delete (be_userStore s) userID) w);
     let (uid, w) = draw_NewString w;
     (other, w) \<leftarrow> createUser (be_userStore s) w;
     (_, w) \<leftarrow> NoError (call_now (SaveOAuthIdentity (be_oauthIdentityStore s) (zero_OAuthIdentity\<lparr>OI_ID := uid, OI_UserID := other,
       OI_Provider := ProviderTypeGoogle, OI_ExternalID := ''sub-'' @ userID\<rparr>)) w);
     Some w }"

text \<open>The table of writes, each for a user that does not exist.\<close>

definition forget :: "(error + 'a) \<times> 'w \<Rightarrow> (error + unit) \<times> 'w" where
  "forget r = (map_sum (\<lambda>e. e) (\<lambda>_. ()) (fst r), snd r)"

definition ownership_writes :: "time \<Rightarrow> ('st Backend \<Rightarrow> string \<Rightarrow> 'st world \<Rightarrow> (error + unit) \<times> 'st world) list" where
  "ownership_writes now =
    [\<lambda>s userID w. call (SavePasswordHash (be_credStore s) userID ''hash'') w,
     \<lambda>s userID w. call_now (SaveRefreshToken (be_tokenStore s)
       (zero_RefreshToken\<lparr>RT_Hash := ''rt'', RT_UserID := userID, RT_ExpiresAt := now + hour\<rparr>)) w,
     \<lambda>s userID w. let (uid, w) = draw_NewString w in forget (call_now (SavePAT (be_patStore s)
       (zero_PAT\<lparr>PAT_ID := uid, PAT_Hash := ''pat'', PAT_UserID := userID, PAT_Name := ''ci''\<rparr>)) w),
     \<lambda>s userID w. let (uid, w) = draw_NewString w in call_now (SaveOAuthIdentity (be_oauthIdentityStore s)
       (zero_OAuthIdentity\<lparr>OI_ID := uid, OI_UserID := userID, OI_Provider := ProviderTypeGitHub, OI_ExternalID := ''42''\<rparr>)) w,
     \<lambda>s userID w. let (uid, w) = draw_NewString w in call_now (SaveWalletIdentity (be_walletIdentityStore s)
       (zero_WalletIdentity\<lparr>WI_ID := uid, WI_UserID := userID, WI_Chain := ''ethereum'',
          WI_Address := ''0x0000000000000000000000000000000000000001''\<rparr>)) w]"

definition Ownership_missing ::
  "('st Backend \<Rightarrow> string \<Rightarrow> 'st world \<Rightarrow> (error + unit) \<times> 'st world) \<Rightarrow> 'st Backend \<Rightarrow> 'st test" where
  "Ownership_missing write s w = do {
     let (uid, w) = draw_NewString w;
     ErrorIs Store_ErrUserNotFound (write s uid w) }"

definition Ownership_deleted ::
  "('st Backend \<Rightarrow> string \<Rightarrow> 'st world \<Rightarrow> (error + unit) \<times> 'st world) \<Rightarrow> 'st Backend \<Rightarrow> 'st test" where
  "Ownership_deleted write s w = do {
     (userID, w) \<leftarrow> createUser (be_userStore s) w;
     (_, w) \<leftarrow> NoError (call (Delete (be_userStore s) userID) w);
     ErrorIs Store_ErrUserNotFound (write s userID w) }"

definition UserOwnership :: "'st Backend \<Rightarrow> 'st \<Rightarrow> 'st test" where
  "UserOwnership s fresh w =
    (let (now, w) = truncated_Now second w
     in t_Run fresh ([Ownership_delete s now, Ownership_freed s now] @
          concat (map (\<lambda>write. [Ownership_missing write s, Ownership_deleted write s]) (ownership_writes now))) w)"

section \<open>The cap through the service\<close>

definition limit_service :: "jose \<Rightarrow> 'st Backend \<Rightarrow> int \<Rightarrow> 'st world \<Rightarrow> ('st Service \<times> 'st world) option" where
  "limit_service j s limit w = do {
     (issuer, w) \<leftarrow> NoError (NewWithAlgorithm j ''RS256'' w);
     (case NewService (be_tokenStore s) (be_userStore s) (issuerTable j issuer) []
             [WithPAT (Some (be_patStore s)) \<lparr>PC_MaxPerUser = limit, PC_MaxTTL = 0, PC_TouchInterval = 0\<rparr>] of
        Inl p \<Rightarrow> None
      | Inr svc \<Rightarrow> Some (svc, w)) }"

text \<open>\<open>n\<close> calls of \<^verbatim>\<open>CreatePAT\<close> and their outcomes.\<close>

fun creates :: "'st Service \<Rightarrow> string \<Rightarrow> string \<Rightarrow> nat \<Rightarrow> 'st world \<Rightarrow> error option list \<times> 'st world" where
  "creates svc userID name 0 w = ([], w)"
| "creates svc userID name (Suc n) w =
    (let (r, w) = Service_CreatePAT svc userID name [] None w; (errs, w) = creates svc userID name n w
     in (case_sum Some (\<lambda>_. None) r # errs, w))"

definition Limit_parallel :: "jose \<Rightarrow> 'st Backend \<Rightarrow> 'st test" where
  "Limit_parallel j s w = do {
     (svc, w) \<leftarrow> limit_service j s 5 w;
     (userID, w) \<leftarrow> createUser (be_userStore s) w;
     let (errs, w) = creates svc userID ''seed'' 4 w;
     expect (list_all (\<lambda>err. err = None) errs);
     let (errs, w) = creates svc userID ''race'' 20 w;
     expect (list_all (pred_option (\<lambda>e. errors_Is e ErrPATLimitReached)) errs);
     expect (length (filter (\<lambda>err. err = None) errs) = 1);
     (list, w) \<leftarrow> NoError (reads (ListPATs (be_patStore s) userID) w);
     expect (length list = 5);
     Some w }"

fun saveOld :: "'st PATStore \<Rightarrow> string \<Rightarrow> time \<Rightarrow> nat \<Rightarrow> 'st test" where
  "saveOld ps userID past 0 w = Some w"
| "saveOld ps userID past (Suc n) w = do {
     let (uid, w) = draw_NewString w;
     let (hash, w) = draw_NewString w;
     (_, w) \<leftarrow> NoError (call_now (SavePAT ps (zero_PAT\<lparr>PAT_ID := uid, PAT_Hash := hash, PAT_UserID := userID, PAT_Name := ''old'',
       PAT_ExpiresAt := Some past\<rparr>)) w);
     saveOld ps userID past n w }"

definition Limit_expired :: "jose \<Rightarrow> 'st Backend \<Rightarrow> 'st test" where
  "Limit_expired j s w = do {
     (svc, w) \<leftarrow> limit_service j s 5 w;
     (userID, w) \<leftarrow> createUser (be_userStore s) w;
     let (now, w) = time_Now w;
     w \<leftarrow> saveOld (be_patStore s) userID (now - hour) 5 w;
     (_, w) \<leftarrow> NoError (Service_CreatePAT svc userID ''fresh'' [] None w);
     Some w }"

definition Limit_per_user :: "jose \<Rightarrow> 'st Backend \<Rightarrow> 'st test" where
  "Limit_per_user j s w = do {
     (svc, w) \<leftarrow> limit_service j s 5 w;
     (userID, w) \<leftarrow> createUser (be_userStore s) w;
     (other, w) \<leftarrow> createUser (be_userStore s) w;
     let (errs, w) = creates svc userID ''mine'' 5 w;
     expect (list_all (\<lambda>err. err = None) errs);
     w \<leftarrow> ErrorIs ErrPATLimitReached (Service_CreatePAT svc userID ''over'' [] None w);
     (_, w) \<leftarrow> NoError (Service_CreatePAT svc other ''theirs'' [] None w);
     Some w }"

definition Limit_unlimited :: "jose \<Rightarrow> 'st Backend \<Rightarrow> 'st test" where
  "Limit_unlimited j s w = do {
     (svc, w) \<leftarrow> limit_service j s (-1) w;
     (userID, w) \<leftarrow> createUser (be_userStore s) w;
     let (errs, w) = creates svc userID ''free'' 7 w;
     expect (list_all (\<lambda>err. err = None) errs);
     Some w }"

definition PATLimit :: "jose \<Rightarrow> 'st Backend \<Rightarrow> 'st \<Rightarrow> 'st test" where
  "PATLimit j s fresh = t_Run fresh (map (\<lambda>test. test j s) [Limit_parallel, Limit_expired, Limit_per_user, Limit_unlimited])"

end
