(* ===== verification/Storetest_Env.thy ===== *)
theory Storetest_Env
  imports Storetest
begin

text \<open>
  What the runs of the conformance suite have in common, whichever backend they are on: the environment of a
  run, what passing means, and two interfaces. \<open>test_backend\<close> runs the subtests of a contract one after the other;
  \<open>capped_backend\<close> is what a backend promises about the number of tokens a user has, from which the tests of
  the cap through the service follow.
\<close>

declare map_of_eq_Some_iff [simp del]
declare Some_eq_map_of_iff [simp del]

section \<open>The environment of a test run\<close>

text \<open>UUIDs are unique; the clock is past year one, does not go back and advances less than a minute; entropy is
  available and the hashes of the tokens made of it are unique; the issuer can be built.\<close>

definition test_env :: "jose \<Rightarrow> 'st world \<Rightarrow> bool" where
  "test_env j w \<longleftrightarrow> inj (uuid_NewString w) \<and> (\<forall>i. 2 * hour < wall w i) \<and> (\<forall>i k. i \<le> k \<longrightarrow> wall w i \<le> wall w k) \<and>
    (\<forall>i k. wall w k < wall w i + minute) \<and> (\<forall>i. rand_Read w i 32 \<noteq> None) \<and>
    inj (\<lambda>i. HashToken w (PATPrefix @ b64_encode True (the (rand_Read w i 32)))) \<and>
    (\<forall>i. \<exists>k issuer. rsa_GenerateKey w 2048 i = Inr k \<and> NewWithRSAKey j k = Inr issuer)"

definition same_env :: "'st world \<Rightarrow> 'st world \<Rightarrow> bool" where
  "same_env w w' \<longleftrightarrow> wall w' = wall w \<and> uuid_NewString w' = uuid_NewString w \<and> rand_Read w' = rand_Read w \<and>
    rsa_GenerateKey w' = rsa_GenerateKey w \<and> sha256 w' = sha256 w"

definition passes :: "'st test \<Rightarrow> 'st world \<Rightarrow> bool" where
  "passes test w \<longleftrightarrow> (\<exists>w'. test w = Some w' \<and> same_env w w')"

lemma test_env_same: "same_env w w' \<Longrightarrow> test_env j w \<Longrightarrow> test_env j w'"
  by (simp add: same_env_def test_env_def HashToken_def)

lemma test_env_update [simp]: "test_env j (w\<lparr>store := s\<rparr>) = test_env j w" "test_env j (w\<lparr>tick := n\<rparr>) = test_env j w"
  by (simp_all add: test_env_def HashToken_def)

lemma same_env_simps [simp]:
  "same_env w w" "same_env w (w'\<lparr>store := s\<rparr>) = same_env w w'" "same_env w (w'\<lparr>tick := n\<rparr>) = same_env w w'"
  "same_env (w\<lparr>store := s\<rparr>) w' = same_env w w'" "same_env (w\<lparr>tick := n\<rparr>) w' = same_env w w'"
  by (simp_all add: same_env_def)

lemma tick_store: "w\<lparr>tick := n, store := s\<rparr> = w\<lparr>store := s, tick := n\<rparr>"
  by simp

lemma same_env_trans: "same_env w w' \<Longrightarrow> same_env w' w'' \<Longrightarrow> same_env w w''"
  by (simp add: same_env_def)

lemma test_envD:
  assumes "test_env j w"
  shows "uuid_NewString w a = uuid_NewString w b \<longleftrightarrow> a = b" "wall w a \<noteq> 0" "2 * hour < wall w a"
    "wall w b < wall w a + minute" "a \<le> b \<Longrightarrow> wall w a \<le> wall w b"
  using assms by (auto simp: test_env_def inj_eq) (metis less_irrefl mult_zero_right not_less_iff_gr_or_eq order_less_trans zero_less_numeral)

lemmas test_defs = NoError_def ErrorIs_def reads_def expect_def createUser_def zero_defs
  call_def call_now_def time_Now_def draw_NewString_def time_IsZero_def Let_def

text \<open>The store of \<^verbatim>\<open>TestContract_RefreshRotation\<close>: an empty one with one user.\<close>

definition user_store :: "string \<Rightarrow> 'st UserStore \<Rightarrow> 'st world \<Rightarrow> (string \<times> 'st world) option" where
  "user_store uid us w = do { (_, w) \<leftarrow> NoError (call_now (Create us (zero_User\<lparr>User_ID := uid\<rparr>)) w); Some (uid, w) }"

lemma supplied_nonzero: "supplied \<noteq> 0"
  by (simp add: supplied_def time_Unix_def unixToInternal_def wrap64_def)

lemma time_Truncate_pos: "0 < unit \<Longrightarrow> b + unit \<le> t \<Longrightarrow> b < time_Truncate t unit"
  using pos_mod_bound [of unit t] unfolding time_Truncate_def by linarith

text \<open>A text without NUL or bytes beyond ASCII.\<close>

definition ascii_text :: "string \<Rightarrow> bool" where
  "ascii_text x \<longleftrightarrow> list_all (\<lambda>c. (of_char c :: nat) \<in> {1..<128}) x"

lemma ascii_texts [simp]: "ascii_text []" "ascii_text (c # x) \<longleftrightarrow> (of_char c :: nat) \<in> {1..<128} \<and> ascii_text x"
  by (simp_all add: ascii_text_def)

section \<open>Subtests in order\<close>

locale test_backend =
  fixes env :: "'st world \<Rightarrow> bool" and j :: jose and fresh :: 'st
  assumes env_test: "env w \<Longrightarrow> test_env j w"
    and env_same: "same_env w w' \<Longrightarrow> env w \<Longrightarrow> env w'"
begin

lemma env_update: "env (w\<lparr>store := s\<rparr>) = env w" "env (w\<lparr>tick := n\<rparr>) = env w"
proof -
  have "same_env w (w\<lparr>store := s\<rparr>)" "same_env (w\<lparr>store := s\<rparr>) w" "same_env w (w\<lparr>tick := n\<rparr>)" "same_env (w\<lparr>tick := n\<rparr>) w" by simp_all
  then show "env (w\<lparr>store := s\<rparr>) = env w" "env (w\<lparr>tick := n\<rparr>) = env w" using env_same by blast+
qed

lemma run_passes:
  assumes "list_all (\<lambda>test. \<forall>w. env w \<longrightarrow> passes test (w\<lparr>store := fresh\<rparr>)) tests" "env w"
  shows "passes (t_Run fresh tests) w"
  using assms
proof (induction tests arbitrary: w)
  case (Cons test tests)
  then obtain w1 where w1: "test (w\<lparr>store := fresh\<rparr>) = Some w1" "same_env w w1" by (auto simp: passes_def)
  then have "passes (t_Run fresh tests) w1" using Cons env_same by auto
  then show ?case using w1 by (auto simp: passes_def intro: same_env_trans)
qed (simp add: passes_def)

text \<open>A contract that first reads the clock, to a unit.\<close>

lemma truncated_passes:
  assumes "env w" "0 < unit" "\<And>w now. env w \<Longrightarrow> 2 * hour - unit < now \<Longrightarrow> unit dvd now \<Longrightarrow> passes (test now) w"
  shows "passes (\<lambda>w. let (now, w) = truncated_Now unit w in test now w) w"
proof -
  have "2 * hour - unit < time_Truncate (wall w (tick w)) unit"
    using time_Truncate_pos [OF assms(2), of "2 * hour - unit"] test_envD(3) [OF env_test [OF assms(1)], of "tick w"] by simp
  moreover have "unit dvd time_Truncate (wall w (tick w)) unit" unfolding time_Truncate_def by (rule dvd_minus_mod)
  ultimately have "passes (test (time_Truncate (wall w (tick w)) unit)) (w\<lparr>tick := Suc (tick w)\<rparr>)" using assms(1,3) env_update by simp
  then show ?thesis by (simp add: passes_def truncated_Now_def time_Now_def)
qed

end

section \<open>The cap through the service\<close>

definition pat_hash :: "'st world \<Rightarrow> nat \<Rightarrow> string" where
  "pat_hash w i = HashToken w (PATPrefix @ b64_encode True (the (rand_Read w i 32)))"

definition caps :: "'st Service \<Rightarrow> 'st PATStore \<Rightarrow> int \<Rightarrow> bool" where
  "caps svc ps limit \<longleftrightarrow> svc_patStore svc = Some ps \<and> PC_MaxPerUser (svc_patConfig svc) = limit \<and> PC_MaxTTL (svc_patConfig svc) = 0"

lemma limit_service_ok:
  assumes "test_env j w" "limit \<noteq> 0"
  obtains svc where "limit_service j be limit (w\<lparr>store := s\<rparr>) = Some (svc, w\<lparr>store := s, tick := Suc (tick w)\<rparr>)" "caps svc (be_patStore be) limit"
proof -
  obtain k i where "rsa_GenerateKey w 2048 (tick w) = Inr k" "NewWithRSAKey j k = Inr i" using assms(1) unfolding test_env_def by blast
  then show ?thesis using assms(2) that
    by (auto simp: limit_service_def NewWithAlgorithm_def draw_key_def NoError_def NewService_def WithPAT_def caps_def Let_def)
qed

definition fresh_pat :: "'st world \<Rightarrow> string \<Rightarrow> string \<Rightarrow> PersonalAccessToken" where
  "fresh_pat w u name = \<lparr>PAT_ID = uuid_NewString w (tick w + 2), PAT_Hash = pat_hash w (tick w + 1), PAT_UserID = u, PAT_Name = name,
     PAT_Scopes = [], PAT_ExpiresAt = None, PAT_LastUsedAt = None, PAT_CreatedAt = wall w (tick w)\<rparr>"

text \<open>What the service asks of the store for a new token.\<close>

definition cap_save :: "'st PATStore \<Rightarrow> int \<Rightarrow> string \<Rightarrow> string \<Rightarrow> 'st world \<Rightarrow> (error + PersonalAccessToken) \<times> 'st" where
  "cap_save ps limit u name w =
    (if 0 < limit then SavePATLimited ps (fresh_pat w u name) limit (wall w (tick w)) (wall w (tick w + 3)) (store w)
     else SavePAT ps (fresh_pat w u name) (wall w (tick w + 3)) (store w))"

definition plain_name :: "string \<Rightarrow> bool" where
  "plain_name name \<longleftrightarrow> strings_TrimSpace name = name \<and> name \<noteq> '''' \<and> length name \<le> maxPATNameLength \<and> ascii_text name"

lemma Create_call:
  assumes "test_env j w" "caps svc ps limit" "plain_name name"
  shows "Service_CreatePAT svc u name [] None w =
    (let (r, s) = cap_save ps limit u name w
     in (case r of Inl e \<Rightarrow> Inl (if errors_Is e Store_ErrPATLimitReached then Sentinel ErrPATLimitReached else Errorf ''save pat: %w'' [e])
         | Inr pat \<Rightarrow> Inr \<lparr>PATResult_Plaintext = PATPrefix @ b64_encode True (the (rand_Read w (tick w + 1) 32)), PATResult_Token = pat\<rparr>,
         w\<lparr>tick := tick w + 4, store := s\<rparr>))"
proof -
  obtain b where b: "rand_Read w (Suc (tick w)) 32 = Some b" using assms(1) unfolding test_env_def by blast
  have h: "HashToken (w\<lparr>tick := n\<rparr>) x = HashToken w x" for n x by (simp add: HashToken_def)
  show ?thesis using assms(2,3) b
    by (auto simp: Service_CreatePAT_def caps_def plain_name_def time_Now_def patExpiryError_def GeneratePAT_def draw_bytes_def
        draw_NewString_def call_now_def call_def fresh_pat_def cap_save_def pat_hash_def h Let_def eval_nat_numeral split: prod.splits sum.splits)
qed

lemma pat_hash_env: "same_env w w' \<Longrightarrow> pat_hash w' i = pat_hash w i"
  by (simp add: same_env_def pat_hash_def HashToken_def)

lemma pat_hash_update [simp]: "pat_hash (w\<lparr>tick := n\<rparr>) = pat_hash w" "pat_hash (w\<lparr>store := s\<rparr>) = pat_hash w"
  by (simp_all add: pat_hash_def HashToken_def fun_eq_iff)

lemma plain_names: "plain_name ''seed''" "plain_name ''race''" "plain_name ''mine''" "plain_name ''over''" "plain_name ''theirs''"
  "plain_name ''free''" "plain_name ''fresh''"
  by (simp_all add: plain_name_def TrimSpace_ascii ascii_def sp_def unicode_IsSpace_def maxPATNameLength_def)

text \<open>\<open>slots w u c\<close> says that user \<open>u\<close> exists and has \<open>c\<close> tokens that never expire.\<close>

locale capped_backend = test_backend env j fresh for env :: "'st world \<Rightarrow> bool" and j :: jose and fresh :: 'st +
  fixes be :: "'st Backend" and slots :: "'st world \<Rightarrow> string \<Rightarrow> nat \<Rightarrow> bool"
  assumes room: "env w \<Longrightarrow> plain_name name \<Longrightarrow> slots w u c \<Longrightarrow> limit \<le> 0 \<or> int c < limit \<Longrightarrow>
      \<exists>s. cap_save (be_patStore be) limit u name w = (Inr (fresh_pat w u name), s) \<and>
        (\<forall>v n. slots w v n \<longrightarrow> slots (w\<lparr>tick := tick w + 4, store := s\<rparr>) v (if v = u then Suc n else n))"
    and full: "env w \<Longrightarrow> plain_name name \<Longrightarrow> slots w u c \<Longrightarrow> 0 < limit \<Longrightarrow> limit \<le> int c \<Longrightarrow>
      \<exists>e s. cap_save (be_patStore be) limit u name w = (Inl e, s) \<and> errors_Is e Store_ErrPATLimitReached \<and>
        (\<forall>v n. slots w v n \<longrightarrow> slots (w\<lparr>tick := tick w + 4, store := s\<rparr>) v n)"
    and user: "env w \<Longrightarrow> \<exists>w'. createUser (be_userStore be) (w\<lparr>store := fresh\<rparr>) = Some (uuid_NewString w (tick w), w') \<and>
      same_env w w' \<and> tick w' = tick w + 2 \<and> slots w' (uuid_NewString w (tick w)) 0"
    and another: "env w \<Longrightarrow> createUser (be_userStore be) (w\<lparr>store := fresh\<rparr>) = Some (u, w1) \<Longrightarrow>
      \<exists>v w2. createUser (be_userStore be) w1 = Some (v, w2) \<and> u \<noteq> v \<and> same_env w w2 \<and> slots w2 u 0 \<and> slots w2 v 0"
    and list: "env w \<Longrightarrow> slots w u c \<Longrightarrow> \<exists>l. ListPATs (be_patStore be) u (store w) = Inr l \<and> length l = c"
begin

lemma Create_room:
  assumes "env w" "caps svc (be_patStore be) limit" "plain_name name" "slots w u c" "limit \<le> 0 \<or> int c < limit"
  obtains r w' where "Service_CreatePAT svc u name [] None w = (Inr r, w')" "same_env w w'"
    "\<forall>v n. slots w v n \<longrightarrow> slots w' v (if v = u then Suc n else n)"
proof -
  obtain s where s: "cap_save (be_patStore be) limit u name w = (Inr (fresh_pat w u name), s)"
    "\<forall>v n. slots w v n \<longrightarrow> slots (w\<lparr>tick := tick w + 4, store := s\<rparr>) v (if v = u then Suc n else n)"
    using room [OF assms(1,3-5)] by blast
  show ?thesis by (rule that [OF _ _ s(2)]) (simp_all add: Create_call [OF env_test [OF assms(1)] assms(2,3)] s(1))
qed

lemma Create_full:
  assumes "env w" "caps svc (be_patStore be) limit" "plain_name name" "slots w u c" "0 < limit" "limit \<le> int c"
  obtains w' where "Service_CreatePAT svc u name [] None w = (Inl (Sentinel ErrPATLimitReached), w')" "same_env w w'"
    "\<forall>v n. slots w v n \<longrightarrow> slots w' v n"
proof -
  obtain e s where s: "cap_save (be_patStore be) limit u name w = (Inl e, s)" "errors_Is e Store_ErrPATLimitReached"
    "\<forall>v n. slots w v n \<longrightarrow> slots (w\<lparr>tick := tick w + 4, store := s\<rparr>) v n"
    using full [OF assms(1,3-6)] by blast
  show ?thesis by (rule that [OF _ _ s(3)]) (simp_all add: Create_call [OF env_test [OF assms(1)] assms(2,3)] s(1,2))
qed

lemma creates_room:
  assumes "env w" "caps svc (be_patStore be) limit" "plain_name name" "slots w u c" "limit \<le> 0 \<or> int (c + n) \<le> limit"
  shows "\<exists>w'. creates svc u name n w = (replicate n None, w') \<and> same_env w w' \<and> slots w' u (c + n) \<and>
    (\<forall>v k. v \<noteq> u \<longrightarrow> slots w v k \<longrightarrow> slots w' v k)"
  using assms(1,4,5)
proof (induction n arbitrary: w c)
  case (Suc n)
  have "limit \<le> 0 \<or> int c < limit" using Suc.prems(3) by auto
  then obtain r w1 where 1: "Service_CreatePAT svc u name [] None w = (Inr r, w1)" "same_env w w1"
    "\<forall>v k. slots w v k \<longrightarrow> slots w1 v (if v = u then Suc k else k)"
    by (rule Create_room [OF Suc.prems(1) assms(2,3) Suc.prems(2)])
  have "slots w1 u (Suc c)" using 1(3) [rule_format, OF Suc.prems(2)] by simp
  moreover have "limit \<le> 0 \<or> int (Suc c + n) \<le> limit" using Suc.prems(3) by auto
  ultimately obtain w' where
    "creates svc u name n w1 = (replicate n None, w')" "same_env w1 w'" "slots w' u (Suc c + n)"
    "\<forall>v k. v \<noteq> u \<longrightarrow> slots w1 v k \<longrightarrow> slots w' v k"
    using Suc.IH [OF env_same [OF 1(2) Suc.prems(1)]] by blast
  moreover have "slots w1 v k" if "v \<noteq> u" "slots w v k" for v k using 1(3) [rule_format, OF that(2)] that(1) by simp
  ultimately show ?case using 1(1,2) same_env_trans by auto
qed simp

lemma creates_full:
  assumes "env w" "caps svc (be_patStore be) limit" "plain_name name" "slots w u c" "0 < limit" "limit \<le> int c"
  shows "\<exists>w'. creates svc u name n w = (replicate n (Some (Sentinel ErrPATLimitReached)), w') \<and> same_env w w' \<and> slots w' u c"
  using assms(1,4)
proof (induction n arbitrary: w)
  case (Suc n)
  obtain w1 where 1: "Service_CreatePAT svc u name [] None w = (Inl (Sentinel ErrPATLimitReached), w1)" "same_env w w1" "slots w1 u c"
    by (rule Create_full [OF Suc.prems(1) assms(2,3) Suc.prems(2) assms(5,6)]) (use Suc.prems(2) in blast)
  from Suc.IH [OF env_same [OF 1(2) Suc.prems(1)] 1(3)] show ?case using 1(1,2) same_env_trans by auto
qed simp

text \<open>The service of a test and its first user.\<close>

lemma limit_setup:
  assumes "env w" "limit \<noteq> 0"
  obtains svc w1 where "limit_service j be limit (w\<lparr>store := fresh\<rparr>) = Some (svc, w\<lparr>store := fresh, tick := Suc (tick w)\<rparr>)"
    "caps svc (be_patStore be) limit"
    "createUser (be_userStore be) (w\<lparr>store := fresh, tick := Suc (tick w)\<rparr>) = Some (uuid_NewString w (Suc (tick w)), w1)"
    "same_env w w1" "env w1" "slots w1 (uuid_NewString w (Suc (tick w))) 0"
proof -
  obtain svc where svc: "limit_service j be limit (w\<lparr>store := fresh\<rparr>) = Some (svc, w\<lparr>store := fresh, tick := Suc (tick w)\<rparr>)"
    "caps svc (be_patStore be) limit" by (rule limit_service_ok [OF env_test [OF assms(1)] assms(2)])
  have "env (w\<lparr>tick := Suc (tick w)\<rparr>)" using assms(1) env_update by simp
  from user [OF this] show ?thesis using svc that [of svc] env_same [OF _ assms(1)] by (auto simp: tick_store)
qed

lemma Limit_parallel_pass:
  assumes "env w"
  shows "passes (Limit_parallel j be) (w\<lparr>store := fresh\<rparr>)"
proof (rule limit_setup [OF assms, of 5])
  fix svc w1
  let ?u = "uuid_NewString w (Suc (tick w))"
  assume 1: "limit_service j be 5 (w\<lparr>store := fresh\<rparr>) = Some (svc, w\<lparr>store := fresh, tick := Suc (tick w)\<rparr>)"
    "caps svc (be_patStore be) 5" "createUser (be_userStore be) (w\<lparr>store := fresh, tick := Suc (tick w)\<rparr>) = Some (?u, w1)"
    "same_env w w1" "env w1" "slots w1 ?u 0"
  obtain w2 where 2: "creates svc ?u ''seed'' 4 w1 = (replicate 4 None, w2)" "same_env w1 w2" "slots w2 ?u 4"
    using creates_room [OF 1(5,2) plain_names(1) 1(6), of 4] by auto
  have e2: "env w2" using env_same [OF 2(2) 1(5)] .
  obtain r w3 where 3: "Service_CreatePAT svc ?u ''race'' [] None w2 = (Inr r, w3)" "same_env w2 w3" "slots w3 ?u 5"
    by (rule Create_room [OF e2 1(2) plain_names(2) 2(3)]) (use 2(3) in force)+
  obtain w4 where 4: "creates svc ?u ''race'' 19 w3 = (replicate 19 (Some (Sentinel ErrPATLimitReached)), w4)" "same_env w3 w4" "slots w4 ?u 5"
    using creates_full [OF env_same [OF 3(2) e2] 1(2) plain_names(2) 3(3), of 19] by auto
  have r: "creates svc ?u ''race'' 20 w2 = (None # replicate 19 (Some (Sentinel ErrPATLimitReached)), w4)"
    using 3(1) 4(1) creates.simps(2) [of svc ?u "''race''" 19 w2] by simp
  have s: "same_env w w4" using same_env_trans [OF 1(4) same_env_trans [OF 2(2) same_env_trans [OF 3(2) 4(2)]]] .
  obtain l where "ListPATs (be_patStore be) ?u (store w4) = Inr l" "length l = 5" using list [OF env_same [OF s assms] 4(3)] by blast
  then show ?thesis using 1 2(1) r s by (auto simp: passes_def Limit_parallel_def expect_def NoError_def reads_def list_all_iff)
qed simp

lemma Limit_unlimited_pass:
  assumes "env w"
  shows "passes (Limit_unlimited j be) (w\<lparr>store := fresh\<rparr>)"
proof (rule limit_setup [OF assms, of "-1"])
  fix svc w1
  let ?u = "uuid_NewString w (Suc (tick w))"
  assume 1: "limit_service j be (-1) (w\<lparr>store := fresh\<rparr>) = Some (svc, w\<lparr>store := fresh, tick := Suc (tick w)\<rparr>)"
    "caps svc (be_patStore be) (-1)" "createUser (be_userStore be) (w\<lparr>store := fresh, tick := Suc (tick w)\<rparr>) = Some (?u, w1)"
    "same_env w w1" "env w1" "slots w1 ?u 0"
  obtain w2 where "creates svc ?u ''free'' 7 w1 = (replicate 7 None, w2)" "same_env w1 w2"
    using creates_room [OF 1(5,2) plain_names(6) 1(6), of 7] by auto
  then show ?thesis using 1 same_env_trans [OF 1(4)] by (auto simp: passes_def Limit_unlimited_def expect_def list_all_iff)
qed simp

lemma Limit_per_user_pass:
  assumes "env w"
  shows "passes (Limit_per_user j be) (w\<lparr>store := fresh\<rparr>)"
proof (rule limit_setup [OF assms, of 5])
  fix svc w1
  let ?u = "uuid_NewString w (Suc (tick w))"
  assume 1: "limit_service j be 5 (w\<lparr>store := fresh\<rparr>) = Some (svc, w\<lparr>store := fresh, tick := Suc (tick w)\<rparr>)"
    "caps svc (be_patStore be) 5" "createUser (be_userStore be) (w\<lparr>store := fresh, tick := Suc (tick w)\<rparr>) = Some (?u, w1)"
    "same_env w w1" "env w1" "slots w1 ?u 0"
  obtain v w2 where 2: "createUser (be_userStore be) w1 = Some (v, w2)" "?u \<noteq> v" "same_env w w2" "slots w2 ?u 0" "slots w2 v 0"
    using another [of "w\<lparr>tick := Suc (tick w)\<rparr>" ?u w1] assms 1(3) env_update by (auto simp: tick_store)
  have e2: "env w2" using env_same [OF 2(3) assms] .
  obtain w3 where 3: "creates svc ?u ''mine'' 5 w2 = (replicate 5 None, w3)" "same_env w2 w3" "slots w3 ?u 5" "slots w3 v 0"
    using creates_room [OF e2 1(2) plain_names(3) 2(4), of 5] 2(2,5) by auto
  have e3: "env w3" using env_same [OF 3(2) e2] .
  obtain w4 where 4: "Service_CreatePAT svc ?u ''over'' [] None w3 = (Inl (Sentinel ErrPATLimitReached), w4)" "same_env w3 w4" "slots w4 v 0"
    by (rule Create_full [OF e3 1(2) plain_names(4) 3(3)]) (use 3(4) in auto)
  obtain r w5 where 5: "Service_CreatePAT svc v ''theirs'' [] None w4 = (Inr r, w5)" "same_env w4 w5"
    by (rule Create_room [OF env_same [OF 4(2) e3] 1(2) plain_names(5) 4(3)]) auto
  have "same_env w w5" using same_env_trans [OF 2(3) same_env_trans [OF 3(2) same_env_trans [OF 4(2) 5(2)]]] .
  then show ?thesis using 1 2(1) 3(1) 4(1) 5(1)
    by (auto simp: passes_def Limit_per_user_def expect_def list_all_iff NoError_def ErrorIs_def)
qed simp

end

end
