(* ===== verification/Storetest_Memory.thy ===== *)
theory Storetest_Memory
  imports Storetest_Env Memory_Properties
begin

text \<open>
  The in-memory backend passes the contracts of \<^verbatim>\<open>store/storetest\<close>, whatever the clock shows and
  whatever ids and entropy are drawn, as long as ids do not repeat and a test takes less than a minute. The
  scenarios are run symbolically: a lemma per subtest, over all worlds.
\<close>

declare map_of_eq_Some_iff [simp del]
declare Some_eq_map_of_iff [simp del]

interpretation mem_tb: test_backend "test_env j" j Memory_New for j
  by unfold_locales (auto intro: test_env_same)

section \<open>Users, credentials and challenges\<close>

lemma Users_pass:
  assumes "test_env j w"
  shows "passes (Users_round_trip memUserStore) (w\<lparr>store := Memory_New\<rparr>)"
    "passes (Users_without_roles memUserStore) (w\<lparr>store := Memory_New\<rparr>)"
    "passes (Users_not_found memUserStore) (w\<lparr>store := Memory_New\<rparr>)"
    "passes (Users_delete memUserStore) (w\<lparr>store := Memory_New\<rparr>)"
    "passes (Users_duplicate_id memUserStore) (w\<lparr>store := Memory_New\<rparr>)"
    "passes (Users_mutations memUserStore) (w\<lparr>store := Memory_New\<rparr>)"
    "passes (Users_duplicate_email memUserStore) (w\<lparr>store := Memory_New\<rparr>)"
    "passes (Users_no_email memUserStore) (w\<lparr>store := Memory_New\<rparr>)"
    "passes (Users_empty_email memUserStore) (w\<lparr>store := Memory_New\<rparr>)"
  unfolding passes_def Users_round_trip_def Users_without_roles_def Users_not_found_def Users_delete_def Users_duplicate_id_def
    Users_mutations_def Users_duplicate_email_def Users_no_email_def Users_empty_email_def
  by (simp_all add: test_defs newUser_def Memory_New_def Memory_Create_def Memory_GetByID_def Memory_GetByEmail_def Memory_Delete_def
      test_envD [OF assms])

lemma Credentials_pass:
  assumes "test_env j w"
  shows "passes (Credentials_replace memUserStore memCredentialStore) (w\<lparr>store := Memory_New\<rparr>)"
    "passes (Credentials_not_found memUserStore memCredentialStore) (w\<lparr>store := Memory_New\<rparr>)"
  unfolding passes_def Credentials_replace_def Credentials_not_found_def
  by (simp_all add: test_defs Memory_New_def Memory_Create_def Memory_SavePasswordHash_def Memory_requireUser_def
      Memory_GetPasswordHash_def test_envD [OF assms])

lemma Challenges_roundTrip_pass:
  assumes "test_env j w" "time_IsZero (Ch_CreatedAt c)"
  shows "passes (Challenges_roundTrip memChallengeStore c) (w\<lparr>store := Memory_New\<rparr>)"
proof -
  have "\<not> wall w (tick w) + minute < wall w (Suc (Suc (tick w)))"
    using test_envD(4) [OF assms(1), of "Suc (Suc (tick w))" "tick w"] by simp
  then show ?thesis using assms(2) unfolding passes_def Challenges_roundTrip_def
    by (simp add: test_defs Memory_New_def Memory_SaveChallenge_def Memory_GetChallenge_def test_envD [OF assms(1)])
qed

lemma Challenges_pass:
  assumes "test_env j w"
  shows "passes (Challenges_wallet memChallengeStore) (w\<lparr>store := Memory_New\<rparr>)"
    "passes (Challenges_oauth memChallengeStore) (w\<lparr>store := Memory_New\<rparr>)"
    "passes (Challenges_single_use memChallengeStore) (w\<lparr>store := Memory_New\<rparr>)"
    "passes (Challenges_expired memChallengeStore) (w\<lparr>store := Memory_New\<rparr>)"
proof -
  show "passes (Challenges_wallet memChallengeStore) (w\<lparr>store := Memory_New\<rparr>)"
    "passes (Challenges_oauth memChallengeStore) (w\<lparr>store := Memory_New\<rparr>)"
    unfolding Challenges_wallet_def Challenges_oauth_def
    by (rule Challenges_roundTrip_pass [OF assms], simp add: zero_defs time_IsZero_def)+
  show "passes (Challenges_single_use memChallengeStore) (w\<lparr>store := Memory_New\<rparr>)"
    unfolding passes_def Challenges_single_use_def
    by (simp add: test_defs Memory_New_def Memory_SaveChallenge_def Memory_GetChallenge_def Memory_DeleteChallenge_def)
  have "wall w (tick w) - second < wall w (Suc (Suc (tick w)))"
    using test_envD(5) [OF assms, of "tick w" "Suc (Suc (tick w))"] by simp
  then show "passes (Challenges_expired memChallengeStore) (w\<lparr>store := Memory_New\<rparr>)"
    unfolding passes_def Challenges_expired_def
    by (simp add: test_defs Memory_New_def Memory_SaveChallenge_def Memory_GetChallenge_def)
qed

section \<open>Refresh tokens\<close>

lemmas token_defs = test_defs refresh_save_def user_store_def Memory_New_def Memory_Create_def Memory_requireUser_def
  Memory_SaveRefreshToken_def Memory_GetRefreshToken_def Memory_RotateRefreshToken_def Memory_RevokeTokens_def
  Memory_GetRefreshFamily_def Memory_familyStep_def map_values_def map_each_def

lemma Refresh_pass:
  assumes "0 < now"
  shows "passes (Refresh_rotates_once memTokenStore (user_store u memUserStore) now) (w\<lparr>store := Memory_New\<rparr>)"
    "passes (Refresh_not_found memTokenStore (user_store u memUserStore) now) (w\<lparr>store := Memory_New\<rparr>)"
    "passes (Refresh_expired memTokenStore (user_store u memUserStore) now) (w\<lparr>store := Memory_New\<rparr>)"
    "passes (Refresh_revoked_by_logout memTokenStore (user_store u memUserStore) now) (w\<lparr>store := Memory_New\<rparr>)"
    "passes (Refresh_ended_refuses memTokenStore (user_store u memUserStore) now) (w\<lparr>store := Memory_New\<rparr>)"
    "passes (Refresh_one_winner memTokenStore (user_store u memUserStore) now) (w\<lparr>store := Memory_New\<rparr>)"
    "passes (Refresh_no_root memTokenStore (user_store u memUserStore) now) (w\<lparr>store := Memory_New\<rparr>)"
    "passes (Refresh_unknown_family memTokenStore (user_store u memUserStore) now) (w\<lparr>store := Memory_New\<rparr>)"
  using assms unfolding passes_def Refresh_rotates_once_def Refresh_not_found_def Refresh_expired_def Refresh_revoked_by_logout_def
    Refresh_ended_refuses_def Refresh_one_winner_def Refresh_no_root_def Refresh_unknown_family_def
  by (simp_all add: token_defs eval_nat_numeral)

lemma Refresh_family_pass:
  "0 < now \<Longrightarrow> passes (Refresh_family_summary memTokenStore (user_store u memUserStore) now) (w\<lparr>store := Memory_New\<rparr>)"
  unfolding passes_def Refresh_family_summary_def by (simp add: token_defs)

section \<open>Personal access tokens\<close>

lemmas pat_defs = test_defs newPAT_def limited_save_def Memory_New_def Memory_Create_def Memory_requireUser_def Memory_SavePAT_def
  Memory_savePATLocked_def Memory_SavePATLimited_def Memory_GetPAT_def Memory_ListPATs_def Memory_DeletePAT_def Memory_TouchPAT_def
  patExpired_def newestFirst_def map_values_def maps_DeleteFunc_def

lemma PATs_pass:
  assumes "test_env j w" "hour < now"
  shows "passes (PATs_round_trip memUserStore memPATStore now) (w\<lparr>store := Memory_New\<rparr>)"
    "passes (PATs_plain memUserStore memPATStore now) (w\<lparr>store := Memory_New\<rparr>)"
    "passes (PATs_touch memUserStore memPATStore now) (w\<lparr>store := Memory_New\<rparr>)"
    "passes (PATs_duplicate_hash memUserStore memPATStore now) (w\<lparr>store := Memory_New\<rparr>)"
    "passes (PATs_not_found memUserStore memPATStore now) (w\<lparr>store := Memory_New\<rparr>)"
    "passes (PATs_delete memUserStore memPATStore now) (w\<lparr>store := Memory_New\<rparr>)"
    "passes (PATs_limit_rules memUserStore memPATStore now) (w\<lparr>store := Memory_New\<rparr>)"
  using assms(2) unfolding passes_def PATs_round_trip_def PATs_plain_def PATs_touch_def PATs_duplicate_hash_def PATs_not_found_def
    PATs_delete_def PATs_limit_rules_def
  by (simp_all add: pat_defs test_envD(1,2) [OF assms(1)])

lemma PATs_list_pass:
  assumes "test_env j w" "hour < now"
  shows "passes (PATs_list memUserStore memPATStore now) (w\<lparr>store := Memory_New\<rparr>)"
  using assms(2) unfolding passes_def PATs_list_def
  by (simp add: pat_defs test_envD(1,2) [OF assms(1)])

lemma PATs_limit_pass:
  assumes "test_env j w" "hour < now"
  shows "passes (PATs_limit_unexpired memUserStore memPATStore now) (w\<lparr>store := Memory_New\<rparr>)"
    "passes (PATs_limit_strict (\<lambda>l. l) memUserStore memPATStore now) (w\<lparr>store := Memory_New\<rparr>)"
    "passes (PATs_limit_strict rev memUserStore memPATStore now) (w\<lparr>store := Memory_New\<rparr>)"
  using assms(2) unfolding passes_def PATs_limit_unexpired_def PATs_limit_strict_def
  by (simp_all add: pat_defs test_envD(1,2) [OF assms(1)])

section \<open>Identities and ownership\<close>

lemmas identity_defs = test_defs newOAuthIdentity_def newWalletIdentity_def Memory_New_def Memory_Create_def Memory_requireUser_def
  Memory_Delete_def Memory_SaveOAuthIdentity_def Memory_GetOAuthIdentity_def Memory_ListOAuthIdentities_def
  Memory_SaveWalletIdentity_def Memory_GetWalletIdentity_def Memory_ListWalletIdentities_def newestFirst_def map_values_def
  maps_DeleteFunc_def ProviderTypeGoogle_def ProviderTypeGitHub_def ethAddress_def

lemma OAuth_pass:
  assumes "test_env j w"
  shows "passes (OAuth_round_trip memUserStore memOAuthIdentityStore) (w\<lparr>store := Memory_New\<rparr>)"
    "passes (OAuth_created memUserStore memOAuthIdentityStore) (w\<lparr>store := Memory_New\<rparr>)"
    "passes (OAuth_taken memUserStore memOAuthIdentityStore) (w\<lparr>store := Memory_New\<rparr>)"
    "passes (OAuth_per_provider memUserStore memOAuthIdentityStore) (w\<lparr>store := Memory_New\<rparr>)"
  unfolding passes_def OAuth_round_trip_def OAuth_created_def OAuth_taken_def OAuth_per_provider_def
  by (simp_all add: identity_defs supplied_nonzero test_envD(1,2) [OF assms])

lemma Wallet_pass:
  assumes "test_env j w"
  shows "passes (Wallet_round_trip memUserStore memWalletIdentityStore) (w\<lparr>store := Memory_New\<rparr>)"
    "passes (Wallet_created memUserStore memWalletIdentityStore) (w\<lparr>store := Memory_New\<rparr>)"
    "passes (Wallet_taken memUserStore memWalletIdentityStore) (w\<lparr>store := Memory_New\<rparr>)"
    "passes (Wallet_exact memUserStore memWalletIdentityStore) (w\<lparr>store := Memory_New\<rparr>)"
    "passes (Wallet_freed memUserStore memWalletIdentityStore) (w\<lparr>store := Memory_New\<rparr>)"
  unfolding passes_def Wallet_round_trip_def Wallet_created_def Wallet_taken_def Wallet_exact_def Wallet_freed_def
  by (simp_all add: identity_defs supplied_nonzero test_envD(1,2) [OF assms])

lemma list_from_pass:
  assumes "test_env j w" "0 < base" "a \<noteq> b" "map_of (mem_users (store w)) a \<noteq> None" "map_of (mem_users (store w)) b \<noteq> None"
    "mem_oauthIdentities (store w) = []" "mem_walletIdentities (store w) = []" "\<And>i. tick w \<le> i \<Longrightarrow> uuid_NewString w i \<noteq> a \<and> uuid_NewString w i \<noteq> b"
  shows "passes (OAuth_list_from memOAuthIdentityStore a b base) w"
    "passes (Wallet_list_from memWalletIdentityStore a b base) w"
proof -
  have "\<And>i. tick w \<le> i \<Longrightarrow> a \<noteq> uuid_NewString w i \<and> b \<noteq> uuid_NewString w i" using assms(8) by metis
  then show "passes (OAuth_list_from memOAuthIdentityStore a b base) w"
    "passes (Wallet_list_from memWalletIdentityStore a b base) w"
    unfolding passes_def OAuth_list_from_def Wallet_list_from_def
    using assms(2-8) by (auto simp: identity_defs test_envD(1,2) [OF assms(1)])
qed

text \<open>Creating two users on an empty store.\<close>

lemma two_users:
  assumes "test_env j w"
  obtains s where
    "createUser memUserStore (w\<lparr>store := Memory_New\<rparr>) \<bind> (\<lambda>(u, w). createUser memUserStore w \<bind> (\<lambda>(v, w). Some (u, v, w))) =
       Some (uuid_NewString w (tick w), uuid_NewString w (Suc (Suc (tick w))), w\<lparr>store := s, tick := tick w + 4\<rparr>)"
    "map_of (mem_users s) (uuid_NewString w (tick w)) \<noteq> None" "map_of (mem_users s) (uuid_NewString w (Suc (Suc (tick w)))) \<noteq> None"
    "mem_oauthIdentities s = []" "mem_walletIdentities s = []"
  by (rule that [of "mem_users_update (\<lambda>_. [(uuid_NewString w (tick w), zero_User\<lparr>User_ID := uuid_NewString w (tick w),
        User_CreatedAt := wall w (Suc (tick w)), User_UpdatedAt := wall w (Suc (tick w))\<rparr>),
       (uuid_NewString w (Suc (Suc (tick w))), zero_User\<lparr>User_ID := uuid_NewString w (Suc (Suc (tick w))),
        User_CreatedAt := wall w (Suc (Suc (Suc (tick w)))), User_UpdatedAt := wall w (Suc (Suc (Suc (tick w))))\<rparr>)]) Memory_New"])
    (simp_all add: identity_defs test_envD(1,2) [OF assms])

lemma list_pass:
  assumes "test_env j w"
  shows "passes (OAuth_list memUserStore memOAuthIdentityStore) (w\<lparr>store := Memory_New\<rparr>)"
    "passes (Wallet_list memUserStore memWalletIdentityStore) (w\<lparr>store := Memory_New\<rparr>)"
proof -
  obtain s where s: "createUser memUserStore (w\<lparr>store := Memory_New\<rparr>) \<bind> (\<lambda>(u, w). createUser memUserStore w \<bind> (\<lambda>(v, w). Some (u, v, w))) =
       Some (uuid_NewString w (tick w), uuid_NewString w (Suc (Suc (tick w))), w\<lparr>store := s, tick := tick w + 4\<rparr>)"
    "map_of (mem_users s) (uuid_NewString w (tick w)) \<noteq> None" "map_of (mem_users s) (uuid_NewString w (Suc (Suc (tick w)))) \<noteq> None"
    "mem_oauthIdentities s = []" "mem_walletIdentities s = []" by (rule two_users [OF assms])
  let ?w = "w\<lparr>store := s, tick := Suc (tick w + 4)\<rparr>" and ?base = "time_Truncate (wall w (tick w + 4) - hour) second"
  have base: "0 < ?base" using test_envD(3) [OF assms, of "tick w + 4"] by (intro time_Truncate_pos) simp_all
  have e: "test_env j ?w" "uuid_NewString w (tick w) \<noteq> uuid_NewString w (Suc (Suc (tick w)))"
    "\<And>i. tick ?w \<le> i \<Longrightarrow> uuid_NewString ?w i \<noteq> uuid_NewString w (tick w) \<and> uuid_NewString ?w i \<noteq> uuid_NewString w (Suc (Suc (tick w)))"
    using assms by (auto simp: test_envD(1) [OF assms])
  have "map_of (mem_users (store ?w)) (uuid_NewString w (tick w)) \<noteq> None" "map_of (mem_users (store ?w)) (uuid_NewString w (Suc (Suc (tick w)))) \<noteq> None"
    "mem_oauthIdentities (store ?w) = []" "mem_walletIdentities (store ?w) = []" using s(2-5) by simp_all
  note list = list_from_pass [OF e(1) base e(2) this e(3)]
  obtain w1 where w1: "createUser memUserStore (w\<lparr>store := Memory_New\<rparr>) = Some (uuid_NewString w (tick w), w1)"
    "createUser memUserStore w1 = Some (uuid_NewString w (Suc (Suc (tick w))), w\<lparr>store := s, tick := tick w + 4\<rparr>)"
    using s(1) by (auto simp: bind_eq_Some_conv)
  show "passes (OAuth_list memUserStore memOAuthIdentityStore) (w\<lparr>store := Memory_New\<rparr>)"
    "passes (Wallet_list memUserStore memWalletIdentityStore) (w\<lparr>store := Memory_New\<rparr>)"
    using list w1 by (simp_all add: passes_def OAuth_list_def Wallet_list_def time_Now_def Let_def)
qed

lemmas owner_defs = identity_defs seed_def memBackend_def Memory_SavePasswordHash_def Memory_GetPasswordHash_def Memory_SaveRefreshToken_def
  Memory_GetRefreshToken_def Memory_SavePAT_def Memory_savePATLocked_def Memory_GetPAT_def Memory_ListPATs_def forget_def

lemma Ownership_pass:
  assumes "test_env j w"
  shows "passes (Ownership_freed memBackend now) (w\<lparr>store := Memory_New\<rparr>)"
    "passes (Ownership_delete memBackend now) (w\<lparr>store := Memory_New\<rparr>)"
  unfolding passes_def Ownership_freed_def Ownership_delete_def
  by (simp_all add: owner_defs test_envD(1,2) [OF assms])

lemma Ownership_writes_pass:
  assumes "test_env j w" "write \<in> set (ownership_writes now)"
  shows "passes (Ownership_missing write memBackend) (w\<lparr>store := Memory_New\<rparr>)"
    "passes (Ownership_deleted write memBackend) (w\<lparr>store := Memory_New\<rparr>)"
  using assms(2) unfolding passes_def Ownership_missing_def Ownership_deleted_def ownership_writes_def
  by (auto simp: owner_defs test_envD(1,2) [OF assms(1)])

section \<open>The cap through the service\<close>

text \<open>User \<open>u\<close> exists and has \<open>c\<close> tokens that never expire; every stored token is filed under the hash of an
  earlier draw.\<close>

definition slots :: "Store world \<Rightarrow> string \<Rightarrow> nat \<Rightarrow> bool" where
  "slots w u c \<longleftrightarrow> map_of (mem_users (store w)) u \<noteq> None \<and>
    length (filter (\<lambda>p. PAT_UserID p = u) (map_values (mem_pats (store w)))) = c \<and>
    (\<forall>p\<in>set (map_values (mem_pats (store w))). PAT_ExpiresAt p = None) \<and>
    (\<forall>h\<in>set (map fst (mem_pats (store w))). \<exists>i<tick w. h = pat_hash w i)"

lemma DeleteFunc_none: "\<forall>p\<in>set (map_values m). \<not> f p \<Longrightarrow> maps_DeleteFunc f m = m"
  by (induction m) (auto simp: maps_DeleteFunc_def map_values_def)

lemma pat_hash_fresh:
  assumes "test_env j w" "slots w u c"
  shows "map_of (mem_pats (store w)) (pat_hash w (tick w + 1)) = None"
proof -
  have "inj (pat_hash w)" using assms(1) unfolding test_env_def pat_hash_def by blast
  then have "\<forall>h\<in>set (map fst (mem_pats (store w))). h \<noteq> pat_hash w (tick w + 1)"
    using assms(2) unfolding slots_def by (metis injD less_irrefl not_add_less1)
  then show ?thesis by (auto simp: map_of_eq_None_iff)
qed

lemma less_later: "\<exists>i<n. P i \<Longrightarrow> \<exists>i<n + (4::nat). P i"
  by (metis trans_less_add1)

text \<open>One more token for \<open>u\<close>, and nothing new for anyone else.\<close>

lemma slots_add:
  assumes "slots w v c" "map_of (mem_pats (store w)) (pat_hash w (tick w + 1)) = None" "PAT_ExpiresAt pat = None"
    "PAT_UserID pat = u" "s = (store w)\<lparr>mem_pats := map_set (pat_hash w (tick w + 1)) pat (mem_pats (store w))\<rparr>"
  shows "slots (w\<lparr>tick := tick w + 4, store := s\<rparr>) v (if v = u then Suc c else c)"
proof -
  have "pat_hash (w\<lparr>tick := m, store := s'\<rparr>) = pat_hash w" for m s' by (simp add: pat_hash_def HashToken_def fun_eq_iff)
  moreover have "(\<exists>i<tick w. h = pat_hash w i) \<Longrightarrow> \<exists>i<tick w + 4. h = pat_hash w i" for h by (rule less_later)
  moreover have "\<exists>i<tick w + 4. pat_hash w (Suc (tick w)) = pat_hash w i" by (rule exI [of _ "Suc (tick w)"]) simp
  ultimately show ?thesis using assms unfolding slots_def map_set_new [OF assms(2)]
    by (auto simp: map_values_def map_set_new)
qed

lemma slots_same:
  assumes "slots w v c"
  shows "slots (w\<lparr>tick := tick w + 4\<rparr>) v c"
proof -
  have "pat_hash (w\<lparr>tick := tick w + 4\<rparr>) = pat_hash w" by (simp add: pat_hash_def HashToken_def fun_eq_iff)
  moreover have "\<exists>i<tick w + 4. h = pat_hash w i" if "h \<in> set (map fst (mem_pats (store w)))" for h
    using assms that unfolding slots_def by (intro less_later) blast
  ultimately show ?thesis using assms unfolding slots_def by simp
qed

lemma live_pats:
  assumes "slots w u c"
  shows "Memory_requireUser u (store w) = None"
    "maps_DeleteFunc (\<lambda>p. PAT_UserID p = u \<and> patExpired t p) (mem_pats (store w)) = mem_pats (store w)"
    "length (filter (\<lambda>p. PAT_UserID p = u \<and> \<not> patExpired t p) (map_values (mem_pats (store w)))) = c"
  using assms by (auto simp: slots_def Memory_requireUser_def patExpired_def intro!: DeleteFunc_none arg_cong [where f = length] filter_cong)

lemma mem_room:
  assumes "test_env j w" "slots w u c" "limit \<le> 0 \<or> int c < limit"
  shows "\<exists>s. cap_save memPATStore limit u name w = (Inr (fresh_pat w u name), s) \<and>
    (\<forall>v n. slots w v n \<longrightarrow> slots (w\<lparr>tick := tick w + 4, store := s\<rparr>) v (if v = u then Suc n else n))"
proof -
  let ?pat = "fresh_pat w u name" and ?k = "pat_hash w (tick w + 1)"
  let ?s = "(store w)\<lparr>mem_pats := map_set ?k ?pat (mem_pats (store w))\<rparr>"
  note new = pat_hash_fresh [OF assms(1,2)]
  have nz: "wall w (tick w) \<noteq> 0" using test_envD(2) [OF assms(1)] .
  have "cap_save memPATStore limit u name w = (Inr ?pat, ?s)"
    using assms(3) new live_pats [OF assms(2)] nz
    by (auto simp: cap_save_def Memory_SavePATLimited_def Memory_SavePAT_def Memory_savePATLocked_def fresh_pat_def time_IsZero_def Let_def)
  moreover have "slots (w\<lparr>tick := tick w + 4, store := ?s\<rparr>) v (if v = u then Suc n else n)" if "slots w v n" for v n
    by (rule slots_add [OF that new]) (simp_all add: fresh_pat_def)
  ultimately show ?thesis by blast
qed

lemma mem_user:
  assumes "test_env j w"
  obtains w1 w2 where
    "createUser memUserStore (w\<lparr>store := Memory_New\<rparr>) = Some (uuid_NewString w (tick w), w1)" "same_env w w1" "tick w1 = tick w + 2"
    "slots w1 (uuid_NewString w (tick w)) 0" "mem_pats (store w1) = []"
    "createUser memUserStore w1 = Some (uuid_NewString w (tick w + 2), w2)" "same_env w w2"
    "slots w2 (uuid_NewString w (tick w)) 0" "slots w2 (uuid_NewString w (tick w + 2)) 0"
proof -
  let ?w1 = "snd (the (createUser memUserStore (w\<lparr>store := Memory_New\<rparr>)))"
  show ?thesis
    by (rule that [of ?w1 "snd (the (createUser memUserStore ?w1))"])
      (simp_all add: test_defs Memory_New_def Memory_Create_def slots_def map_values_def test_envD(1,2) [OF assms(1)])
qed

interpretation mem_cap: capped_backend "test_env j" j Memory_New memBackend slots for j
proof unfold_locales
  fix w :: "Store world" and name u c limit
  assume e: "test_env j w" and sl: "slots w u c"
  show "\<exists>l. ListPATs (be_patStore memBackend) u (store w) = Inr l \<and> length l = c"
    using sl by (simp add: memBackend_def Memory_ListPATs_def newestFirst_def slots_def)
  show "\<exists>s. cap_save (be_patStore memBackend) limit u name w = (Inr (fresh_pat w u name), s) \<and>
      (\<forall>v n. slots w v n \<longrightarrow> slots (w\<lparr>tick := tick w + 4, store := s\<rparr>) v (if v = u then Suc n else n))"
    if "limit \<le> 0 \<or> int c < limit" using mem_room [OF e sl that] by (simp add: memBackend_def del: mem_tables)
  show "\<exists>e s. cap_save (be_patStore memBackend) limit u name w = (Inl e, s) \<and> errors_Is e Store_ErrPATLimitReached \<and>
      (\<forall>v n. slots w v n \<longrightarrow> slots (w\<lparr>tick := tick w + 4, store := s\<rparr>) v n)" if "0 < limit" "limit \<le> int c"
    using that live_pats [OF sl] slots_same by (auto simp: memBackend_def cap_save_def Memory_SavePATLimited_def fresh_pat_def)
next
  fix w :: "Store world" and u w1
  assume e: "test_env j w"
  obtain x y where x: "createUser memUserStore (w\<lparr>store := Memory_New\<rparr>) = Some (uuid_NewString w (tick w), x)" "same_env w x" "tick x = tick w + 2"
    "slots x (uuid_NewString w (tick w)) 0" "createUser memUserStore x = Some (uuid_NewString w (tick w + 2), y)" "same_env w y"
    "slots y (uuid_NewString w (tick w)) 0" "slots y (uuid_NewString w (tick w + 2)) 0" by (rule mem_user [OF e])
  show "\<exists>w'. createUser (be_userStore memBackend) (w\<lparr>store := Memory_New\<rparr>) = Some (uuid_NewString w (tick w), w') \<and>
      same_env w w' \<and> tick w' = tick w + 2 \<and> slots w' (uuid_NewString w (tick w)) 0"
    using x by (simp add: memBackend_def del: mem_tables)
  show "\<exists>v w2. createUser (be_userStore memBackend) w1 = Some (v, w2) \<and> u \<noteq> v \<and> same_env w w2 \<and> slots w2 u 0 \<and> slots w2 v 0"
    if "createUser (be_userStore memBackend) (w\<lparr>store := Memory_New\<rparr>) = Some (u, w1)"
    using x that test_envD(1) [OF e, of "tick w" "tick w + 2"] by (auto simp: memBackend_def simp del: mem_tables)
qed

lemma saveOld_ok:
  assumes "test_env j w" "map_of (mem_users (store w)) u \<noteq> None"
    "\<forall>p\<in>set (map_values (mem_pats (store w))). PAT_UserID p = u \<and> PAT_ExpiresAt p = Some past"
    "\<forall>h\<in>set (map fst (mem_pats (store w))). \<exists>i<tick w. h = uuid_NewString w i"
  shows "\<exists>w'. saveOld memPATStore u past n w = Some w' \<and> same_env w w' \<and> map_of (mem_users (store w')) u \<noteq> None \<and>
    (\<forall>p\<in>set (map_values (mem_pats (store w'))). PAT_UserID p = u \<and> PAT_ExpiresAt p = Some past)"
  using assms
proof (induction n arbitrary: w)
  case (Suc n)
  let ?h = "uuid_NewString w (Suc (tick w))"
  define pat where "pat = zero_PAT\<lparr>PAT_ID := uuid_NewString w (tick w), PAT_Hash := ?h, PAT_UserID := u, PAT_Name := ''old'',
    PAT_ExpiresAt := Some past, PAT_CreatedAt := wall w (Suc (Suc (tick w)))\<rparr>"
  let ?w = "w\<lparr>tick := tick w + 3, store := (store w)\<lparr>mem_pats := map_set ?h pat (mem_pats (store w))\<rparr>\<rparr>"
  have "?h \<noteq> uuid_NewString w i" if "i < tick w" for i using that test_envD(1) [OF Suc.prems(1), of "Suc (tick w)" i] by simp
  then have new: "map_of (mem_pats (store w)) ?h = None" using Suc.prems(4) unfolding map_of_eq_None_iff by (metis list.set_map)
  have "saveOld memPATStore u past (Suc n) w = saveOld memPATStore u past n ?w"
    using Suc.prems(2) new test_envD(2) [OF Suc.prems(1)]
    by (auto simp: draw_NewString_def NoError_def call_now_def call_def time_Now_def Memory_SavePAT_def Memory_requireUser_def
        Memory_savePATLocked_def pat_def zero_PAT_def time_IsZero_def Let_def eval_nat_numeral)
  moreover have "\<forall>h\<in>set (map fst (mem_pats (store ?w))). \<exists>i<tick ?w. h = uuid_NewString ?w i"
    using Suc.prems(4) by (auto simp: map_set_new [OF new] intro: exI [of _ "Suc (tick w)"]) (metis fst_conv trans_less_add1)
  moreover have "\<forall>p\<in>set (map_values (mem_pats (store ?w))). PAT_UserID p = u \<and> PAT_ExpiresAt p = Some past"
    using Suc.prems(3) by (auto simp: map_set_new [OF new] map_values_def pat_def zero_PAT_def)
  ultimately show ?case using Suc.IH [of ?w] Suc.prems(1,2) by simp
qed (simp add: assms)

lemma DeleteFunc_all: "\<forall>p\<in>set (map_values m). f p \<Longrightarrow> maps_DeleteFunc f m = []"
  by (induction m) (auto simp: maps_DeleteFunc_def map_values_def)

lemma Limit_expired_pass:
  assumes "test_env j w"
  shows "passes (Limit_expired j memBackend) (w\<lparr>store := Memory_New\<rparr>)"
proof (rule mem_cap.limit_setup [OF assms, of 5])
  fix svc w1
  let ?u = "uuid_NewString w (Suc (tick w))"
  assume 1: "limit_service j memBackend 5 (w\<lparr>store := Memory_New\<rparr>) = Some (svc, w\<lparr>store := Memory_New, tick := Suc (tick w)\<rparr>)"
    "caps svc (be_patStore memBackend) 5" "createUser (be_userStore memBackend) (w\<lparr>store := Memory_New, tick := Suc (tick w)\<rparr>) = Some (?u, w1)"
    "same_env w w1" "test_env j w1" "slots w1 ?u 0"
  have "test_env j (w\<lparr>tick := Suc (tick w)\<rparr>)" using assms by simp
  then have none: "mem_pats (store w1) = []" by (rule mem_user) (use 1(3) in \<open>auto simp: memBackend_def tick_store simp del: mem_tables\<close>)
  let ?w2 = "w1\<lparr>tick := Suc (tick w1)\<rparr>" and ?past = "wall w1 (tick w1) - hour"
  have "test_env j ?w2" "map_of (mem_users (store ?w2)) ?u \<noteq> None"
    "\<forall>p\<in>set (map_values (mem_pats (store ?w2))). PAT_UserID p = ?u \<and> PAT_ExpiresAt p = Some ?past"
    "\<forall>h\<in>set (map fst (mem_pats (store ?w2))). \<exists>i<tick ?w2. h = uuid_NewString ?w2 i"
    using 1(5,6) none by (simp_all add: slots_def map_values_def)
  from saveOld_ok [OF this, of 5] obtain w3 where 3: "saveOld memPATStore ?u ?past 5 ?w2 = Some w3" "same_env w1 w3"
    "map_of (mem_users (store w3)) ?u \<noteq> None"
    "\<forall>p\<in>set (map_values (mem_pats (store w3))). PAT_UserID p = ?u \<and> PAT_ExpiresAt p = Some ?past" by auto
  have e3: "test_env j w3" using test_env_same [OF 3(2) 1(5)] .
  have "?past < wall w3 (tick w3)"
    using test_envD(4) [OF 1(5), of "tick w1" "tick w3"] 3(2) by (simp add: same_env_def)
  then have old: "\<forall>p\<in>set (map_values (mem_pats (store w3))). PAT_UserID p = ?u \<and> patExpired (wall w3 (tick w3)) p"
    using 3(4) by (auto simp: patExpired_def)
  then have "maps_DeleteFunc (\<lambda>p. PAT_UserID p = ?u \<and> patExpired (wall w3 (tick w3)) p) (mem_pats (store w3)) = []"
    "filter (\<lambda>p. PAT_UserID p = ?u \<and> \<not> patExpired (wall w3 (tick w3)) p) (map_values (mem_pats (store w3))) = []"
    by (auto simp: filter_empty_conv intro: DeleteFunc_all)
  then have "\<exists>r w4. Service_CreatePAT svc ?u ''fresh'' [] None w3 = (Inr r, w4) \<and> same_env w3 w4"
    unfolding Create_call [OF e3 1(2) plain_names(7)] cap_save_def using 3(3) test_envD(2) [OF e3]
    by (auto simp: memBackend_def Memory_SavePATLimited_def Memory_requireUser_def Memory_savePATLocked_def fresh_pat_def time_IsZero_def Let_def)
  then obtain r w4 where "Service_CreatePAT svc ?u ''fresh'' [] None w3 = (Inr r, w4)" "same_env w3 w4" by blast
  then show ?thesis using 1 3(1) same_env_trans [OF 1(4) same_env_trans [OF 3(2)]]
    by (auto simp: passes_def Limit_expired_def NoError_def memBackend_def time_Now_def Let_def)
qed simp

section \<open>The contracts\<close>

lemma RefreshRotation_passes:
  assumes "test_env j w"
  shows "passes (RefreshRotation memTokenStore Memory_New (user_store u memUserStore)) w"
  unfolding RefreshRotation_def
  by (rule mem_tb.truncated_passes [OF assms], simp, rule mem_tb.run_passes) (simp_all add: Refresh_pass Refresh_family_pass del: mem_tables)

lemma PATs_passes:
  assumes "test_env j w" "order \<in> {\<lambda>l. l, rev}"
  shows "passes (PATs order memUserStore memPATStore Memory_New) w"
  unfolding PATs_def
  using assms(2) by (intro mem_tb.truncated_passes [OF assms(1)], simp, intro mem_tb.run_passes)
    (auto simp: PATs_pass PATs_list_pass PATs_limit_pass simp del: mem_tables)

lemma UserOwnership_passes:
  assumes "test_env j w"
  shows "passes (UserOwnership memBackend Memory_New) w"
  unfolding UserOwnership_def
  by (rule mem_tb.truncated_passes [OF assms], simp, rule mem_tb.run_passes)
    (auto simp: list_all_iff Ownership_pass Ownership_writes_pass simp del: mem_tables)


definition test_world :: "Store world" where
  "test_world = (demo_world Memory_New)\<lparr>wall := (\<lambda>i. 3 * hour), uuid_NewString := (\<lambda>i. replicate i (CHR ''u'')),
     rand_Read := (\<lambda>i n. Some (replicate i (CHR ''r''))), sha256 := (\<lambda>s. s), rsa_GenerateKey := (\<lambda>n i. Inr ''k'')\<rparr>"

lemma test_world_env: "test_env demo_jose test_world"
proof -
  have "inj (\<lambda>i::nat. replicate i c)" for c :: char by (auto intro!: injI dest: arg_cong [where f = length])
  moreover have "\<exists>i. NewWithRSAKey demo_jose ''k'' = Inr i" by (simp add: NewWithRSAKey_def newIssuer_def demo_jose_def)
  moreover have "inj (\<lambda>i::nat. b64_encode True (PATPrefix @ b64_encode True (replicate i c)))" for c :: char
    by (auto intro!: injI simp: b64_encode_inject dest: arg_cong [where f = length])
  ultimately show ?thesis by (simp add: test_env_def test_world_def HashToken_def)
qed


end
