(* ===== verification/Storetest_Postgres.thy ===== *)
theory Storetest_Postgres
  imports Storetest_Env Postgres_Properties
begin

text \<open>
  The Postgres backend passes the contracts of \<^verbatim>\<open>store/storetest\<close> as well, over a server that runs
  its statements and takes the identifiers and texts of the tests as they are. Its clock is arbitrary. The
  scenarios are run symbolically on the tables, as in \<open>Storetest_Memory\<close>.
\<close>

declare map_of_eq_Some_iff [simp del]
declare Some_eq_map_of_iff [simp del]

section \<open>The environment of a test run\<close>

definition pg_env :: "pg_driver \<Rightarrow> jose \<Rightarrow> PG world \<Rightarrow> bool" where
  "pg_env d j w \<longleftrightarrow> test_env j w \<and> pg_quiet d \<and> (\<forall>i k. wall w k + 1000 < wall w i + minute) \<and>
    (\<forall>n x. ascii_text x \<and> pred_option (\<lambda>k. length x \<le> k) n \<longrightarrow> text_ok d n x) \<and>
    (\<forall>i. uuid_ok d (uuid_NewString w i)) \<and>
    (\<forall>i pre. ascii_text pre \<and> length pre \<le> 5 \<longrightarrow> text_ok d None (pre @ uuid_NewString w i) \<and> text_ok d (Some 255) (pre @ uuid_NewString w i)) \<and>
    (\<forall>i. text_ok d (Some 255) (pat_hash w i))"

lemma pg_env_same: "same_env w w' \<Longrightarrow> pg_env d j w \<Longrightarrow> pg_env d j w'"
  using pat_hash_env [of w w'] test_env_same [of w w' j] by (simp add: pg_env_def same_env_def)

interpretation pg_tb: test_backend "pg_env d j" j PG_empty for d j
proof unfold_locales
  show "test_env j w" if "pg_env d j w" for w using that by (simp add: pg_env_def)
qed (rule pg_env_same)

lemmas pg_env_update [simp] = pg_tb.env_update

lemma pg_time_mod: "pg_time t = t - t mod 1000"
  by (simp add: pg_time_def minus_mod_eq_div_mult)

lemma pg_time_le: "pg_time t \<le> t" "t < pg_time t + 1000"
  using pos_mod_bound [of 1000 t] pos_mod_sign [of 1000 t] by (simp_all add: pg_time_mod)

text \<open>Whole microseconds commute with the truncation.\<close>

lemma pg_time_add: "k mod 1000 = 0 \<Longrightarrow> pg_time (t + k) = pg_time t + k"
  by (simp add: pg_time_mod mod_add_eq [of t 1000 k, symmetric])

lemma pg_time_shift [simp]:
  assumes "(numeral k :: int) mod 1000 = 0"
  shows "pg_time (t + numeral k) = pg_time t + numeral k" "pg_time (numeral k + t) = numeral k + pg_time t"
    "pg_time (t - numeral k) = pg_time t - numeral k"
proof -
  have "(- numeral k :: int) mod 1000 = 0" using assms by (simp add: mod_eq_0_iff_dvd)
  then show "pg_time (t + numeral k) = pg_time t + numeral k" "pg_time (numeral k + t) = numeral k + pg_time t"
    "pg_time (t - numeral k) = pg_time t - numeral k"
    using pg_time_add [OF assms, of t] pg_time_add [of "- numeral k" t] by (simp_all add: add.commute)
qed

lemma pg_time_0 [simp]: "pg_time 0 = 0" by (simp add: pg_time_def)

lemma pg_envD:
  assumes "pg_env d j w"
  shows "test_env j w" "pg_quiet d" "uuid_ok d (uuid_NewString w i)" "pg_time (wall w i) \<noteq> 0"
    "text_ok d None (uuid_NewString w i)" "text_ok d (Some 255) (uuid_NewString w i)"
    "ascii_text pre \<Longrightarrow> length pre \<le> 5 \<Longrightarrow> text_ok d None (pre @ uuid_NewString w i)"
    "ascii_text pre \<Longrightarrow> length pre \<le> 5 \<Longrightarrow> text_ok d (Some 255) (pre @ uuid_NewString w i)"
    "ascii_text x \<Longrightarrow> text_ok d None x" "ascii_text x \<Longrightarrow> length x \<le> k \<Longrightarrow> text_ok d (Some k) x"
    "text_ok d (Some 255) (pat_hash w i)" "pg_time (wall w k) < pg_time (wall w i) + minute"
proof -
  show "test_env j w" "pg_quiet d" "uuid_ok d (uuid_NewString w i)" "text_ok d (Some 255) (pat_hash w i)"
    "ascii_text pre \<Longrightarrow> length pre \<le> 5 \<Longrightarrow> text_ok d None (pre @ uuid_NewString w i)"
    "ascii_text pre \<Longrightarrow> length pre \<le> 5 \<Longrightarrow> text_ok d (Some 255) (pre @ uuid_NewString w i)"
    "ascii_text x \<Longrightarrow> text_ok d None x" "ascii_text x \<Longrightarrow> length x \<le> k \<Longrightarrow> text_ok d (Some k) x"
    using assms by (simp_all add: pg_env_def)
  have nil: "ascii_text []" by (simp add: ascii_text_def)
  show "text_ok d None (uuid_NewString w i)" "text_ok d (Some 255) (uuid_NewString w i)"
    using assms nil unfolding pg_env_def by (metis append_Nil le0 list.size(3))+
  have "2 * hour < wall w i" using assms test_envD(3) unfolding pg_env_def by blast
  then show "pg_time (wall w i) \<noteq> 0" using pg_time_le(2) [of "wall w i"] by linarith
  have "wall w k + 1000 < wall w i + minute" using assms unfolding pg_env_def by blast
  then show "pg_time (wall w k) < pg_time (wall w i) + minute" using pg_time_le(1) [of "wall w k"] pg_time_le(2) [of "wall w i"] by linarith
qed

lemmas pg_test_defs = test_defs pg_tables PG_empty_def pg_quiet_simps userRow_def pg_texts_def scanUser_def
  pg_tick_def pg_rollback_def has_user_row_def isDuplicateKeyError_def insertError_def pqUniqueViolation_def pqForeignKeyViolation_def
  Postgres_Create_def Postgres_GetByID_def Postgres_GetByEmail_def Postgres_Delete_def sql_insert_user_def sql_delete_user_def
  pair_args_def

section \<open>Users, credentials and challenges\<close>

lemma pg_Users_pass:
  assumes "pg_env d j w"
  shows "passes (Users_round_trip (pgUserStore d)) (w\<lparr>store := PG_empty\<rparr>)"
    "passes (Users_without_roles (pgUserStore d)) (w\<lparr>store := PG_empty\<rparr>)"
    "passes (Users_not_found (pgUserStore d)) (w\<lparr>store := PG_empty\<rparr>)"
    "passes (Users_delete (pgUserStore d)) (w\<lparr>store := PG_empty\<rparr>)"
    "passes (Users_duplicate_id (pgUserStore d)) (w\<lparr>store := PG_empty\<rparr>)"
    "passes (Users_mutations (pgUserStore d)) (w\<lparr>store := PG_empty\<rparr>)"
    "passes (Users_duplicate_email (pgUserStore d)) (w\<lparr>store := PG_empty\<rparr>)"
    "passes (Users_no_email (pgUserStore d)) (w\<lparr>store := PG_empty\<rparr>)"
    "passes (Users_empty_email (pgUserStore d)) (w\<lparr>store := PG_empty\<rparr>)"
  unfolding passes_def Users_round_trip_def Users_without_roles_def Users_not_found_def Users_delete_def Users_duplicate_id_def
    Users_mutations_def Users_duplicate_email_def Users_no_email_def Users_empty_email_def
  by (simp_all add: pg_test_defs newUser_def test_envD [OF pg_envD(1) [OF assms]] pg_envD [OF assms])

lemma pg_Credentials_pass:
  assumes "pg_env d j w"
  shows "passes (Credentials_replace (pgUserStore d) (pgCredentialStore d)) (w\<lparr>store := PG_empty\<rparr>)"
    "passes (Credentials_not_found (pgUserStore d) (pgCredentialStore d)) (w\<lparr>store := PG_empty\<rparr>)"
  unfolding passes_def Credentials_replace_def Credentials_not_found_def
  by (simp_all add: pg_test_defs Postgres_SavePasswordHash_def sql_upsert_credential_def Postgres_GetPasswordHash_def
      test_envD [OF pg_envD(1) [OF assms]] pg_envD [OF assms])

lemmas pg_challenge_defs = pg_test_defs challengeRow_def sql_sweep_def sql_insert_challenge_def Postgres_SaveChallenge_def
  Postgres_GetChallenge_def sql_delete_challenge_def Postgres_DeleteChallenge_def

lemma pg_Challenges_pass:
  assumes "pg_env d j w"
  shows "passes (Challenges_wallet (pgChallengeStore d)) (w\<lparr>store := PG_empty\<rparr>)"
    "passes (Challenges_oauth (pgChallengeStore d)) (w\<lparr>store := PG_empty\<rparr>)"
    "passes (Challenges_single_use (pgChallengeStore d)) (w\<lparr>store := PG_empty\<rparr>)"
    "passes (Challenges_expired (pgChallengeStore d)) (w\<lparr>store := PG_empty\<rparr>)"
proof -
  note e = pg_envD [OF assms]
  have live: "\<not> pg_time (wall w (tick w)) + minute < wall w (Suc (Suc (tick w)))"
    using assms pg_time_le(2) [of "wall w (tick w)"] unfolding pg_env_def by (smt (verit))
  have dead: "pg_time (wall w (tick w)) - second < wall w (Suc (Suc (tick w)))"
    using test_envD(5) [OF e(1), of "tick w" "Suc (Suc (tick w))"] pg_time_le(1) [of "wall w (tick w)"] by simp
  show "passes (Challenges_wallet (pgChallengeStore d)) (w\<lparr>store := PG_empty\<rparr>)"
    "passes (Challenges_oauth (pgChallengeStore d)) (w\<lparr>store := PG_empty\<rparr>)"
    using live unfolding passes_def Challenges_wallet_def Challenges_oauth_def Challenges_roundTrip_def
    by (simp_all add: pg_challenge_defs e)
  show "passes (Challenges_single_use (pgChallengeStore d)) (w\<lparr>store := PG_empty\<rparr>)"
    unfolding passes_def Challenges_single_use_def by (simp add: pg_challenge_defs e)
  show "passes (Challenges_expired (pgChallengeStore d)) (w\<lparr>store := PG_empty\<rparr>)"
    using dead unfolding passes_def Challenges_expired_def by (simp add: pg_challenge_defs e)
qed

section \<open>Refresh tokens\<close>

text \<open>The store of \<^verbatim>\<open>TestContract_RefreshRotation\<close>: an empty one with one user.\<close>

definition pg_user_store :: "'st UserStore \<Rightarrow> 'st world \<Rightarrow> (string \<times> 'st world) option" where
  "pg_user_store us w = do {
     let (uid, w) = draw_NewString w;
     (_, w) \<leftarrow> NoError (call_now (Create us (zero_User\<lparr>User_ID := uid, User_Email := ''contract@example.com''\<rparr>)) w);
     Some (uid, w) }"

lemmas pg_token_defs = pg_test_defs pg_user_store_def refresh_save_def refreshRow_def sql_insert_refresh_def pg_insertRefresh_def
  Postgres_SaveRefreshToken_def Postgres_GetRefreshToken_def rotatable_def sql_rotate_def Postgres_RotateRefreshToken_def
  sql_family_def Postgres_GetRefreshFamily_def sql_revoke_def Postgres_RevokeTokens_def inFamily_def endToken_def List.map_filter_def

lemma pg_Refresh_pass:
  assumes "pg_env d j w" "0 < now" "time_ok now"
  shows "passes (Refresh_rotates_once (pgTokenStore d) (pg_user_store (pgUserStore d)) now) (w\<lparr>store := PG_empty\<rparr>)"
    "passes (Refresh_not_found (pgTokenStore d) (pg_user_store (pgUserStore d)) now) (w\<lparr>store := PG_empty\<rparr>)"
    "passes (Refresh_expired (pgTokenStore d) (pg_user_store (pgUserStore d)) now) (w\<lparr>store := PG_empty\<rparr>)"
    "passes (Refresh_revoked_by_logout (pgTokenStore d) (pg_user_store (pgUserStore d)) now) (w\<lparr>store := PG_empty\<rparr>)"
    "passes (Refresh_ended_refuses (pgTokenStore d) (pg_user_store (pgUserStore d)) now) (w\<lparr>store := PG_empty\<rparr>)"
    "passes (Refresh_no_root (pgTokenStore d) (pg_user_store (pgUserStore d)) now) (w\<lparr>store := PG_empty\<rparr>)"
    "passes (Refresh_unknown_family (pgTokenStore d) (pg_user_store (pgUserStore d)) now) (w\<lparr>store := PG_empty\<rparr>)"
  using assms(2,3) unfolding passes_def Refresh_rotates_once_def Refresh_not_found_def Refresh_expired_def Refresh_revoked_by_logout_def
    Refresh_ended_refuses_def Refresh_no_root_def Refresh_unknown_family_def
  by (simp_all add: pg_token_defs pg_envD [OF assms(1)])

lemma pg_Refresh_winner_pass:
  assumes "pg_env d j w" "0 < now" "time_ok now"
  shows "passes (Refresh_one_winner (pgTokenStore d) (pg_user_store (pgUserStore d)) now) (w\<lparr>store := PG_empty\<rparr>)"
  using assms(2,3) unfolding passes_def Refresh_one_winner_def
  by (simp add: pg_token_defs eval_nat_numeral pg_envD [OF assms(1)])

lemma pg_Refresh_family_pass:
  assumes "pg_env d j w" "0 < now" "time_ok now"
  shows "passes (Refresh_family_summary (pgTokenStore d) (pg_user_store (pgUserStore d)) now) (w\<lparr>store := PG_empty\<rparr>)"
  using assms(2,3) unfolding passes_def Refresh_family_summary_def
  by (simp add: pg_token_defs pg_envD [OF assms(1)])

section \<open>Personal access tokens\<close>

lemmas pg_pat_defs = pg_test_defs newPAT_def limited_save_def patRow_def stampPAT_def sql_insert_pat_def patSaveError_def
  Postgres_SavePAT_def Postgres_lockUser_def sql_prune_pats_def sql_insert_pat_limited_def Postgres_SavePATLimited_def
  Postgres_GetPAT_def pg_list_def Postgres_ListPATs_def sql_delete_pat_def Postgres_DeletePAT_def sql_touch_pat_def
  Postgres_TouchPAT_def patExpired_def newestFirst_def

lemma pg_rows_quiet: "pg_quiet d \<Longrightarrow> pg_rows_fail d n = None"
  by (simp add: pg_quiet_def)

lemma pg_PATs_pass:
  assumes "pg_env d j w" "hour < now" "time_ok now"
  shows "passes (PATs_round_trip (pgUserStore d) (pgPATStore d) now) (w\<lparr>store := PG_empty\<rparr>)"
    "passes (PATs_plain (pgUserStore d) (pgPATStore d) now) (w\<lparr>store := PG_empty\<rparr>)"
    "passes (PATs_touch (pgUserStore d) (pgPATStore d) now) (w\<lparr>store := PG_empty\<rparr>)"
    "passes (PATs_duplicate_hash (pgUserStore d) (pgPATStore d) now) (w\<lparr>store := PG_empty\<rparr>)"
    "passes (PATs_not_found (pgUserStore d) (pgPATStore d) now) (w\<lparr>store := PG_empty\<rparr>)"
    "passes (PATs_delete (pgUserStore d) (pgPATStore d) now) (w\<lparr>store := PG_empty\<rparr>)"
    "passes (PATs_limit_rules (pgUserStore d) (pgPATStore d) now) (w\<lparr>store := PG_empty\<rparr>)"
  using assms(2,3) unfolding passes_def PATs_round_trip_def PATs_plain_def PATs_touch_def PATs_duplicate_hash_def PATs_not_found_def
    PATs_delete_def PATs_limit_rules_def
  by (simp_all add: pg_pat_defs test_envD(1) [OF pg_envD(1) [OF assms(1)]] pg_envD [OF assms(1)] pg_rows_quiet)

lemma pg_PATs_list_pass:
  assumes "pg_env d j w" "hour < now" "time_ok now"
  shows "passes (PATs_list (pgUserStore d) (pgPATStore d) now) (w\<lparr>store := PG_empty\<rparr>)"
  using assms(2,3) unfolding passes_def PATs_list_def
  by (simp add: pg_pat_defs test_envD(1) [OF pg_envD(1) [OF assms(1)]] pg_envD [OF assms(1)] pg_rows_quiet)

lemma pg_PATs_limit_pass:
  assumes "pg_env d j w" "hour < now" "time_ok now"
  shows "passes (PATs_limit_unexpired (pgUserStore d) (pgPATStore d) now) (w\<lparr>store := PG_empty\<rparr>)"
    "passes (PATs_limit_strict (\<lambda>l. l) (pgUserStore d) (pgPATStore d) now) (w\<lparr>store := PG_empty\<rparr>)"
    "passes (PATs_limit_strict rev (pgUserStore d) (pgPATStore d) now) (w\<lparr>store := PG_empty\<rparr>)"
  using assms(2,3) unfolding passes_def PATs_limit_unexpired_def PATs_limit_strict_def
  by (simp_all add: pg_pat_defs test_envD(1) [OF pg_envD(1) [OF assms(1)]] pg_envD [OF assms(1)] pg_rows_quiet)

section \<open>Identities and ownership\<close>

lemma supplied_time: "time_ok supplied"
  by (simp add: supplied_def time_Unix_def unixToInternal_def wrap64_def pg_time_def)

lemmas pg_identity_defs = pg_test_defs newOAuthIdentity_def newWalletIdentity_def oauthRow_def sql_insert_oauth_def
  Postgres_SaveOAuthIdentity_def Postgres_GetOAuthIdentity_def Postgres_ListOAuthIdentities_def walletRow_def sql_insert_wallet_def
  Postgres_SaveWalletIdentity_def Postgres_GetWalletIdentity_def Postgres_ListWalletIdentities_def pg_list_def newestFirst_def
  ProviderTypeGoogle_def ProviderTypeGitHub_def ethAddress_def

lemma pg_OAuth_pass:
  assumes "pg_env d j w"
  shows "passes (OAuth_round_trip (pgUserStore d) (pgOAuthIdentityStore d)) (w\<lparr>store := PG_empty\<rparr>)"
    "passes (OAuth_created (pgUserStore d) (pgOAuthIdentityStore d)) (w\<lparr>store := PG_empty\<rparr>)"
    "passes (OAuth_taken (pgUserStore d) (pgOAuthIdentityStore d)) (w\<lparr>store := PG_empty\<rparr>)"
    "passes (OAuth_per_provider (pgUserStore d) (pgOAuthIdentityStore d)) (w\<lparr>store := PG_empty\<rparr>)"
  unfolding passes_def OAuth_round_trip_def OAuth_created_def OAuth_taken_def OAuth_per_provider_def
  by (simp_all add: pg_identity_defs supplied_nonzero supplied_time test_envD(1) [OF pg_envD(1) [OF assms]] pg_envD [OF assms] pg_rows_quiet)

lemma pg_Wallet_pass:
  assumes "pg_env d j w"
  shows "passes (Wallet_round_trip (pgUserStore d) (pgWalletIdentityStore d)) (w\<lparr>store := PG_empty\<rparr>)"
    "passes (Wallet_created (pgUserStore d) (pgWalletIdentityStore d)) (w\<lparr>store := PG_empty\<rparr>)"
    "passes (Wallet_taken (pgUserStore d) (pgWalletIdentityStore d)) (w\<lparr>store := PG_empty\<rparr>)"
    "passes (Wallet_exact (pgUserStore d) (pgWalletIdentityStore d)) (w\<lparr>store := PG_empty\<rparr>)"
    "passes (Wallet_freed (pgUserStore d) (pgWalletIdentityStore d)) (w\<lparr>store := PG_empty\<rparr>)"
  unfolding passes_def Wallet_round_trip_def Wallet_created_def Wallet_taken_def Wallet_exact_def Wallet_freed_def
  by (simp_all add: pg_identity_defs supplied_nonzero supplied_time test_envD(1) [OF pg_envD(1) [OF assms]] pg_envD [OF assms] pg_rows_quiet)

lemma truncated_time: "1000 dvd unit \<Longrightarrow> time_ok (time_Truncate t unit)"
proof -
  assume u: "1000 dvd unit"
  have "unit dvd time_Truncate t unit" unfolding time_Truncate_def by (rule dvd_minus_mod)
  then have "1000 dvd time_Truncate t unit" using u dvd_trans by blast
  then show ?thesis by (simp add: pg_time_mod)
qed

lemma pg_list_from_pass:
  assumes "pg_env d j w" "0 < base" "time_ok base" "m < n" "n < tick w" "uuid_NewString w m \<in> ur_id ` set (pg_users (store w))"
    "uuid_NewString w n \<in> ur_id ` set (pg_users (store w))" "pg_oauth (store w) = []" "pg_wallet (store w) = []"
  shows "passes (OAuth_list_from (pgOAuthIdentityStore d) (uuid_NewString w m) (uuid_NewString w n) base) w"
    "passes (Wallet_list_from (pgWalletIdentityStore d) (uuid_NewString w m) (uuid_NewString w n) base) w"
  using assms(2-9) unfolding passes_def OAuth_list_from_def Wallet_list_from_def
  by (simp_all add: pg_identity_defs test_envD(1) [OF pg_envD(1) [OF assms(1)]] pg_envD [OF assms(1)] pg_rows_quiet)

lemma pg_two_users:
  assumes "pg_env d j w"
  obtains s w1 where "createUser (pgUserStore d) (w\<lparr>store := PG_empty\<rparr>) = Some (uuid_NewString w (tick w), w1)"
    "createUser (pgUserStore d) w1 = Some (uuid_NewString w (tick w + 2), w\<lparr>store := s, tick := tick w + 4\<rparr>)"
    "uuid_NewString w (tick w) \<in> ur_id ` set (pg_users s)" "uuid_NewString w (tick w + 2) \<in> ur_id ` set (pg_users s)"
    "pg_oauth s = []" "pg_wallet s = []"
proof -
  let ?w1 = "snd (the (createUser (pgUserStore d) (w\<lparr>store := PG_empty\<rparr>)))"
  show ?thesis
    by (rule that [of ?w1 "store (snd (the (createUser (pgUserStore d) ?w1)))"])
      (simp_all add: pg_test_defs test_envD(1) [OF pg_envD(1) [OF assms]] pg_envD [OF assms])
qed

lemma pg_list_pass:
  assumes "pg_env d j w"
  shows "passes (OAuth_list (pgUserStore d) (pgOAuthIdentityStore d)) (w\<lparr>store := PG_empty\<rparr>)"
    "passes (Wallet_list (pgUserStore d) (pgWalletIdentityStore d)) (w\<lparr>store := PG_empty\<rparr>)"
proof -
  obtain s w1 where s: "createUser (pgUserStore d) (w\<lparr>store := PG_empty\<rparr>) = Some (uuid_NewString w (tick w), w1)"
    "createUser (pgUserStore d) w1 = Some (uuid_NewString w (tick w + 2), w\<lparr>store := s, tick := tick w + 4\<rparr>)"
    "uuid_NewString w (tick w) \<in> ur_id ` set (pg_users s)" "uuid_NewString w (tick w + 2) \<in> ur_id ` set (pg_users s)"
    "pg_oauth s = []" "pg_wallet s = []" by (rule pg_two_users [OF assms])
  let ?base = "time_Truncate (wall w (tick w + 4) - hour) second" and ?w = "w\<lparr>store := s, tick := Suc (tick w + 4)\<rparr>"
  have "0 < ?base" using test_envD(3) [OF pg_envD(1) [OF assms], of "tick w + 4"] by (intro time_Truncate_pos) simp_all
  moreover have "time_ok ?base" by (rule truncated_time) simp
  ultimately have "passes (OAuth_list_from (pgOAuthIdentityStore d) (uuid_NewString w (tick w)) (uuid_NewString w (tick w + 2)) ?base) ?w"
    "passes (Wallet_list_from (pgWalletIdentityStore d) (uuid_NewString w (tick w)) (uuid_NewString w (tick w + 2)) ?base) ?w"
    using pg_list_from_pass [of d j ?w ?base "tick w" "tick w + 2"] assms s(3-6) by simp_all
  then show "passes (OAuth_list (pgUserStore d) (pgOAuthIdentityStore d)) (w\<lparr>store := PG_empty\<rparr>)"
    "passes (Wallet_list (pgUserStore d) (pgWalletIdentityStore d)) (w\<lparr>store := PG_empty\<rparr>)"
    using s(1,2) by (simp_all add: passes_def OAuth_list_def Wallet_list_def time_Now_def Let_def)
qed

text \<open>The backend over a server, with the pool's \<^verbatim>\<open>Ping\<close>.\<close>

definition pgBackend :: "pg_driver \<Rightarrow> (PG world \<Rightarrow> error option \<times> PG world) \<Rightarrow> PG Backend" where
  "pgBackend d ping = \<lparr>be_userStore = pgUserStore d, be_tokenStore = pgTokenStore d, be_credStore = pgCredentialStore d,
     be_patStore = pgPATStore d, be_oauthIdentityStore = pgOAuthIdentityStore d, be_challengeStore = pgChallengeStore d,
     be_walletIdentityStore = pgWalletIdentityStore d, be_ping = Some ping\<rparr>"

lemma uuid_text:
  assumes "pg_env d j w" "ascii_text pre" "length pre \<le> 5"
  shows "pg_text d None (pre @ uuid_NewString w i) = Some (pre @ uuid_NewString w i)"
    "pg_text d (Some 255) (pre @ uuid_NewString w i) = Some (pre @ uuid_NewString w i)"
  using pg_envD(7,8) [OF assms] by simp_all

lemma owned_texts:
  assumes "pg_env d j w"
  shows "text_ok d None (CHR ''r'' # CHR ''t'' # CHR ''-'' # uuid_NewString w i)" "text_ok d (Some 255) (CHR ''r'' # CHR ''t'' # CHR ''-'' # uuid_NewString w i)"
    "text_ok d None (CHR ''p'' # CHR ''a'' # CHR ''t'' # CHR ''-'' # uuid_NewString w i)" "text_ok d (Some 255) (CHR ''p'' # CHR ''a'' # CHR ''t'' # CHR ''-'' # uuid_NewString w i)"
    "text_ok d None (CHR ''s'' # CHR ''u'' # CHR ''b'' # CHR ''-'' # uuid_NewString w i)" "text_ok d (Some 255) (CHR ''s'' # CHR ''u'' # CHR ''b'' # CHR ''-'' # uuid_NewString w i)"
    "text_ok d None (CHR ''a'' # CHR ''d'' # CHR ''d'' # CHR ''r'' # CHR ''-'' # uuid_NewString w i)" "text_ok d (Some 255) (CHR ''a'' # CHR ''d'' # CHR ''d'' # CHR ''r'' # CHR ''-'' # uuid_NewString w i)"
  using uuid_text [OF assms, of "''rt-''" i] uuid_text [OF assms, of "''pat-''" i] uuid_text [OF assms, of "''sub-''" i]
    uuid_text [OF assms, of "''addr-''" i] by simp_all

lemmas pg_owner_defs = pg_identity_defs seed_def pgBackend_def Postgres_SavePasswordHash_def sql_upsert_credential_def
  Postgres_GetPasswordHash_def refreshRow_def sql_insert_refresh_def pg_insertRefresh_def Postgres_SaveRefreshToken_def
  Postgres_GetRefreshToken_def patRow_def stampPAT_def sql_insert_pat_def patSaveError_def Postgres_SavePAT_def Postgres_GetPAT_def
  Postgres_ListPATs_def forget_def

lemma pg_Ownership_pass:
  assumes "pg_env d j w"
  shows "passes (Ownership_freed (pgBackend d ping) now) (w\<lparr>store := PG_empty\<rparr>)"
    "passes (Ownership_delete (pgBackend d ping) now) (w\<lparr>store := PG_empty\<rparr>)"
  unfolding passes_def Ownership_freed_def Ownership_delete_def
  by (simp_all add: pg_owner_defs test_envD(1) [OF pg_envD(1) [OF assms]] pg_envD [OF assms] pg_rows_quiet owned_texts [OF assms])

lemma pg_Ownership_writes_pass:
  assumes "pg_env d j w" "write \<in> set (ownership_writes now)"
  shows "passes (Ownership_missing write (pgBackend d ping)) (w\<lparr>store := PG_empty\<rparr>)"
    "passes (Ownership_deleted write (pgBackend d ping)) (w\<lparr>store := PG_empty\<rparr>)"
  using assms(2) unfolding passes_def Ownership_missing_def Ownership_deleted_def ownership_writes_def
  by (auto simp: pg_owner_defs test_envD(1) [OF pg_envD(1) [OF assms(1)]] pg_envD [OF assms(1)])

section \<open>The cap through the service\<close>

text \<open>User \<open>u\<close> has \<open>c\<close> tokens that never expire; every stored token has the id and the hash of an earlier draw.\<close>

definition pg_slots :: "pg_driver \<Rightarrow> PG world \<Rightarrow> string \<Rightarrow> nat \<Rightarrow> bool" where
  "pg_slots d w u c \<longleftrightarrow> has_user_row (store w) u \<and> uuid_ok d u \<and> length (filter (\<lambda>p. PAT_UserID p = u) (pg_pats (store w))) = c \<and>
    (\<forall>p\<in>set (pg_pats (store w)). PAT_ExpiresAt p = None \<and> (\<exists>i<tick w. PAT_ID p = uuid_NewString w i) \<and> (\<exists>i<tick w. PAT_Hash p = pat_hash w i))"

definition pg_fresh_row :: "PG world \<Rightarrow> string \<Rightarrow> string \<Rightarrow> PersonalAccessToken" where
  "pg_fresh_row w u name = (fresh_pat w u name)\<lparr>PAT_CreatedAt := pg_time (wall w (tick w))\<rparr>"

lemma pg_slots_later:
  assumes "pg_slots d w u c" "pg_pats s = pg_pats (store w)" "pg_users s = pg_users (store w)"
  shows "pg_slots d (w\<lparr>tick := tick w + n, store := s\<rparr>) u c"
  using assms unfolding pg_slots_def has_user_row_def by simp (meson trans_less_add1)

lemma pg_slots_add:
  assumes "pg_slots d w v c" "pg_pats s = pg_pats (store w) @ [pg_fresh_row w u name]" "pg_users s = pg_users (store w)"
  shows "pg_slots d (w\<lparr>tick := tick w + 4, store := s\<rparr>) v (if v = u then Suc c else c)"
proof -
  have "\<exists>i<tick w + 4. uuid_NewString w (tick w + 2) = uuid_NewString w i" "\<exists>i<tick w + 4. pat_hash w (tick w + 1) = pat_hash w i"
    by (rule exI [of _ "tick w + 2"], simp, rule exI [of _ "tick w + 1"], simp)
  moreover have "(\<exists>i<tick w + 4. PAT_ID p = uuid_NewString w i) \<and> (\<exists>i<tick w + 4. PAT_Hash p = pat_hash w i) \<and> PAT_ExpiresAt p = None"
    if "p \<in> set (pg_pats (store w))" for p using assms(1) that unfolding pg_slots_def by (meson trans_less_add1)
  ultimately show ?thesis using assms unfolding pg_slots_def has_user_row_def by (auto simp: pg_fresh_row_def fresh_pat_def)
qed

lemma pg_fresh:
  assumes "pg_env d j w" "pg_slots d w u c"
  shows "uuid_NewString w (tick w + 2) \<notin> PAT_ID ` set (pg_pats (store w))" "pat_hash w (tick w + 1) \<notin> PAT_Hash ` set (pg_pats (store w))"
proof -
  have "inj (uuid_NewString w)" "inj (pat_hash w)"
    using pg_envD(1) [OF assms(1)] unfolding test_env_def pat_hash_def by blast+
  then show "uuid_NewString w (tick w + 2) \<notin> PAT_ID ` set (pg_pats (store w))" "pat_hash w (tick w + 1) \<notin> PAT_Hash ` set (pg_pats (store w))"
    using assms(2) unfolding pg_slots_def by (auto simp: inj_eq)
qed

lemma pg_fresh_patRow:
  assumes "pg_env d j w" "uuid_ok d u" "plain_name name"
  shows "patRow d (stampPAT now (fresh_pat w u name)) = Some (pg_fresh_row w u name)" "stampPAT now (fresh_pat w u name) = fresh_pat w u name"
  using assms(2,3) pg_envD [OF assms(1)] test_envD(2) [OF pg_envD(1) [OF assms(1)]]
  by (simp_all add: patRow_def stampPAT_def fresh_pat_def pg_fresh_row_def plain_name_def pg_texts_def time_IsZero_def)

lemma pg_no_prune:
  assumes "pg_slots d w u c"
  shows "filter (\<lambda>p. PAT_UserID p = v \<longrightarrow> \<not> patExpired t p) (pg_pats (store w)) = pg_pats (store w)"
  using assms by (auto simp: pg_slots_def patExpired_def intro!: filter_True)

lemmas pg_cap_defs = cap_save_def Postgres_SavePATLimited_def Postgres_SavePAT_def Postgres_lockUser_def sql_prune_pats_def
  sql_insert_pat_limited_def sql_insert_pat_def pg_quiet_simps pg_tables has_user_row_def Let_def pg_tick_def pg_rollback_def

lemma pg_room:
  assumes "pg_env d j w" "pg_slots d w u c" "plain_name name" "limit \<le> 0 \<or> int c < limit"
  shows "\<exists>s. cap_save (pgPATStore d) limit u name w = (Inr (fresh_pat w u name), s) \<and>
    (\<forall>v n. pg_slots d w v n \<longrightarrow> pg_slots d (w\<lparr>tick := tick w + 4, store := s\<rparr>) v (if v = u then Suc n else n))"
proof -
  have row: "PAT_UserID (fresh_pat w u name) = u" "PAT_UserID (pg_fresh_row w u name) = u"
    "PAT_ID (pg_fresh_row w u name) = uuid_NewString w (tick w + 2)" "PAT_Hash (pg_fresh_row w u name) = pat_hash w (tick w + 1)"
    by (simp_all add: pg_fresh_row_def fresh_pat_def)
  have slot: "u \<in> ur_id ` set (pg_users (store w))" "uuid_ok d u" "length (filter (\<lambda>p. PAT_UserID p = u) (pg_pats (store w))) = c"
    using assms(2) by (auto simp: pg_slots_def has_user_row_def)
  have "\<exists>s. cap_save (pgPATStore d) limit u name w = (Inr (fresh_pat w u name), s) \<and>
    pg_pats s = pg_pats (store w) @ [pg_fresh_row w u name] \<and> pg_users s = pg_users (store w)"
    using assms(4) pg_envD(2) [OF assms(1)] pg_fresh [OF assms(1,2)] pg_no_prune [OF assms(2)] pg_fresh_patRow [OF assms(1) slot(2) assms(3)] slot
    by (cases "0 < limit") (simp_all add: pg_cap_defs row del: filter_filter)
  then show ?thesis using pg_slots_add by blast
qed

lemma pg_full:
  assumes "pg_env d j w" "pg_slots d w u c" "plain_name name" "0 < limit" "limit \<le> int c"
  shows "\<exists>e s. cap_save (pgPATStore d) limit u name w = (Inl e, s) \<and> errors_Is e Store_ErrPATLimitReached \<and>
    (\<forall>v n. pg_slots d w v n \<longrightarrow> pg_slots d (w\<lparr>tick := tick w + 4, store := s\<rparr>) v n)"
proof -
  have row: "PAT_UserID (fresh_pat w u name) = u" "PAT_UserID (pg_fresh_row w u name) = u" by (simp_all add: pg_fresh_row_def fresh_pat_def)
  have slot: "u \<in> ur_id ` set (pg_users (store w))" "uuid_ok d u" "length (filter (\<lambda>p. PAT_UserID p = u) (pg_pats (store w))) = c"
    using assms(2) by (auto simp: pg_slots_def has_user_row_def)
  have "\<exists>s. cap_save (pgPATStore d) limit u name w = (Inl (Sentinel Store_ErrPATLimitReached), s) \<and>
    pg_pats s = pg_pats (store w) \<and> pg_users s = pg_users (store w)"
    using assms(4,5) pg_envD(2) [OF assms(1)] pg_no_prune [OF assms(2)] pg_fresh_patRow [OF assms(1) slot(2) assms(3)] slot
    by (simp add: pg_cap_defs row del: filter_filter)
  then obtain s where s: "cap_save (pgPATStore d) limit u name w = (Inl (Sentinel Store_ErrPATLimitReached), s)"
    "pg_pats s = pg_pats (store w)" "pg_users s = pg_users (store w)" by blast
  then show ?thesis using pg_slots_later [OF _ s(2,3), of _ _ _ 4] by auto
qed

lemma pg_user:
  assumes "pg_env d j w"
  obtains w1 w2 where
    "createUser (pgUserStore d) (w\<lparr>store := PG_empty\<rparr>) = Some (uuid_NewString w (tick w), w1)" "same_env w w1" "tick w1 = tick w + 2"
    "pg_slots d w1 (uuid_NewString w (tick w)) 0"
    "createUser (pgUserStore d) w1 = Some (uuid_NewString w (tick w + 2), w2)" "same_env w w2"
    "pg_slots d w2 (uuid_NewString w (tick w)) 0" "pg_slots d w2 (uuid_NewString w (tick w + 2)) 0"
proof -
  let ?w1 = "snd (the (createUser (pgUserStore d) (w\<lparr>store := PG_empty\<rparr>)))"
  show ?thesis
    by (rule that [of ?w1 "snd (the (createUser (pgUserStore d) ?w1))"])
      (simp_all add: pg_test_defs pg_slots_def test_envD(1) [OF pg_envD(1) [OF assms]] pg_envD [OF assms])
qed

interpretation pg_cap: capped_backend "pg_env d j" j PG_empty "pgBackend d ping" "pg_slots d" for d j ping
proof unfold_locales
  fix w name u c limit
  assume e: "pg_env d j w" and sl: "pg_slots d w u c"
  show "\<exists>l. ListPATs (be_patStore (pgBackend d ping)) u (store w) = Inr l \<and> length l = c"
    using sl pg_envD(2) [OF e] by (simp add: pgBackend_def pg_tables Postgres_ListPATs_def pg_list_def pg_quiet_simps pg_rows_quiet newestFirst_def pg_slots_def)
  assume n: "plain_name name"
  show "\<exists>s. cap_save (be_patStore (pgBackend d ping)) limit u name w = (Inr (fresh_pat w u name), s) \<and>
      (\<forall>v n. pg_slots d w v n \<longrightarrow> pg_slots d (w\<lparr>tick := tick w + 4, store := s\<rparr>) v (if v = u then Suc n else n))"
    if "limit \<le> 0 \<or> int c < limit" using pg_room [OF e sl n that] by (simp add: pgBackend_def)
  show "\<exists>e s. cap_save (be_patStore (pgBackend d ping)) limit u name w = (Inl e, s) \<and> errors_Is e Store_ErrPATLimitReached \<and>
      (\<forall>v n. pg_slots d w v n \<longrightarrow> pg_slots d (w\<lparr>tick := tick w + 4, store := s\<rparr>) v n)" if "0 < limit" "limit \<le> int c"
    using pg_full [OF e sl n that] by (simp add: pgBackend_def)
next
  fix w u w1
  assume e: "pg_env d j w"
  obtain x y where x: "createUser (pgUserStore d) (w\<lparr>store := PG_empty\<rparr>) = Some (uuid_NewString w (tick w), x)" "same_env w x" "tick x = tick w + 2"
    "pg_slots d x (uuid_NewString w (tick w)) 0" "createUser (pgUserStore d) x = Some (uuid_NewString w (tick w + 2), y)" "same_env w y"
    "pg_slots d y (uuid_NewString w (tick w)) 0" "pg_slots d y (uuid_NewString w (tick w + 2)) 0" by (rule pg_user [OF e])
  show "\<exists>w'. createUser (be_userStore (pgBackend d ping)) (w\<lparr>store := PG_empty\<rparr>) = Some (uuid_NewString w (tick w), w') \<and>
      same_env w w' \<and> tick w' = tick w + 2 \<and> pg_slots d w' (uuid_NewString w (tick w)) 0"
    using x by (simp add: pgBackend_def)
  show "\<exists>v w2. createUser (be_userStore (pgBackend d ping)) w1 = Some (v, w2) \<and> u \<noteq> v \<and> same_env w w2 \<and> pg_slots d w2 u 0 \<and> pg_slots d w2 v 0"
    if "createUser (be_userStore (pgBackend d ping)) (w\<lparr>store := PG_empty\<rparr>) = Some (u, w1)"
    using x that test_envD(1) [OF pg_envD(1) [OF e], of "tick w" "tick w + 2"] by (auto simp: pgBackend_def)
qed

lemma pg_saveOld_ok:
  assumes "pg_env d j w" "pg_pats (store w) = []" "u \<in> ur_id ` set (pg_users (store w))" "uuid_ok d u"
  shows "\<exists>w'. saveOld (pgPATStore d) u past 5 w = Some w' \<and> same_env w w' \<and> pg_users (store w') = pg_users (store w) \<and>
    (\<forall>p\<in>set (pg_pats (store w')). PAT_UserID p = u \<and> PAT_ExpiresAt p = Some (pg_time past))"
proof -
  have five: "(5::nat) = Suc (Suc (Suc (Suc (Suc 0))))" by simp
  show ?thesis using assms(2-4) unfolding five by (simp add: pg_pat_defs test_envD(1) [OF pg_envD(1) [OF assms(1)]] pg_envD [OF assms(1)])
qed

text \<open>When all tokens of a user have expired there is room for a new one.\<close>

lemma pg_room_expired:
  assumes "pg_env d j w" "u \<in> ur_id ` set (pg_users (store w))" "uuid_ok d u" "plain_name name" "0 < limit"
    "\<forall>p\<in>set (pg_pats (store w)). PAT_UserID p = u \<and> patExpired (pg_time (wall w (tick w))) p"
  shows "\<exists>s. cap_save (pgPATStore d) limit u name w = (Inr (fresh_pat w u name), s)"
proof -
  have row: "PAT_UserID (fresh_pat w u name) = u" "PAT_UserID (pg_fresh_row w u name) = u" by (simp_all add: pg_fresh_row_def fresh_pat_def)
  have "filter (\<lambda>p. PAT_UserID p = u \<longrightarrow> \<not> patExpired (pg_time (wall w (tick w))) p) (pg_pats (store w)) = []"
    using assms(6) by (auto simp: filter_empty_conv)
  then show ?thesis using assms(2,3,5) pg_envD(2) [OF assms(1)] pg_fresh_patRow [OF assms(1,3,4)]
    by (simp add: pg_cap_defs row del: filter_filter)
qed

lemma pg_Limit_expired_pass:
  assumes "pg_env d j w"
  shows "passes (Limit_expired j (pgBackend d ping)) (w\<lparr>store := PG_empty\<rparr>)"
proof (rule pg_cap.limit_setup [OF assms, of 5 ping])
  fix svc w1
  let ?u = "uuid_NewString w (Suc (tick w))" and ?be = "pgBackend d ping"
  assume 1: "limit_service j ?be 5 (w\<lparr>store := PG_empty\<rparr>) = Some (svc, w\<lparr>store := PG_empty, tick := Suc (tick w)\<rparr>)"
    "caps svc (be_patStore ?be) 5" "createUser (be_userStore ?be) (w\<lparr>store := PG_empty, tick := Suc (tick w)\<rparr>) = Some (?u, w1)"
    "same_env w w1" "pg_env d j w1"
  let ?w2 = "w1\<lparr>tick := Suc (tick w1)\<rparr>" and ?past = "wall w1 (tick w1) - hour"
  have w2: "pg_env d j ?w2" "pg_pats (store ?w2) = []" "?u \<in> ur_id ` set (pg_users (store ?w2))" "uuid_ok d ?u"
    using 1(3,5) pg_envD [OF assms] by (auto simp: pgBackend_def pg_test_defs)
  obtain w3 where 3: "saveOld (pgPATStore d) ?u ?past 5 ?w2 = Some w3" "same_env w1 w3" "?u \<in> ur_id ` set (pg_users (store w3))"
    "\<forall>p\<in>set (pg_pats (store w3)). PAT_UserID p = ?u \<and> PAT_ExpiresAt p = Some (pg_time ?past)"
    using pg_saveOld_ok [OF w2, of ?past] w2(3) by auto
  have e3: "pg_env d j w3" using pg_env_same [OF 3(2) 1(5)] .
  have "pg_time ?past < pg_time (wall w3 (tick w3))"
    using pg_envD(12) [OF 1(5), of "tick w1" "tick w3"] 3(2) by (simp add: same_env_def)
  then have "\<forall>p\<in>set (pg_pats (store w3)). PAT_UserID p = ?u \<and> patExpired (pg_time (wall w3 (tick w3))) p"
    using 3(4) by (auto simp: patExpired_def)
  from pg_room_expired [OF e3 3(3) w2(4) plain_names(7) _ this, of 5] obtain r w4 where
    "Service_CreatePAT svc ?u ''fresh'' [] None w3 = (Inr r, w4)" "same_env w3 w4"
    using Create_call [OF pg_envD(1) [OF e3] 1(2) plain_names(7), of ?u] by (auto simp: pgBackend_def)
  then show ?thesis using 1 3(1) same_env_trans [OF 1(4) same_env_trans [OF 3(2)]]
    by (auto simp: passes_def Limit_expired_def NoError_def pgBackend_def time_Now_def Let_def)
qed simp

section \<open>The contracts\<close>


definition pg_test_world :: "PG world" where
  "pg_test_world = (demo_world PG_empty)\<lparr>wall := (\<lambda>i. 3 * hour), uuid_NewString := (\<lambda>i. replicate i (CHR ''u'')),
     rand_Read := (\<lambda>i n. Some (replicate i (CHR ''r''))), sha256 := (\<lambda>s. s), rsa_GenerateKey := (\<lambda>n i. Inr ''k'')\<rparr>"

definition lax_pg :: pg_driver where
  "lax_pg = demo_pg\<lparr>pg_text := (\<lambda>n x. Some x)\<rparr>"


end
