(* ===== verification/Spec2Isabelle.thy ===== *)
theory Spec2Isabelle
  imports Memory_Properties Client_IP EVM Handler_Properties Audit_Properties Config_Properties Lifecycle
    Postgres_Locks Postgres_Challenges Storetest_Memory Storetest_Postgres
begin

text \<open>
  A verification library for psina, an authentication service written in Go.

  \<^bold>\<open>The program.\<close> psina serves sign-up, sign-in and token management over Connect RPCs.
  \<^verbatim>\<open>auth.Handler\<close> turns requests into calls of \<^verbatim>\<open>auth.Service\<close>, writes token cookies
  and audit records. The service works against ports: a token issuer, sign-in providers (passwords,
  OAuth, wallets) and stores for users, credentials, refresh tokens, personal access tokens, linked
  identities and one-time challenges. \<^verbatim>\<open>cmd/psina\<close> reads the configuration, assembles all of
  it over Postgres or over the in-memory store and serves it beside a few plain HTTP endpoints.

  \<^bold>\<open>State and effects.\<close> Every operation takes and returns a \<open>world\<close> (\<open>Ports\<close>): the contents
  of the store, a position \<open>tick\<close> that every reading of the clock or of randomness advances, and the
  clock, entropy and hash functions as functions of that position. A theorem about all worlds is a theorem
  about all clocks and all random draws. A Go error is a value of \<open>error\<close> (\<open>Entity\<close>), with the
  chain of wrapped errors that \<^verbatim>\<open>errors.Is\<close> walks; a panic is the value \<open>Panic\<close>. A Go
  interface is a record of functions; a Go map an association list with unique keys; strings are byte
  strings; addresses are machine words. A method of the in-memory store holds its mutex throughout, so it is
  one atomic step and interleavings of requests are sequences of such steps.

  \<^bold>\<open>Theories and sources.\<close>
    \<^item> \<open>Psina_Prelude\<close>: collections of facts, maps, options. \<open>Go_Strings\<close>: the parts of
      \<^verbatim>\<open>strings\<close>, UTF-8, base64 and hex the code uses.
    \<^item> \<open>Entity\<close>: \<^verbatim>\<open>entity/\<close>, \<^verbatim>\<open>store/errors.go\<close>. \<open>Ports\<close>:
      \<^verbatim>\<open>auth/ports.go\<close>, \<^verbatim>\<open>provider/oauth/oauth.go\<close>, the interface of
      \<^verbatim>\<open>provider/wallet/provider.go\<close>, and the locale \<open>token_store\<close>, the contract of a token store.
    \<^item> \<open>Memory_Store\<close>: \<^verbatim>\<open>store/memory/memory.go\<close>. \<open>Memory_Invariant\<close> is its
      invariant, \<open>Memory_Session\<close> interprets the token-store contract, \<open>Memory_Properties\<close> has the
      properties over all reachable stores.
    \<^item> \<open>Postgres\<close>: \<^verbatim>\<open>store/postgres/postgres.go\<close> over the tables of \<^verbatim>\<open>migrations/\<close>; a
      statement is a function on the tables, the server and its driver are a parameter that may fail any
      statement or commit. \<open>Postgres_Refinement\<close> reads the tables as the in-memory store and simulates it
      method by method, \<open>Postgres_Properties\<close> lifts that to runs. \<open>Postgres_Failures\<close> reduces a
      property of the tables to its writing statements (the locale \<open>pg_kept\<close>) and so proves what holds
      with failures at any point. \<open>Postgres_Session\<close> interprets the token-store contract for it and
      assembles the service with a database. \<open>Postgres_Locks\<close> runs the transactions of a session's save
      and revoke statement by statement under their row locks. \<open>Postgres_Challenges\<close> interprets the
      contract of one-time challenges for it, whatever fails and whichever replica answers.
    \<^item> \<open>Storetest\<close>: the contracts of \<^verbatim>\<open>store/storetest\<close>, every subtest as a definition that
      runs on any backend. \<open>Storetest_Env\<close> has the environment of a run and the interfaces
      \<open>test_backend\<close> and \<open>capped_backend\<close>; \<open>Storetest_Memory\<close> and \<open>Storetest_Postgres\<close>
      interpret them and run the suite symbolically on the two backends.
    \<^item> \<open>Token_Issuer\<close>: \<^verbatim>\<open>token/issuer.go\<close>. \<open>Validation\<close>:
      \<^verbatim>\<open>auth/validation.go\<close>. \<open>Client_IP\<close>: \<^verbatim>\<open>auth/clientip.go\<close> and the
      trusted-proxy list.
    \<^item> \<open>Service\<close>: \<^verbatim>\<open>auth/service.go\<close>. \<open>Service_Session\<close> proves session facts for
      any store with the contract; \<open>Dev_Service\<close> assembles the service over the in-memory store and
      \<open>Dev_Session\<close> states rotation, reuse detection and logout for it; \<open>PAT_Properties\<close> has
      the personal access tokens.
    \<^item> \<open>Local_Provider\<close>: \<^verbatim>\<open>provider/local/local.go\<close>. \<open>Account_Port\<close> is the contract
      of accounts, \<open>Account_Properties\<close> states registration and password sign-in.
    \<^item> \<open>OAuth_Service\<close>: \<^verbatim>\<open>auth/oauth.go\<close>. \<open>Wallet_Service\<close>:
      \<^verbatim>\<open>auth/wallet.go\<close> and the dispatcher. \<open>Challenge_Port\<close> is the contract of one-time
      challenges that both flows rely on, interpreted in \<open>Memory_Challenges\<close>; \<open>OAuth_Properties\<close> and
      \<open>Wallet_Properties\<close> rest on it.
    \<^item> \<open>OAuth_Providers\<close>: \<^verbatim>\<open>provider/oauth/google\<close>, \<^verbatim>\<open>provider/oauth/github\<close>.
      \<open>EVM\<close>: \<^verbatim>\<open>provider/wallet/evm/evm.go\<close>.
    \<^item> \<open>Audit_Log\<close>: \<^verbatim>\<open>auth/audit.go\<close>. \<open>Cookies\<close> and \<open>Handler\<close>:
      \<^verbatim>\<open>auth/handler.go\<close>. \<open>Cookie_Properties\<close>, \<open>Audit_Properties\<close> and
      \<open>Handler_Properties\<close> state what a client and an auditor can rely on.
    \<^item> \<open>Config\<close>: \<^verbatim>\<open>cmd/psina/config.go\<close>. \<open>Server\<close>:
      \<^verbatim>\<open>cmd/psina/main.go\<close>. \<open>Config_Properties\<close> and \<open>Server_Properties\<close> state what
      reading a file, starting and the HTTP endpoints promise. \<open>Lifecycle\<close> runs \<^verbatim>\<open>main\<close>,
      \<^verbatim>\<open>run\<close> and \<^verbatim>\<open>serve\<close> as a state machine beside the HTTP server, the request handlers,
      the signals and the clock; the locale \<open>ranked_machine\<close> carries its progress argument.

  \<^bold>\<open>What is shown.\<close> Sessions: after a logout no refresh of the family succeeds, whatever requests
  interleave; a token is rotated at most once; a replay outside the leeway ends the session; every rejection
  has the error its cause has. The store: the invariant holds in every reachable state, emails are unique,
  the cap on tokens holds, deleting a user deletes all it owns. Postgres: without failures it is a
  refinement of the in-memory store, call by call and read by read; with failures anywhere the constraints
  hold, a failed call leaves no trace, rotation is exclusive and a logout is final; interleaved transactions
  on a session are serialisable and no successor survives a revoke; a challenge is spent once, on either
  backend. The conformance suite: both stores pass every test of it, whatever ids, entropy and times
  are drawn, as long as ids are unique and the clock does not go back. Accounts: registration is all or nothing, a
  login proves the password, and a registered user can log in. OAuth and wallets: a state or challenge is
  used once, only by the browser or signer it was made for, and is not spent by a failed attempt of another;
  accounts are linked only by verified emails and never over a password. Tokens: lifetimes, personal access
  tokens that verify until they expire or are revoked. Edge: the client address cannot be spoofed past the
  trusted proxies, cookies written are the cookies read back, every sign-in and every new account is audited,
  clients never see internal errors. Deployment: a configuration file is read only if it is unambiguous, and
  a validated configuration starts into exactly the service it describes; the database pool is not closed
  under a request before the drain has had its time, and a signal ends the process.

  \<^bold>\<open>Libraries.\<close> Code outside the repository is a parameter: go-jose (\<open>jose\<close>), the address
  syntax of \<^verbatim>\<open>net/netip\<close> (\<open>netip\<close>), Keccak and key recovery (\<open>evm_lib\<close>),
  \<^verbatim>\<open>golang.org/x/oauth2\<close> and the network (\<open>oauth2_lib\<close>), pflag, koanf and YAML
  (\<open>config_lib\<close>), PEM and X.509 (\<open>server_lib\<close>), the Postgres server, pgx and its pool
  (\<open>pg_driver\<close>, \<open>pgxpool_lib\<close>), Argon2, SHA-256 and random sources (\<open>world\<close>).
  What a theorem needs of one is a named hypothesis with a witness that satisfies it.

  \<^bold>\<open>Termination.\<close> No definition uses fuel: every loop of the source is a structural recursion or
  comes with a measure (the dots of a key in \<open>dotLoop\<close>, the runes of a byte string in \<open>Go_Strings\<close>).

  \<^bold>\<open>Not modelled.\<close> The generated protobuf and Connect code under \<^verbatim>\<open>api/\<close>,
  \<^verbatim>\<open>testutil/testdb.go\<close> (it starts a database container for the tests and is input and output
  throughout), the interleavings of a test's goroutines inside a method, diagnostic log lines, the cancellation of request
  contexts, the routes and the read, write and idle timeouts of the HTTP server. Of the Postgres server: the order of
  rows with equal times, deadlocks, and isolation beyond the row locks of \<open>Postgres_Locks\<close>, elsewhere a
  method is one step.
\<close>

end
